(* ===== verification/Prelude.thy ===== *)
theory Prelude
  imports Main "HOL-Library.Word" "HOL-Library.Sublist"
begin

text \<open>
  Shared vocabulary of the development. A Rust \<open>&str\<close>, \<open>String\<close> or \<open>&[u8]\<close> is a
  \<^typ>\<open>string\<close> holding its bytes: each \<^typ>\<open>char\<close> is one byte, and a \<open>str\<close> is a
  byte list that \<open>utf8_valid\<close> accepts. Every separator the program looks for is ASCII,
  and an ASCII byte never occurs inside a longer UTF-8 sequence, so a search on bytes finds
  what Rust's search on \<open>char\<close>s finds. The theory models the functions of Rust's
  standard library the program calls on text, and proves the facts about them that the
  component theories share.
\<close>

named_theorems text_simps \<open>characteristic facts of the text operations\<close>
named_theorems text_length \<open>length bounds of the text operations\<close>

type_synonym bytes = "8 word list"

section \<open>Prefixes, suffixes and splitting\<close>

text \<open>\<open>str::strip_prefix\<close> and \<open>str::strip_suffix\<close>.\<close>

fun strip_prefix :: "'a list \<Rightarrow> 'a list \<Rightarrow> 'a list option" where
  "strip_prefix [] s = Some s"
| "strip_prefix (p # ps) [] = None"
| "strip_prefix (p # ps) (x # xs) = (if p = x then strip_prefix ps xs else None)"

definition strip_suffix :: "'a list \<Rightarrow> 'a list \<Rightarrow> 'a list option" where
  "strip_suffix p s = map_option rev (strip_prefix (rev p) (rev s))"

definition starts_with :: "'a list \<Rightarrow> 'a list \<Rightarrow> bool" where
  "starts_with p s \<longleftrightarrow> strip_prefix p s \<noteq> None"

definition ends_with :: "'a list \<Rightarrow> 'a list \<Rightarrow> bool" where
  "ends_with p s \<longleftrightarrow> strip_suffix p s \<noteq> None"

text \<open>\<open>str::split\<close> on one separator: always at least one piece.\<close>

fun split_on :: "'a \<Rightarrow> 'a list \<Rightarrow> 'a list list" where
  "split_on c [] = [[]]"
| "split_on c (x # xs) =
     (if x = c then [] # split_on c xs
      else (case split_on c xs of [] \<Rightarrow> [[x]] | l # ls \<Rightarrow> (x # l) # ls))"

text \<open>\<open>str::split\<close> on a set of separators (\<open>split(['.', '-', '+'])\<close>).\<close>

fun split_any :: "('a \<Rightarrow> bool) \<Rightarrow> 'a list \<Rightarrow> 'a list list" where
  "split_any P [] = [[]]"
| "split_any P (x # xs) =
     (if P x then [] # split_any P xs
      else (case split_any P xs of [] \<Rightarrow> [[x]] | l # ls \<Rightarrow> (x # l) # ls))"

text \<open>\<open>[S]::join\<close>.\<close>

fun join :: "'a list \<Rightarrow> 'a list list \<Rightarrow> 'a list" where
  "join sep [] = []"
| "join sep [x] = x"
| "join sep (x # y # ys) = x @ sep @ join sep (y # ys)"

text \<open>\<open>str::split_once\<close> on a string pattern: the first occurrence.\<close>

fun split_once :: "'a list \<Rightarrow> 'a list \<Rightarrow> ('a list \<times> 'a list) option" where
  "split_once p [] = (if p = [] then Some ([], []) else None)"
| "split_once p (x # xs) =
     (case strip_prefix p (x # xs) of
        Some r \<Rightarrow> Some ([], r)
      | None \<Rightarrow> map_option (\<lambda>(a, b). (x # a, b)) (split_once p xs))"

definition rsplit_once :: "'a \<Rightarrow> 'a list \<Rightarrow> ('a list \<times> 'a list) option" where
  "rsplit_once c s =
     (case split_once [c] (rev s) of
        None \<Rightarrow> None
      | Some (b, a) \<Rightarrow> Some (rev a, rev b))"

definition contains_sub :: "'a list \<Rightarrow> 'a list \<Rightarrow> bool" where
  "contains_sub p s \<longleftrightarrow> split_once p s \<noteq> None"

text \<open>\<open>iter().position\<close>, \<open>str::find\<close> and \<open>str::rfind\<close> on one character.\<close>

fun position :: "('a \<Rightarrow> bool) \<Rightarrow> 'a list \<Rightarrow> nat option" where
  "position P [] = None"
| "position P (x # xs) = (if P x then Some 0 else map_option Suc (position P xs))"

definition rposition :: "('a \<Rightarrow> bool) \<Rightarrow> 'a list \<Rightarrow> nat option" where
  "rposition P s = map_option (\<lambda>i. length s - Suc i) (position P (rev s))"

text \<open>\<open>Iterator::find_map\<close>.\<close>

fun find_map :: "('a \<Rightarrow> 'b option) \<Rightarrow> 'a list \<Rightarrow> 'b option" where
  "find_map f [] = None"
| "find_map f (x # xs) = (case f x of Some y \<Rightarrow> Some y | None \<Rightarrow> find_map f xs)"

text \<open>\<open>slice::chunks\<close>: pieces of exactly \<open>n\<close>, the last one shorter.\<close>

function chunks :: "nat \<Rightarrow> 'a list \<Rightarrow> 'a list list" where
  "chunks n s = (if s = [] \<or> n = 0 then [] else take n s # chunks n (drop n s))"
  by pat_completeness auto
termination
  by (relation "measure (\<lambda>(n, s). length s)") auto

declare chunks.simps [simp del]

section \<open>Characters\<close>

definition byte_of :: "char \<Rightarrow> nat" where
  "byte_of c = of_char c"

definition in_range :: "nat \<Rightarrow> nat \<Rightarrow> char \<Rightarrow> bool" where
  "in_range lo hi c \<longleftrightarrow> lo \<le> byte_of c \<and> byte_of c \<le> hi"

abbreviation (input) newline :: char where
  "newline \<equiv> CHR 0x0A"

definition is_ascii_lower :: "char \<Rightarrow> bool" where
  "is_ascii_lower c \<longleftrightarrow> in_range 97 122 c"

definition is_ascii_upper :: "char \<Rightarrow> bool" where
  "is_ascii_upper c \<longleftrightarrow> in_range 65 90 c"

definition is_ascii_digit :: "char \<Rightarrow> bool" where
  "is_ascii_digit c \<longleftrightarrow> in_range 48 57 c"

definition is_ascii_alpha :: "char \<Rightarrow> bool" where
  "is_ascii_alpha c \<longleftrightarrow> is_ascii_lower c \<or> is_ascii_upper c"

definition is_ascii_alnum :: "char \<Rightarrow> bool" where
  "is_ascii_alnum c \<longleftrightarrow> is_ascii_alpha c \<or> is_ascii_digit c"

definition is_ascii_char :: "char \<Rightarrow> bool" where
  "is_ascii_char c \<longleftrightarrow> byte_of c < 128"

text \<open>\<open>char::is_ascii_whitespace\<close>: space, tab, line feed, form feed, carriage return.\<close>

definition is_ascii_ws :: "char \<Rightarrow> bool" where
  "is_ascii_ws c \<longleftrightarrow> c \<in> {CHR 0x20, CHR 0x09, CHR 0x0A, CHR 0x0C, CHR 0x0D}"

definition to_lower :: "char \<Rightarrow> char" where
  "to_lower c = (if is_ascii_upper c then char_of (byte_of c + 32) else c)"

definition to_upper :: "char \<Rightarrow> char" where
  "to_upper c = (if is_ascii_lower c then char_of (byte_of c - 32) else c)"

definition to_ascii_lowercase :: "string \<Rightarrow> string" where
  "to_ascii_lowercase s = map to_lower s"

definition eq_ignore_ascii_case :: "string \<Rightarrow> string \<Rightarrow> bool" where
  "eq_ignore_ascii_case a b \<longleftrightarrow> to_ascii_lowercase a = to_ascii_lowercase b"

definition is_ascii :: "string \<Rightarrow> bool" where
  "is_ascii s \<longleftrightarrow> list_all is_ascii_char s"

text \<open>\<open>str::from_utf8\<close>: well-formed UTF-8 (no overlong forms, no surrogates, at most U+10FFFF).\<close>

definition cont :: "char \<Rightarrow> bool" where
  "cont c \<longleftrightarrow> in_range 128 191 c"

text \<open>What may follow the first byte of a three-byte and of a four-byte sequence.\<close>

definition second_of_three :: "char \<Rightarrow> char \<Rightarrow> bool" where
  "second_of_three a b \<longleftrightarrow>
     (if byte_of a = 224 then in_range 160 191 b
      else if byte_of a = 237 then in_range 128 159 b else cont b)"

definition second_of_four :: "char \<Rightarrow> char \<Rightarrow> bool" where
  "second_of_four a b \<longleftrightarrow>
     (if byte_of a = 240 then in_range 144 191 b
      else if byte_of a = 244 then in_range 128 143 b else cont b)"

fun utf8_valid :: "string \<Rightarrow> bool" where
  "utf8_valid [] = True"
| "utf8_valid (a # s) =
     (if is_ascii_char a then utf8_valid s
      else if in_range 194 223 a then
        (case s of b # s2 \<Rightarrow> cont b \<and> utf8_valid s2 | _ \<Rightarrow> False)
      else if in_range 224 239 a then
        (case s of b # c # s3 \<Rightarrow> second_of_three a b \<and> cont c \<and> utf8_valid s3 | _ \<Rightarrow> False)
      else if in_range 240 244 a then
        (case s of b # c # d # s4 \<Rightarrow>
           second_of_four a b \<and> cont c \<and> cont d \<and> utf8_valid s4 | _ \<Rightarrow> False)
      else False)"

text \<open>
  \<open>String::from_utf8_lossy\<close>: every maximal ill-formed piece becomes one U+FFFD.
\<close>

definition replacement :: string where
  "replacement = [CHR 0xEF, CHR 0xBF, CHR 0xBD]"

fun utf8_lossy :: "string \<Rightarrow> string" where
  "utf8_lossy [] = []"
| "utf8_lossy (a # s) =
     (if is_ascii_char a then a # utf8_lossy s
      else if in_range 194 223 a then
        (case s of
           b # s2 \<Rightarrow> if cont b then a # b # utf8_lossy s2 else replacement @ utf8_lossy s
         | [] \<Rightarrow> replacement)
      else if in_range 224 239 a then
        (case s of
           [] \<Rightarrow> replacement
         | b # s2 \<Rightarrow>
             if \<not> second_of_three a b then replacement @ utf8_lossy s
             else (case s2 of
               [] \<Rightarrow> replacement
             | c # s3 \<Rightarrow>
                 if cont c then a # b # c # utf8_lossy s3 else replacement @ utf8_lossy s2))
      else if in_range 240 244 a then
        (case s of
           [] \<Rightarrow> replacement
         | b # s2 \<Rightarrow>
             if \<not> second_of_four a b then replacement @ utf8_lossy s
             else (case s2 of
               [] \<Rightarrow> replacement
             | c # s3 \<Rightarrow>
                 if \<not> cont c then replacement @ utf8_lossy s2
                 else (case s3 of
                   [] \<Rightarrow> replacement
                 | d # s4 \<Rightarrow>
                     if cont d then a # b # c # d # utf8_lossy s4
                     else replacement @ utf8_lossy s3)))
      else replacement @ utf8_lossy s)"

section \<open>Trimming and lines\<close>

definition trim_start_by :: "('a \<Rightarrow> bool) \<Rightarrow> 'a list \<Rightarrow> 'a list" where
  "trim_start_by P s = dropWhile P s"

definition trim_end_by :: "('a \<Rightarrow> bool) \<Rightarrow> 'a list \<Rightarrow> 'a list" where
  "trim_end_by P s = rev (dropWhile P (rev s))"

definition trim_by :: "('a \<Rightarrow> bool) \<Rightarrow> 'a list \<Rightarrow> 'a list" where
  "trim_by P s = trim_end_by P (trim_start_by P s)"

abbreviation trim_ascii :: "string \<Rightarrow> string" where
  "trim_ascii \<equiv> trim_by is_ascii_ws"

abbreviation trim_ascii_start :: "string \<Rightarrow> string" where
  "trim_ascii_start \<equiv> trim_start_by is_ascii_ws"

text \<open>
  \<open>str::trim\<close> and \<open>char::is_whitespace\<close> follow Unicode's \<open>White_Space\<close>. The table
  holds the UTF-8 encodings of those characters; UTF-8 is self-synchronising, so removing an
  encoding at either end of a well-formed string removes exactly that character.
\<close>

definition unicode_ws :: "string list" where
  "unicode_ws =
     [[CHR 0x20], [CHR 0x09], [CHR 0x0A], [CHR 0x0B], [CHR 0x0C], [CHR 0x0D],
      [CHR 0xC2, CHR 0x85], [CHR 0xC2, CHR 0xA0], [CHR 0xE1, CHR 0x9A, CHR 0x80],
      [CHR 0xE2, CHR 0x80, CHR 0x80], [CHR 0xE2, CHR 0x80, CHR 0x81],
      [CHR 0xE2, CHR 0x80, CHR 0x82], [CHR 0xE2, CHR 0x80, CHR 0x83],
      [CHR 0xE2, CHR 0x80, CHR 0x84], [CHR 0xE2, CHR 0x80, CHR 0x85],
      [CHR 0xE2, CHR 0x80, CHR 0x86], [CHR 0xE2, CHR 0x80, CHR 0x87],
      [CHR 0xE2, CHR 0x80, CHR 0x88], [CHR 0xE2, CHR 0x80, CHR 0x89],
      [CHR 0xE2, CHR 0x80, CHR 0x8A], [CHR 0xE2, CHR 0x80, CHR 0xA8],
      [CHR 0xE2, CHR 0x80, CHR 0xA9], [CHR 0xE2, CHR 0x80, CHR 0xAF],
      [CHR 0xE2, CHR 0x81, CHR 0x9F], [CHR 0xE3, CHR 0x80, CHR 0x80]]"

text \<open>\<open>char::is_control\<close>: the C0 controls, DEL and the C1 controls (\<open>C2 80\<close> to \<open>C2 9F\<close>).\<close>

definition is_c0_control :: "char \<Rightarrow> bool" where
  "is_c0_control c \<longleftrightarrow> byte_of c < 32 \<or> byte_of c = 127"

fun has_c1_control :: "string \<Rightarrow> bool" where
  "has_c1_control (a # b # s) =
     ((byte_of a = 194 \<and> in_range 128 159 b) \<or> has_c1_control (b # s))"
| "has_c1_control _ = False"

definition has_control :: "string \<Rightarrow> bool" where
  "has_control s \<longleftrightarrow> list_ex is_c0_control s \<or> has_c1_control s"

definition has_whitespace :: "string \<Rightarrow> bool" where
  "has_whitespace s \<longleftrightarrow> list_ex (\<lambda>w. contains_sub w s) unicode_ws"

fun strip_any :: "'a list list \<Rightarrow> 'a list \<Rightarrow> 'a list option" where
  "strip_any [] s = None"
| "strip_any (p # ps) s =
     (case strip_prefix p s of Some r \<Rightarrow> Some r | None \<Rightarrow> strip_any ps s)"

function strip_all :: "'a list list \<Rightarrow> 'a list \<Rightarrow> 'a list" where
  "strip_all ps s =
     (case strip_any ps s of
        None \<Rightarrow> s
      | Some r \<Rightarrow> if length r < length s then strip_all ps r else s)"
  by pat_completeness auto
termination
  by (relation "measure (\<lambda>(ps, s). length s)") auto

declare strip_all.simps [simp del]

definition trim :: "string \<Rightarrow> string" where
  "trim s = rev (strip_all (map rev unicode_ws) (rev (strip_all unicode_ws s)))"

text \<open>\<open>str::lines\<close>: pieces ended by a line feed, without it and without one carriage return.\<close>

definition drop_cr :: "string \<Rightarrow> string" where
  "drop_cr l = (if l \<noteq> [] \<and> last l = CHR 0x0D then butlast l else l)"

definition lines :: "string \<Rightarrow> string list" where
  "lines s =
     (let ps = split_on newline s in
      map drop_cr (butlast ps) @ (if last ps = [] then [] else [last ps]))"

section \<open>Numbers as text\<close>

definition digit_char :: "nat \<Rightarrow> char" where
  "digit_char d = char_of (48 + d)"

fun show_nat :: "nat \<Rightarrow> string" where
  "show_nat n = (if n < 10 then [digit_char n] else show_nat (n div 10) @ [digit_char (n mod 10)])"

declare show_nat.simps [simp del]

text \<open>
  \<open>str::parse::<u32>\<close>, \<open>::<u64>\<close>: decimal digits with an optional leading \<open>+\<close>, no overflow.
\<close>

definition digits_value :: "string \<Rightarrow> nat" where
  "digits_value s = foldl (\<lambda>n c. 10 * n + (byte_of c - 48)) 0 s"

definition parse_uint :: "nat \<Rightarrow> string \<Rightarrow> nat option" where
  "parse_uint bits s =
     (let ds = (case s of [] \<Rightarrow> [] | c # cs \<Rightarrow> if c = CHR ''+'' then cs else s) in
      if ds = [] \<or> \<not> list_all is_ascii_digit ds then None
      else let n = digits_value ds in if n < 2 ^ bits then Some n else None)"

section \<open>Facts\<close>

lemma strip_prefix_Some_iff [text_simps]: "strip_prefix p s = Some r \<longleftrightarrow> s = p @ r"
  by (induction p s rule: strip_prefix.induct) auto

lemma strip_prefix_append [simp]: "strip_prefix p (p @ r) = Some r"
  by (simp add: text_simps)

lemma strip_prefix_None_iff: "strip_prefix p s = None \<longleftrightarrow> \<not> prefix p s"
  by (metis not_None_eq prefix_def strip_prefix_Some_iff)

lemma starts_with_prefix [text_simps]: "starts_with p s \<longleftrightarrow> prefix p s"
  by (simp add: starts_with_def strip_prefix_None_iff)

lemma strip_suffix_Some_iff [text_simps]: "strip_suffix p s = Some r \<longleftrightarrow> s = r @ p"
  by (auto simp: strip_suffix_def strip_prefix_Some_iff rev_swap)

lemma split_on_nonempty [simp]: "split_on c s \<noteq> []"
  by (cases s) (auto split: list.splits)

lemma split_on_no_sep: "p \<in> set (split_on c s) \<Longrightarrow> c \<notin> set p"
  by (induction s arbitrary: p) (auto split: if_splits list.splits)

lemma split_on_id [text_simps]: "c \<notin> set s \<Longrightarrow> split_on c s = [s]"
  by (induction s) auto

lemma join_Cons: "xs \<noteq> [] \<Longrightarrow> join sep (x # xs) = x @ sep @ join sep xs"
  by (cases xs) auto

lemma join_split_on [simp]: "join [c] (split_on c s) = s"
proof (induction s)
  case (Cons x s)
  show ?case
  proof (cases "x = c")
    case True
    with Cons show ?thesis by (simp add: join_Cons)
  next
    case False
    obtain l ls where "split_on c s = l # ls" by (cases "split_on c s") auto
    with Cons False show ?thesis by (cases ls) auto
  qed
qed simp

lemma split_on_append_sep [text_simps]:
  "split_on c (a @ c # b) = split_on c a @ split_on c b"
proof (induction a)
  case (Cons x a)
  obtain l ls where "split_on c a = l # ls" by (cases "split_on c a") auto
  with Cons show ?case by simp
qed simp

lemma split_on_join:
  "xs \<noteq> [] \<Longrightarrow> (\<And>x. x \<in> set xs \<Longrightarrow> c \<notin> set x) \<Longrightarrow> split_on c (join [c] xs) = xs"
proof (induction xs rule: induct_list012)
  case (3 x y zs)
  then have "split_on c (join [c] (y # zs)) = y # zs" by simp
  moreover have "split_on c (x @ c # join [c] (y # zs)) = split_on c x @ split_on c (join [c] (y # zs))"
    by (rule split_on_append_sep)
  moreover have "split_on c x = [x]" using 3 by (simp add: split_on_id)
  ultimately show ?case by simp
qed (simp_all add: split_on_id)

lemma split_once_SomeD: "split_once p s = Some (a, b) \<Longrightarrow> s = a @ p @ b"
  by (induction s arbitrary: a)
    (auto simp: strip_prefix_Some_iff split: if_splits option.splits)

lemma contains_sub_sublist [text_simps]: "contains_sub p s \<longleftrightarrow> sublist p s"
proof -
  have "split_once p s \<noteq> None" if "s = a @ p @ b" for a b
    using that
    by (induction a arbitrary: s) (cases p; auto split: option.splits; cases b; auto split: option.splits)+
  then show ?thesis
    unfolding contains_sub_def sublist_def
    by (metis not_None_eq prod.collapse split_once_SomeD)
qed

lemma position_SomeD: "position P s = Some i \<Longrightarrow> i < length s \<and> P (s ! i) \<and> (\<forall>j<i. \<not> P (s ! j))"
  by (induction s arbitrary: i) (auto simp: nth_Cons split: if_splits nat.splits)

lemma position_None_iff: "position P s = None \<longleftrightarrow> (\<forall>x\<in>set s. \<not> P x)"
  by (induction s) auto

lemma position_Some_takeWhile: "position P s = Some i \<Longrightarrow> takeWhile (Not \<circ> P) s = take i s"
  by (induction s arbitrary: i) (auto split: if_splits)

lemma find_SomeD: "find P xs = Some x \<Longrightarrow> x \<in> set xs \<and> P x"
  by (auto simp: find_Some_iff)

lemma find_map_SomeD: "find_map f xs = Some y \<Longrightarrow> \<exists>x\<in>set xs. f x = Some y"
  by (induction xs) (auto split: option.splits)

lemma find_map_None_iff: "find_map f xs = None \<longleftrightarrow> (\<forall>x\<in>set xs. f x = None)"
  by (induction xs) (auto split: option.splits)

lemma chunks_Nil [simp]: "chunks n [] = []"
  by (simp add: chunks.simps)

lemma concat_chunks [simp]: "0 < n \<Longrightarrow> concat (chunks n s) = s"
proof (induction n s rule: chunks.induct)
  case (1 n s)
  then show ?case by (subst chunks.simps) auto
qed

lemma chunks_length [text_length]: "c \<in> set (chunks n s) \<Longrightarrow> c \<noteq> [] \<and> length c \<le> n"
proof (induction n s rule: chunks.induct)
  case (1 n s)
  then show ?case by (subst (asm) (2) chunks.simps) (auto split: if_splits)
qed

lemma utf8_valid_ascii: "list_all is_ascii_char s \<Longrightarrow> utf8_valid s"
  by (induction s) auto

lemma utf8_lossy_ascii [simp]: "list_all is_ascii_char s \<Longrightarrow> utf8_lossy s = s"
  by (induction s) auto

lemma chunks_subset: "c \<in> set (chunks n s) \<Longrightarrow> set c \<subseteq> set s"
proof (induction n s rule: chunks.induct)
  case (1 n s)
  then show ?case
    by (subst (asm) (2) chunks.simps)
      (auto split: if_splits dest: in_set_takeD in_set_dropD)
qed

lemma split_on_terminated:
  "(\<And>w. w \<in> set ws \<Longrightarrow> c \<notin> set w) \<Longrightarrow>
     split_on c (concat (map (\<lambda>w. w @ [c]) ws)) = ws @ [[]]"
  by (induction ws) (auto simp: split_on_append_sep split_on_id)

lemma lines_terminated [text_simps]:
  assumes "\<And>w. w \<in> set ws \<Longrightarrow> newline \<notin> set w \<and> CHR 0x0D \<notin> set w"
  shows "lines (concat (map (\<lambda>w. w @ [newline]) ws)) = ws"
proof -
  have "map drop_cr ws = ws"
    using assms by (intro map_idI) (auto simp: drop_cr_def dest: last_in_set)
  then show ?thesis using assms by (simp add: lines_def split_on_terminated)
qed

text \<open>Text that starts and ends with a byte no white space begins or ends with is its own trim.\<close>

definition ends_printable :: "string \<Rightarrow> bool" where
  "ends_printable s \<longleftrightarrow> s = [] \<or> (in_range 33 127 (hd s) \<and> in_range 33 127 (last s))"

lemma strip_any_None_iff: "strip_any ps s = None \<longleftrightarrow> (\<forall>p\<in>set ps. \<not> prefix p s)"
  by (induction ps) (auto simp: strip_prefix_None_iff strip_prefix_Some_iff split: option.splits)

lemma strip_all_None: "strip_any ps s = None \<Longrightarrow> strip_all ps s = s"
  by (simp add: strip_all.simps)

lemma trim_printable [simp]: "ends_printable s \<Longrightarrow> trim s = s"
proof -
  assume p: "ends_printable s"
  have edge: "\<forall>w\<in>set unicode_ws. \<not> in_range 33 127 (hd w) \<and> \<not> in_range 33 127 (last w) \<and> w \<noteq> []"
    by code_simp
  have "strip_any unicode_ws s = None"
    using p edge unfolding strip_any_None_iff ends_printable_def prefix_def
    by (metis append_is_Nil_conv hd_append2)
  moreover have "strip_any (map rev unicode_ws) (rev s) = None"
  proof -
    have "\<not> prefix (rev w) (rev s)" if "w \<in> set unicode_ws" for w
      using p edge that unfolding ends_printable_def prefix_def
      by (metis append_is_Nil_conv last_appendR last_rev hd_rev rev_append rev_is_Nil_conv rev_rev_ident)
    then show ?thesis by (simp add: strip_any_None_iff)
  qed
  ultimately show ?thesis by (simp add: trim_def strip_all_None)
qed

section \<open>Debug output\<close>

text \<open>
  \<open>{:?}\<close> of a \<open>str\<close>: quoted, with the escapes of \<open>char::escape_debug\<close>. A byte outside ASCII
  is printed as it is, which is what Rust does for every printable character.
\<close>

definition hex_digit :: "nat \<Rightarrow> char" where
  "hex_digit d = (if d < 10 then char_of (48 + d) else char_of (87 + d))"

fun show_hex :: "nat \<Rightarrow> string" where
  "show_hex n = (if n < 16 then [hex_digit n] else show_hex (n div 16) @ [hex_digit (n mod 16)])"

declare show_hex.simps [simp del]

definition debug_char :: "char \<Rightarrow> string" where
  "debug_char c =
     (if c = CHR 0x22 then [CHR 0x5C, CHR 0x22]
      else if c = CHR 0x5C then [CHR 0x5C, CHR 0x5C]
      else if c = CHR 0x0A then [CHR 0x5C, CHR ''n'']
      else if c = CHR 0x0D then [CHR 0x5C, CHR ''r'']
      else if c = CHR 0x09 then [CHR 0x5C, CHR ''t'']
      else if c = CHR 0x00 then [CHR 0x5C, CHR ''0'']
      else if is_c0_control c then [CHR 0x5C] @ ''u{'' @ show_hex (byte_of c) @ ''}''
      else [c])"

definition show_debug :: "string \<Rightarrow> string" where
  "show_debug s = [CHR 0x22] @ concat (map debug_char s) @ [CHR 0x22]"

text \<open>\<open>str::trim_end\<close>.\<close>

definition trim_end :: "string \<Rightarrow> string" where
  "trim_end s = rev (strip_all (map rev unicode_ws) (rev s))"

end
