(* ===== verification/Resource_Grammar.thy ===== *)
theory Resource_Grammar
  imports Prelude
begin

text \<open>
  The forge-qualified resource grammar of \<^verbatim>\<open>crates/vgi-core/src/resource.rs\<close>: the error kinds,
  normalisation with every refusal in the source's order, the operator messages, and the
  segment-prefix containment of two resources. \<open>valid_resource\<close> is the grammar of the module
  documentation; normalisation accepts exactly the inputs whose ASCII-lowercased form is in it.
  The locale \<open>scope_order\<close> is what the rest of the program relies on when it asks whether a
  grant's scope contains a repository.
\<close>

section \<open>Errors\<close>

definition MAX_RESOURCE_LEN :: nat where
  "MAX_RESOURCE_LEN = 512"

definition MAX_PATH_SEGMENTS :: nat where
  "MAX_PATH_SEGMENTS = 21"

datatype resource_error_kind =
    Empty
  | TooLong
  | Whitespace
  | NonAscii
  | HasScheme
  | MissingForgeHost
  | InvalidHost
  | HasPort
  | MissingOwner
  | EmptySegment
  | DotSegment
  | InvalidCharacter char
  | TooManySegments nat

record resource_error =
  err_input :: string
  err_kind :: resource_error_kind

text \<open>\<open>ResourceError::new\<close> keeps at most 80 bytes of the input, cut at a character boundary.\<close>

definition is_char_boundary :: "string \<Rightarrow> nat \<Rightarrow> bool" where
  "is_char_boundary s n \<longleftrightarrow> n = 0 \<or> n = length s \<or> (n < length s \<and> \<not> cont (s ! n))"

fun floor_char_boundary :: "string \<Rightarrow> nat \<Rightarrow> nat" where
  "floor_char_boundary s 0 = 0"
| "floor_char_boundary s (Suc n) =
     (if is_char_boundary s (Suc n) then Suc n else floor_char_boundary s n)"

definition ellipsis :: string where
  "ellipsis = [CHR 0xE2, CHR 0x80, CHR 0xA6]"

definition em_dash :: string where
  "em_dash = [CHR 0xE2, CHR 0x80, CHR 0x94]"

definition resource_error_new :: "string \<Rightarrow> resource_error_kind \<Rightarrow> resource_error" where
  "resource_error_new input k =
     \<lparr>err_input =
        (if 80 < length input
         then take (floor_char_boundary input 80) input @ ellipsis
         else input),
      err_kind = k\<rparr>"

section \<open>Normalisation\<close>

definition looks_like_host :: "string \<Rightarrow> bool" where
  "looks_like_host segment \<longleftrightarrow> CHR ''.'' \<in> set segment \<or> segment = ''localhost''"

definition valid_label :: "string \<Rightarrow> bool" where
  "valid_label l \<longleftrightarrow>
     l \<noteq> [] \<and> length l \<le> 63 \<and> \<not> starts_with ''-'' l \<and> \<not> ends_with ''-'' l
     \<and> list_all (\<lambda>b. is_ascii_lower b \<or> is_ascii_digit b \<or> b = CHR ''-'') l"

definition is_valid_host :: "string \<Rightarrow> bool" where
  "is_valid_host host \<longleftrightarrow> length host \<le> 253 \<and> list_all valid_label (split_on CHR ''.'' host)"

definition is_segment_char :: "char \<Rightarrow> bool" where
  "is_segment_char c \<longleftrightarrow>
     is_ascii_lower c \<or> is_ascii_digit c \<or> c \<in> {CHR ''.'', CHR ''_'', CHR ''-''}"

definition leading_slash_kind :: "string list \<Rightarrow> resource_error_kind" where
  "leading_slash_kind segments =
     (case segments of
        _ # next # _ \<Rightarrow>
          if next \<noteq> [] \<and> \<not> looks_like_host next then MissingForgeHost else EmptySegment
      | _ \<Rightarrow> EmptySegment)"

definition normalize_resource_with_depth :: "string \<Rightarrow> nat \<Rightarrow> resource_error + string" where
  "normalize_resource_with_depth raw max_path_segments =
     (let err = (\<lambda>k. Inl (resource_error_new raw k)) in
      if trim raw = [] then err Empty
      else if MAX_RESOURCE_LEN < length raw then err TooLong
      else if has_whitespace raw \<or> has_control raw then err Whitespace
      else if \<not> is_ascii raw then err NonAscii
      else if contains_sub ''://'' raw then err HasScheme
      else
        let lowered = to_ascii_lowercase raw;
            segments = split_on CHR ''/'' lowered;
            host = hd segments
        in
        if host = [] then err (leading_slash_kind segments)
        else (case split_once '':'' host of
          Some (name, port) \<Rightarrow> err (if looks_like_host name then HasPort else InvalidHost)
        | None \<Rightarrow>
            if \<not> looks_like_host host
            then err (if host = [] then EmptySegment else MissingForgeHost)
            else if \<not> is_valid_host host then err InvalidHost
            else
              let path = tl segments in
              if path = [] \<or> (length path = 1 \<and> hd path = []) then err MissingOwner
              else if list_ex (\<lambda>s. s = []) path then err EmptySegment
              else if list_ex (\<lambda>s. s = ''.'' \<or> s = ''..'') path then err DotSegment
              else (case find (\<lambda>c. \<not> is_segment_char c) (concat path) of
                Some c \<Rightarrow> err (InvalidCharacter c)
              | None \<Rightarrow>
                  if max_path_segments < length path
                  then err (TooManySegments max_path_segments)
                  else Inr lowered)))"

definition normalize_resource :: "string \<Rightarrow> resource_error + string" where
  "normalize_resource raw = normalize_resource_with_depth raw MAX_PATH_SEGMENTS"

definition resource_contains :: "string \<Rightarrow> string \<Rightarrow> bool" where
  "resource_contains scope resource =
     (case strip_prefix scope resource of
        Some rest \<Rightarrow> rest = [] \<or> starts_with ''/'' rest
      | None \<Rightarrow> False)"

section \<open>Operator messages\<close>

definition suggest_without_scheme :: "string \<Rightarrow> string" where
  "suggest_without_scheme input =
     (let rest = (case split_once ''://'' input of None \<Rightarrow> input | Some (_, r) \<Rightarrow> r);
          rest = trim_end_by (\<lambda>c. c = CHR ''/'') rest
      in to_ascii_lowercase (case strip_suffix ''.git'' rest of None \<Rightarrow> rest | Some r \<Rightarrow> r))"

definition suggest_without_port :: "string \<Rightarrow> string" where
  "suggest_without_port input =
     (let lowered = to_ascii_lowercase input in
      case split_once ''/'' lowered of
        Some (host, rest) \<Rightarrow>
          (case split_once '':'' host of None \<Rightarrow> host | Some (h, _) \<Rightarrow> h) @ ''/'' @ rest
      | None \<Rightarrow> lowered)"

definition suggest_collapsed :: "string \<Rightarrow> string" where
  "suggest_collapsed input =
     join ''/'' (filter (\<lambda>s. s \<noteq> []) (split_on CHR ''/'' (to_ascii_lowercase input)))"

text \<open>
  \<open>char::escape_default\<close> of the ASCII character an \<open>InvalidCharacter\<close> error carries (a character
  outside printable ASCII never reaches it: it is refused earlier).
\<close>

definition escape_default :: "char \<Rightarrow> string" where
  "escape_default c =
     (if c \<in> {CHR 0x22, CHR 0x27, CHR 0x5C} then [CHR 0x5C, c] else [c])"

definition expected_form :: string where
  "expected_form = ''`<forge-host>/<owner>[/<repo>]`''"

definition resource_error_describe :: "resource_error \<Rightarrow> string \<Rightarrow> string" where
  "resource_error_describe e what =
     (let v = err_input e; it = what @ '' `'' @ v @ ''`'' in
      case err_kind e of
        Empty \<Rightarrow> what @ '' is empty; expected '' @ expected_form
          @ '', e.g. `github.com/acme/widgets`''
      | TooLong \<Rightarrow> it @ '' is longer than '' @ show_nat MAX_RESOURCE_LEN @ '' bytes''
      | Whitespace \<Rightarrow> it @ '' contains whitespace or a control character; a resource is ''
          @ expected_form @ '' with no spaces''
      | NonAscii \<Rightarrow> it @ '' contains a non-ASCII character; forge hosts are written in ''
          @ ''punycode and owner/repo names are ASCII''
      | HasScheme \<Rightarrow> it @ '' is a URL, not a resource; did you mean `''
          @ suggest_without_scheme v @ ''`?''
      | MissingForgeHost \<Rightarrow>
          (let bare = to_ascii_lowercase (trim_by (\<lambda>c. c = CHR ''/'') v) in
           it @ '' is not forge-qualified (expected '' @ expected_form
             @ ''); prefix the forge host, e.g. `github.com/'' @ bare
             @ ''` or `codeberg.org/'' @ bare @ ''`'')
      | InvalidHost \<Rightarrow> it @ '' starts with an invalid forge host; a host is dot-separated labels ''
          @ ''of [a-z0-9-] (e.g. `github.com`, `git.example.org`) or `localhost`''
      | HasPort \<Rightarrow> it @ '' carries a port; a resource names the forge by host alone '' @ em_dash
          @ '' did you mean `'' @ suggest_without_port v @ ''`?''
      | MissingOwner \<Rightarrow>
          (let host = to_ascii_lowercase (trim_end_by (\<lambda>c. c = CHR ''/'') v) in
           it @ '' names a forge but no owner; e.g. `'' @ host @ ''/acme` or `''
             @ host @ ''/acme/widgets`'')
      | EmptySegment \<Rightarrow> it @ '' has an empty path segment (a doubled, leading or trailing `/`); ''
          @ ''did you mean `'' @ suggest_collapsed v @ ''`?''
      | DotSegment \<Rightarrow> it @ '' has a `.` or `..` segment; name the owner and repo directly''
      | InvalidCharacter c \<Rightarrow> it @ '' contains `'' @ escape_default c
          @ ''`; owner and repo segments may only contain letters, digits, `.`, `_` and `-`''
      | TooManySegments m \<Rightarrow> it @ '' has too many segments for this forge: at most ''
          @ show_nat m @ '' after the host (`<forge-host>/<owner>/<repo>`)'')"

definition resource_error_display :: "resource_error \<Rightarrow> string" where
  "resource_error_display e = resource_error_describe e ''resource''"

section \<open>The grammar\<close>

definition valid_segment :: "string \<Rightarrow> bool" where
  "valid_segment s \<longleftrightarrow> s \<noteq> [] \<and> s \<noteq> ''.'' \<and> s \<noteq> ''..'' \<and> list_all is_segment_char s"

definition valid_resource :: "nat \<Rightarrow> string \<Rightarrow> bool" where
  "valid_resource depth s \<longleftrightarrow>
     length s \<le> MAX_RESOURCE_LEN
     \<and> (let segments = split_on CHR ''/'' s; host = hd segments; path = tl segments in
        looks_like_host host \<and> is_valid_host host
        \<and> path \<noteq> [] \<and> length path \<le> depth \<and> list_all valid_segment path)"

section \<open>Characters of a lowered resource\<close>

lemma byte_of_inject: "byte_of c = byte_of d \<longleftrightarrow> c = d"
  by (simp add: byte_of_def)

lemma byte_of_char_of [simp]: "n < 256 \<Longrightarrow> byte_of (char_of n) = n"
  by (simp add: byte_of_def)

lemma byte_of_less [simp]: "byte_of c < 256"
  by (simp add: byte_of_def)

lemma to_lower_not_upper [simp]: "\<not> is_ascii_upper (to_lower c)"
  by (auto simp: to_lower_def is_ascii_upper_def in_range_def)

lemma to_lower_idem [simp]: "to_lower (to_lower c) = to_lower c"
  using to_lower_not_upper [of c] by (simp add: to_lower_def [of "to_lower c"])

lemma to_ascii_lowercase_idem [simp]:
  "to_ascii_lowercase (to_ascii_lowercase s) = to_ascii_lowercase s"
  by (simp add: to_ascii_lowercase_def)

lemma length_to_ascii_lowercase [simp]: "length (to_ascii_lowercase s) = length s"
  by (simp add: to_ascii_lowercase_def)

lemma to_lower_eq_self: "is_ascii_lower (to_lower c) \<or> \<not> is_ascii_upper c \<Longrightarrow>
    is_ascii_upper c \<or> to_lower c = c"
  by (simp add: to_lower_def)

definition resource_char :: "char \<Rightarrow> bool" where
  "resource_char c \<longleftrightarrow> is_segment_char c \<or> c = CHR ''/''"

lemma resource_char_range:
  "resource_char c \<Longrightarrow>
     in_range 97 122 c \<or> in_range 48 57 c \<or> byte_of c \<in> {45, 46, 47, 95}"
  by (auto simp: resource_char_def is_segment_char_def is_ascii_lower_def is_ascii_digit_def
      byte_of_def)

lemma lowered_resource_char_range:
  assumes "resource_char (to_lower c)"
  shows "in_range 97 122 c \<or> in_range 65 90 c \<or> in_range 48 57 c \<or> byte_of c \<in> {45, 46, 47, 95}"
proof (cases "is_ascii_upper c")
  case True
  then show ?thesis by (simp add: is_ascii_upper_def)
next
  case False
  with assms have "resource_char c" by (simp add: to_lower_def)
  from resource_char_range [OF this] show ?thesis by blast
qed

lemma lowered_resource_char_ascii: "resource_char (to_lower c) \<Longrightarrow> is_ascii_char c"
  by (drule lowered_resource_char_range) (auto simp: is_ascii_char_def in_range_def)

lemma lowered_resource_char_no_control: "resource_char (to_lower c) \<Longrightarrow> \<not> is_c0_control c"
  by (drule lowered_resource_char_range) (auto simp: is_c0_control_def in_range_def)

text \<open>First and last bytes of the white-space encodings: none of them can occur in a resource.\<close>

definition ws_bytes :: "char set" where
  "ws_bytes = set (concat unicode_ws)"

lemma ws_bytes_not_resource: "w \<in> ws_bytes \<Longrightarrow> \<not> resource_char (to_lower w)"
  using lowered_resource_char_range [of w]
  by (auto simp: ws_bytes_def unicode_ws_def in_range_def byte_of_def)

lemma unicode_ws_nonempty [simp]: "w \<in> set unicode_ws \<Longrightarrow> w \<noteq> []"
  by (auto simp: unicode_ws_def)

lemma strip_any_None:
  assumes "x \<notin> set (concat ps)" "[] \<notin> set ps"
  shows "strip_any ps (x # xs) = None"
  using assms
proof (induction ps)
  case (Cons p ps)
  then obtain y ys where "p = y # ys" by (cases p) auto
  with Cons show ?case by auto
qed simp

lemma strip_all_id:
  assumes "x \<notin> set (concat ps)" "[] \<notin> set ps"
  shows "strip_all ps (x # xs) = x # xs"
  by (subst strip_all.simps) (simp add: strip_any_None [OF assms])

lemma trim_id:
  assumes "s \<noteq> []" "\<forall>c\<in>set s. c \<notin> ws_bytes"
  shows "trim s = s"
proof -
  from assms(1) obtain x xs where s: "s = x # xs" by (cases s) auto
  have "strip_all unicode_ws s = s"
    unfolding s using assms(2) s
    by (intro strip_all_id) (auto simp: ws_bytes_def dest: unicode_ws_nonempty)
  moreover obtain y ys where r: "rev s = y # ys" using assms(1) by (cases "rev s") auto
  moreover have "strip_all (map rev unicode_ws) (y # ys) = y # ys"
  proof (rule strip_all_id)
    have "y \<in> set s" using r by (metis list.set_intros(1) set_rev)
    then show "y \<notin> set (concat (map rev unicode_ws))"
      using assms(2) by (auto simp: ws_bytes_def)
    show "[] \<notin> set (map rev unicode_ws)" by (auto dest: unicode_ws_nonempty)
  qed
  ultimately show ?thesis by (metis rev_rev_ident trim_def)
qed

lemma no_whitespace:
  assumes "\<forall>c\<in>set s. c \<notin> ws_bytes"
  shows "\<not> has_whitespace s"
proof
  assume "has_whitespace s"
  then obtain w where w: "w \<in> set unicode_ws" "sublist w s"
    by (auto simp: has_whitespace_def list_ex_iff contains_sub_sublist)
  from unicode_ws_nonempty [OF w(1)] obtain c where "c \<in> set w"
    by (meson last_in_set)
  with w have "c \<in> set s" "c \<in> ws_bytes"
    by (auto simp: ws_bytes_def sublist_def)
  with assms show False by blast
qed

lemma ascii_no_c1: "list_all is_ascii_char s \<Longrightarrow> \<not> has_c1_control s"
  by (induction s rule: has_c1_control.induct) (auto simp: is_ascii_char_def)

lemma lowered_resource_clean:
  assumes "s \<noteq> []" "list_all resource_char (to_ascii_lowercase s)"
  shows "trim s \<noteq> []" "\<not> has_whitespace s" "\<not> has_control s" "is_ascii s"
proof -
  have rc: "resource_char (to_lower c)" if "c \<in> set s" for c
    using assms(2) that by (auto simp: to_ascii_lowercase_def list_all_iff)
  have ws: "\<forall>c\<in>set s. c \<notin> ws_bytes" using rc ws_bytes_not_resource by blast
  show "trim s \<noteq> []" using trim_id [OF assms(1) ws] assms(1) by simp
  show "\<not> has_whitespace s" using no_whitespace [OF ws] .
  have asc: "list_all is_ascii_char s"
    using rc lowered_resource_char_ascii by (auto simp: list_all_iff)
  then show "is_ascii s" by (simp add: is_ascii_def)
  show "\<not> has_control s"
    using ascii_no_c1 [OF asc] rc lowered_resource_char_no_control
    by (auto simp: has_control_def list_ex_iff)
qed

section \<open>Normalisation accepts exactly the grammar\<close>

lemma split_on_charD:
  "x \<in> set s \<Longrightarrow> x = c \<or> (\<exists>p\<in>set (split_on c s). x \<in> set p)"
proof (induction s)
  case (Cons y s)
  obtain l ls where "split_on c s = l # ls" by (cases "split_on c s") auto
  with Cons show ?case by auto
qed simp

lemma valid_host_chars:
  assumes "is_valid_host h" "c \<in> set h"
  shows "resource_char c"
  using split_on_charD [OF assms(2), of "CHR ''.''"] assms(1)
  by (auto simp: is_valid_host_def valid_label_def list_all_iff resource_char_def is_segment_char_def)

lemma valid_resource_chars:
  assumes "valid_resource d s"
  shows "list_all resource_char s"
  unfolding list_all_iff
proof
  fix c assume c: "c \<in> set s"
  obtain h path where sp: "split_on CHR ''/'' s = h # path" by (cases "split_on CHR ''/'' s") auto
  with assms have h: "is_valid_host h" and path: "list_all valid_segment path"
    by (auto simp: valid_resource_def)
  from split_on_charD [OF c, of "CHR ''/''"] sp
  consider "c = CHR ''/''" | "c \<in> set h" | p where "p \<in> set path" "c \<in> set p" by auto
  then show "resource_char c"
    using valid_host_chars [OF h] path
    by cases (auto simp: resource_char_def list_all_iff valid_segment_def)
qed

lemma not_resource_colon: "\<not> resource_char CHR '':''"
  by (auto simp: resource_char_def is_segment_char_def is_ascii_lower_def is_ascii_digit_def
      in_range_def byte_of_def)

lemma split_once_None: "p \<noteq> [] \<Longrightarrow> hd p \<notin> set s \<Longrightarrow> split_once p s = None"
proof (induction s)
  case (Cons x s)
  then show ?case by (cases p) auto
qed simp

lemma resource_no_colon:
  assumes "list_all resource_char (to_ascii_lowercase raw)"
  shows "CHR '':'' \<notin> set raw"
proof
  assume "CHR '':'' \<in> set raw"
  moreover have "to_lower CHR '':'' = CHR '':''"
    by (simp add: to_lower_def is_ascii_upper_def in_range_def byte_of_def)
  ultimately have "resource_char CHR '':''"
    using assms by (force simp: to_ascii_lowercase_def list_all_iff)
  then show False using not_resource_colon by blast
qed

lemma find_None_concat:
  "list_all (list_all P) path \<Longrightarrow> find (\<lambda>c. \<not> P c) (concat path) = None"
  by (auto simp: find_None_iff list_all_iff)

lemma normalize_complete:
  assumes v: "valid_resource d (to_ascii_lowercase raw)"
  shows "normalize_resource_with_depth raw d = Inr (to_ascii_lowercase raw)"
proof -
  let ?l = "to_ascii_lowercase raw"
  obtain host path where sp: "split_on CHR ''/'' ?l = host # path"
    by (cases "split_on CHR ''/'' ?l") auto
  note chars = valid_resource_chars [OF v]
  have ne: "raw \<noteq> []" using v by (auto simp: valid_resource_def to_ascii_lowercase_def)
  note clean = lowered_resource_clean [OF ne chars]
  have colon: "CHR '':'' \<notin> set raw" using resource_no_colon [OF chars] .
  have scheme: "\<not> contains_sub ''://'' raw"
    using split_once_None [of "''://''" raw] colon by (simp add: contains_sub_def)
  from v sp have h: "looks_like_host host" "is_valid_host host" "path \<noteq> []" "length path \<le> d"
    and segs: "list_all valid_segment path" and len: "length raw \<le> MAX_RESOURCE_LEN"
    by (auto simp: valid_resource_def)
  have hn: "host \<noteq> []" using h(1) by (auto simp: looks_like_host_def)
  have port: "split_once '':'' host = None"
    using valid_host_chars [OF h(2)] not_resource_colon by (intro split_once_None) auto
  have none: "find (\<lambda>c. \<not> is_segment_char c) (concat path) = None"
    using segs by (intro find_None_concat) (auto simp: list_all_iff valid_segment_def)
  have seg: "s \<noteq> [] \<and> s \<noteq> ''.'' \<and> s \<noteq> ''..''" if "s \<in> set path" for s
    using segs that by (auto simp: list_all_iff valid_segment_def)
  have bad: "\<not> list_ex (\<lambda>s. s = []) path" "\<not> list_ex (\<lambda>s. s = ''.'' \<or> s = ''..'') path"
    "\<not> (length path = 1 \<and> hd path = [])"
    using seg h(3) by (auto simp: list_ex_iff dest: hd_in_set)
  show ?thesis
    using clean scheme hn port none bad h len
    by (simp add: normalize_resource_with_depth_def Let_def sp)
qed

lemma normalize_sound:
  assumes "normalize_resource_with_depth raw d = Inr r"
  shows "r = to_ascii_lowercase raw \<and> valid_resource d r"
proof -
  let ?l = "to_ascii_lowercase raw"
  obtain host path where sp: "split_on CHR ''/'' ?l = host # path"
    by (cases "split_on CHR ''/'' ?l") auto
  from assms have r: "r = ?l" and h: "looks_like_host host" "is_valid_host host"
    and p: "path \<noteq> []" "length path \<le> d"
    and ne: "\<not> list_ex (\<lambda>s. s = []) path" "\<not> list_ex (\<lambda>s. s = ''.'' \<or> s = ''..'') path"
    and ch: "find (\<lambda>c. \<not> is_segment_char c) (concat path) = None"
    and len: "length raw \<le> MAX_RESOURCE_LEN"
    by (simp_all add: normalize_resource_with_depth_def Let_def sp
        split: if_splits option.splits prod.splits)
  have "list_all valid_segment path"
    using ne ch by (auto simp: list_all_iff list_ex_iff valid_segment_def find_None_iff)
  with r h p len sp show ?thesis by (simp add: valid_resource_def)
qed

lemma normalize_iff:
  "normalize_resource_with_depth raw d = Inr r \<longleftrightarrow>
     r = to_ascii_lowercase raw \<and> valid_resource d r"
  using normalize_complete normalize_sound by blast

section \<open>Containment is the prefix order on segments\<close>

lemma join_append:
  "xs \<noteq> [] \<Longrightarrow> ys \<noteq> [] \<Longrightarrow> join sep (xs @ ys) = join sep xs @ sep @ join sep ys"
  by (induction xs rule: induct_list012) (auto simp: join_Cons)

lemma resource_contains_segments:
  "resource_contains a b \<longleftrightarrow> prefix (split_on CHR ''/'' a) (split_on CHR ''/'' b)"
proof
  assume "resource_contains a b"
  then consider "b = a" | r where "b = a @ CHR ''/'' # r"
    by (auto simp: resource_contains_def strip_prefix_Some_iff starts_with_prefix prefix_def
        split: option.splits)
  then show "prefix (split_on CHR ''/'' a) (split_on CHR ''/'' b)"
    by cases (simp_all add: split_on_append_sep)
next
  assume "prefix (split_on CHR ''/'' a) (split_on CHR ''/'' b)"
  then obtain zs where zs: "split_on CHR ''/'' b = split_on CHR ''/'' a @ zs"
    by (auto simp: prefix_def)
  show "resource_contains a b"
  proof (cases "zs = []")
    case True
    with zs have "b = a" by (metis append_Nil2 join_split_on)
    then show ?thesis
      using strip_prefix_append [of a "[]"] by (simp add: resource_contains_def)
  next
    case False
    have "b = join ''/'' (split_on CHR ''/'' a @ zs)" by (metis zs join_split_on)
    also have "\<dots> = a @ ''/'' @ join ''/'' zs" using False by (subst join_append) simp_all
    finally show ?thesis
      by (simp add: resource_contains_def starts_with_prefix)
  qed
qed

text \<open>
  What the rest of the program relies on when it asks whether a grant's scope covers a
  resource: scopes are ordered, and the scopes covering one resource form a chain. So two
  scopes of which neither contains the other never cover a common resource.
\<close>

locale scope_order =
  fixes contains :: "'s \<Rightarrow> 's \<Rightarrow> bool"
  assumes contains_self: "contains s s"
    and contains_trans: "contains a b \<Longrightarrow> contains b c \<Longrightarrow> contains a c"
    and contains_antisym: "contains a b \<Longrightarrow> contains b a \<Longrightarrow> a = b"
    and covering_chain: "contains a r \<Longrightarrow> contains b r \<Longrightarrow> contains a b \<or> contains b a"
begin

lemma unrelated_share_nothing:
  "\<not> contains a b \<Longrightarrow> \<not> contains b a \<Longrightarrow> contains a r \<Longrightarrow> \<not> contains b r"
  using covering_chain by blast

lemma widening_keeps: "contains wide narrow \<Longrightarrow> contains narrow r \<Longrightarrow> contains wide r"
  by (rule contains_trans)

lemma outside_stays_outside:
  "contains narrow r \<Longrightarrow> \<not> contains wide r \<Longrightarrow> \<not> contains wide narrow"
  using contains_trans by blast

end

interpretation grant_scope: scope_order resource_contains
proof
  fix a b c r :: string
  show "resource_contains a a" by (simp add: resource_contains_segments)
  show "resource_contains a b \<Longrightarrow> resource_contains b c \<Longrightarrow> resource_contains a c"
    unfolding resource_contains_segments by (rule prefix_order.trans)
  show "resource_contains a b \<Longrightarrow> resource_contains b a \<Longrightarrow> a = b"
    unfolding resource_contains_segments by (metis join_split_on prefix_order.antisym)
  show "resource_contains a r \<Longrightarrow> resource_contains b r \<Longrightarrow>
      resource_contains a b \<or> resource_contains b a"
    unfolding resource_contains_segments by (rule prefix_same_cases)
qed

section \<open>Properties\<close>

text \<open>C30: \<open>normalize_resource_with_depth\<close> succeeds exactly on the inputs whose lowercased form is
  in the documented grammar (a valid host, then between one and the allowed number of clean
  segments, at most 512 bytes), and its result is that lowercased form: no other repair is
  ever made, and nothing in the grammar is refused.
\<close>

theorem normalisation_is_the_grammar:
  "normalize_resource_with_depth raw d = Inr r \<longleftrightarrow>
     r = to_ascii_lowercase raw \<and> valid_resource d r"
  by (rule normalize_iff)

text \<open>normalisation is idempotent: a resource that was accepted once is accepted again
  unchanged, whatever spelling it came from.
\<close>

theorem normalisation_idempotent:
  assumes "normalize_resource raw = Inr r"
  shows "normalize_resource r = Inr r"
  using assms by (auto simp: normalize_resource_def normalize_iff)

theorem normalisation_idempotent_witness:
  "normalize_resource ''GitHub.com/Acme/Widgets'' = Inr ''github.com/acme/widgets''
   \<and> normalize_resource ''github.com/acme/widgets'' = Inr ''github.com/acme/widgets''"
proof -
  have h: "normalize_resource ''GitHub.com/Acme/Widgets'' = Inr ''github.com/acme/widgets''"
    by code_simp
  from h normalisation_idempotent [OF h] show ?thesis by simp
qed

text \<open>C31: \<open>resource_contains\<close>, a comparison of bytes, is whole-segment prefix containment: so
  \<open>github.com/acme\<close> does not contain \<open>github.com/acme-labs/x\<close>.
\<close>

theorem containment_is_segment_prefix:
  "resource_contains scope resource \<longleftrightarrow>
     prefix (split_on CHR ''/'' scope) (split_on CHR ''/'' resource)"
  by (rule resource_contains_segments)

text \<open>two scopes of which neither contains the other (two owners, or the same owner name on two
  forges) have no resource in common, so a grant under one never reaches a repository of the
  other.
\<close>

theorem unrelated_scopes_are_disjoint:
  assumes "\<not> resource_contains a b" "\<not> resource_contains b a" "resource_contains a r"
  shows "\<not> resource_contains b r"
  using assms by (rule grant_scope.unrelated_share_nothing)

theorem unrelated_scopes_are_disjoint_witness:
  "resource_contains ''github.com/acme'' ''github.com/acme/widgets''
   \<and> \<not> resource_contains ''codeberg.org/acme'' ''github.com/acme/widgets''"
proof -
  have "\<not> resource_contains ''github.com/acme'' ''codeberg.org/acme''"
    "\<not> resource_contains ''codeberg.org/acme'' ''github.com/acme''"
    and h: "resource_contains ''github.com/acme'' ''github.com/acme/widgets''"
    by code_simp+
  from unrelated_scopes_are_disjoint [OF this] h show ?thesis by simp
qed

end
