(* ===== verification/Forge_Error.thy ===== *)
theory Forge_Error
  imports Resource_Grammar
begin

text \<open>
  The error type every adapter returns, \<^verbatim>\<open>crates/vgi-forge/src/error.rs\<close>: its constructors,
  the retry decision and the operator message.
\<close>

type_synonym u8 = "8 word"
type_synonym u16 = "16 word"
type_synonym u32 = "32 word"
type_synonym u64 = "64 word"

definition show_word :: "'a::len word \<Rightarrow> string" where
  "show_word w = show_nat (unat w)"

datatype forge_error =
    InvalidResource resource_error
  | WrongResource (wrong_resource: string) (wrong_expected: string)
  | NotBound string
  | Unsupported string string
  | NotFound string
  | AlreadyExists string "u64 option"
  | Moved string string
  | Unauthorized string
  | Forbidden string
  | Rejected u16 string
  | RateLimited "u64 option"
  | Unavailable string
  | BindRejected string
  | LinkFailed string
  | WebhookError string
  | ConfigError string
  | Protocol string
  | CapabilityChanged string string bool string

definition is_retryable :: "forge_error \<Rightarrow> bool" where
  "is_retryable e = (case e of RateLimited _ \<Rightarrow> True | Unavailable _ \<Rightarrow> True | _ \<Rightarrow> False)"

definition show_bool :: "bool \<Rightarrow> string" where
  "show_bool b = (if b then ''true'' else ''false'')"

definition forge_error_display :: "forge_error \<Rightarrow> string" where
  "forge_error_display e =
     (case e of
        InvalidResource re \<Rightarrow> resource_error_display re
      | WrongResource r expected \<Rightarrow> ''resource `'' @ r @ ''`: expected '' @ expected
      | NotBound ns \<Rightarrow> ''namespace `'' @ ns
          @ ''` is not bound to this bridge; bind it before managing its repositories''
      | Unsupported operation hint \<Rightarrow> operation @ '' is not supported here: '' @ hint
      | NotFound what \<Rightarrow> what @ '': not found (or not visible)''
      | AlreadyExists r (Some fid) \<Rightarrow>
          ''`'' @ r @ ''` already exists (forge id '' @ show_word fid @ '')''
      | AlreadyExists r None \<Rightarrow> ''`'' @ r @ ''` already exists''
      | Moved what location \<Rightarrow>
          what @ '' has moved to '' @ location @ '' (renamed or transferred?)''
      | Unauthorized m \<Rightarrow> ''forge rejected the credentials: '' @ m
      | Forbidden m \<Rightarrow> ''forge refused the operation: '' @ m
      | Rejected st m \<Rightarrow> ''forge rejected the request ('' @ show_word st @ ''): '' @ m
      | RateLimited (Some secs) \<Rightarrow>
          ''rate-limited by the forge; retry in '' @ show_word secs @ ''s''
      | RateLimited None \<Rightarrow> ''rate-limited by the forge''
      | Unavailable m \<Rightarrow> ''forge unavailable: '' @ m
      | BindRejected m \<Rightarrow> ''namespace bind rejected: '' @ m
      | LinkFailed m \<Rightarrow> ''account link failed: '' @ m
      | WebhookError m \<Rightarrow> ''webhook rejected: '' @ m
      | ConfigError m \<Rightarrow> ''configuration error: '' @ m
      | Protocol m \<Rightarrow> ''unexpected forge response: '' @ m
      | CapabilityChanged ns capability available reason \<Rightarrow>
          ''`'' @ capability @ ''` is now '' @ show_bool available @ '' for `'' @ ns
          @ ''` ('' @ reason @ ''); plan again'')"

end
