(* ===== verification/Forge_Resource.thy ===== *)
theory Forge_Resource
  imports Forge_Error
begin

text \<open>
  The \<open>Resource\<close> newtype of \<^verbatim>\<open>crates/vgi-forge/src/resource.rs\<close>: a string that went through
  the grammar, with the owner/repo shape GitHub and Forgejo share. \<open>wf_resource\<close> is the
  invariant of the type; every constructor establishes it.
\<close>

definition OWNER_REPO_DEPTH :: nat where
  "OWNER_REPO_DEPTH = 2"

datatype resource = Resource (as_str: string)

definition lift_resource_error :: "resource_error + string \<Rightarrow> forge_error + string" where
  "lift_resource_error r = (case r of Inl e \<Rightarrow> Inl (InvalidResource e) | Inr s \<Rightarrow> Inr s)"

definition resource_parse :: "string \<Rightarrow> forge_error + resource" where
  "resource_parse raw =
     (case lift_resource_error (normalize_resource raw) of
        Inl e \<Rightarrow> Inl e
      | Inr s \<Rightarrow> Inr (Resource s))"

definition host :: "resource \<Rightarrow> string" where
  "host r = hd (split_on CHR ''/'' (as_str r))"

definition path_segments :: "resource \<Rightarrow> string list" where
  "path_segments r = drop 1 (split_on CHR ''/'' (as_str r))"

definition owner :: "resource \<Rightarrow> string" where
  "owner r = (case path_segments r of [] \<Rightarrow> [] | s # _ \<Rightarrow> s)"

definition is_namespace :: "resource \<Rightarrow> bool" where
  "is_namespace r \<longleftrightarrow> length (path_segments r) = 1"

definition repo_name :: "resource \<Rightarrow> string option" where
  "repo_name r =
     (if is_namespace r then None else Some (last (split_on CHR ''/'' (as_str r))))"

definition resource_namespace :: "resource \<Rightarrow> resource" where
  "resource_namespace r = Resource (host r @ ''/'' @ owner r)"

definition contains_resource :: "resource \<Rightarrow> resource \<Rightarrow> bool" where
  "contains_resource a b = resource_contains (as_str a) (as_str b)"

definition parse_owner_repo :: "string \<Rightarrow> forge_error + resource" where
  "parse_owner_repo raw =
     (case lift_resource_error (normalize_resource_with_depth raw OWNER_REPO_DEPTH) of
        Inl e \<Rightarrow> Inl e
      | Inr canonical \<Rightarrow>
          (case strip_suffix ''.git'' canonical of
             Some stem \<Rightarrow>
               if count_list canonical CHR ''/'' = 2
               then Inl (WrongResource canonical
                 (''a repository name without `.git`: `'' @ stem @ ''`''))
               else Inr (Resource canonical)
           | None \<Rightarrow> Inr (Resource canonical)))"

definition require_owner_repo :: "resource \<Rightarrow> forge_error + unit" where
  "require_owner_repo r =
     (case parse_owner_repo (as_str r) of
        Inl e \<Rightarrow> Inl e
      | Inr reparsed \<Rightarrow>
          if is_namespace reparsed
          then Inl (WrongResource (as_str r)
            ''a repository (`<host>/<owner>/<repo>`), not a namespace'')
          else Inr ())"

definition resource_namespace_of :: "string \<Rightarrow> string \<Rightarrow> forge_error + resource" where
  "resource_namespace_of h ow = parse_owner_repo (h @ ''/'' @ ow)"

definition resource_join :: "resource \<Rightarrow> string \<Rightarrow> forge_error + resource" where
  "resource_join r name =
     (if \<not> is_namespace r then
        Inl (WrongResource (as_str r)
          ''a namespace (`<forge-host>/<owner>`) to create a repository in'')
      else if CHR ''/'' \<in> set name then
        Inl (WrongResource (as_str r @ ''/'' @ name) ''a single repository name, without `/`'')
      else parse_owner_repo (as_str r @ ''/'' @ name))"

section \<open>The invariant of the type\<close>

definition wf_resource :: "resource \<Rightarrow> bool" where
  "wf_resource r \<longleftrightarrow>
     valid_resource MAX_PATH_SEGMENTS (as_str r) \<and> to_ascii_lowercase (as_str r) = as_str r"

lemma valid_resource_mono: "valid_resource d s \<Longrightarrow> d \<le> e \<Longrightarrow> valid_resource e s"
  by (auto simp: valid_resource_def Let_def)

lemma parse_wf: "resource_parse raw = Inr r \<Longrightarrow> wf_resource r"
  by (auto simp: resource_parse_def lift_resource_error_def wf_resource_def normalize_resource_def
      normalize_iff split: sum.splits)

lemma parse_owner_repo_Inr:
  "parse_owner_repo raw = Inr r \<Longrightarrow>
     as_str r = to_ascii_lowercase raw \<and> valid_resource OWNER_REPO_DEPTH (as_str r)"
  by (auto simp: parse_owner_repo_def lift_resource_error_def normalize_iff
      split: sum.splits option.splits if_splits)

lemma parse_owner_repo_wf: "parse_owner_repo raw = Inr r \<Longrightarrow> wf_resource r"
  by (drule parse_owner_repo_Inr)
    (auto simp: wf_resource_def OWNER_REPO_DEPTH_def MAX_PATH_SEGMENTS_def
      intro: valid_resource_mono [where d = 2])

lemma join_wf: "resource_join n name = Inr r \<Longrightarrow> wf_resource r"
  by (auto simp: resource_join_def split: if_splits dest: parse_owner_repo_wf)

lemma wf_resource_segments:
  assumes "wf_resource r"
  shows "\<exists>h o' ps. split_on CHR ''/'' (as_str r) = h # o' # ps"
proof -
  obtain h ps where sp: "split_on CHR ''/'' (as_str r) = h # ps"
    by (cases "split_on CHR ''/'' (as_str r)") auto
  with assms have "ps \<noteq> []" by (auto simp: wf_resource_def valid_resource_def Let_def)
  with sp show ?thesis by (cases ps) auto
qed

interpretation resource_scope: scope_order contains_resource
proof
  fix a b c r :: resource
  show "contains_resource a a"
    by (simp add: contains_resource_def grant_scope.contains_self)
  show "contains_resource a b \<Longrightarrow> contains_resource b c \<Longrightarrow> contains_resource a c"
    unfolding contains_resource_def by (rule grant_scope.contains_trans)
  show "contains_resource a b \<Longrightarrow> contains_resource b a \<Longrightarrow> a = b"
    unfolding contains_resource_def by (metis grant_scope.contains_antisym resource.expand)
  show "contains_resource a r \<Longrightarrow> contains_resource b r \<Longrightarrow>
      contains_resource a b \<or> contains_resource b a"
    unfolding contains_resource_def by (rule grant_scope.covering_chain)
qed

lemma split_lowercase:
  "split_on CHR ''/'' (to_ascii_lowercase s) = map to_ascii_lowercase (split_on CHR ''/'' s)"
proof -
  have slash: "to_lower x = CHR ''/'' \<longleftrightarrow> x = CHR ''/''" for x
  proof (cases "is_ascii_upper x")
    case True
    then have "byte_of (to_lower x) \<noteq> byte_of CHR ''/''" "x \<noteq> CHR ''/''"
      by (auto simp: to_lower_def is_ascii_upper_def in_range_def) (auto simp: byte_of_def)
    then show ?thesis by metis
  qed (simp add: to_lower_def)
  show ?thesis
  proof (induction s)
    case (Cons x s)
    obtain l ls where "split_on CHR ''/'' s = l # ls" by (cases "split_on CHR ''/'' s") auto
    with Cons show ?case by (simp add: to_ascii_lowercase_def slash)
  qed (simp add: to_ascii_lowercase_def)
qed

lemma namespace_segments:
  assumes "wf_resource r"
  shows "split_on CHR ''/'' (as_str (resource_namespace r)) = [host r, owner r]"
proof -
  from wf_resource_segments [OF assms] obtain h ow ps
    where sp: "split_on CHR ''/'' (as_str r) = h # ow # ps" by blast
  then have "CHR ''/'' \<notin> set h" "CHR ''/'' \<notin> set ow"
    using split_on_no_sep [of _ "CHR ''/''" "as_str r"] by auto
  then show ?thesis
    using split_on_append_sep [of "CHR ''/''" h ow] sp
    by (simp add: resource_namespace_def host_def owner_def path_segments_def split_on_id)
qed

lemma namespace_contains: "wf_resource r \<Longrightarrow> contains_resource (resource_namespace r) r"
  using wf_resource_segments [of r] namespace_segments [of r]
  by (auto simp: contains_resource_def resource_contains_segments host_def owner_def path_segments_def)

lemma join_segments:
  assumes "resource_join n name = Inr r" "wf_resource n"
  shows "split_on CHR ''/'' (as_str r) = [host n, owner n, to_ascii_lowercase name]"
proof -
  from assms(1) have ns: "is_namespace n" and name: "CHR ''/'' \<notin> set name"
    and r: "as_str r = to_ascii_lowercase (as_str n @ ''/'' @ name)"
    by (auto simp: resource_join_def split: if_splits dest: parse_owner_repo_Inr)
  from wf_resource_segments [OF assms(2)] ns obtain h ow
    where sp: "split_on CHR ''/'' (as_str n) = [h, ow]"
    by (auto simp: is_namespace_def path_segments_def)
  have low: "map to_ascii_lowercase [h, ow] = [h, ow]"
    using assms(2) split_lowercase [of "as_str n"] sp by (simp add: wf_resource_def)
  have "split_on CHR ''/'' (as_str n @ ''/'' @ name) = [h, ow, name]"
    using split_on_append_sep [of "CHR ''/''" "as_str n" name] sp name by (simp add: split_on_id)
  with r low sp show ?thesis
    by (simp only: split_lowercase) (simp add: host_def owner_def path_segments_def)
qed

section \<open>Properties\<close>

text \<open>a repository joined onto a namespace lies in that namespace and nowhere else: it is a
  well-formed resource, its namespace is the one it was created in, its name is the requested
  one lowercased, and any scope that covers it either covers the whole namespace or is inside it.
\<close>

theorem join_stays_in_its_namespace:
  assumes "wf_resource n" "resource_join n name = Inr r"
  shows "wf_resource r \<and> resource_namespace r = n \<and> repo_name r = Some (to_ascii_lowercase name)
     \<and> contains_resource n r
     \<and> (contains_resource s r \<longrightarrow> contains_resource s n \<or> contains_resource n s)"
proof -
  note segs = join_segments [OF assms(2,1)]
  have wf: "wf_resource r" by (rule join_wf [OF assms(2)])
  have h: "host r = host n" "owner r = owner n"
    using segs by (simp_all add: host_def owner_def path_segments_def)
  have ns: "is_namespace n" using assms(2) by (auto simp: resource_join_def split: if_splits)
  from wf_resource_segments [OF assms(1)] ns
  have two: "split_on CHR ''/'' (as_str n) = [host n, owner n]"
    by (auto simp: is_namespace_def path_segments_def host_def owner_def)
  have "as_str (resource_namespace r) = as_str n"
    using namespace_segments [OF wf] two h by (metis join_split_on)
  then have nr: "resource_namespace r = n" by (rule resource.expand)
  have c: "contains_resource n r" using namespace_contains [OF wf] nr by simp
  show ?thesis
    using wf nr c segs resource_scope.covering_chain [OF _ c, of s]
    by (auto simp: repo_name_def is_namespace_def path_segments_def)
qed

theorem join_stays_in_its_namespace_witness:
  "resource_join (Resource ''github.com/acme'') ''Widgets'' = Inr (Resource ''github.com/acme/widgets'')
   \<and> resource_namespace (Resource ''github.com/acme/widgets'') = Resource ''github.com/acme''"
proof -
  have w: "wf_resource (Resource ''github.com/acme'')"
    and j: "resource_join (Resource ''github.com/acme'') ''Widgets''
      = Inr (Resource ''github.com/acme/widgets'')"
    by code_simp+
  from join_stays_in_its_namespace [OF w j] j show ?thesis by blast
qed

end
