(* ===== verification/CI_Resource.thy ===== *)
theory CI_Resource
  imports Resource_Grammar
begin

text \<open>
  The resource a verify-trust run is checked under, \<^verbatim>\<open>crates/verify-trust/src/resource.rs\<close>:
  what the CI environment says about the repository, the derived default, and the selection of
  the primary and the fallback resource. Errors are the operator messages.
\<close>

datatype resource_format = Qualified

definition resource_format_display :: "resource_format \<Rightarrow> string" where
  "resource_format_display f = (case f of Qualified \<Rightarrow> ''qualified'')"

definition LEGACY_REMOVED :: string where
  "LEGACY_REMOVED = ''`legacy` (bare `owner/repo` resources) was removed in ''
     @ ''verify-trust 0.8.0: write the registry grants as `<forge-host>/<owner>[/<repo>]` ''
     @ ''(e.g. `github.com/acme/widgets`, org grant `github.com/acme`) '' @ em_dash
     @ '' the form the VTC writes '' @ em_dash
     @ '' and drop `resource-format: legacy` (or --resource-format legacy). Until the grants ''
     @ ''are reissued, pin verify-trust v0.7.x.''"

definition resource_format_from_str :: "string \<Rightarrow> string + resource_format" where
  "resource_format_from_str s =
     (if s = ''qualified'' then Inr Qualified
      else if s = ''legacy'' then Inl LEGACY_REMOVED
      else Inl (''unknown resource format `'' @ s @ ''`: the only one is `qualified`''))"

record ci_env =
  forgejo_server_url :: "string option"
  forgejo_repository :: "string option"
  github_server_url :: "string option"
  github_repository :: "string option"

definition ci_from_lookup :: "(string \<Rightarrow> string option) \<Rightarrow> ci_env" where
  "ci_from_lookup lookup =
     \<lparr>forgejo_server_url = lookup ''FORGEJO_SERVER_URL'',
      forgejo_repository = lookup ''FORGEJO_REPOSITORY'',
      github_server_url = lookup ''GITHUB_SERVER_URL'',
      github_repository = lookup ''GITHUB_REPOSITORY''\<rparr>"

definition nonempty_pair :: "string option \<Rightarrow> string option \<Rightarrow> (string \<times> string) option" where
  "nonempty_pair url repo =
     (case url of
        Some u \<Rightarrow> (if u = [] then None else
          (case repo of
             Some r \<Rightarrow> (if r = [] then None else Some (u, r))
           | None \<Rightarrow> None))
      | None \<Rightarrow> None)"

definition detected :: "ci_env \<Rightarrow> (string \<times> string \<times> string) option" where
  "detected ci =
     (case nonempty_pair (forgejo_server_url ci) (forgejo_repository ci) of
        Some (url, repo) \<Rightarrow> Some (''FORGEJO_SERVER_URL + FORGEJO_REPOSITORY'', url, repo)
      | None \<Rightarrow>
          (case nonempty_pair (github_server_url ci) (github_repository ci) of
             Some (url, repo) \<Rightarrow> Some (''GITHUB_SERVER_URL + GITHUB_REPOSITORY'', url, repo)
           | None \<Rightarrow> None))"

definition forge_host_of :: "string \<Rightarrow> string option" where
  "forge_host_of url =
     (let rest = (case split_once ''://'' url of None \<Rightarrow> url | Some (_, r) \<Rightarrow> r);
          authority = hd (split_any (\<lambda>c. c \<in> {CHR ''/'', CHR ''?'', CHR ''#''}) rest);
          host_port = (case rsplit_once CHR 0x40 authority of
            None \<Rightarrow> authority | Some (_, h) \<Rightarrow> h);
          h = hd (split_on CHR '':'' host_port)
      in if h = [] then None else Some (to_ascii_lowercase h))"

definition ci_forge_host :: "ci_env \<Rightarrow> string option" where
  "ci_forge_host ci =
     find_map (\<lambda>u. case u of None \<Rightarrow> None | Some url \<Rightarrow> forge_host_of url)
       [forgejo_server_url ci, github_server_url ci]"

definition normalize_qualified :: "string \<Rightarrow> string \<Rightarrow> ci_env \<Rightarrow> string + string" where
  "normalize_qualified what value ci =
     (case normalize_resource value of
        Inr canonical \<Rightarrow> Inr canonical
      | Inl e \<Rightarrow>
          if err_kind e = MissingForgeHost then
            (let bare = to_ascii_lowercase (trim_by (\<lambda>c. c = CHR ''/'') value);
                 fix_it = (case ci_forge_host ci of
                   Some d \<Rightarrow> ''did you mean `'' @ d @ ''/'' @ bare @ ''`?''
                 | None \<Rightarrow> ''prefix the forge host, e.g. `github.com/'' @ bare @ ''`'')
             in Inl (what @ '' `'' @ value
               @ ''` is not forge-qualified (--resource-format qualified expects ''
               @ ''`<forge-host>/<owner>[/<repo>]`); '' @ fix_it))
          else Inl (resource_error_describe e what))"

definition qualified_resource :: "ci_env \<Rightarrow> string + string option" where
  "qualified_resource ci =
     (case detected ci of
        None \<Rightarrow> Inr None
      | Some (source, url, repo) \<Rightarrow>
          (case forge_host_of url of
             None \<Rightarrow> Inl (''cannot read a forge host from '' @ source @ '' (`'' @ url @ ''`)'')
           | Some h \<Rightarrow>
               (case normalize_qualified (''resource derived from '' @ source)
                       (h @ ''/'' @ repo) ci of
                  Inl e \<Rightarrow> Inl e
                | Inr r \<Rightarrow> Inr (Some r))))"

definition namespace_of :: "string \<Rightarrow> string" where
  "namespace_of r = join ''/'' (take 2 (split_on CHR ''/'' r))"

definition RESOURCE_REQUIRED :: string where
  "RESOURCE_REQUIRED = ''--resource is required: no CI environment detected to derive it from ''
     @ ''(FORGEJO_SERVER_URL + FORGEJO_REPOSITORY, or GITHUB_SERVER_URL + ''
     @ ''GITHUB_REPOSITORY); pass e.g. `--resource github.com/acme/widgets`''"

definition select_primary :: "string option \<Rightarrow> ci_env \<Rightarrow> string + string" where
  "select_primary res ci =
     (case res of
        Some value \<Rightarrow> normalize_qualified ''--resource'' value ci
      | None \<Rightarrow>
          (case qualified_resource ci of
             Inl e \<Rightarrow> Inl e
           | Inr None \<Rightarrow> Inl RESOURCE_REQUIRED
           | Inr (Some r) \<Rightarrow> Inr r))"

definition select_resources ::
  "resource_format \<Rightarrow> string option \<Rightarrow> string option \<Rightarrow> ci_env \<Rightarrow> string + (string \<times> string option)"
where
  "select_resources format res fallback_resource ci =
     (case format of Qualified \<Rightarrow>
       (case select_primary res ci of
          Inl e \<Rightarrow> Inl e
        | Inr r \<Rightarrow>
            (case fallback_resource of
               None \<Rightarrow> Inr (r, None)
             | Some value \<Rightarrow>
                 (case normalize_qualified ''--fallback-resource'' value ci of
                    Inl e \<Rightarrow> Inl e
                  | Inr fallback \<Rightarrow>
                      if \<not> resource_contains fallback r then
                        Inl (''--fallback-resource `'' @ fallback
                          @ ''` does not contain --resource `'' @ r
                          @ ''`: the fallback must be the namespace the repository sits in (e.g. `''
                          @ namespace_of r @ ''`), never another owner's or another forge's'')
                      else Inr (r, Some fallback)))))"

section \<open>Lemmas\<close>

lemma normalize_qualified_Inr:
  "normalize_qualified what value ci = Inr r \<longleftrightarrow> normalize_resource value = Inr r"
  by (auto simp: normalize_qualified_def Let_def split: sum.splits if_splits)

lemma qualified_resource_normalized:
  "qualified_resource ci = Inr (Some r) \<Longrightarrow> \<exists>v. normalize_resource v = Inr r"
  by (auto simp: qualified_resource_def normalize_qualified_Inr
      split: option.splits prod.splits sum.splits)

lemma select_primary_normalized:
  "select_primary res ci = Inr r \<Longrightarrow> \<exists>v. normalize_resource v = Inr r"
  by (auto simp: select_primary_def normalize_qualified_Inr
      split: option.splits sum.splits dest: qualified_resource_normalized)

lemma select_resources_Inr:
  assumes "select_resources format res fb ci = Inr (r, fo)"
  shows "select_primary res ci = Inr r"
    and "fo = Some f \<Longrightarrow> resource_contains f r \<and> (\<exists>v. fb = Some v \<and> normalize_resource v = Inr f)"
    and "fo = None \<longleftrightarrow> fb = None"
  using assms
  by (auto simp: select_resources_def normalize_qualified_Inr
      split: sum.splits option.splits if_splits resource_format.splits)

section \<open>Properties\<close>

text \<open>whatever the flags and the CI environment say, the resources a run queries are in the
  grammar, and a fallback always contains the primary resource. So a scope unrelated to the
  repository (another owner, another forge) is never queried as the fallback.
\<close>

theorem selected_fallback_contains_primary:
  assumes "select_resources format res fb ci = Inr (r, fo)"
  shows "valid_resource MAX_PATH_SEGMENTS r
     \<and> (fo = Some f \<longrightarrow> valid_resource MAX_PATH_SEGMENTS f \<and> resource_contains f r)
     \<and> (\<not> resource_contains other r \<longrightarrow> fo \<noteq> Some other)"
  using select_resources_Inr [OF assms] select_primary_normalized [of res ci r]
  by (auto simp: normalize_resource_def normalize_iff)

theorem selected_fallback_contains_primary_witness:
  "select_resources Qualified (Some ''github.com/acme/widgets'') (Some ''github.com/acme'')
     (ci_from_lookup (\<lambda>_. None)) = Inr (''github.com/acme/widgets'', Some ''github.com/acme'')
   \<and> resource_contains ''github.com/acme'' ''github.com/acme/widgets''"
proof -
  have h: "select_resources Qualified (Some ''github.com/acme/widgets'') (Some ''github.com/acme'')
     (ci_from_lookup (\<lambda>_. None)) = Inr (''github.com/acme/widgets'', Some ''github.com/acme'')"
    by code_simp
  from selected_fallback_contains_primary [OF h] h show ?thesis by blast
qed

text \<open>in CI with no \<open>--resource\<close>, the resource is the forge host of the server URL followed by
  the repository, normalised, with Forgejo's pair of variables taken before GitHub's and never
  a mix of the two.
\<close>

theorem ci_default_resource:
  assumes "select_primary None ci = Inr r"
  shows "\<exists>source url repo h. detected ci = Some (source, url, repo) \<and> forge_host_of url = Some h
     \<and> normalize_resource (h @ ''/'' @ repo) = Inr r
     \<and> ((forgejo_server_url ci = Some url \<and> forgejo_repository ci = Some repo)
        \<or> (github_server_url ci = Some url \<and> github_repository ci = Some repo
           \<and> nonempty_pair (forgejo_server_url ci) (forgejo_repository ci) = None))"
proof -
  from assms have "qualified_resource ci = Inr (Some r)"
    by (auto simp: select_primary_def split: sum.splits option.splits)
  then obtain source url repo h where "detected ci = Some (source, url, repo)"
      "forge_host_of url = Some h" "normalize_resource (h @ ''/'' @ repo) = Inr r"
    by (auto simp: qualified_resource_def normalize_qualified_Inr
        split: option.splits prod.splits sum.splits)
  moreover from this(1) have
    "(forgejo_server_url ci = Some url \<and> forgejo_repository ci = Some repo)
     \<or> (github_server_url ci = Some url \<and> github_repository ci = Some repo
        \<and> nonempty_pair (forgejo_server_url ci) (forgejo_repository ci) = None)"
    by (auto simp: detected_def nonempty_pair_def split: option.splits if_splits prod.splits)
  ultimately show ?thesis by blast
qed

theorem ci_default_resource_witness:
  "\<exists>url. github_server_url \<lparr>forgejo_server_url = None, forgejo_repository = Some ''x/y'',
      github_server_url = Some ''https://github.com'',
      github_repository = Some ''Acme/Widgets''\<rparr> = Some url \<and> forge_host_of url = Some ''github.com''"
proof -
  let ?ci = "\<lparr>forgejo_server_url = None, forgejo_repository = Some ''x/y'',
      github_server_url = Some ''https://github.com'', github_repository = Some ''Acme/Widgets''\<rparr>"
  have h: "select_primary None ?ci = Inr ''github.com/acme/widgets''" by code_simp
  have "forge_host_of ''https://github.com'' = Some ''github.com''" by code_simp
  with ci_default_resource [OF h] show ?thesis by simp
qed

end
