(* ===== verification/Commit_Object.thy ===== *)
theory Commit_Object
  imports Prelude
begin

text \<open>
  Git commit objects, \<^verbatim>\<open>crates/vgi-core/src/commit.rs\<close>: the signed payload and the armored
  signature of a raw commit, the canonical armor, the identity on the \<open>committer\<close> header, and
  the \<open>Signed-by-DID:\<close> trailer found with git's own trailer-block rules. The three
  \<open>did:scid\<close> helpers come from the \<open>affinidi-did-common\<close> crate, which is not part of the
  repository: they are the fields of \<open>scid_lib\<close>, an argument of every operation that uses them.
\<close>

section \<open>The armor\<close>

definition ARMOR_BEGIN :: string where
  "ARMOR_BEGIN = ''-----BEGIN SSH SIGNATURE-----'' @ [newline]"

definition ARMOR_END :: string where
  "ARMOR_END = ''-----END SSH SIGNATURE-----'' @ [newline]"

definition armor_body :: "string \<Rightarrow> string" where
  "armor_body pem = concat (map trim (filter (\<lambda>l. \<not> starts_with ''-----'' l) (lines pem)))"

definition normalize_sshsig_armor :: "string \<Rightarrow> string" where
  "normalize_sshsig_armor pem =
     ARMOR_BEGIN
     @ concat (map (\<lambda>chunk. utf8_lossy chunk @ [newline]) (chunks 70 (armor_body pem)))
     @ ARMOR_END"

section \<open>Payload and signature\<close>

datatype header_kind = Signature | OtherSignature | Kept

text \<open>
  The loop over the header lines: \<open>split_headers current lines\<close> returns the kept headers and
  the signature's lines. A continuation line belongs to the header before it and is tested
  before any header name.
\<close>

fun split_headers :: "header_kind \<Rightarrow> string list \<Rightarrow> string list \<times> string list" where
  "split_headers current [] = ([], [])"
| "split_headers current (line # ls) =
     (if current = Signature \<and> starts_with '' '' line then
        (let (kept, sig) = split_headers current ls in (kept, tl line # sig))
      else (case strip_prefix ''gpgsig '' line of
        Some first \<Rightarrow> (let (kept, sig) = split_headers Signature ls in (kept, first # sig))
      | None \<Rightarrow>
          if starts_with ''gpgsig'' line \<or> (current = OtherSignature \<and> starts_with '' '' line)
          then split_headers OtherSignature ls
          else (let (kept, sig) = split_headers Kept ls in (line # kept, sig))))"

abbreviation (input) blank_line :: string where
  "blank_line \<equiv> [newline, newline]"

definition split_signed_commit :: "string \<Rightarrow> string + (string \<times> string) option" where
  "split_signed_commit raw =
     (if \<not> utf8_valid raw then Inl ''commit object is not UTF-8''
      else (case split_once blank_line raw of
        None \<Rightarrow> Inl ''malformed commit object: no header/body separator''
      | Some (headers, body) \<Rightarrow>
          (let (kept, sig) = split_headers Kept (split_on newline headers) in
           if sig = [] then Inr None
           else Inr (Some (join [newline] kept @ blank_line @ body,
                           join [newline] sig @ [newline])))))"

section \<open>The committer's claim\<close>

record scid_lib =
  scid_src :: "string \<Rightarrow> string option"
  scid_same_reference :: "string \<Rightarrow> string \<Rightarrow> bool"
  scid_strip_src :: "string \<Rightarrow> string"

definition committer_identity :: "string \<Rightarrow> string option" where
  "committer_identity commit =
     (if \<not> utf8_valid commit then None
      else
        let headers = (case split_once blank_line commit of None \<Rightarrow> commit | Some (h, _) \<Rightarrow> h) in
        case find_map (strip_prefix ''committer '') (split_on newline headers) of
          None \<Rightarrow> None
        | Some line \<Rightarrow>
            (case rposition (\<lambda>c. c = CHR ''<'') line of
               None \<Rightarrow> None
             | Some open_at \<Rightarrow>
                 (case position (\<lambda>c. c = CHR ''>'') (drop open_at line) of
                    None \<Rightarrow> None
                  | Some n \<Rightarrow> Some (take (n - 1) (drop (open_at + 1) line)))))"

definition claimed_did :: "scid_lib \<Rightarrow> string \<Rightarrow> string" where
  "claimed_did lib value =
     (let reference = hd (split_on CHR ''#'' value) in
      if scid_src lib reference \<noteq> None then reference
      else hd (split_any (\<lambda>c. c \<in> {CHR ''#'', CHR ''?'', CHR ''/''}) value))"

definition committer_did :: "scid_lib \<Rightarrow> string \<Rightarrow> string option" where
  "committer_did lib commit =
     (case committer_identity commit of
        None \<Rightarrow> None
      | Some identity \<Rightarrow>
          if \<not> starts_with ''did:'' identity then None
          else (let did = claimed_did lib identity in if did = [] then None else Some did))"

definition same_signer :: "scid_lib \<Rightarrow> string \<Rightarrow> string \<Rightarrow> bool" where
  "same_signer lib a b = scid_same_reference lib a b"

definition signer_identity :: "scid_lib \<Rightarrow> string \<Rightarrow> string" where
  "signer_identity lib did = scid_strip_src lib (hd (split_on CHR ''#'' did))"

section \<open>The trailer block\<close>

definition SIGNER_DID_KEY :: string where
  "SIGNER_DID_KEY = ''Signed-by-DID''"

definition COMMENT_PREFIX :: string where
  "COMMENT_PREFIX = ''#''"

definition GIT_GENERATED_PREFIXES :: "string list" where
  "GIT_GENERATED_PREFIXES = [''Signed-off-by: '', ''(cherry picked from commit '']"

definition is_blank :: "string \<Rightarrow> bool" where
  "is_blank line \<longleftrightarrow> trim_ascii line = []"

definition starts_ws :: "string \<Rightarrow> bool" where
  "starts_ws line \<longleftrightarrow> line \<noteq> [] \<and> is_ascii_ws (hd line)"

definition is_comment :: "string \<Rightarrow> bool" where
  "is_comment line \<longleftrightarrow> starts_with COMMENT_PREFIX line"

definition git_generated :: "string \<Rightarrow> bool" where
  "git_generated line \<longleftrightarrow> list_ex (\<lambda>p. starts_with p line) GIT_GENERATED_PREFIXES"

fun separator_scan :: "nat \<Rightarrow> bool \<Rightarrow> string \<Rightarrow> nat option" where
  "separator_scan offset whitespace_found [] = None"
| "separator_scan offset whitespace_found (c # cs) =
     (if c = CHR '':'' then (if 1 \<le> offset then Some offset else None)
      else if \<not> whitespace_found \<and> (is_ascii_alnum c \<or> c = CHR ''-'')
      then separator_scan (Suc offset) whitespace_found cs
      else if offset \<noteq> 0 \<and> (c = CHR '' '' \<or> c = CHR 0x09)
      then separator_scan (Suc offset) True cs
      else None)"

definition separator_pos :: "string \<Rightarrow> nat option" where
  "separator_pos line = separator_scan 0 False line"

record block_scan =
  recognized_prefix :: bool
  trailer_lines :: nat
  non_trailer_lines :: nat
  possible_continuation_lines :: nat
  only_spaces :: bool

definition block_scan_init :: block_scan where
  "block_scan_init = \<lparr>recognized_prefix = False, trailer_lines = 0, non_trailer_lines = 0,
     possible_continuation_lines = 0, only_spaces = True\<rparr>"

text \<open>One non-blank, non-comment line of the backward scan.\<close>

definition scan_line :: "string \<Rightarrow> block_scan \<Rightarrow> block_scan" where
  "scan_line line st =
     (let st = st\<lparr>only_spaces := False\<rparr> in
      if git_generated line then
        st\<lparr>trailer_lines := trailer_lines st + 1, possible_continuation_lines := 0,
           recognized_prefix := True\<rparr>
      else if separator_pos line \<noteq> None then
        st\<lparr>trailer_lines := trailer_lines st + 1, possible_continuation_lines := 0\<rparr>
      else if starts_ws line then
        st\<lparr>possible_continuation_lines := possible_continuation_lines st + 1\<rparr>
      else
        st\<lparr>non_trailer_lines := non_trailer_lines st + 1 + possible_continuation_lines st,
           possible_continuation_lines := 0\<rparr>)"

text \<open>The loop \<open>for index in (end_of_title..lines.len()).rev()\<close>, over indexed lines.\<close>

fun block_scan_loop :: "block_scan \<Rightarrow> (nat \<times> string) list \<Rightarrow> nat option" where
  "block_scan_loop st [] = None"
| "block_scan_loop st ((index, line) # rest) =
     (if is_comment line then
        block_scan_loop
          (st\<lparr>non_trailer_lines := non_trailer_lines st + possible_continuation_lines st,
              possible_continuation_lines := 0\<rparr>) rest
      else if is_blank line then
        (if only_spaces st then block_scan_loop st rest
         else
           let non_trailer = non_trailer_lines st + possible_continuation_lines st in
           if recognized_prefix st \<and> non_trailer \<le> trailer_lines st * 3 then Some (index + 1)
           else if 0 < trailer_lines st \<and> non_trailer = 0 then Some (index + 1)
           else None)
      else block_scan_loop (scan_line line st) rest)"

definition trailer_block_start :: "string list \<Rightarrow> nat option" where
  "trailer_block_start ls =
     (case position (\<lambda>l. \<not> is_comment l \<and> is_blank l) ls of
        None \<Rightarrow> None
      | Some end_of_title \<Rightarrow>
          block_scan_loop block_scan_init (rev (drop end_of_title (enumerate 0 ls))))"

function unfold_lines :: "string \<Rightarrow> string" where
  "unfold_lines rest =
     (case split_once [newline] rest of
        None \<Rightarrow> rest
      | Some (a, b) \<Rightarrow> a @ '' '' @ unfold_lines (trim_ascii_start b))"
  by pat_completeness auto
termination
proof (relation "measure length", goal_cases)
  case (2 rest x a b)
  then have "length b < length rest" by (auto dest: split_once_SomeD)
  moreover have "length (trim_ascii_start b) \<le> length b"
    by (simp add: trim_start_by_def length_dropWhile_le)
  ultimately show ?case by simp
qed simp

declare unfold_lines.simps [simp del]

definition unfold_value :: "string \<Rightarrow> string" where
  "unfold_value value = trim_ascii (unfold_lines value)"

text \<open>
  The walk over the block: \<open>opened\<close> is whether an entry is open for continuation lines and
  whether it is the one being looked for.
\<close>

fun trailer_walk :: "string \<Rightarrow> string option \<Rightarrow> bool option \<Rightarrow> string list \<Rightarrow> string option" where
  "trailer_walk key value opened [] = value"
| "trailer_walk key value opened (line # ls) =
     (if opened \<noteq> None \<and> starts_ws line then
        trailer_walk key
          (if opened = Some True then map_option (\<lambda>v. v @ newline # line) value else value)
          opened ls
      else (case separator_pos line of
        Some pos \<Rightarrow>
          (let matched = eq_ignore_ascii_case (trim_ascii (take pos line)) key in
           trailer_walk key (if matched then Some (drop (pos + 1) line) else value)
             (Some matched) ls)
      | None \<Rightarrow> trailer_walk key value None ls))"

definition message_lines :: "string \<Rightarrow> string list" where
  "message_lines message =
     (let ls = split_on newline message;
          ls = (if last ls = [] then butlast ls else ls)
      in dropWhile is_blank ls)"

definition last_trailer_value :: "string \<Rightarrow> string \<Rightarrow> string option" where
  "last_trailer_value message key =
     (let ls = message_lines message in
      case trailer_block_start ls of
        None \<Rightarrow> None
      | Some start \<Rightarrow>
          map_option (\<lambda>v. unfold_value (trim_ascii v)) (trailer_walk key None None (drop start ls)))"

definition trailer_did :: "scid_lib \<Rightarrow> string \<Rightarrow> string option" where
  "trailer_did lib commit =
     (if \<not> utf8_valid commit then None
      else (case split_once blank_line commit of
        None \<Rightarrow> None
      | Some (_, message) \<Rightarrow>
          (case last_trailer_value message SIGNER_DID_KEY of
             None \<Rightarrow> None
           | Some value \<Rightarrow>
               (let value = trim_ascii value in
                if \<not> starts_with ''did:'' value then None else Some (claimed_did lib value)))))"

definition signer_did :: "scid_lib \<Rightarrow> string \<Rightarrow> string option" where
  "signer_did lib commit =
     (case trailer_did lib commit of Some d \<Rightarrow> Some d | None \<Rightarrow> committer_did lib commit)"

definition conflicting_signer_dids :: "scid_lib \<Rightarrow> string \<Rightarrow> (string \<times> string) option" where
  "conflicting_signer_dids lib commit =
     (case trailer_did lib commit of
        None \<Rightarrow> None
      | Some trailer \<Rightarrow>
          (case committer_did lib commit of
             None \<Rightarrow> None
           | Some committer \<Rightarrow>
               if \<not> same_signer lib trailer committer then Some (trailer, committer) else None))"

section \<open>Header blocks\<close>

definition header_line :: "string \<Rightarrow> bool" where
  "header_line l \<longleftrightarrow> l \<noteq> [] \<and> newline \<notin> set l"

definition commit_text :: "string list \<Rightarrow> string \<Rightarrow> string" where
  "commit_text hs body = join [newline] hs @ blank_line @ body"

fun double_newline :: "string \<Rightarrow> bool" where
  "double_newline (a # b # s) = ((a = newline \<and> b = newline) \<or> double_newline (b # s))"
| "double_newline _ = False"

lemma double_newline_append:
  "newline \<notin> set x \<Longrightarrow> double_newline (x @ newline # t) = (double_newline t \<or> (t \<noteq> [] \<and> hd t = newline))"
proof (induction x)
  case Nil
  then show ?case by (cases t) auto
next
  case (Cons c x)
  then show ?case by (cases "x @ newline # t") auto
qed

lemma join_no_double_newline:
  "(\<forall>l\<in>set (tl ls). header_line l) \<Longrightarrow> (\<forall>l\<in>set ls. newline \<notin> set l) \<Longrightarrow>
     \<not> double_newline (join [newline] ls @ [newline])"
proof (induction ls rule: induct_list012)
  case (2 x)
  then show ?case by (simp add: double_newline_append)
next
  case (3 x y zs)
  have "hd (join [newline] (y # zs) @ [newline]) \<noteq> newline"
    using 3 by (cases y; cases zs) (auto simp: header_line_def)
  moreover have "\<not> double_newline (join [newline] (y # zs) @ [newline])" using 3 by auto
  ultimately show ?case using 3 by (simp add: double_newline_append)
qed simp

lemma split_once_blank:
  "\<not> double_newline (h @ [newline]) \<Longrightarrow> split_once blank_line (h @ blank_line @ b) = Some (h, b)"
proof (induction h)
  case (Cons x h)
  have "\<not> double_newline (h @ [newline])" using Cons.prems by (cases h) auto
  then have "split_once blank_line (h @ blank_line @ b) = Some (h, b)" by (rule Cons.IH)
  moreover have "strip_prefix blank_line (x # h @ blank_line @ b) = None"
    using Cons.prems by (cases h) auto
  ultimately show ?case by simp
qed simp

lemma split_once_blank_lines:
  assumes "split_once blank_line s = Some (h, b)"
  shows "\<not> double_newline (h @ [newline])"
  using assms
proof (induction s arbitrary: h)
  case (Cons x s)
  show ?case
  proof (cases "strip_prefix blank_line (x # s)")
    case None
    with Cons.prems obtain h' where h: "h = x # h'" "split_once blank_line s = Some (h', b)"
      by (auto split: prod.splits)
    from split_once_SomeD [OF h(2)] None have "\<not> (x = newline \<and> hd (h' @ [newline]) = newline)"
      by (cases h') auto
    with Cons.IH [OF h(2)] h(1) show ?thesis by (cases h') auto
  qed (use Cons.prems in auto)
qed simp

lemma commit_text_split:
  assumes "\<forall>l\<in>set (tl hs). header_line l" "\<forall>l\<in>set hs. newline \<notin> set l"
  shows "split_once blank_line (commit_text hs body) = Some (join [newline] hs, body)"
  unfolding commit_text_def by (rule split_once_blank [OF join_no_double_newline [OF assms]])

section \<open>UTF-8 is decided line by line\<close>

lemma ascii_not_continuation:
  "is_ascii_char n \<Longrightarrow> \<not> cont n" "is_ascii_char n \<Longrightarrow> \<not> second_of_three a n"
  "is_ascii_char n \<Longrightarrow> \<not> second_of_four a n"
  by (auto simp: is_ascii_char_def cont_def in_range_def second_of_three_def second_of_four_def)

lemma utf8_valid_ascii_sep:
  assumes n: "is_ascii_char n"
  shows "utf8_valid (a @ n # b) \<longleftrightarrow> utf8_valid a \<and> utf8_valid b"
proof (induction a rule: utf8_valid.induct)
  case (2 c s)
  note na = ascii_not_continuation [OF n]
  consider "is_ascii_char c" | "\<not> is_ascii_char c" "in_range 194 223 c"
    | "\<not> is_ascii_char c" "\<not> in_range 194 223 c" "in_range 224 239 c"
    | "\<not> is_ascii_char c" "\<not> in_range 194 223 c" "\<not> in_range 224 239 c" "in_range 240 244 c"
    | "\<not> is_ascii_char c" "\<not> in_range 194 223 c" "\<not> in_range 224 239 c" "\<not> in_range 240 244 c"
    by blast
  then show ?case
  proof cases
    case 1
    with 2 show ?thesis by simp
  next
    case two: 2
    with 2 na show ?thesis by (cases s) auto
  next
    case three: 3
    show ?thesis
    proof (cases s)
      case Nil
      with three na show ?thesis by (cases b) auto
    next
      case (Cons x t)
      with 2(3) three na show ?thesis by (cases t) auto
    qed
  next
    case four: 4
    show ?thesis
    proof (cases s)
      case Nil
      with four na show ?thesis by (cases b; cases "tl b") auto
    next
      case (Cons x t)
      show ?thesis
      proof (cases t)
        case Nil
        with Cons four na show ?thesis by (cases b) auto
      next
        case Cons': (Cons y u)
        with Cons 2(4) four na show ?thesis by (cases u) auto
      qed
    qed
  next
    case 5
    then show ?thesis by simp
  qed
qed (use n in simp)

lemma newline_ascii [simp]: "is_ascii_char newline"
  by (simp add: is_ascii_char_def byte_of_def)

lemma utf8_valid_join:
  "utf8_valid (join [newline] ls) \<longleftrightarrow> (\<forall>l\<in>set ls. utf8_valid l)"
  by (induction ls rule: induct_list012) (auto simp: utf8_valid_ascii_sep)

lemma utf8_valid_commit_text:
  "utf8_valid (commit_text hs body) \<longleftrightarrow> (\<forall>l\<in>set hs. utf8_valid l) \<and> utf8_valid body"
  using utf8_valid_ascii_sep [of newline "join [newline] hs" "newline # body"]
  by (simp add: commit_text_def utf8_valid_join)

section \<open>What the split keeps\<close>

lemma split_headers_kept_clean:
  "l \<in> set (fst (split_headers c ls)) \<Longrightarrow> \<not> starts_with ''gpgsig'' l \<and> l \<in> set ls"
  by (induction c ls rule: split_headers.induct)
    (auto split: if_splits option.splits prod.splits)

lemma gpgsig_space: "strip_prefix ''gpgsig '' l = Some r \<Longrightarrow> starts_with ''gpgsig'' l"
  by (auto simp: strip_prefix_Some_iff starts_with_prefix)

lemma gpgsig_no_space: "starts_with ''gpgsig'' l \<Longrightarrow> \<not> starts_with '' '' l"
  by (auto simp: starts_with_prefix prefix_def)

lemma split_headers_all_kept:
  "\<forall>l\<in>set hs. \<not> starts_with ''gpgsig'' l \<Longrightarrow>
     split_headers Kept (hs @ rest) =
       (hs @ fst (split_headers Kept rest), snd (split_headers Kept rest))"
proof (induction hs)
  case (Cons l hs)
  then have "strip_prefix ''gpgsig '' l = None"
    using gpgsig_space by (cases "strip_prefix ''gpgsig '' l") auto
  with Cons show ?case by (simp split: prod.splits)
qed simp

lemma split_headers_new_header:
  "rest = [] \<or> \<not> starts_with '' '' (hd rest) \<Longrightarrow> split_headers c rest = split_headers Kept rest"
  by (cases rest) auto

lemma split_headers_signature_lines:
  "split_headers Signature (map ((#) CHR '' '') ss @ rest) =
     (fst (split_headers Signature rest), ss @ snd (split_headers Signature rest))"
  by (induction ss) (auto simp: starts_with_def split: prod.splits)

lemma split_headers_other_continuation:
  "\<forall>l\<in>set cs. starts_with '' '' l \<Longrightarrow>
     split_headers OtherSignature (cs @ rest) = split_headers OtherSignature rest"
proof (induction cs)
  case (Cons l cs)
  then have "strip_prefix ''gpgsig '' l = None"
    using gpgsig_space gpgsig_no_space by (cases "strip_prefix ''gpgsig '' l") auto
  with Cons show ?case by simp
qed simp

text \<open>Inserting another \<open>gpgsig\<dots>\<close> header, continuation lines and all, changes nothing.\<close>

lemma split_headers_ignores_other:
  assumes o': "starts_with ''gpgsig'' other" "\<not> starts_with ''gpgsig '' other"
    and cs: "\<forall>l\<in>set cs. starts_with '' '' l"
    and ys: "ys = [] \<or> \<not> starts_with '' '' (hd ys)"
  shows "split_headers c (xs @ other # cs @ ys) = split_headers c (xs @ ys)"
proof (induction xs arbitrary: c)
  case Nil
  have "strip_prefix ''gpgsig '' other = None" using o'(2) by (simp add: starts_with_def)
  then have "split_headers c (other # cs @ ys) = split_headers OtherSignature ys"
    using o'(1) gpgsig_no_space [OF o'(1)] split_headers_other_continuation [OF cs] by simp
  with split_headers_new_header [OF ys] show ?case by (metis append_Nil)
next
  case (Cons x xs)
  then show ?case by (simp only: append_Cons split_headers.simps)
qed

section \<open>Rewrapping the armor\<close>

definition base64_char :: "char \<Rightarrow> bool" where
  "base64_char c \<longleftrightarrow> is_ascii_alnum c \<or> c \<in> {CHR ''+'', CHR ''/'', CHR ''=''}"

lemma base64_char_range: "base64_char c \<Longrightarrow> in_range 33 127 c \<and> is_ascii_char c"
  by (auto simp: base64_char_def is_ascii_alnum_def is_ascii_alpha_def is_ascii_lower_def
      is_ascii_upper_def is_ascii_digit_def in_range_def is_ascii_char_def byte_of_def)

lemma base64_char_not [simp]:
  "\<not> base64_char newline" "\<not> base64_char CHR 0x0D" "\<not> base64_char CHR ''-''"
  by code_simp+

lemma base64_line:
  assumes "\<forall>c\<in>set w. base64_char c"
  shows "\<not> starts_with ''-----'' w" "trim w = w" "newline \<notin> set w" "CHR 0x0D \<notin> set w"
    "utf8_lossy w = w"
proof -
  show "\<not> starts_with ''-----'' w" using assms by (cases w) (auto simp: starts_with_def)
  have "ends_printable w"
    using assms base64_char_range by (cases "w = []") (auto simp: ends_printable_def)
  then show "trim w = w" by (rule trim_printable)
  show "newline \<notin> set w" "CHR 0x0D \<notin> set w"
    using assms base64_char_not by blast+
  show "utf8_lossy w = w"
    using assms base64_char_range by (simp add: list_all_iff)
qed

definition armored :: "string list \<Rightarrow> string" where
  "armored ws = ARMOR_BEGIN @ concat (map (\<lambda>w. w @ [newline]) ws) @ ARMOR_END"

lemma armor_body_armored:
  assumes "\<forall>w\<in>set ws. \<forall>c\<in>set w. base64_char c"
  shows "armor_body (armored ws) = concat ws"
proof -
  let ?b = "''-----BEGIN SSH SIGNATURE-----''" and ?e = "''-----END SSH SIGNATURE-----''"
  have "lines (armored ws) = lines (concat (map (\<lambda>w. w @ [newline]) (?b # ws @ [?e])))"
    by (simp add: armored_def ARMOR_BEGIN_def ARMOR_END_def)
  also have "\<dots> = ?b # ws @ [?e]"
    by (rule lines_terminated) (use assms base64_line in auto)
  finally have "lines (armored ws) = ?b # ws @ [?e]" .
  moreover have "filter (\<lambda>l. \<not> starts_with ''-----'' l) ws = ws"
    using assms base64_line(1) by (auto simp: filter_id_conv)
  moreover have "map trim ws = ws" using assms base64_line(2) by (auto intro: map_idI)
  moreover have "starts_with ''-----'' ?b" "starts_with ''-----'' ?e"
    by (simp_all add: starts_with_def)
  ultimately show ?thesis by (simp add: armor_body_def)
qed

lemma normalize_sshsig_armor_base64:
  assumes "\<forall>c\<in>set (armor_body pem). base64_char c"
  shows "normalize_sshsig_armor pem = armored (chunks 70 (armor_body pem))"
proof -
  have "\<forall>w\<in>set (chunks 70 (armor_body pem)). utf8_lossy w = w"
    using assms base64_line(5) chunks_subset by blast
  then show ?thesis by (simp add: normalize_sshsig_armor_def armored_def cong: map_cong)
qed

text \<open>However the armor of a signature was wrapped (any line widths, empty lines
  included), normalising it gives the same base64 text at exactly 70 columns, so the signature
  blob is unchanged; and normalising twice is normalising once.\<close>

theorem armor_rewrap:
  assumes "\<forall>w\<in>set ws. \<forall>c\<in>set w. base64_char c"
  shows "normalize_sshsig_armor (armored ws) = armored (chunks 70 (concat ws))
     \<and> concat (chunks 70 (concat ws)) = concat ws
     \<and> normalize_sshsig_armor (normalize_sshsig_armor (armored ws))
         = normalize_sshsig_armor (armored ws)"
proof -
  have body: "armor_body (armored ws) = concat ws" by (rule armor_body_armored [OF assms])
  moreover have n: "normalize_sshsig_armor (armored ws) = armored (chunks 70 (concat ws))"
    using assms by (simp add: normalize_sshsig_armor_base64 body)
  moreover have "armor_body (armored (chunks 70 (concat ws))) = concat ws"
  proof -
    have "base64_char c" if "w \<in> set (chunks 70 (concat ws))" "c \<in> set w" for w c
      using assms chunks_subset [OF that(1)] that(2) by auto
    then show ?thesis by (simp add: armor_body_armored)
  qed
  ultimately show ?thesis using assms by (simp add: normalize_sshsig_armor_base64)
qed

lemma armor_rewrap_witness:
  "normalize_sshsig_armor (armored [''QU'', ''JD'']) = armored [''QUJD'']"
  using armor_rewrap [of "[''QU'', ''JD'']"] by (auto simp: chunks.simps) code_simp+

section \<open>What git signed\<close>

lemma split_on_commit_headers:
  assumes "hs \<noteq> []" "\<forall>l\<in>set hs. header_line l"
  shows "split_on newline (join [newline] hs) = hs"
  using assms by (intro split_on_join) (auto simp: header_line_def)

lemma split_signed_commit_text:
  assumes "hs \<noteq> []" "\<forall>l\<in>set hs. header_line l" "utf8_valid (commit_text hs body)"
  shows "split_signed_commit (commit_text hs body) =
    (let (kept, sig) = split_headers Kept hs in
     if sig = [] then Inr None
     else Inr (Some (commit_text kept body, join [newline] sig @ [newline])))"
proof -
  have "split_once blank_line (commit_text hs body) = Some (join [newline] hs, body)"
    using assms(1,2) by (cases hs; intro commit_text_split) (auto simp: header_line_def)
  with assms split_on_commit_headers [OF assms(1,2)] show ?thesis
    by (cases "split_headers Kept hs") (simp add: split_signed_commit_def commit_text_def)
qed

lemma signature_lines_header:
  "\<forall>s\<in>set ss. newline \<notin> set s \<Longrightarrow> \<forall>l\<in>set (map ((#) CHR '' '') ss). header_line l"
  by (auto simp: header_line_def)

text \<open>C33: Signing then splitting is the identity. Git stores the signature as a \<open>gpgsig\<close>
  header whose continuation lines start with one space; splitting such a commit gives back
  exactly the commit without that header, and exactly the signature's lines.\<close>

theorem signed_commit_roundtrip:
  assumes "\<forall>l\<in>set (before @ after). header_line l \<and> \<not> starts_with ''gpgsig'' l"
    and "after = [] \<or> \<not> starts_with '' '' (hd after)"
    and "\<forall>s\<in>set (sig # sigs). newline \<notin> set s"
    and "utf8_valid (commit_text (before @ (''gpgsig '' @ sig) # map ((#) CHR '' '') sigs @ after) body)"
  shows "split_signed_commit
      (commit_text (before @ (''gpgsig '' @ sig) # map ((#) CHR '' '') sigs @ after) body)
    = Inr (Some (commit_text (before @ after) body, join [newline] (sig # sigs) @ [newline]))"
proof -
  let ?hs = "before @ (''gpgsig '' @ sig) # map ((#) CHR '' '') sigs @ after"
  have "split_headers Kept ?hs = (before @ after, sig # sigs)"
    using assms(1) split_headers_new_header [OF assms(2), of Signature]
      split_headers_all_kept [of after "[]"]
    by (simp add: split_headers_all_kept split_headers_signature_lines starts_with_def)
  moreover have "\<forall>l\<in>set ?hs. header_line l"
    using assms(1,3) by (auto simp: header_line_def)
  ultimately show ?thesis
    using split_signed_commit_text [OF _ _ assms(4)] by simp
qed

lemma signed_commit_roundtrip_witness:
  "split_signed_commit
      (commit_text ([''tree 1''] @ (''gpgsig '' @ ''-----BEGIN'') # map ((#) CHR '' '') [''QUJD''] @ []) ''hi'')
    = Inr (Some (commit_text ([''tree 1''] @ []) ''hi'',
        join [newline] (''-----BEGIN'' # [''QUJD'']) @ [newline]))"
  by (rule signed_commit_roundtrip) code_simp+

text \<open>C34: A signed commit cannot be made to look different by adding to it. Any header whose
  name starts with \<open>gpgsig\<close> but is not \<open>gpgsig\<close> itself, with any continuation lines, can be
  inserted anywhere among the headers without changing the payload or the signature that is
  verified.\<close>

theorem other_signature_headers_do_not_matter:
  assumes "\<forall>l\<in>set (xs @ other # cs @ ys). header_line l" "xs @ ys \<noteq> []"
    and "starts_with ''gpgsig'' other" "\<not> starts_with ''gpgsig '' other"
    and "\<forall>l\<in>set cs. starts_with '' '' l"
    and "ys = [] \<or> \<not> starts_with '' '' (hd ys)"
    and "utf8_valid (commit_text (xs @ other # cs @ ys) body)"
  shows "split_signed_commit (commit_text (xs @ other # cs @ ys) body)
       = split_signed_commit (commit_text (xs @ ys) body)"
proof -
  have "utf8_valid (commit_text (xs @ ys) body)"
    using assms(7) by (auto simp: utf8_valid_commit_text)
  then have "split_signed_commit (commit_text (xs @ ys) body) =
      (let (kept, sig) = split_headers Kept (xs @ ys) in
       if sig = [] then Inr None
       else Inr (Some (commit_text kept body, join [newline] sig @ [newline])))"
    using assms(1,2) by (intro split_signed_commit_text) auto
  moreover have "split_headers Kept (xs @ other # cs @ ys) = split_headers Kept (xs @ ys)"
    by (rule split_headers_ignores_other [OF assms(3-6)])
  ultimately show ?thesis
    using split_signed_commit_text [OF _ assms(1,7)] by simp
qed

lemma other_signature_headers_do_not_matter_witness:
  "split_signed_commit (commit_text ([''tree 1''] @ ''gpgsig-foo x'' # ['' y''] @ [''gpgsig S'']) ''hi'')
     = split_signed_commit (commit_text ([''tree 1''] @ [''gpgsig S'']) ''hi'')"
  by (rule other_signature_headers_do_not_matter) code_simp+

lemma subseq_subset: "subseq xs ys \<Longrightarrow> set xs \<subseteq> set ys"
  by (induction xs ys rule: list_emb.induct) auto

lemma subseq_tl: "subseq xs ys \<Longrightarrow> set (tl xs) \<subseteq> set (tl ys)"
proof (induction xs ys rule: list_emb.induct)
  case (list_emb_Cons xs ys y)
  then show ?case using subseq_subset [OF list_emb_Cons.hyps] by (cases xs) auto
next
  case (list_emb_Cons2 x y xs ys)
  then show ?case using subseq_subset [OF list_emb_Cons2.hyps(2)] by simp
qed simp

lemma split_headers_subseq: "subseq (fst (split_headers c ls)) ls"
  by (induction c ls rule: split_headers.induct)
    (auto split: if_splits option.splits prod.splits)

lemma lines_of_headers:
  assumes "\<not> double_newline (h @ [newline])"
  shows "\<forall>l\<in>set (tl (split_on newline h)). header_line l"
  using assms
proof (induction h)
  case (Cons c h)
  have ih: "\<forall>l\<in>set (tl (split_on newline h)). header_line l"
    using Cons by (cases h) auto
  show ?case
  proof (cases "c = newline")
    case True
    with Cons.prems have "h = [] \<Longrightarrow> False" "hd (h @ [newline]) \<noteq> newline"
      by (cases h; auto)+
    then have "h \<noteq> [] \<and> hd (split_on newline h) \<noteq> []"
      by (cases h) (auto split: list.splits)
    moreover have "newline \<notin> set (hd (split_on newline h))"
      using split_on_no_sep [of _ newline h] by (cases "split_on newline h") auto
    ultimately show ?thesis
      using ih True by (cases "split_on newline h") (auto simp: header_line_def)
  next
    case False
    with ih show ?thesis by (cases "split_on newline h") auto
  qed
qed simp

lemma split_headers_none:
  "\<forall>l\<in>set hs. \<not> starts_with ''gpgsig'' l \<Longrightarrow> split_headers Kept hs = (hs, [])"
  using split_headers_all_kept [of hs "[]"] by simp

lemma payload_parts:
  assumes "split_signed_commit raw = Inr (Some (payload, pem))"
  obtains h body kept where
    "split_once blank_line raw = Some (h, body)" "utf8_valid raw" "utf8_valid payload"
    "kept = fst (split_headers Kept (split_on newline h))"
    "split_once blank_line payload = Some (join [newline] kept, body)"
    "\<forall>l\<in>set kept. \<not> starts_with ''gpgsig'' l" "\<forall>l\<in>set kept. newline \<notin> set l"
proof -
  from assms obtain h body where split: "split_once blank_line raw = Some (h, body)"
    and valid: "utf8_valid raw"
    by (auto simp: split_signed_commit_def split: if_splits option.splits)
  define kept where "kept = fst (split_headers Kept (split_on newline h))"
  have p: "payload = commit_text kept body"
    using assms split valid
    by (auto simp: split_signed_commit_def kept_def commit_text_def Let_def split: prod.splits if_splits)
  have clean: "\<forall>l\<in>set kept. \<not> starts_with ''gpgsig'' l \<and> l \<in> set (split_on newline h)"
    using split_headers_kept_clean unfolding kept_def by blast
  then have no_nl: "\<forall>l\<in>set kept. newline \<notin> set l" using split_on_no_sep by metis
  have raw: "raw = commit_text (split_on newline h) body"
    using split_once_SomeD [OF split] by (simp add: commit_text_def)
  have "utf8_valid payload"
    using valid clean unfolding p raw utf8_valid_commit_text by auto
  moreover have "split_once blank_line payload = Some (join [newline] kept, body)"
    unfolding p
  proof (rule commit_text_split)
    have "set (tl kept) \<subseteq> set (tl (split_on newline h))"
      unfolding kept_def by (intro subseq_tl split_headers_subseq)
    with lines_of_headers [OF split_once_blank_lines [OF split]]
    show "\<forall>l\<in>set (tl kept). header_line l" by blast
    show "\<forall>l\<in>set kept. newline \<notin> set l" by (rule no_nl)
  qed
  ultimately show ?thesis using that [OF split valid _ kept_def] clean no_nl by blast
qed

lemma split_headers_lines_of_kept:
  assumes "\<forall>l\<in>set kept. \<not> starts_with ''gpgsig'' l" "\<forall>l\<in>set kept. newline \<notin> set l"
  shows "snd (split_headers Kept (split_on newline (join [newline] kept))) = []"
proof (cases "kept = []")
  case True
  then show ?thesis by (simp add: starts_with_def)
next
  case False
  then have "split_on newline (join [newline] kept) = kept"
    using assms(2) by (intro split_on_join) auto
  with assms(1) show ?thesis by (simp add: split_headers_none)
qed

text \<open>The payload a signature is checked over is itself an unsigned commit: whatever was
  stored, no \<open>gpgsig\<close> header of any name is left in what the signature covers.\<close>

theorem payload_is_unsigned:
  assumes "split_signed_commit raw = Inr (Some (payload, pem))"
  shows "split_signed_commit payload = Inr None"
  using assms
proof (rule payload_parts)
  fix h body kept
  assume "utf8_valid payload" "split_once blank_line payload = Some (join [newline] kept, body)"
    "\<forall>l\<in>set kept. \<not> starts_with ''gpgsig'' l" "\<forall>l\<in>set kept. newline \<notin> set l"
  with split_headers_lines_of_kept [of kept] show ?thesis
    by (simp add: split_signed_commit_def case_prod_beta del: split_headers.simps)
qed

lemma payload_is_unsigned_witness:
  "split_signed_commit (''tree 1'' @ blank_line @ ''hi'') = Inr None"
  by (rule payload_is_unsigned [of "''tree 1'' @ [newline] @ ''gpgsig A'' @ blank_line @ ''hi''" _
      "''A'' @ [newline]"]) code_simp

section \<open>The claim survives the split\<close>

lemma find_map_kept_headers:
  assumes "\<And>l. starts_with ''gpgsig'' l \<Longrightarrow> f l = None" "\<And>l. starts_with '' '' l \<Longrightarrow> f l = None"
  shows "find_map f (fst (split_headers c ls)) = find_map f ls"
proof (induction c ls rule: split_headers.induct)
  case (2 current line ls)
  have "f line = None" if "strip_prefix ''gpgsig '' line \<noteq> None"
    using that assms(1) gpgsig_space by blast
  with 2 assms show ?case
    by (auto split: if_splits option.splits prod.splits)
qed simp

lemma find_map_join_lines:
  assumes "\<forall>l\<in>set ls. newline \<notin> set l" "f [] = None"
  shows "find_map f (split_on newline (join [newline] ls)) = find_map f ls"
  using assms by (cases "ls = []") (simp_all add: split_on_join)

lemma committer_prefix_None:
  "starts_with ''gpgsig'' l \<Longrightarrow> strip_prefix ''committer '' l = None"
  "starts_with '' '' l \<Longrightarrow> strip_prefix ''committer '' l = None"
  by (auto simp: starts_with_prefix strip_prefix_None_iff prefix_def)

lemma committer_identity_payload:
  assumes "split_signed_commit raw = Inr (Some (payload, pem))"
  shows "committer_identity payload = committer_identity raw"
  using assms
proof (rule payload_parts)
  fix h body kept
  assume *: "split_once blank_line raw = Some (h, body)" "utf8_valid raw" "utf8_valid payload"
    "kept = fst (split_headers Kept (split_on newline h))"
    "split_once blank_line payload = Some (join [newline] kept, body)"
    "\<forall>l\<in>set kept. newline \<notin> set l"
  have "find_map (strip_prefix ''committer '') (split_on newline (join [newline] kept))
      = find_map (strip_prefix ''committer '') (split_on newline h)"
    using *(4,6) find_map_kept_headers [OF committer_prefix_None] by (simp add: find_map_join_lines)
  with * show ?thesis by (simp add: committer_identity_def)
qed

lemma trailer_did_payload:
  assumes "split_signed_commit raw = Inr (Some (payload, pem))"
  shows "trailer_did lib payload = trailer_did lib raw"
  using assms by (rule payload_parts) (simp add: trailer_did_def)

lemma claim_payload:
  assumes "split_signed_commit raw = Inr (Some (payload, pem))"
  shows "signer_did lib payload = signer_did lib raw"
    and "conflicting_signer_dids lib payload = conflicting_signer_dids lib raw"
proof -
  have "committer_did lib payload = committer_did lib raw"
    by (simp add: committer_did_def committer_identity_payload [OF assms])
  then show "signer_did lib payload = signer_did lib raw"
    "conflicting_signer_dids lib payload = conflicting_signer_dids lib raw"
    by (simp_all add: trailer_did_payload [OF assms] signer_did_def conflicting_signer_dids_def
        split: option.split)
qed

end
