(* ===== verification/Json_Value.thy ===== *)
theory Json_Value
  imports Prelude
begin

text \<open>
  \<open>serde_json::Value\<close> and the accessors the program calls on it: \<open>get\<close> with a key (\<open>None\<close>
  on anything that is not an object), \<open>as_str\<close>, \<open>as_array\<close> and \<open>as_bool\<close>. An object keeps its
  members in a list; a key occurs at most once in a parsed object, and \<open>jget\<close> reads the first.
  A number is kept as its text, since the modelled code reads none of them.
\<close>

datatype json =
    JNull
  | JBool bool
  | JNumber string
  | JString string
  | JArray "json list"
  | JObject "(string \<times> json) list"

fun jget :: "string \<Rightarrow> json \<Rightarrow> json option" where
  "jget k (JObject members) = map_of members k"
| "jget k _ = None"

fun as_str_json :: "json \<Rightarrow> string option" where
  "as_str_json (JString s) = Some s"
| "as_str_json _ = None"

fun as_array :: "json \<Rightarrow> json list option" where
  "as_array (JArray vs) = Some vs"
| "as_array _ = None"

text \<open>\<open>.and_then(Value::as_array).into_iter().flatten()\<close>: the elements, or nothing.\<close>

definition elements :: "json option \<Rightarrow> json list" where
  "elements v = (case Option.bind v as_array of None \<Rightarrow> [] | Some vs \<Rightarrow> vs)"

lemma as_str_json_Some_iff [simp]: "as_str_json v = Some s \<longleftrightarrow> v = JString s"
  by (cases v) auto

lemma elements_empty [simp]: "elements None = []"
  by (simp add: elements_def)

end
