(* ===== verification/Did_Document.thy ===== *)
theory Did_Document
  imports Json_Value
begin

text \<open>
  The signing keys a DID document authorises (\<open>vgi-core/src/did.rs\<close>) and the services it
  points at (\<open>vgi-core/src/services.rs\<close>). The multibase decoder is a library outside the
  repository: it is the argument \<open>decode\<close>, total, \<open>None\<close> where the library returns an error.
\<close>

section \<open>Published keys\<close>

definition ED25519_MULTICODEC_PREFIX :: bytes where
  "ED25519_MULTICODEC_PREFIX = [0xED, 0x01]"

definition P256_MULTICODEC_PREFIX :: bytes where
  "P256_MULTICODEC_PREFIX = [0x80, 0x24]"

datatype published_key = Ed25519 bytes | P256 bytes

fun key_bytes :: "published_key \<Rightarrow> bytes" where
  "key_bytes (Ed25519 k) = k"
| "key_bytes (P256 k) = k"

text \<open>What the fixed-size arrays of the Rust type hold: 32 bytes, or 33 bytes.\<close>

fun wf_published_key :: "published_key \<Rightarrow> bool" where
  "wf_published_key (Ed25519 k) = (length k = 32)"
| "wf_published_key (P256 k) = (length k = 33)"

definition did_of_doc :: "json \<Rightarrow> string" where
  "did_of_doc doc = (case Option.bind (jget ''id'' doc) as_str_json of None \<Rightarrow> [] | Some d \<Rightarrow> d)"

definition absolute_id :: "string \<Rightarrow> string \<Rightarrow> string" where
  "absolute_id did i = (if starts_with ''#'' i then did @ i else i)"

definition decode_key :: "bytes \<Rightarrow> published_key option" where
  "decode_key bs =
     (case strip_prefix ED25519_MULTICODEC_PREFIX bs of
        Some raw \<Rightarrow> if length raw = 32 then Some (Ed25519 raw) else None
      | None \<Rightarrow>
          (case strip_prefix P256_MULTICODEC_PREFIX bs of
             None \<Rightarrow> None
           | Some raw \<Rightarrow>
               if length raw = 33 \<and> hd raw \<in> {0x02, 0x03} then Some (P256 raw) else None))"

definition own_key :: "(string \<Rightarrow> bytes option) \<Rightarrow> string \<Rightarrow> json \<Rightarrow> published_key option" where
  "own_key decode did m =
     (if (case jget ''controller'' m of None \<Rightarrow> False | Some c \<Rightarrow> as_str_json c \<noteq> Some did)
      then None
      else (case Option.bind (jget ''publicKeyMultibase'' m) as_str_json of
        None \<Rightarrow> None
      | Some encoded \<Rightarrow> Option.bind (decode encoded) decode_key))"

definition verification_methods :: "string \<Rightarrow> json \<Rightarrow> (string \<times> json) list" where
  "verification_methods did doc =
     List.map_filter
       (\<lambda>m. map_option (\<lambda>i. (absolute_id did i, m)) (Option.bind (jget ''id'' m) as_str_json))
       (elements (jget ''verificationMethod'' doc))"

text \<open>The key one entry of \<open>assertionMethod\<close> stands for: a reference, or an embedded method.\<close>

fun entry_key ::
    "(string \<Rightarrow> bytes option) \<Rightarrow> string \<Rightarrow> (string \<times> json) list \<Rightarrow> json \<Rightarrow> published_key option" where
  "entry_key decode did methods (JString reference) =
     Option.bind (map_of methods (absolute_id did reference)) (own_key decode did)"
| "entry_key decode did methods embedded = own_key decode did embedded"

definition signing_keys_from_doc :: "(string \<Rightarrow> bytes option) \<Rightarrow> json \<Rightarrow> published_key list" where
  "signing_keys_from_doc decode doc =
     (let did = did_of_doc doc; methods = verification_methods did doc in
      foldl (\<lambda>ks entry. case entry_key decode did methods entry of
               None \<Rightarrow> ks
             | Some k \<Rightarrow> if k \<in> set ks then ks else ks @ [k])
        [] (elements (jget ''assertionMethod'' doc)))"

definition ed25519_signing_keys_from_doc :: "(string \<Rightarrow> bytes option) \<Rightarrow> json \<Rightarrow> bytes list" where
  "ed25519_signing_keys_from_doc decode doc =
     List.map_filter (\<lambda>k. case k of Ed25519 key \<Rightarrow> Some key | P256 _ \<Rightarrow> None)
       (signing_keys_from_doc decode doc)"

section \<open>Services\<close>

definition has_type :: "string \<Rightarrow> json \<Rightarrow> bool" where
  "has_type ty s =
     (case jget ''type'' s of
        Some (JString t) \<Rightarrow> t = ty
      | Some (JArray ts) \<Rightarrow> list_ex (\<lambda>t. t = JString ty) ts
      | _ \<Rightarrow> False)"

fun one_uri :: "json \<Rightarrow> string option" where
  "one_uri (JString u) = Some u"
| "one_uri (JObject members) = Option.bind (map_of members ''uri'') as_str_json"
| "one_uri _ = None"

definition endpoint_uris :: "json \<Rightarrow> string list" where
  "endpoint_uris s =
     (case jget ''serviceEndpoint'' s of
        Some (JArray vs) \<Rightarrow> List.map_filter one_uri vs
      | Some v \<Rightarrow> (case one_uri v of None \<Rightarrow> [] | Some u \<Rightarrow> [u])
      | None \<Rightarrow> [])"

definition did_endpoint :: "string \<Rightarrow> json \<Rightarrow> string option" where
  "did_endpoint ty doc =
     find_map (\<lambda>s. find (starts_with ''did:'') (endpoint_uris s))
       (filter (has_type ty) (elements (jget ''service'' doc)))"

definition registry_referral :: "json \<Rightarrow> string option" where
  "registry_referral doc = did_endpoint ''TrustRegistry'' doc"

definition messaging_mediator :: "json \<Rightarrow> string option" where
  "messaging_mediator doc =
     (case did_endpoint ''TSPTransport'' doc of
        Some d \<Rightarrow> Some d
      | None \<Rightarrow> did_endpoint ''DIDCommMessaging'' doc)"

section \<open>Only authorised keys\<close>

lemma fold_distinct_keys:
  "set (foldl (\<lambda>ks e. case f e of None \<Rightarrow> ks | Some k \<Rightarrow> if k \<in> set ks then ks else ks @ [k]) acc es)
     = set acc \<union> {k. \<exists>e\<in>set es. f e = Some k}"
  "distinct acc \<Longrightarrow>
     distinct (foldl (\<lambda>ks e. case f e of None \<Rightarrow> ks | Some k \<Rightarrow> if k \<in> set ks then ks else ks @ [k]) acc es)"
  by (induction es arbitrary: acc) (auto split: option.splits)

lemma signing_keys_set:
  "k \<in> set (signing_keys_from_doc decode doc) \<longleftrightarrow>
     (\<exists>e\<in>set (elements (jget ''assertionMethod'' doc)).
        entry_key decode (did_of_doc doc) (verification_methods (did_of_doc doc) doc) e = Some k)"
  by (simp add: signing_keys_from_doc_def Let_def fold_distinct_keys(1))

lemma decode_key_SomeD:
  "decode_key bs = Some k \<Longrightarrow>
     wf_published_key k
     \<and> (\<exists>p\<in>{ED25519_MULTICODEC_PREFIX, P256_MULTICODEC_PREFIX}. bs = p @ key_bytes k)"
  by (auto simp: decode_key_def text_simps split: option.splits if_splits)

lemma verification_methodsD:
  "(i, m) \<in> set (verification_methods did doc) \<Longrightarrow>
     m \<in> set (elements (jget ''verificationMethod'' doc))
     \<and> (\<exists>j. jget ''id'' m = Some (JString j) \<and> i = absolute_id did j)"
  by (auto simp: verification_methods_def map_filter_def Option.bind_eq_Some_conv)

text \<open>
  A method the document itself declares for asserting as its DID: embedded in
  \<open>assertionMethod\<close>, or one of its own \<open>verificationMethod\<close>s that \<open>assertionMethod\<close> refers to.
\<close>

definition asserted_method :: "json \<Rightarrow> json \<Rightarrow> bool" where
  "asserted_method doc m \<longleftrightarrow>
     (m \<in> set (elements (jget ''assertionMethod'' doc)) \<and> as_str_json m = None)
     \<or> (m \<in> set (elements (jget ''verificationMethod'' doc))
        \<and> (\<exists>reference i. JString reference \<in> set (elements (jget ''assertionMethod'' doc))
             \<and> jget ''id'' m = Some (JString i)
             \<and> absolute_id (did_of_doc doc) i = absolute_id (did_of_doc doc) reference))"

lemma entry_key_asserted:
  assumes "e \<in> set (elements (jget ''assertionMethod'' doc))"
    and "entry_key decode (did_of_doc doc) (verification_methods (did_of_doc doc) doc) e = Some k"
  shows "\<exists>m. asserted_method doc m \<and> own_key decode (did_of_doc doc) m = Some k"
proof (cases "\<exists>r. e = JString r")
  case True
  then obtain r where r: "e = JString r" by blast
  with assms(2) obtain m where
    m: "(absolute_id (did_of_doc doc) r, m) \<in> set (verification_methods (did_of_doc doc) doc)"
    "own_key decode (did_of_doc doc) m = Some k"
    by (auto simp: Option.bind_eq_Some_conv dest: map_of_SomeD)
  from verification_methodsD [OF m(1)] obtain j where
    "m \<in> set (elements (jget ''verificationMethod'' doc))" "jget ''id'' m = Some (JString j)"
    "absolute_id (did_of_doc doc) j = absolute_id (did_of_doc doc) r"
    by auto
  then have "asserted_method doc m"
    using assms(1) unfolding asserted_method_def r
    by (intro disjI2 conjI exI [of _ r] exI [of _ j]) simp_all
  with m(2) show ?thesis by blast
next
  case False
  then have "as_str_json e = None" by (cases e) auto
  moreover have "own_key decode (did_of_doc doc) e = Some k"
    using assms(2) False by (cases e) auto
  ultimately show ?thesis using assms(1) unfolding asserted_method_def by blast
qed

lemma own_key_SomeD:
  "own_key decode did m = Some k \<Longrightarrow>
     (jget ''controller'' m = None \<or> jget ''controller'' m = Some (JString did))
     \<and> (\<exists>s bs. jget ''publicKeyMultibase'' m = Some (JString s) \<and> decode s = Some bs
          \<and> decode_key bs = Some k)"
  by (auto simp: own_key_def Option.bind_eq_Some_conv split: if_splits option.splits)

text \<open>C29: A DID document signs only with keys it authorises for assertions. Every key the
  program extracts comes from a method listed under \<open>assertionMethod\<close> (embedded, or one of the
  document's own methods it refers to), whose controller is absent or the document's own DID,
  and whose multibase value decodes to the Ed25519 or P-256 prefix followed by exactly that
  key, at its exact length. No key is listed twice.\<close>

theorem signing_keys_are_authorised:
  "distinct (signing_keys_from_doc decode doc)
   \<and> (k \<in> set (signing_keys_from_doc decode doc) \<longrightarrow>
       wf_published_key k
       \<and> (\<exists>m s p. asserted_method doc m
           \<and> (jget ''controller'' m = None
              \<or> jget ''controller'' m = Some (JString (did_of_doc doc)))
           \<and> jget ''publicKeyMultibase'' m = Some (JString s)
           \<and> p \<in> {ED25519_MULTICODEC_PREFIX, P256_MULTICODEC_PREFIX}
           \<and> decode s = Some (p @ key_bytes k)))"
proof (intro conjI impI)
  show "distinct (signing_keys_from_doc decode doc)"
    by (simp add: signing_keys_from_doc_def Let_def fold_distinct_keys(2))
  assume "k \<in> set (signing_keys_from_doc decode doc)"
  then obtain m where m: "asserted_method doc m" "own_key decode (did_of_doc doc) m = Some k"
    unfolding signing_keys_set by (blast dest: entry_key_asserted)
  from own_key_SomeD [OF m(2)] obtain s bs where
    "jget ''publicKeyMultibase'' m = Some (JString s)" "decode s = Some bs" "decode_key bs = Some k"
    and c: "jget ''controller'' m = None \<or> jget ''controller'' m = Some (JString (did_of_doc doc))"
    by blast
  with decode_key_SomeD [of bs k] m(1) show "wf_published_key k"
    "\<exists>m s p. asserted_method doc m
           \<and> (jget ''controller'' m = None \<or> jget ''controller'' m = Some (JString (did_of_doc doc)))
           \<and> jget ''publicKeyMultibase'' m = Some (JString s)
           \<and> p \<in> {ED25519_MULTICODEC_PREFIX, P256_MULTICODEC_PREFIX}
           \<and> decode s = Some (p @ key_bytes k)"
    by blast+
qed

definition sample_doc :: json where
  "sample_doc = JObject
     [(''id'', JString ''did:x''),
      (''verificationMethod'', JArray
         [JObject [(''id'', JString ''#0''), (''controller'', JString ''did:x''),
                   (''publicKeyMultibase'', JString ''z1'')]]),
      (''assertionMethod'', JArray [JString ''did:x#0''])]"

definition sample_decode :: "string \<Rightarrow> bytes option" where
  "sample_decode s =
     (if s = ''z1'' then Some (ED25519_MULTICODEC_PREFIX @ replicate 32 7) else None)"

lemma sample_doc_keys:
  "signing_keys_from_doc sample_decode sample_doc = [Ed25519 (replicate 32 7)]"
  by code_simp

lemma signing_keys_are_authorised_witness:
  "Ed25519 (replicate 32 7) \<in> set (signing_keys_from_doc sample_decode sample_doc)
   \<and> wf_published_key (Ed25519 (replicate 32 7))"
  using signing_keys_are_authorised [of sample_decode sample_doc "Ed25519 (replicate 32 7)"]
  by (simp add: sample_doc_keys)

lemma did_endpoint_is_did: "did_endpoint ty doc = Some d \<Longrightarrow> starts_with ''did:'' d"
  by (auto simp: did_endpoint_def find_Some_iff dest!: find_map_SomeD)

text \<open>Discovery takes only DIDs: what a community's document is read to name as its
  registry, or as the mediator it is reached through, always starts with \<open>did:\<close>, and comes
  from a service of exactly the type asked for; a TSP mediator wins over a DIDComm one.\<close>

theorem discovery_takes_only_dids:
  "(\<forall>d. registry_referral doc = Some d \<longrightarrow> starts_with ''did:'' d
      \<and> (\<exists>s\<in>set (elements (jget ''service'' doc)). has_type ''TrustRegistry'' s
            \<and> d \<in> set (endpoint_uris s)))
   \<and> (\<forall>d. messaging_mediator doc = Some d \<longrightarrow> starts_with ''did:'' d
      \<and> (did_endpoint ''TSPTransport'' doc = None \<or> did_endpoint ''TSPTransport'' doc = Some d))"
proof -
  have "\<exists>s\<in>set (elements (jget ''service'' doc)). has_type ty s \<and> d \<in> set (endpoint_uris s)"
    if "did_endpoint ty doc = Some d" for ty d
    using that by (fastforce simp: did_endpoint_def find_Some_iff dest!: find_map_SomeD)
  then show ?thesis
    using did_endpoint_is_did
    by (auto simp: registry_referral_def messaging_mediator_def split: option.splits)
qed

lemma discovery_takes_only_dids_witness:
  "registry_referral (JObject [(''service'', JArray [JObject
      [(''type'', JString ''TrustRegistry''), (''serviceEndpoint'', JString ''did:web:r'')]])])
    = Some ''did:web:r''
   \<and> starts_with ''did:'' ''did:web:r''"
proof -
  let ?doc = "JObject [(''service'', JArray [JObject
      [(''type'', JString ''TrustRegistry''), (''serviceEndpoint'', JString ''did:web:r'')]])]"
  have r: "registry_referral ?doc = Some ''did:web:r''" by code_simp
  from discovery_takes_only_dids [of ?doc] r show ?thesis by blast
qed

end
