(* ===== verification/Signature_Check.thy ===== *)
theory Signature_Check
  imports Commit_Object Did_Document "HOL-Library.List_Lexorder" "HOL-Library.Char_ord"
begin

text \<open>
  The signature layer of \<open>verify-trust/src/lib.rs\<close> and the exempt keyring of
  \<open>verify-trust/src/pgp_exempt.rs\<close>: which identity a commit claims, which key signed it, and
  whether the claim's own DID document publishes that key. The cryptographic libraries
  (\<open>ssh_key\<close>, \<open>pgp\<close>, \<open>hex\<close>) and the DID resolver are outside the repository: they are the
  fields of \<open>sig_lib\<close>, arguments of the operations that use them. A parse error is the text
  the library reports.
\<close>

section \<open>The libraries\<close>

datatype ecdsa_key = NistP256 bytes | OtherCurve string

datatype key_data =
    KeyEd25519 bytes
  | KeyEcdsa ecdsa_key
  | KeySkEd25519 bytes string
  | KeySkEcdsaSha2NistP256 bytes string
  | KeyOther

record ssh_sig =
  sig_public_key :: key_data
  sig_algorithm :: string
  signature_bytes :: bytes

record pgp_key =
  primary_fingerprint :: bytes
  primary_key :: bytes
  public_subkeys :: "bytes list"

record sig_lib =
  scid :: scid_lib
  ssh_from_pem :: "string \<Rightarrow> string + ssh_sig"
  ssh_verify :: "key_data \<Rightarrow> string \<Rightarrow> string \<Rightarrow> ssh_sig \<Rightarrow> bool"
  p256_compress :: "bytes \<Rightarrow> bytes"
  hex_encode :: "bytes \<Rightarrow> string"
  pgp_parse_keys :: "string \<Rightarrow> pgp_key option list option"
  pgp_parse_signature :: "string \<Rightarrow> string + bytes"
  pgp_verify :: "bytes \<Rightarrow> bytes \<Rightarrow> string \<Rightarrow> bool"

section \<open>The exempt keyring\<close>

definition BLOCK_START :: string where
  "BLOCK_START = ''-----BEGIN PGP PUBLIC KEY BLOCK-----''"

text \<open>\<open>str::split\<close> on a string pattern.\<close>

function split_str :: "'a list \<Rightarrow> 'a list \<Rightarrow> 'a list list" where
  "split_str p s =
     (if p = [] then [s]
      else case split_once p s of None \<Rightarrow> [s] | Some (a, b) \<Rightarrow> a # split_str p b)"
  by pat_completeness auto
termination
  by (relation "measure (\<lambda>(p, s). length s)") (auto dest!: split_once_SomeD)

declare split_str.simps [simp del]

fun parse_blocks :: "sig_lib \<Rightarrow> string list \<Rightarrow> string + pgp_key list" where
  "parse_blocks lib [] = Inr []"
| "parse_blocks lib (b # bs) =
     (case pgp_parse_keys lib (BLOCK_START @ b) of
        None \<Rightarrow> Inl ''exempt keyring did not parse''
      | Some parsed \<Rightarrow>
          if None \<in> set parsed then Inl ''exempt keyring contains an invalid key''
          else (let ks = map the parsed in case parse_blocks lib bs of Inl e \<Rightarrow> Inl e | Inr rest \<Rightarrow> Inr (ks @ rest)))"

definition keyring_from_armored :: "sig_lib \<Rightarrow> string \<Rightarrow> string + pgp_key list" where
  "keyring_from_armored lib txt =
     (case parse_blocks lib (tl (split_str BLOCK_START txt)) of
        Inl e \<Rightarrow> Inl e
      | Inr ks \<Rightarrow> if ks = [] then Inl ''exempt keyring contains no keys'' else Inr ks)"

definition key_matches :: "sig_lib \<Rightarrow> bytes \<Rightarrow> string \<Rightarrow> pgp_key \<Rightarrow> bool" where
  "key_matches lib signature payload key \<longleftrightarrow>
     pgp_verify lib signature (primary_key key) payload
     \<or> list_ex (\<lambda>sub. pgp_verify lib signature sub payload) (public_subkeys key)"

definition keyring_verify :: "sig_lib \<Rightarrow> pgp_key list \<Rightarrow> string \<Rightarrow> string \<Rightarrow> string + string" where
  "keyring_verify lib keyring armored_signature payload =
     (case pgp_parse_signature lib armored_signature of
        Inl e \<Rightarrow> Inl (''PGP signature did not parse: '' @ e)
      | Inr signature \<Rightarrow>
          (case find (key_matches lib signature payload) keyring of
             Some key \<Rightarrow> Inr (hex_encode lib (primary_fingerprint key))
           | None \<Rightarrow> Inl ''signature matches no key in the exempt keyring''))"

section \<open>The key a signature was made with\<close>

definition FIDO_SSH_APPLICATION :: string where
  "FIDO_SSH_APPLICATION = ''ssh:''"

definition FIDO_USER_PRESENT :: "8 word" where
  "FIDO_USER_PRESENT = 0x01"

definition GIT_SSHSIG_NAMESPACE :: string where
  "GIT_SSHSIG_NAMESPACE = ''git''"

definition p256_key :: "sig_lib \<Rightarrow> ecdsa_key \<Rightarrow> string + published_key" where
  "p256_key lib key =
     (case key of
        NistP256 point \<Rightarrow>
          (let c = p256_compress lib point in
           if length c = 33 then Inr (P256 c) else Inl ''P-256 public key is not a curve point'')
      | OtherCurve algorithm \<Rightarrow> Inl (''unsupported signature algorithm: '' @ algorithm))"

text \<open>What every FIDO signature must carry: the right application, and the user's touch.\<close>

definition fido_check :: "string \<Rightarrow> bytes \<Rightarrow> string option" where
  "fido_check application bs =
     (if application \<noteq> FIDO_SSH_APPLICATION
      then Some (''FIDO key enrolled under application '' @ show_debug application
                 @ '', not '' @ show_debug FIDO_SSH_APPLICATION)
      else if length bs < 5 then Some ''FIDO signature is truncated''
      else if and (bs ! (length bs - 5)) FIDO_USER_PRESENT = 0
      then Some ''FIDO signature was made without user presence (no touch)''
      else None)"

definition signing_key :: "sig_lib \<Rightarrow> ssh_sig \<Rightarrow> string + published_key" where
  "signing_key lib sig =
     (let fido = (\<lambda>key application.
            case fido_check application (signature_bytes sig) of
              Some e \<Rightarrow> Inl e
            | None \<Rightarrow> Inr key)
      in case sig_public_key sig of
        KeyEd25519 key \<Rightarrow> Inr (Ed25519 key)
      | KeyEcdsa key \<Rightarrow> p256_key lib key
      | KeySkEd25519 key application \<Rightarrow> fido (Ed25519 key) application
      | KeySkEcdsaSha2NistP256 point application \<Rightarrow>
          (case p256_key lib (NistP256 point) of
             Inl e \<Rightarrow> Inl e
           | Inr key \<Rightarrow> fido key application)
      | KeyOther \<Rightarrow> Inl (''unsupported signature algorithm: '' @ sig_algorithm sig))"

section \<open>Resolved signers\<close>

datatype name_source = AgentName bool

record display_name =
  dn_name :: string
  dn_source :: name_source

record resolved_signers =
  keys :: "string \<Rightarrow> published_key list option"
  unresolved :: "string \<Rightarrow> string option"
  names :: "string \<Rightarrow> display_name option"

definition no_signers :: resolved_signers where
  "no_signers = \<lparr>keys = Map.empty, unresolved = Map.empty, names = Map.empty\<rparr>"

definition from_keys :: "(string \<times> published_key list) list \<Rightarrow> resolved_signers" where
  "from_keys ks = no_signers\<lparr>keys := foldl (\<lambda>m (d, k). m(d \<mapsto> k)) Map.empty ks\<rparr>"

definition signer_display_name :: "string option \<Rightarrow> string list \<Rightarrow> display_name option" where
  "signer_display_name verified claimed =
     (case verified of
        Some name \<Rightarrow> Some \<lparr>dn_name = name, dn_source = AgentName True\<rparr>
      | None \<Rightarrow>
          (case claimed of
             [] \<Rightarrow> None
           | name # _ \<Rightarrow> Some \<lparr>dn_name = name, dn_source = AgentName False\<rparr>))"

text \<open>What the resolver answers for a DID: the document, its verified shortcut and its claims.\<close>

record resolution =
  res_doc :: "json option"
  res_shortcut :: "string option"
  res_claimed :: "string list"

definition NO_SIGNING_KEY :: string where
  "NO_SIGNING_KEY = ''DID document lists no Ed25519 or P-256 key under assertionMethod''"

definition resolve_one ::
    "(string \<Rightarrow> bytes option) \<Rightarrow> (string \<Rightarrow> string + resolution) \<Rightarrow> resolved_signers \<Rightarrow> string
       \<Rightarrow> string + resolved_signers" where
  "resolve_one decode resolve signers did =
     (case resolve did of
        Inl e \<Rightarrow> Inr (signers\<lparr>unresolved := (unresolved signers)(did \<mapsto> ''resolution failed: '' @ e)\<rparr>)
      | Inr response \<Rightarrow>
          (let signers =
                 (case signer_display_name (res_shortcut response) (res_claimed response) of
                    None \<Rightarrow> signers
                  | Some name \<Rightarrow> signers\<lparr>names := (names signers)(did \<mapsto> name)\<rparr>)
           in case res_doc response of
                None \<Rightarrow> Inl (''DID document for '' @ did @ '' did not serialize'')
              | Some doc \<Rightarrow>
                  (let published = signing_keys_from_doc decode doc in
                   Inr (if published = []
                        then signers\<lparr>unresolved := (unresolved signers)(did \<mapsto> NO_SIGNING_KEY)\<rparr>
                        else signers\<lparr>keys := (keys signers)(did \<mapsto> published)\<rparr>))))"

fun resolve_all ::
    "(string \<Rightarrow> bytes option) \<Rightarrow> (string \<Rightarrow> string + resolution) \<Rightarrow> resolved_signers \<Rightarrow> string list
       \<Rightarrow> string + resolved_signers" where
  "resolve_all decode resolve signers [] = Inr signers"
| "resolve_all decode resolve signers (did # dids) =
     (case resolve_one decode resolve signers did of
        Inl e \<Rightarrow> Inl e
      | Inr signers \<Rightarrow> resolve_all decode resolve signers dids)"

definition resolve_signer_keys ::
    "(string \<Rightarrow> bytes option) \<Rightarrow> (string \<Rightarrow> string + resolution) \<Rightarrow> string list
       \<Rightarrow> string + resolved_signers" where
  "resolve_signer_keys decode resolve dids = resolve_all decode resolve no_signers dids"

section \<open>The claimed signers of a range\<close>

record range_commit =
  rc_sha :: string
  rc_raw :: string

definition claimed_signer_dids :: "scid_lib \<Rightarrow> range_commit list \<Rightarrow> nat \<Rightarrow> string + string list" where
  "claimed_signer_dids lib commits max_signers =
     (let dids = sort (remdups (List.map_filter (\<lambda>c. signer_did lib (rc_raw c))
                   (filter (\<lambda>c. conflicting_signer_dids lib (rc_raw c) = None) commits)))
      in if max_signers < length dids
         then Inl (''range claims '' @ show_nat (length dids)
           @ '' distinct signer DIDs, over the limit of '' @ show_nat max_signers
           @ ''; each costs a resolution to a host the commit's author chose. Raise --max-signers''
           @ '' only if this range is legitimately that wide.'')
         else Inr dids)"

section \<open>One commit's signature\<close>

datatype signature_check =
    SigUnsigned
  | SigMalformed string
  | SigNoSignerDid string
  | SigConflictingSignerDids string string
  | SigUnresolvedSigner string string
  | SigUnknownKey string string
  | SigBadSignature string
  | SigPgpRejected string
  | SigExempt string
  | SigValid string

definition PGP_BEGIN :: string where
  "PGP_BEGIN = ''-----BEGIN PGP SIGNATURE-----''"

text \<open>The identity and key part of the check, once the sshsig has parsed.\<close>

definition check_identity ::
    "sig_lib \<Rightarrow> resolved_signers \<Rightarrow> string \<Rightarrow> ssh_sig \<Rightarrow> published_key \<Rightarrow> signature_check" where
  "check_identity lib signers payload sig key =
     (case conflicting_signer_dids (scid lib) payload of
        Some (trailer, committer) \<Rightarrow> SigConflictingSignerDids trailer committer
      | None \<Rightarrow>
          (case signer_did (scid lib) payload of
             None \<Rightarrow>
               SigNoSignerDid (case committer_identity payload of None \<Rightarrow> ''(absent)'' | Some i \<Rightarrow> i)
           | Some claimed \<Rightarrow>
               (case keys signers claimed of
                  None \<Rightarrow>
                    SigUnresolvedSigner claimed
                      (case unresolved signers claimed of None \<Rightarrow> ''not resolved'' | Some e \<Rightarrow> e)
                | Some published \<Rightarrow>
                    if key \<notin> set published
                    then SigUnknownKey claimed (hex_encode lib (key_bytes key))
                    else if ssh_verify lib (sig_public_key sig) GIT_SSHSIG_NAMESPACE payload sig
                    then SigValid claimed
                    else SigBadSignature claimed)))"

definition check_commit_signature ::
    "sig_lib \<Rightarrow> string \<Rightarrow> resolved_signers \<Rightarrow> pgp_key list option \<Rightarrow> signature_check" where
  "check_commit_signature lib raw signers exempt =
     (case split_signed_commit raw of
        Inl e \<Rightarrow> SigMalformed e
      | Inr None \<Rightarrow> SigUnsigned
      | Inr (Some (payload, pem)) \<Rightarrow>
          if starts_with PGP_BEGIN pem then
            (case exempt of
               None \<Rightarrow> SigPgpRejected ''PGP-signed commit, but no exempt keyring is configured''
             | Some keyring \<Rightarrow>
                 (case keyring_verify lib keyring pem payload of
                    Inr fingerprint \<Rightarrow> SigExempt fingerprint
                  | Inl detail \<Rightarrow> SigPgpRejected detail))
          else
            (case ssh_from_pem lib (normalize_sshsig_armor pem) of
               Inl e \<Rightarrow> SigMalformed (''sshsig did not parse: '' @ e)
             | Inr sig \<Rightarrow>
                 (case signing_key lib sig of
                    Inl detail \<Rightarrow> SigMalformed detail
                  | Inr key \<Rightarrow> check_identity lib signers payload sig key)))"

section \<open>What a valid signature means\<close>

text \<open>
  \<open>signed_by lib raw did pks sig key payload\<close>: the stored commit carries an sshsig over
  \<open>payload\<close>, made with \<open>key\<close>, and the payload's own claim names \<open>did\<close> without conflict.
\<close>

definition signed_by ::
    "sig_lib \<Rightarrow> string \<Rightarrow> string \<Rightarrow> string \<Rightarrow> ssh_sig \<Rightarrow> published_key \<Rightarrow> bool" where
  "signed_by lib raw payload did sig key \<longleftrightarrow>
     (\<exists>pem. split_signed_commit raw = Inr (Some (payload, pem))
        \<and> \<not> starts_with PGP_BEGIN pem
        \<and> ssh_from_pem lib (normalize_sshsig_armor pem) = Inr sig)
     \<and> signing_key lib sig = Inr key
     \<and> conflicting_signer_dids (scid lib) payload = None
     \<and> signer_did (scid lib) payload = Some did"

definition exempt_signature :: "sig_lib \<Rightarrow> pgp_key list option \<Rightarrow> string \<Rightarrow> string \<Rightarrow> bool" where
  "exempt_signature lib exempt raw fingerprint \<longleftrightarrow>
     (\<exists>payload pem keyring signature key.
        split_signed_commit raw = Inr (Some (payload, pem)) \<and> exempt = Some keyring
        \<and> pgp_parse_signature lib pem = Inr signature \<and> key \<in> set keyring
        \<and> key_matches lib signature payload key
        \<and> fingerprint = hex_encode lib (primary_fingerprint key))"

lemma check_identity_SigValid:
  "check_identity lib signers payload sig key = SigValid did \<longleftrightarrow>
     conflicting_signer_dids (scid lib) payload = None
     \<and> signer_did (scid lib) payload = Some did
     \<and> (\<exists>pks. keys signers did = Some pks \<and> key \<in> set pks)
     \<and> ssh_verify lib (sig_public_key sig) GIT_SSHSIG_NAMESPACE payload sig"
  by (auto simp: check_identity_def split: option.splits prod.splits)

lemma check_identity_not_exempt: "check_identity lib signers payload sig key \<noteq> SigExempt f"
  by (auto simp: check_identity_def split: option.splits prod.splits)

lemma check_SigValid_iff:
  "check_commit_signature lib raw signers exempt = SigValid did \<longleftrightarrow>
     (\<exists>payload sig key pks. signed_by lib raw payload did sig key
        \<and> keys signers did = Some pks \<and> key \<in> set pks
        \<and> ssh_verify lib (sig_public_key sig) GIT_SSHSIG_NAMESPACE payload sig)"
proof -
  have "?thesis" if "split_signed_commit raw = Inr (Some (payload, pem))" for payload pem
    using that
    by (auto simp: check_commit_signature_def signed_by_def check_identity_SigValid
        split: option.splits sum.splits if_splits)
  then show ?thesis
    by (cases "split_signed_commit raw")
      (auto simp: check_commit_signature_def signed_by_def split: option.splits)
qed

lemma keyring_verify_InrD:
  "keyring_verify lib keyring pem payload = Inr f \<Longrightarrow>
     \<exists>signature key. pgp_parse_signature lib pem = Inr signature \<and> key \<in> set keyring
       \<and> key_matches lib signature payload key \<and> f = hex_encode lib (primary_fingerprint key)"
proof -
  assume v: "keyring_verify lib keyring pem payload = Inr f"
  then obtain signature key where "pgp_parse_signature lib pem = Inr signature"
    "find (key_matches lib signature payload) keyring = Some key"
    "f = hex_encode lib (primary_fingerprint key)"
    by (auto simp: keyring_verify_def split: sum.splits option.splits)
  then show ?thesis unfolding find_Some_iff by (metis nth_mem)
qed

lemma check_SigExemptD:
  "check_commit_signature lib raw signers exempt = SigExempt f \<Longrightarrow>
     exempt_signature lib exempt raw f"
  unfolding check_commit_signature_def exempt_signature_def
  by (fastforce simp: check_identity_not_exempt dest!: keyring_verify_InrD
      split: option.splits sum.splits if_splits)

text \<open>C11: A commit's signature is accepted for a DID exactly when the commit carries an SSH
  signature (not a PGP one) whose bytes parse, whose key is of an accepted kind, whose payload
  claims that DID without a conflicting second claim, whose key is one the resolved document of
  that DID publishes for signing, and which verifies over the payload in the \<open>git\<close> namespace.\<close>

theorem valid_signature_iff:
  "check_commit_signature lib raw signers exempt = SigValid did \<longleftrightarrow>
     (\<exists>payload sig key pks. signed_by lib raw payload did sig key
        \<and> keys signers did = Some pks \<and> key \<in> set pks
        \<and> ssh_verify lib (sig_public_key sig) GIT_SSHSIG_NAMESPACE payload sig)"
  by (rule check_SigValid_iff)

text \<open>A security key vouches for its owner only when touched. A signature made with a FIDO
  key yields a signing key only if the key is enrolled under \<open>ssh:\<close> and the flags byte, the
  fifth from the end of the signature, has the user-presence bit; and the key compared with the
  DID document is the underlying one.\<close>

theorem fido_needs_touch:
  assumes "signing_key lib sig = Inr key"
    and "sig_public_key sig = KeySkEd25519 k application
      \<or> sig_public_key sig = KeySkEcdsaSha2NistP256 k application"
  shows "application = ''ssh:'' \<and> 5 \<le> length (signature_bytes sig)
     \<and> bit (signature_bytes sig ! (length (signature_bytes sig) - 5)) 0
     \<and> key \<in> {Ed25519 k, P256 (p256_compress lib k)}"
proof -
  have "bit b 0" if "and b FIDO_USER_PRESENT \<noteq> 0" for b :: "8 word"
    using that by (auto simp: FIDO_USER_PRESENT_def and_one_eq bit_0 even_iff_mod_2_eq_zero)
  then show ?thesis
    using assms
    by (auto simp: signing_key_def fido_check_def FIDO_SSH_APPLICATION_def p256_key_def Let_def
        split: option.splits sum.splits if_splits)
qed

text \<open>The pass that collects the claims reads what the verification pass later checks.\<close>

lemma signed_by_claim:
  "signed_by lib raw payload did sig key \<Longrightarrow>
     signer_did (scid lib) raw = Some did \<and> conflicting_signer_dids (scid lib) raw = None"
  by (auto simp: signed_by_def claim_payload)

lemma set_map_filter: "set (List.map_filter f xs) = {y. \<exists>x\<in>set xs. f x = Some y}"
  by (force simp: List.map_filter_def image_iff)

lemma claimed_signer_dids_Inr:
  assumes "claimed_signer_dids lib commits m = Inr dids"
  shows "set dids = {d. \<exists>c\<in>set commits. signer_did lib (rc_raw c) = Some d
      \<and> conflicting_signer_dids lib (rc_raw c) = None}"
    and "distinct dids" and "sorted dids" and "length dids \<le> m"
  using assms by (auto simp: claimed_signer_dids_def Let_def set_map_filter split: if_splits)

text \<open>C25: The author of a pull request cannot make CI resolve more than the configured number
  of DIDs, and cannot sign as a DID that was never resolved: the claims collected before
  resolution are distinct, at most \<open>max_signers\<close>, and include every DID under which any commit
  of the range can pass the signature check, whatever keys resolution then returns.\<close>

theorem claims_are_bounded_and_complete:
  assumes "claimed_signer_dids (scid lib) commits max_signers = Inr dids"
    and "c \<in> set commits"
    and "check_commit_signature lib (rc_raw c) signers exempt = SigValid did"
  shows "did \<in> set dids \<and> distinct dids \<and> length dids \<le> max_signers"
proof -
  from assms(3) obtain payload sig key where "signed_by lib (rc_raw c) payload did sig key"
    unfolding check_SigValid_iff by blast
  from signed_by_claim [OF this] claimed_signer_dids_Inr [OF assms(1)] assms(2) show ?thesis
    by blast
qed

lemma resolve_one_InrD:
  assumes "resolve_one decode resolve s did = Inr s'"
  shows "keys s' = keys s
    \<or> (\<exists>r doc. resolve did = Inr r \<and> res_doc r = Some doc
        \<and> signing_keys_from_doc decode doc \<noteq> []
        \<and> keys s' = (keys s)(did \<mapsto> signing_keys_from_doc decode doc))"
  using assms
  by (auto simp: resolve_one_def Let_def split: sum.splits option.splits if_splits)

lemma resolve_all_InrD:
  "resolve_all decode resolve s dids = Inr s' \<Longrightarrow> keys s' did = Some ks \<Longrightarrow>
     keys s did = Some ks
     \<or> (did \<in> set dids \<and> (\<exists>r doc. resolve did = Inr r \<and> res_doc r = Some doc
          \<and> ks = signing_keys_from_doc decode doc \<and> ks \<noteq> []))"
proof (induction dids arbitrary: s)
  case (Cons d dids)
  then obtain s1 where s1: "resolve_one decode resolve s d = Inr s1"
    "resolve_all decode resolve s1 dids = Inr s'"
    by (auto split: sum.splits)
  from Cons.IH [OF s1(2) Cons.prems(2)] resolve_one_InrD [OF s1(1)] show ?case
    by (auto split: if_splits)
qed simp

text \<open>The keys a run verifies with are exactly those the DID documents publish: a DID has
  keys after resolution only if it was one of the claimed DIDs, its document resolved, and they
  are the non-empty list of signing keys that document authorises.\<close>

theorem resolved_keys_come_from_documents:
  assumes "resolve_signer_keys decode resolve dids = Inr signers"
    and "keys signers did = Some ks"
  shows "did \<in> set dids \<and> ks \<noteq> [] \<and>
    (\<exists>response doc. resolve did = Inr response \<and> res_doc response = Some doc
       \<and> ks = signing_keys_from_doc decode doc)"
  using resolve_all_InrD [OF assms [unfolded resolve_signer_keys_def]]
  by (auto simp: no_signers_def)

definition sample_resolve :: "string \<Rightarrow> string + resolution" where
  "sample_resolve d =
     (if d = ''did:x''
      then Inr \<lparr>res_doc = Some sample_doc, res_shortcut = None, res_claimed = [''x.org/@me'']\<rparr>
      else Inl ''no such host'')"

lemma resolved_keys_come_from_documents_witness:
  "\<exists>signers. resolve_signer_keys sample_decode sample_resolve [''did:y'', ''did:x''] = Inr signers
     \<and> keys signers ''did:x'' = Some [Ed25519 (replicate 32 7)]
     \<and> ''did:x'' \<in> set [''did:y'', ''did:x'']
     \<and> unresolved signers ''did:y'' = Some (''resolution failed: '' @ ''no such host'')"
proof -
  define s where "s = (case resolve_signer_keys sample_decode sample_resolve [''did:y'', ''did:x''] of
    Inr s \<Rightarrow> s | Inl _ \<Rightarrow> no_signers)"
  have r: "resolve_signer_keys sample_decode sample_resolve [''did:y'', ''did:x''] = Inr s"
    and k: "keys s ''did:x'' = Some [Ed25519 (replicate 32 7)]"
    and u: "unresolved s ''did:y'' = Some (''resolution failed: '' @ ''no such host'')"
    by (simp_all add: s_def resolve_signer_keys_def resolve_one_def sample_resolve_def
        signer_display_name_def sample_doc_keys no_signers_def)
  from resolved_keys_come_from_documents [OF r k] r k u show ?thesis by blast
qed

text \<open>Libraries that accept everything, and a commit signed by \<open>did:x\<close>, for the examples.\<close>

definition sample_lib :: sig_lib where
  "sample_lib = \<lparr>
     scid = \<lparr>scid_src = (\<lambda>_. None), scid_same_reference = (=), scid_strip_src = (\<lambda>d. d)\<rparr>,
     ssh_from_pem = (\<lambda>_. Inr \<lparr>sig_public_key = KeyEd25519 (replicate 32 7),
       sig_algorithm = ''ssh-ed25519'', signature_bytes = []\<rparr>),
     ssh_verify = (\<lambda>_ _ _ _. True), p256_compress = (\<lambda>p. p), hex_encode = (\<lambda>_. ''00''),
     pgp_parse_keys = (\<lambda>_. None), pgp_parse_signature = (\<lambda>s. Inr []),
     pgp_verify = (\<lambda>_ _ _. True)\<rparr>"

definition sample_signers :: resolved_signers where
  "sample_signers = from_keys [(''did:x'', [Ed25519 (replicate 32 7)])]"

definition sample_commit :: range_commit where
  "sample_commit = \<lparr>rc_sha = ''c1'',
     rc_raw = join [newline] [''tree 1'', ''committer A <did:x> 0'', ''gpgsig S'', '''', ''hi'']\<rparr>"

definition sample_sk_sig :: "8 word \<Rightarrow> ssh_sig" where
  "sample_sk_sig flags = \<lparr>sig_public_key = KeySkEd25519 [1] ''ssh:'', sig_algorithm = ''sk'',
     signature_bytes = [9, flags, 0, 0, 0, 1]\<rparr>"

lemma fido_needs_touch_witness:
  "signing_key sample_lib (sample_sk_sig 1) = Inr (Ed25519 [1])
   \<and> bit (signature_bytes (sample_sk_sig 1) ! 1) 0"
proof -
  have k: "signing_key sample_lib (sample_sk_sig 1) = Inr (Ed25519 [1])"
    by (simp add: signing_key_def sample_sk_sig_def fido_check_def FIDO_SSH_APPLICATION_def
        FIDO_USER_PRESENT_def)
  from fido_needs_touch [OF k, of "[1]" "''ssh:''"] k show ?thesis
    by (simp add: sample_sk_sig_def)
qed

lemma sample_commit_valid:
  "check_commit_signature sample_lib (rc_raw sample_commit) sample_signers None = SigValid ''did:x''"
  by code_simp

lemma sample_claims: "claimed_signer_dids (scid sample_lib) [sample_commit] 1 = Inr [''did:x'']"
  by code_simp

lemma claims_are_bounded_and_complete_witness:
  "claimed_signer_dids (scid sample_lib) [sample_commit] 1 = Inr [''did:x'']
   \<and> ''did:x'' \<in> set [''did:x''] \<and> length [''did:x''] \<le> 1"
  using claims_are_bounded_and_complete [OF sample_claims _ sample_commit_valid] sample_claims
  by simp

end
