(* ===== verification/Merge_Policy.thy ===== *)
theory Merge_Policy
  imports Signature_Check
begin

text \<open>
  The platform-merge policy of \<open>verify-trust/src/lib.rs\<close>: git's answers about a checkout, the
  recomputation of a two-parent merge, and the settling of every provisional \<open>Exempt\<close>
  verdict. Git itself is outside the repository: it is the argument \<open>git_call\<close>, what running
  \<open>git -C <repo> args\<close> answers. Its answers are a function of the arguments, since the checkout
  does not change during a run; so the code's caches (the boundary, the version check) are
  calls of the same function. The messages the standard library composes for a failed UTF-8
  decoding are abbreviated.
\<close>

section \<open>Verdicts\<close>

datatype commit_status =
    Unsigned
  | Malformed string
  | NoSignerDid string
  | ConflictingSignerDids string string
  | UnresolvedSigner string string
  | UnknownKey string string
  | BadSignature string
  | Unauthorized string
  | RegistryUnavailable string string
  | PgpRejected string
  | PlatformSignedEdit string
  | PlatformMergeUnverifiedParent string string
  | PlatformMergeAltered string string
  | Exempt string
  | Trusted string string

fun is_trusted :: "commit_status \<Rightarrow> bool" where
  "is_trusted (Trusted _ _) = True"
| "is_trusted _ = False"

fun passes :: "commit_status \<Rightarrow> bool" where
  "passes (Trusted _ _) = True"
| "passes (Exempt _) = True"
| "passes _ = False"

record commit_verdict =
  cv_sha :: string
  cv_status :: commit_status

section \<open>Running git\<close>

record git_output =
  exit_code :: "int option"
  stdout :: string
  stderr :: string

type_synonym git_call = "string list \<Rightarrow> string + git_output"

definition run_git :: "git_call \<Rightarrow> string list \<Rightarrow> string + string" where
  "run_git call args =
     (case call args of
        Inl _ \<Rightarrow> Inl (''running git '' @ join '' '' args)
      | Inr out \<Rightarrow>
          if exit_code out \<noteq> Some 0
          then Inl (''git '' @ join '' '' args @ '' failed: '' @ utf8_lossy (stderr out))
          else if \<not> utf8_valid (stdout out) then Inl ''invalid utf-8''
          else Inr (trim_end (stdout out)))"

definition list_commits :: "git_call \<Rightarrow> string \<Rightarrow> string + string list" where
  "list_commits call revs =
     (if starts_with ''-'' revs
      then Inl (''--range must be a revision range, not an option: '' @ show_debug revs)
      else case run_git call [''rev-list'', ''--reverse'', ''--end-of-options'', revs] of
        Inl e \<Rightarrow> Inl e
      | Inr output \<Rightarrow> Inr (lines output))"

definition range_boundary :: "git_call \<Rightarrow> string \<Rightarrow> string + string set" where
  "range_boundary call revs =
     (if starts_with ''-'' revs
      then Inl (''--range must be a revision range, not an option: '' @ show_debug revs)
      else case run_git call [''rev-list'', ''--boundary'', ''--end-of-options'', revs] of
        Inl e \<Rightarrow> Inl e
      | Inr output \<Rightarrow> Inr (set (List.map_filter (strip_prefix ''-'') (lines output))))"

definition read_commit_raw :: "git_call \<Rightarrow> string \<Rightarrow> string + string" where
  "read_commit_raw call sha =
     (case call [''cat-file'', ''commit'', sha] of
        Inl _ \<Rightarrow> Inl ''running git cat-file''
      | Inr out \<Rightarrow>
          if exit_code out \<noteq> Some 0
          then Inl (''git cat-file commit '' @ sha @ '' failed: '' @ utf8_lossy (stderr out))
          else Inr (stdout out))"

fun read_all :: "git_call \<Rightarrow> string list \<Rightarrow> string + range_commit list" where
  "read_all call [] = Inr []"
| "read_all call (sha # shas) =
     (case read_commit_raw call sha of
        Inl e \<Rightarrow> Inl e
      | Inr raw \<Rightarrow>
          (case read_all call shas of
             Inl e \<Rightarrow> Inl e
           | Inr rest \<Rightarrow> Inr (\<lparr>rc_sha = sha, rc_raw = raw\<rparr> # rest)))"

definition read_range :: "git_call \<Rightarrow> string \<Rightarrow> string + range_commit list" where
  "read_range call revs =
     (case list_commits call revs of Inl e \<Rightarrow> Inl e | Inr shas \<Rightarrow> read_all call shas)"

definition EMPTY_TREE :: string where
  "EMPTY_TREE = ''4b825dc642cb6eb9a060e54bf8d69288fbee4904''"

definition MIN_GIT :: "nat \<times> nat" where
  "MIN_GIT = (2, 40)"

definition parse_git_version :: "string \<Rightarrow> (nat \<times> nat) option" where
  "parse_git_version output =
     (case strip_prefix ''git version '' (trim output) of
        None \<Rightarrow> None
      | Some number \<Rightarrow>
          (case split_any (\<lambda>c. \<not> is_ascii_digit c) number of
             a # b # _ \<Rightarrow>
               (case (parse_uint 32 a, parse_uint 32 b) of
                  (Some major, Some minor) \<Rightarrow> Some (major, minor)
                | _ \<Rightarrow> None)
           | _ \<Rightarrow> None))"

definition require_attr_source_git :: "git_call \<Rightarrow> string + unit" where
  "require_attr_source_git call =
     (case run_git call [''version''] of
        Inl e \<Rightarrow> Inl e
      | Inr version \<Rightarrow>
          (let refuse = Inl (''verifying platform-signed merges needs git ''
                 @ show_nat (fst MIN_GIT) @ ''.'' @ show_nat (snd MIN_GIT)
                 @ '' or newer (for --attr-source), found '' @ show_debug version
                 @ ''; GitHub-hosted runners ship a newer git'')
           in case parse_git_version version of
                Some (major, minor) \<Rightarrow>
                  if fst MIN_GIT < major \<or> (major = fst MIN_GIT \<and> snd MIN_GIT \<le> minor)
                  then Inr () else refuse
              | None \<Rightarrow> refuse))"

section \<open>Recomputing a merge\<close>

datatype merge_outcome = Clean string | Conflict | Unavailable string

definition commit_headers :: "string \<Rightarrow> string list" where
  "commit_headers raw =
     filter utf8_valid
       (filter (\<lambda>l. \<not> starts_with '' '' l)
         (split_on newline (case split_once blank_line raw of None \<Rightarrow> raw | Some (h, _) \<Rightarrow> h)))"

definition commit_parents :: "string \<Rightarrow> string list" where
  "commit_parents raw = List.map_filter (strip_prefix ''parent '') (commit_headers raw)"

definition clean_merge_mismatch ::
    "string \<Rightarrow> string list \<Rightarrow> (string \<Rightarrow> string \<Rightarrow> merge_outcome) \<Rightarrow> string option" where
  "clean_merge_mismatch raw parents recompute =
     (case parents of
        [ours, theirs] \<Rightarrow>
          (case find_map (strip_prefix ''tree '') (commit_headers raw) of
             None \<Rightarrow> Some ''commit has no tree header''
           | Some tree \<Rightarrow>
               (case recompute ours theirs of
                  Clean merged \<Rightarrow>
                    if merged = tree then None
                    else Some (''tree '' @ tree @ '' is not the clean merge of its parents (''
                           @ merged @ ''); the merge added content of its own'')
                | Conflict \<Rightarrow>
                    Some (''its parents do not merge cleanly, so the conflicts were resolved by hand ''
                      @ ''(e.g. in the web UI) and that resolution is unsigned content'')
                | Unavailable why \<Rightarrow> Some (''could not recompute the merge: '' @ why)))
      | _ \<Rightarrow> Some (show_nat (length parents)
               @ ''-parent merge; the platform creates only two-parent merges''))"

definition merge_tree_args :: "string \<Rightarrow> string \<Rightarrow> string option \<Rightarrow> string list" where
  "merge_tree_args ours theirs merge_base =
     [''--attr-source='' @ EMPTY_TREE, ''-c'', ''core.attributesFile=/dev/null'',
      ''merge-tree'', ''--write-tree'', ''--no-messages'']
     @ (case merge_base of None \<Rightarrow> [] | Some base \<Rightarrow> [''--merge-base='' @ base])
     @ [''--end-of-options'', ours, theirs]"

definition merge_outcome_of :: "int option \<Rightarrow> string \<Rightarrow> string \<Rightarrow> merge_outcome" where
  "merge_outcome_of code out err =
     (let err = utf8_lossy err in
      if code = Some 0
      then Clean (trim (case lines (utf8_lossy out) of [] \<Rightarrow> [] | l # _ \<Rightarrow> l))
      else if code = Some 1 \<and> contains_sub ''not something we can merge'' err
      then Unavailable (''a parent is not in the repository: '' @ trim err)
      else if code = Some 1 then Conflict
      else Unavailable (trim err))"

definition has_commit :: "git_call \<Rightarrow> string \<Rightarrow> bool" where
  "has_commit call parent =
     (case call [''cat-file'', ''-e'', ''--end-of-options'', parent @ ''^{commit}''] of
        Inl _ \<Rightarrow> False
      | Inr out \<Rightarrow> exit_code out = Some 0)"

definition recompute_merge :: "git_call \<Rightarrow> string \<Rightarrow> string \<Rightarrow> merge_outcome" where
  "recompute_merge call ours theirs =
     (case find (\<lambda>p. \<not> has_commit call p) [ours, theirs] of
        Some parent \<Rightarrow>
          Unavailable (''parent '' @ parent
            @ '' is not in the repository (it needs the full history, not a shallow clone)'')
      | None \<Rightarrow>
          (case call (merge_tree_args ours theirs None) of
             Inl e \<Rightarrow> Unavailable (''could not run git merge-tree: '' @ e)
           | Inr out \<Rightarrow>
               (case merge_outcome_of (exit_code out) (stdout out) (stderr out) of
                  Unavailable why \<Rightarrow>
                    Unavailable (''it needs the full history, not a shallow clone: '' @ why)
                | outcome \<Rightarrow> outcome)))"

section \<open>Where the policy gets its answers\<close>

record merge_facts =
  boundary :: "string set"
  merges :: "string \<Rightarrow> merge_outcome option"

datatype merge_source = Git git_call string | Facts merge_facts

definition boundary_of :: "merge_source \<Rightarrow> string + string set" where
  "boundary_of source =
     (case source of Git call revs \<Rightarrow> range_boundary call revs | Facts facts \<Rightarrow> Inr (boundary facts))"

definition git_check :: "merge_source \<Rightarrow> string + unit" where
  "git_check source =
     (case source of Git call _ \<Rightarrow> require_attr_source_git call | Facts _ \<Rightarrow> Inr ())"

definition recompute_from :: "merge_source \<Rightarrow> string \<Rightarrow> string \<Rightarrow> string \<Rightarrow> merge_outcome" where
  "recompute_from source sha ours theirs =
     (case source of
        Git call _ \<Rightarrow> recompute_merge call ours theirs
      | Facts facts \<Rightarrow>
          (case merges facts sha of
             Some outcome \<Rightarrow> outcome
           | None \<Rightarrow> Unavailable ''the merge was not recomputed for this check''))"

section \<open>Settling the platform merges\<close>

text \<open>The index of each commit id; of two equal ids the map keeps the later index.\<close>

definition sha_position :: "range_commit list \<Rightarrow> string \<Rightarrow> nat option" where
  "sha_position commits = map_of (rev (zip (map rc_sha commits) [0..<length commits]))"

datatype parent_scan = ParentFailed string | ParentsWaiting | ParentsPass

text \<open>The loop over the parents: stops at the first parent that fails.\<close>

fun scan_parents ::
    "merge_source \<Rightarrow> (string \<Rightarrow> nat option) \<Rightarrow> nat list \<Rightarrow> commit_verdict list \<Rightarrow> bool \<Rightarrow> string list
       \<Rightarrow> string + parent_scan" where
  "scan_parents source pos undecided verdicts waiting [] =
     Inr (if waiting then ParentsWaiting else ParentsPass)"
| "scan_parents source pos undecided verdicts waiting (parent # ps) =
     (case pos parent of
        Some j \<Rightarrow>
          if j \<in> set undecided then scan_parents source pos undecided verdicts True ps
          else if passes (cv_status (verdicts ! j))
          then scan_parents source pos undecided verdicts waiting ps
          else Inr (ParentFailed parent)
      | None \<Rightarrow>
          (case boundary_of source of
             Inl e \<Rightarrow> Inl e
           | Inr b \<Rightarrow>
               if parent \<notin> b then Inr (ParentFailed parent)
               else scan_parents source pos undecided verdicts waiting ps))"

text \<open>One undecided commit: \<open>None\<close> when it has to wait for a parent.\<close>

definition settle_one ::
    "merge_source \<Rightarrow> range_commit list \<Rightarrow> nat list \<Rightarrow> commit_verdict list \<Rightarrow> nat
       \<Rightarrow> string + commit_status option" where
  "settle_one source commits undecided verdicts i =
     (case cv_status (verdicts ! i) of
        Exempt fingerprint \<Rightarrow>
          (let raw = rc_raw (commits ! i); parents = commit_parents raw in
           if length parents < 2 then Inr (Some (PlatformSignedEdit fingerprint))
           else (case scan_parents source (sha_position commits) undecided verdicts False parents of
             Inl e \<Rightarrow> Inl e
           | Inr (ParentFailed parent) \<Rightarrow>
               Inr (Some (PlatformMergeUnverifiedParent fingerprint parent))
           | Inr ParentsWaiting \<Rightarrow> Inr None
           | Inr ParentsPass \<Rightarrow>
               (case git_check source of
                  Inl e \<Rightarrow> Inl e
                | Inr _ \<Rightarrow>
                    (case clean_merge_mismatch raw parents
                            (recompute_from source (rc_sha (commits ! i))) of
                       None \<Rightarrow> Inr (Some (Exempt fingerprint))
                     | Some detail \<Rightarrow> Inr (Some (PlatformMergeAltered fingerprint detail))))))
      | _ \<Rightarrow> Inr None)"

fun settle_round ::
    "merge_source \<Rightarrow> range_commit list \<Rightarrow> nat list \<Rightarrow> commit_verdict list \<Rightarrow> nat list
       \<Rightarrow> string + (nat \<times> commit_status) list" where
  "settle_round source commits undecided verdicts [] = Inr []"
| "settle_round source commits undecided verdicts (i # is) =
     (case settle_one source commits undecided verdicts i of
        Inl e \<Rightarrow> Inl e
      | Inr s \<Rightarrow>
          (case settle_round source commits undecided verdicts is of
             Inl e \<Rightarrow> Inl e
           | Inr rest \<Rightarrow> Inr (case s of None \<Rightarrow> rest | Some st \<Rightarrow> (i, st) # rest)))"

definition set_status :: "commit_verdict list \<Rightarrow> nat \<Rightarrow> commit_status \<Rightarrow> commit_verdict list" where
  "set_status verdicts i s = verdicts[i := (verdicts ! i)\<lparr>cv_status := s\<rparr>]"

definition apply_settled ::
    "(nat \<times> commit_status) list \<Rightarrow> commit_verdict list \<Rightarrow> commit_verdict list" where
  "apply_settled settled verdicts = foldl (\<lambda>vs (i, s). set_status vs i s) verdicts settled"

text \<open>The verdict of a commit no round can settle.\<close>

definition mark_cyclic :: "nat list \<Rightarrow> commit_verdict list \<Rightarrow> commit_verdict list" where
  "mark_cyclic undecided verdicts =
     foldl (\<lambda>vs i. case cv_status (vs ! i) of
              Exempt fingerprint \<Rightarrow>
                set_status vs i
                  (PlatformMergeUnverifiedParent fingerprint ''(cyclic parent chain)'')
            | _ \<Rightarrow> vs)
       verdicts undecided"

lemma settle_round_iff:
  "settle_round source commits undecided verdicts is = Inr settled \<Longrightarrow>
     (i, s) \<in> set settled \<longleftrightarrow>
       i \<in> set is \<and> settle_one source commits undecided verdicts i = Inr (Some s)"
  by (induction "is" arbitrary: settled) (auto split: sum.splits option.splits)

function settle_loop ::
    "merge_source \<Rightarrow> range_commit list \<Rightarrow> nat list \<Rightarrow> commit_verdict list
       \<Rightarrow> string + commit_verdict list" where
  "settle_loop source commits undecided verdicts =
     (if undecided = [] then Inr verdicts
      else (case settle_round source commits undecided verdicts undecided of
        Inl e \<Rightarrow> Inl e
      | Inr settled \<Rightarrow>
          if settled = [] then Inr (mark_cyclic undecided verdicts)
          else settle_loop source commits
                 (filter (\<lambda>i. i \<notin> fst ` set settled) undecided)
                 (apply_settled settled verdicts)))"
  by pat_completeness auto
termination
proof (relation "measure (\<lambda>(_, _, undecided, _). length undecided)", goal_cases)
  case (2 source commits undecided verdicts settled)
  from 2(3) obtain i s where i: "(i, s) \<in> set settled" by (cases settled) auto
  with settle_round_iff [OF 2(2)] have "i \<in> set undecided" "i \<in> fst ` set settled" by force+
  then have "length (filter (\<lambda>i. i \<notin> fst ` set settled) undecided) < length undecided"
    by (intro length_filter_less) auto
  then show ?case by simp
qed simp

declare settle_loop.simps [simp del]

definition is_exempt :: "commit_status \<Rightarrow> bool" where
  "is_exempt s \<longleftrightarrow> (case s of Exempt _ \<Rightarrow> True | _ \<Rightarrow> False)"

definition apply_platform_merge_policy ::
    "merge_source \<Rightarrow> range_commit list \<Rightarrow> commit_verdict list \<Rightarrow> string + commit_verdict list" where
  "apply_platform_merge_policy source commits verdicts =
     settle_loop source commits
       (filter (\<lambda>i. is_exempt (cv_status (verdicts ! i))) [0..<length verdicts]) verdicts"

section \<open>The least fixed point the loop computes\<close>

definition at_boundary :: "merge_source \<Rightarrow> string \<Rightarrow> bool" where
  "at_boundary source parent \<longleftrightarrow> (\<exists>b. boundary_of source = Inr b \<and> parent \<in> b)"

text \<open>
  What a pass rests on. A commit is grounded if a DID signed it, or if it is a platform-signed
  two-parent merge whose tree is the clean merge of its parents and whose parents are each
  grounded or on the boundary. The relation is inductive: nothing is grounded by a cycle.
\<close>

inductive grounded ::
    "merge_source \<Rightarrow> range_commit list \<Rightarrow> commit_verdict list \<Rightarrow> nat \<Rightarrow> bool"
  for source commits verdicts where
  grounded_signed:
    "i < length verdicts \<Longrightarrow> is_trusted (cv_status (verdicts ! i)) \<Longrightarrow>
       grounded source commits verdicts i"
| grounded_merge:
    "i < length verdicts \<Longrightarrow> is_exempt (cv_status (verdicts ! i)) \<Longrightarrow>
       commit_parents (rc_raw (commits ! i)) = [ours, theirs] \<Longrightarrow>
       find_map (strip_prefix ''tree '') (commit_headers (rc_raw (commits ! i))) = Some tree \<Longrightarrow>
       recompute_from source (rc_sha (commits ! i)) ours theirs = Clean tree \<Longrightarrow>
       \<forall>p\<in>{ours, theirs}.
         (\<exists>j. sha_position commits p = Some j \<and> grounded source commits verdicts j)
         \<or> (sha_position commits p = None \<and> at_boundary source p) \<Longrightarrow>
       grounded source commits verdicts i"

inductive_cases groundedE: "grounded source commits verdicts i"

lemma grounded_exempt_iff:
  assumes "i < length verdicts" "is_exempt (cv_status (verdicts ! i))"
  shows "grounded source commits verdicts i \<longleftrightarrow>
    clean_merge_mismatch (rc_raw (commits ! i)) (commit_parents (rc_raw (commits ! i)))
        (recompute_from source (rc_sha (commits ! i))) = None
    \<and> (\<forall>p\<in>set (commit_parents (rc_raw (commits ! i))).
         (\<exists>j. sha_position commits p = Some j \<and> grounded source commits verdicts j)
         \<or> (sha_position commits p = None \<and> at_boundary source p))"
    (is "?G = (?M \<and> ?P)")
proof
  assume ?G
  then show "?M \<and> ?P"
  proof (cases rule: grounded.cases)
    case grounded_signed
    with assms show ?thesis by (cases "cv_status (verdicts ! i)") (auto simp: is_exempt_def)
  qed (auto simp: clean_merge_mismatch_def)
next
  assume r: "?M \<and> ?P"
  then obtain ours theirs tree where
    ps: "commit_parents (rc_raw (commits ! i)) = [ours, theirs]" and
    "find_map (strip_prefix ''tree '') (commit_headers (rc_raw (commits ! i))) = Some tree"
    "recompute_from source (rc_sha (commits ! i)) ours theirs = Clean tree"
    by (auto simp: clean_merge_mismatch_def split: list.splits option.splits merge_outcome.splits if_splits)
  then show ?G
    using r by (intro grounded_merge [OF assms ps]) auto
qed

lemma sha_position_less: "sha_position commits p = Some j \<Longrightarrow> j < length commits"
  by (auto simp: sha_position_def dest!: map_of_SomeD set_zip_rightD)

lemma scan_parents_pass:
  "scan_parents source pos und vs w ps = Inr ParentsPass \<Longrightarrow>
     \<not> w \<and> (\<forall>p\<in>set ps. (\<exists>j. pos p = Some j \<and> j \<notin> set und \<and> passes (cv_status (vs ! j)))
        \<or> (pos p = None \<and> at_boundary source p))"
  by (induction ps arbitrary: w)
    (auto simp: at_boundary_def split: if_splits option.splits sum.splits)

lemma scan_parents_waiting:
  "scan_parents source pos und vs w ps = Inr ParentsWaiting \<Longrightarrow>
     w \<or> (\<exists>p\<in>set ps. \<exists>j\<in>set und. pos p = Some j)"
  by (induction ps arbitrary: w) (fastforce split: if_splits option.splits sum.splits)+

lemma scan_parents_failed:
  "scan_parents source pos und vs w ps = Inr (ParentFailed q) \<Longrightarrow>
     q \<in> set ps \<and> ((\<exists>j. pos q = Some j \<and> j \<notin> set und \<and> \<not> passes (cv_status (vs ! j)))
        \<or> (pos q = None \<and> \<not> at_boundary source q))"
  by (induction ps arbitrary: w)
    (auto simp: at_boundary_def split: if_splits option.splits sum.splits)

text \<open>The loop invariant: what is decided is decided as the least fixed point says.\<close>

definition settling ::
    "merge_source \<Rightarrow> range_commit list \<Rightarrow> commit_verdict list \<Rightarrow> nat list \<Rightarrow> commit_verdict list
       \<Rightarrow> bool" where
  "settling source commits v0 und vs \<longleftrightarrow>
     length vs = length v0 \<and> length commits = length v0
     \<and> (\<forall>i\<in>set und. i < length v0 \<and> is_exempt (cv_status (v0 ! i)) \<and> vs ! i = v0 ! i)
     \<and> (\<forall>i<length v0. i \<notin> set und \<longrightarrow>
          (passes (cv_status (vs ! i)) \<longleftrightarrow> grounded source commits v0 i))
     \<and> (\<forall>i<length v0. cv_sha (vs ! i) = cv_sha (v0 ! i)
          \<and> (\<not> is_exempt (cv_status (v0 ! i)) \<longrightarrow> vs ! i = v0 ! i))"

lemma settle_one_correct:
  assumes inv: "settling source commits v0 und vs" and i: "i \<in> set und"
    and one: "settle_one source commits und vs i = Inr (Some s)"
  shows "passes s \<longleftrightarrow> grounded source commits v0 i"
proof -
  let ?ps = "commit_parents (rc_raw (commits ! i))"
  let ?pos = "sha_position commits"
  from inv i have i0: "i < length v0" "is_exempt (cv_status (v0 ! i))" "vs ! i = v0 ! i"
    by (auto simp: settling_def)
  then obtain fp where fp: "cv_status (vs ! i) = Exempt fp"
    by (cases "cv_status (v0 ! i)") (auto simp: is_exempt_def)
  note G = grounded_exempt_iff [OF i0(1,2), of source commits]
  have decided: "passes (cv_status (vs ! j)) \<longleftrightarrow> grounded source commits v0 j"
    if "?pos p = Some j" "j \<notin> set und" for p j
    using inv sha_position_less [OF that(1)] that(2) by (auto simp: settling_def)
  show ?thesis
  proof (cases "length ?ps < 2")
    case True
    then have "clean_merge_mismatch (rc_raw (commits ! i)) ?ps f \<noteq> None" for f
      by (auto simp: clean_merge_mismatch_def split: list.splits)
    moreover have "s = PlatformSignedEdit fp"
      using one True fp by (simp add: settle_one_def Let_def)
    ultimately show ?thesis using G by simp
  next
    case False
    with one fp obtain r where scan: "scan_parents source ?pos und vs False ?ps = Inr r"
      by (auto simp: settle_one_def Let_def split: sum.splits)
    show ?thesis
    proof (cases r)
      case (ParentFailed q)
      with one fp False scan have "s = PlatformMergeUnverifiedParent fp q"
        by (simp add: settle_one_def Let_def)
      moreover from scan_parents_failed [OF scan [unfolded ParentFailed]] decided
      have "\<not> (\<forall>p\<in>set ?ps. (\<exists>j. ?pos p = Some j \<and> grounded source commits v0 j)
          \<or> (?pos p = None \<and> at_boundary source p))"
        by fastforce
      ultimately show ?thesis using G by simp
    next
      case ParentsWaiting
      with one fp False scan show ?thesis by (simp add: settle_one_def Let_def)
    next
      case ParentsPass
      from scan_parents_pass [OF scan [unfolded ParentsPass]] decided
      have "\<forall>p\<in>set ?ps. (\<exists>j. ?pos p = Some j \<and> grounded source commits v0 j)
          \<or> (?pos p = None \<and> at_boundary source p)"
        by blast
      moreover have "s = (case clean_merge_mismatch (rc_raw (commits ! i)) ?ps
            (recompute_from source (rc_sha (commits ! i))) of
          None \<Rightarrow> Exempt fp | Some d \<Rightarrow> PlatformMergeAltered fp d)"
        using one fp False scan ParentsPass
        by (simp add: settle_one_def Let_def split: sum.splits option.splits)
      then have "passes s \<longleftrightarrow> clean_merge_mismatch (rc_raw (commits ! i)) ?ps
          (recompute_from source (rc_sha (commits ! i))) = None"
        by (simp split: option.splits)
      ultimately show ?thesis unfolding G by simp
    qed
  qed
qed

lemma apply_settled_length [simp]: "length (apply_settled settled vs) = length vs"
  by (induction settled arbitrary: vs) (auto simp: apply_settled_def set_status_def)

lemma apply_settled_Cons:
  "apply_settled ((i, s) # rest) vs = apply_settled rest (set_status vs i s)"
  by (simp add: apply_settled_def)

lemma set_status_nth:
  "j < length vs \<Longrightarrow>
     set_status vs i s ! j = (if j = i then (vs ! j)\<lparr>cv_status := s\<rparr> else vs ! j)"
  by (simp add: set_status_def)

lemma apply_settled_other:
  "j < length vs \<Longrightarrow> j \<notin> fst ` set settled \<Longrightarrow> apply_settled settled vs ! j = vs ! j"
proof (induction settled arbitrary: vs)
  case (Cons x settled)
  then show ?case by (cases x) (simp add: apply_settled_Cons set_status_nth set_status_def)
qed (simp add: apply_settled_def)

lemma apply_settled_in:
  assumes "j < length vs" "(j, s) \<in> set settled" "\<And>s'. (j, s') \<in> set settled \<Longrightarrow> s' = s"
  shows "apply_settled settled vs ! j = (vs ! j)\<lparr>cv_status := s\<rparr>"
  using assms
proof (induction settled arbitrary: vs)
  case (Cons x settled)
  obtain i t where x: "x = (i, t)" by (cases x)
  show ?case
  proof (cases "j \<in> fst ` set settled")
    case True
    then have "(j, s) \<in> set settled" using Cons.prems(3) by fastforce
    then have "apply_settled settled (set_status vs i t) ! j
        = (set_status vs i t ! j)\<lparr>cv_status := s\<rparr>"
      using Cons.prems(1,3) by (intro Cons.IH) (auto simp: set_status_def)
    with Cons.prems(1) show ?thesis by (auto simp: x apply_settled_Cons set_status_nth)
  next
    case False
    with Cons.prems(2) x have "i = j" "t = s" by force+
    moreover have "apply_settled settled (set_status vs j s) ! j = set_status vs j s ! j"
      using Cons.prems(1) False by (intro apply_settled_other) (simp_all add: set_status_def)
    ultimately show ?thesis using Cons.prems(1) by (simp add: x apply_settled_Cons set_status_nth)
  qed
qed simp

lemma settling_round:
  assumes inv: "settling source commits v0 und vs"
    and round: "settle_round source commits und vs und = Inr settled"
  shows "settling source commits v0 (filter (\<lambda>i. i \<notin> fst ` set settled) und)
           (apply_settled settled vs)"
proof -
  let ?vs = "apply_settled settled vs"
  note iff = settle_round_iff [OF round]
  have len: "length vs = length v0" using inv by (simp add: settling_def)
  have settled_in: "?vs ! i = (vs ! i)\<lparr>cv_status := s\<rparr>" "i \<in> set und"
    "passes s \<longleftrightarrow> grounded source commits v0 i" "i < length v0" "is_exempt (cv_status (v0 ! i))"
    if "(i, s) \<in> set settled" for i s
  proof -
    from that iff have one: "i \<in> set und" "settle_one source commits und vs i = Inr (Some s)"
      by auto
    from settle_one_correct [OF inv one] show "passes s \<longleftrightarrow> grounded source commits v0 i" .
    from one inv show i: "i \<in> set und" "i < length v0" "is_exempt (cv_status (v0 ! i))"
      by (auto simp: settling_def)
    with that one iff len show "?vs ! i = (vs ! i)\<lparr>cv_status := s\<rparr>"
      by (intro apply_settled_in) auto
  qed
  have other: "?vs ! i = vs ! i" if "i < length v0" "i \<notin> fst ` set settled" for i
    using that len by (simp add: apply_settled_other)
  have cases: "(i \<notin> fst ` set settled \<and> ?vs ! i = vs ! i)
      \<or> (\<exists>s. (i, s) \<in> set settled \<and> ?vs ! i = (vs ! i)\<lparr>cv_status := s\<rparr>)"
    if "i < length v0" for i
    using that other settled_in(1) by fastforce
  show ?thesis
    unfolding settling_def
  proof (intro conjI allI ballI impI)
    show "length ?vs = length v0" "length commits = length v0"
      using inv by (simp_all add: settling_def)
  next
    fix i assume "i \<in> set (filter (\<lambda>i. i \<notin> fst ` set settled) und)"
    with inv other show "i < length v0" "is_exempt (cv_status (v0 ! i))" "?vs ! i = v0 ! i"
      by (auto simp: settling_def)
  next
    fix i assume i: "i < length v0" and "i \<notin> set (filter (\<lambda>i. i \<notin> fst ` set settled) und)"
    with cases [OF i] inv settled_in
    show "passes (cv_status (?vs ! i)) \<longleftrightarrow> grounded source commits v0 i"
      by (fastforce simp: settling_def)
  next
    fix i assume i: "i < length v0"
    with cases [OF i] inv show "cv_sha (?vs ! i) = cv_sha (v0 ! i)"
      by (auto simp: settling_def)
    assume "\<not> is_exempt (cv_status (v0 ! i))"
    with cases [OF i] i inv settled_in(5) show "?vs ! i = v0 ! i"
      by (auto simp: settling_def)
  qed
qed

lemma mark_cyclic_length [simp]: "length (mark_cyclic und vs) = length vs"
  by (induction und arbitrary: vs)
    (auto simp: mark_cyclic_def set_status_def split: commit_status.splits)

lemma mark_cyclic_nth:
  assumes "j < length vs" "\<forall>i\<in>set und. is_exempt (cv_status (vs ! i))"
  shows "cv_sha (mark_cyclic und vs ! j) = cv_sha (vs ! j)"
    and "j \<notin> set und \<Longrightarrow> mark_cyclic und vs ! j = vs ! j"
    and "j \<in> set und \<Longrightarrow> \<not> passes (cv_status (mark_cyclic und vs ! j))"
proof -
  define step where "step = (\<lambda>vs i. case cv_status (vs ! i) of
      Exempt fingerprint \<Rightarrow>
        set_status vs i (PlatformMergeUnverifiedParent fingerprint ''(cyclic parent chain)'')
    | _ \<Rightarrow> vs)"
  have len: "length (step vs i) = length vs" for vs i
    by (simp add: step_def set_status_def split: commit_status.split)
  have nth: "step vs i ! j = vs ! j \<or> (j = i \<and> cv_sha (step vs i ! j) = cv_sha (vs ! j)
        \<and> \<not> passes (cv_status (step vs i ! j)))" if "j < length vs" for vs i
    using that by (simp add: step_def set_status_nth split: commit_status.split)
  have hit: "\<not> passes (cv_status (step vs j ! j))"
    if "j < length vs" "\<not> passes (cv_status (vs ! j)) \<or> is_exempt (cv_status (vs ! j))" for vs
    using that by (cases "cv_status (vs ! j)") (simp_all add: step_def set_status_nth is_exempt_def)
  have "cv_sha (foldl step vs und ! j) = cv_sha (vs ! j)
      \<and> (j \<notin> set und \<longrightarrow> foldl step vs und ! j = vs ! j)
      \<and> (\<not> passes (cv_status (vs ! j)) \<or> (j \<in> set und \<and> is_exempt (cv_status (vs ! j)))
           \<longrightarrow> \<not> passes (cv_status (foldl step vs und ! j)))"
    if "j < length vs" for vs
    using that
  proof (induction und arbitrary: vs)
    case (Cons i und)
    have "j < length (step vs i)" using Cons.prems len by simp
    from Cons.IH [OF this] nth [OF Cons.prems, of i] hit [OF Cons.prems] show ?case by auto
  qed simp
  from this [OF assms(1)] assms(2) show
    "cv_sha (mark_cyclic und vs ! j) = cv_sha (vs ! j)"
    "j \<notin> set und \<Longrightarrow> mark_cyclic und vs ! j = vs ! j"
    "j \<in> set und \<Longrightarrow> \<not> passes (cv_status (mark_cyclic und vs ! j))"
    unfolding mark_cyclic_def step_def by auto
qed

text \<open>A round that settles nothing leaves only commits that wait on each other.\<close>

lemma stuck_not_grounded:
  assumes inv: "settling source commits v0 und vs"
    and round: "settle_round source commits und vs und = Inr []"
  shows "grounded source commits v0 i \<Longrightarrow> i \<notin> set und"
proof (induction rule: grounded.induct)
  case (grounded_signed i)
  with inv show ?case
    by (cases "cv_status (v0 ! i)") (auto simp: settling_def is_exempt_def)
next
  case (grounded_merge i ours theirs tree)
  show ?case
  proof
    assume i: "i \<in> set und"
    have all_inr: "\<exists>s. settle_one source commits und vs i = Inr s" if "i \<in> set is"
      "settle_round source commits und vs is = Inr r" for "is" r
      using that by (induction "is" arbitrary: r) (auto split: sum.splits)
    have "settle_one source commits und vs i \<noteq> Inr (Some s)" for s
      using settle_round_iff [OF round, of i s] i by simp
    with all_inr [OF i round] have none: "settle_one source commits und vs i = Inr None"
      by (metis option.exhaust)
    from inv i obtain fp where "cv_status (vs ! i) = Exempt fp"
      by (cases "cv_status (v0 ! i)") (auto simp: settling_def is_exempt_def)
    with none grounded_merge.hyps(3)
    have "scan_parents source (sha_position commits) und vs False [ours, theirs] = Inr ParentsWaiting"
      by (auto simp: settle_one_def Let_def simp del: scan_parents.simps
          split: sum.splits parent_scan.splits option.splits)
    from scan_parents_waiting [OF this] grounded_merge.IH show False
      by auto
  qed
qed

lemma settle_loop_correct:
  "settling source commits v0 und vs \<Longrightarrow> settle_loop source commits und vs = Inr final \<Longrightarrow>
     settling source commits v0 [] final"
proof (induction source commits und vs rule: settle_loop.induct)
  case (1 source commits und vs)
  show ?case
  proof (cases "und = []")
    case True
    with 1 show ?thesis by (simp add: settle_loop.simps)
  next
    case False
    with "1.prems"(2) obtain settled where
      round: "settle_round source commits und vs und = Inr settled"
      by (subst (asm) settle_loop.simps) (auto split: sum.splits)
    show ?thesis
    proof (cases "settled = []")
      case True
      with False round "1.prems"(2) have final: "final = mark_cyclic und vs"
        by (subst (asm) settle_loop.simps) simp
      note inv = "1.prems"(1)
      have ex: "\<forall>i\<in>set und. is_exempt (cv_status (vs ! i))" and len: "length vs = length v0"
        using inv by (auto simp: settling_def)
      have stuck: "i \<in> set und \<Longrightarrow> \<not> grounded source commits v0 i" for i
        using stuck_not_grounded [OF inv] round True by auto
      have m: "cv_sha (mark_cyclic und vs ! i) = cv_sha (vs ! i)"
        "i \<notin> set und \<Longrightarrow> mark_cyclic und vs ! i = vs ! i"
        "i \<in> set und \<Longrightarrow> \<not> passes (cv_status (mark_cyclic und vs ! i))"
        if "i < length v0" for i
        using mark_cyclic_nth [of i vs und] that ex len by auto
      show ?thesis
        unfolding final settling_def
      proof (intro conjI allI ballI impI)
        fix i assume "i < length v0"
        with m stuck inv show "passes (cv_status (mark_cyclic und vs ! i))
            \<longleftrightarrow> grounded source commits v0 i"
          by (cases "i \<in> set und") (auto simp: settling_def)
      next
        fix i assume "i < length v0" "\<not> is_exempt (cv_status (v0 ! i))"
        with inv m(2) show "mark_cyclic und vs ! i = v0 ! i" by (auto simp: settling_def)
      qed (use inv m(1) in \<open>auto simp: settling_def\<close>)
    next
      case settled: False
      have "settle_loop source commits (filter (\<lambda>i. i \<notin> fst ` set settled) und)
          (apply_settled settled vs) = Inr final"
        using "1.prems"(2) False round settled by (subst (asm) settle_loop.simps) simp
      with "1.IH" [OF False round settled] settling_round [OF "1.prems"(1) round]
      show ?thesis by blast
    qed
  qed
qed

lemma settling_init:
  assumes "length commits = length v0"
  shows "settling source commits v0
     (filter (\<lambda>i. is_exempt (cv_status (v0 ! i))) [0..<length v0]) v0"
proof -
  have "passes (cv_status (v0 ! i)) \<longleftrightarrow> grounded source commits v0 i"
    if "i < length v0" "\<not> is_exempt (cv_status (v0 ! i))" for i
  proof -
    have "passes (cv_status (v0 ! i)) \<longleftrightarrow> is_trusted (cv_status (v0 ! i))"
      using that(2) by (cases "cv_status (v0 ! i)") (auto simp: is_exempt_def)
    moreover have "grounded source commits v0 i \<longleftrightarrow> is_trusted (cv_status (v0 ! i))"
      using that by (auto elim: grounded.cases intro: grounded_signed)
    ultimately show ?thesis by simp
  qed
  with assms show ?thesis by (auto simp: settling_def)
qed

lemma policy_settled:
  assumes "length commits = length verdicts"
    and "apply_platform_merge_policy source commits verdicts = Inr final"
  shows "settling source commits verdicts [] final"
  using settle_loop_correct [OF settling_init [OF assms(1)]] assms(2)
  by (simp add: apply_platform_merge_policy_def)

section \<open>Properties\<close>

text \<open>C10: The platform-merge policy computes exactly what a pass may rest on. After it has run,
  a commit passes if and only if it is grounded: signed by an authorised DID, or a
  platform-signed two-parent merge whose tree is the recomputed clean merge of its parents, each
  of which is on the range's boundary or grounded in turn. So no unverified parent is laundered
  through a merge, no chain of merges vouches for itself, and no merge that deserves to pass is
  lost, in whatever order the range lists its commits.\<close>

theorem policy_passes_iff_grounded:
  assumes "length commits = length verdicts"
    and "apply_platform_merge_policy source commits verdicts = Inr final"
    and "i < length verdicts"
  shows "passes (cv_status (final ! i)) \<longleftrightarrow> grounded source commits verdicts i"
  using policy_settled [OF assms(1,2)] assms(3) by (simp add: settling_def)

definition sample_merge :: "string list \<Rightarrow> string \<Rightarrow> range_commit" where
  "sample_merge parents sha = \<lparr>rc_sha = sha,
     rc_raw = join [newline] ([''tree t1''] @ map (\<lambda>p. ''parent '' @ p) parents @ ['''', ''m''])\<rparr>"

definition sample_facts :: merge_source where
  "sample_facts = Facts \<lparr>boundary = {''b0''},
     merges = [''m1'' \<mapsto> Clean ''t1'', ''m2'' \<mapsto> Clean ''t2'']\<rparr>"

text \<open>A clean merge of a trusted commit and the base, listed before the commit it merges; a
  merge with an altered tree; and a merge of that merge.\<close>

definition sample_range :: "range_commit list" where
  "sample_range = [sample_merge [''c1'', ''b0''] ''m1'', sample_commit,
     sample_merge [''c1'', ''b0''] ''m2'', sample_merge [''m1'', ''m2''] ''m3'',
     sample_merge [''c1''] ''e1'']"

definition sample_verdicts :: "commit_verdict list" where
  "sample_verdicts = [\<lparr>cv_sha = ''m1'', cv_status = Exempt ''f''\<rparr>,
     \<lparr>cv_sha = ''c1'', cv_status = Trusted ''did:x'' ''r''\<rparr>,
     \<lparr>cv_sha = ''m2'', cv_status = Exempt ''f''\<rparr>, \<lparr>cv_sha = ''m3'', cv_status = Exempt ''f''\<rparr>,
     \<lparr>cv_sha = ''e1'', cv_status = Exempt ''f''\<rparr>]"

definition sample_final :: "commit_verdict list" where
  "sample_final = [\<lparr>cv_sha = ''m1'', cv_status = Exempt ''f''\<rparr>,
     \<lparr>cv_sha = ''c1'', cv_status = Trusted ''did:x'' ''r''\<rparr>,
     \<lparr>cv_sha = ''m2'', cv_status = PlatformMergeAltered ''f''
        ''tree t1 is not the clean merge of its parents (t2); the merge added content of its own''\<rparr>,
     \<lparr>cv_sha = ''m3'', cv_status = PlatformMergeUnverifiedParent ''f'' ''m2''\<rparr>,
     \<lparr>cv_sha = ''e1'', cv_status = PlatformSignedEdit ''f''\<rparr>]"

lemma sample_policy:
  "apply_platform_merge_policy sample_facts sample_range sample_verdicts = Inr sample_final"
  by code_simp

lemma policy_passes_iff_grounded_witness:
  "grounded sample_facts sample_range sample_verdicts 0
   \<and> \<not> grounded sample_facts sample_range sample_verdicts 3"
  using policy_passes_iff_grounded [OF _ sample_policy, of 0]
    policy_passes_iff_grounded [OF _ sample_policy, of 3]
  by (simp add: sample_range_def sample_verdicts_def sample_final_def)

text \<open>C13: The policy only narrows. It keeps the commits and their order, never turns a failing
  verdict into a pass, leaves every verdict that is not a platform exemption exactly as it was,
  and refuses a platform-signed commit that does not have exactly two parents: a web edit, a
  squash merge or an octopus never passes on the platform's signature.\<close>

theorem policy_only_narrows:
  assumes "length commits = length verdicts"
    and "apply_platform_merge_policy source commits verdicts = Inr final"
    and "i < length verdicts"
  shows "map cv_sha final = map cv_sha verdicts
     \<and> (passes (cv_status (final ! i)) \<longrightarrow> passes (cv_status (verdicts ! i)))
     \<and> (\<not> is_exempt (cv_status (verdicts ! i)) \<longrightarrow> final ! i = verdicts ! i)
     \<and> (is_exempt (cv_status (verdicts ! i))
          \<and> length (commit_parents (rc_raw (commits ! i))) \<noteq> 2
          \<longrightarrow> \<not> passes (cv_status (final ! i)))"
proof -
  have st: "settling source commits verdicts [] final" by (rule policy_settled [OF assms(1,2)])
  then have "map cv_sha final = map cv_sha verdicts"
    by (intro nth_equalityI) (auto simp: settling_def)
  moreover have "passes (cv_status (final ! i)) \<longrightarrow> passes (cv_status (verdicts ! i))"
    using st assms(3) by (cases "cv_status (verdicts ! i)") (auto simp: settling_def is_exempt_def)
  moreover have "\<not> grounded source commits verdicts i"
    if "is_exempt (cv_status (verdicts ! i))" "length (commit_parents (rc_raw (commits ! i))) \<noteq> 2"
    using that assms(3) by (auto simp: grounded_exempt_iff clean_merge_mismatch_def split: list.splits)
  ultimately show ?thesis using st assms(3) by (auto simp: settling_def)
qed

lemma policy_only_narrows_witness:
  "map cv_sha sample_final = map cv_sha sample_verdicts
   \<and> \<not> passes (cv_status (sample_final ! 4))"
  using policy_only_narrows [OF _ sample_policy, of 4]
  by (simp add: sample_range_def sample_verdicts_def sample_final_def)

lemma scan_parents_answers:
  "boundary_of source = Inr b \<Longrightarrow> \<exists>r. scan_parents source pos und vs w ps = Inr r"
  by (induction ps arbitrary: w) (auto split: option.splits)

lemma settle_round_answers:
  assumes "boundary_of source = Inr b" "git_check source = Inr ()"
  shows "\<exists>settled. settle_round source commits und vs is = Inr settled"
proof (induction "is")
  case (Cons i "is")
  have "\<exists>s. settle_one source commits und vs i = Inr s"
    using scan_parents_answers [OF assms(1), of "sha_position commits" und vs False
        "commit_parents (rc_raw (commits ! i))"] assms(2)
    by (auto simp: settle_one_def Let_def split: commit_status.split parent_scan.split option.split)
  with Cons show ?case by (auto split: option.split)
qed simp

lemma settle_loop_answers:
  assumes "boundary_of source = Inr b" "git_check source = Inr ()"
  shows "\<exists>final. settle_loop source commits und vs = Inr final"
  using assms
proof (induction source commits und vs rule: settle_loop.induct)
  case (1 source commits und vs)
  obtain settled where "settle_round source commits und vs und = Inr settled"
    using settle_round_answers [OF "1.prems"] by blast
  with 1 show ?case
    by (subst settle_loop.simps) auto
qed



end
