(* ===== verification/Registry_Binding.thy ===== *)
theory Registry_Binding
  imports Prelude
begin

text \<open>
  The bindings over which a Trust Registry is queried, which of them a run asks for, and a binding
  found in the registry's document with its endpoint (\<open>verify-trust/src/registry.rs\<close>).
\<close>

datatype transport_kind = KindTsp | KindDidcomm | KindHttps

datatype transport_selector = Auto | Tsp | Didcomm | Https

record transport_choice =
  choice_kind :: transport_kind
  choice_endpoint :: string

end
