(* ===== verification/Registry_Route.thy ===== *)
theory Registry_Route
  imports Json_Value Registry_Binding
begin

text \<open>
  How a run reaches the registry (\<open>verify-trust/src/registry.rs\<close>): the choice of a binding, the
  channel of a caller that holds a session, the binding of an authcrypt sender to the key used,
  and the rule that decides whether a reply may be believed. The registry client library
  (\<open>trql_client\<close>), JSON and base64url are outside the repository and are arguments.
\<close>

section \<open>Errors\<close>

datatype trql_error =
    Rejected bool string
  | TrqlTimeout string
  | TrqlTransport transport_kind string
  | TrqlConfig string
  | TrqlContract string

text \<open>The \<open>Display\<close> of the library's types.\<close>

record trql_lib =
  show_error :: "trql_error \<Rightarrow> string"
  show_kind :: "transport_kind \<Rightarrow> string"

text \<open>
  \<open>ServiceCapabilities\<close>: the endpoint advertised for a binding, and the library's own
  \<open>select\<close> among the bindings it is given.
\<close>

record capabilities =
  cap_endpoint :: "transport_kind \<Rightarrow> string option"
  cap_advertised :: "transport_kind list"
  cap_select :: "transport_kind list \<Rightarrow> trql_error + transport_choice"

text \<open>Both mediator features are on by default: the bindings a default build speaks.\<close>

definition supported_transports :: "transport_kind list" where
  "supported_transports = [KindTsp, KindDidcomm, KindHttps]"

fun selector_kind :: "transport_selector \<Rightarrow> transport_kind option" where
  "selector_kind Auto = None"
| "selector_kind Tsp = Some KindTsp"
| "selector_kind Didcomm = Some KindDidcomm"
| "selector_kind Https = Some KindHttps"

definition selector_display :: "trql_lib \<Rightarrow> transport_selector \<Rightarrow> string" where
  "selector_display lib s =
     (case selector_kind s of Some k \<Rightarrow> show_kind lib k | None \<Rightarrow> ''auto'')"

definition is_did :: "string \<Rightarrow> bool" where
  "is_did s \<longleftrightarrow> starts_with ''did:'' s"

text \<open>The loop of \<open>select_route\<close>; \<open>None\<close> would be a loop that never ends.\<close>

partial_function (option) select_route ::
    "capabilities \<Rightarrow> transport_kind list \<Rightarrow> (trql_error + transport_choice) option" where
  "select_route caps remaining =
     (case cap_select caps remaining of
        Inl e \<Rightarrow> Some (Inl e)
      | Inr choice \<Rightarrow>
          if choice_kind choice = KindHttps \<or> is_did (choice_endpoint choice)
          then Some (Inr choice)
          else select_route caps (filter (\<lambda>k. k \<noteq> choice_kind choice) remaining))"

declare select_route.simps [code]

definition list_kinds :: "trql_lib \<Rightarrow> transport_kind list \<Rightarrow> string" where
  "list_kinds lib kinds =
     (if kinds = [] then ''nothing'' else join '', '' (map (show_kind lib) kinds))"

definition choose_route ::
    "trql_lib \<Rightarrow> capabilities \<Rightarrow> transport_selector \<Rightarrow> transport_kind list
       \<Rightarrow> (string + transport_choice) option" where
  "choose_route lib caps selector ours =
     (case selector_kind selector of
        None \<Rightarrow> map_option (map_sum (show_error lib) id) (select_route caps ours)
      | Some kind \<Rightarrow>
          Some (if kind \<notin> set ours
            then Inl (''transport '' @ show_kind lib kind
              @ '' was requested, but this verifier cannot query over it (it speaks: ''
              @ list_kinds lib ours @ '')'')
            else (case cap_endpoint caps kind of
              None \<Rightarrow> Inl (''transport '' @ show_kind lib kind
                @ '' was requested, but the registry's DID document advertises no ''
                @ show_kind lib kind @ '' service (it advertises: ''
                @ list_kinds lib (cap_advertised caps) @ '')'')
            | Some endpoint \<Rightarrow>
                if kind \<noteq> KindHttps \<and> \<not> is_did endpoint
                then Inl (''transport '' @ show_kind lib kind @ '' was requested, but the registry's ''
                  @ show_kind lib kind @ '' endpoint '' @ endpoint @ '' is not a mediator DID'')
                else Inr \<lparr>choice_kind = kind, choice_endpoint = endpoint\<rparr>)))"

section \<open>A channel the caller holds\<close>

record trust_task =
  task_id :: string
  task_thread :: "string option"
  task_recipient :: "string option"
  task_payload :: string

text \<open>
  The transport's state is the latch; \<open>sent\<close> records what was handed to the channel. The
  channel, the serialisation of a document, and its parsing are arguments.
\<close>

record channel_state =
  latched :: "string option"
  sent :: "(string \<times> string) list"

record channel_lib =
  channel_kind :: transport_kind
  encode_task :: "trust_task \<Rightarrow> string + string"
  decode_task :: "string \<Rightarrow> string + trust_task"

definition channel_exchange ::
    "trql_lib \<Rightarrow> channel_lib \<Rightarrow> (string \<Rightarrow> string \<Rightarrow> trql_error + string) \<Rightarrow> string \<Rightarrow> trust_task
       \<Rightarrow> channel_state \<Rightarrow> (trql_error + trust_task) \<times> channel_state" where
  "channel_exchange lib ch channel fresh request st =
     (case latched st of
        Some why \<Rightarrow> (Inl (TrqlTransport (channel_kind ch) why), st)
      | None \<Rightarrow>
     (case task_recipient request of
        None \<Rightarrow> (Inl (TrqlConfig ''request document has no recipient to route to''), st)
      | Some recipient \<Rightarrow>
     (case encode_task ch (request\<lparr>task_id := fresh\<rparr>) of
        Inl e \<Rightarrow> (Inl (TrqlContract (''request did not serialize: '' @ e)), st)
      | Inr body \<Rightarrow>
          (let st = st\<lparr>sent := sent st @ [(recipient, body)]\<rparr> in
           case channel recipient body of
             Inl e \<Rightarrow>
               (case e of
                  TrqlTimeout _ \<Rightarrow>
                    (Inl e, st\<lparr>latched := Some (''an earlier registry query failed: '' @ show_error lib e)\<rparr>)
                | TrqlTransport _ _ \<Rightarrow>
                    (Inl e, st\<lparr>latched := Some (''an earlier registry query failed: '' @ show_error lib e)\<rparr>)
                | _ \<Rightarrow> (Inl e, st))
           | Inr answer \<Rightarrow>
               (case decode_task ch answer of
                  Inl e \<Rightarrow> (Inl (TrqlContract (''reply is not a Trust Task document: '' @ e)), st)
                | Inr reply \<Rightarrow>
                    if task_thread reply \<noteq> Some fresh
                    then (Inl (TrqlContract (''reply threadId ''
                            @ (case task_thread reply of None \<Rightarrow> ''None''
                               | Some t \<Rightarrow> ''Some('' @ show_debug t @ '')'')
                            @ '' does not answer request '' @ fresh)), st)
                    else (Inr (reply\<lparr>task_thread := Some (task_id request)\<rparr>), st))))))"

section \<open>Which replies may be believed\<close>

definition SENDER_MEMBERS :: "string list" where
  "SENDER_MEMBERS = [''alg'', ''skid'', ''apu'', ''epk'']"

record jwe_lib =
  parse_json :: "string \<Rightarrow> string + json"
  base64url :: "string \<Rightarrow> string + string"

text \<open>The headers of an envelope that are not integrity-protected.\<close>

definition unprotected_headers :: "json \<Rightarrow> json list" where
  "unprotected_headers jwe =
     List.map_filter id
       (jget ''unprotected'' jwe # map (jget ''header'') (elements (jget ''recipients'' jwe)))"

definition trim_padding :: "string \<Rightarrow> string" where
  "trim_padding s = trim_end_by (\<lambda>c. c = CHR ''='') s"

definition protected_header :: "jwe_lib \<Rightarrow> string \<Rightarrow> string + json" where
  "protected_header lib encoded =
     (case base64url lib (trim_padding encoded) of
        Inl e \<Rightarrow> Inl (''protected header is not base64url: '' @ e)
      | Inr bs \<Rightarrow>
          (case parse_json lib bs of
             Inl e \<Rightarrow> Inl (''protected header is not JSON: '' @ e)
           | Inr h \<Rightarrow> Inr h))"

text \<open>The check of the protected header, once no unprotected header names a sender.\<close>

definition bound_skid :: "jwe_lib \<Rightarrow> json \<Rightarrow> string + string" where
  "bound_skid lib header =
     (let alg = (case Option.bind (jget ''alg'' header) as_str_json of None \<Rightarrow> [] | Some a \<Rightarrow> a) in
      if \<not> starts_with ''ECDH-1PU'' alg then Inl (''not authcrypt (alg '' @ show_debug alg @ '')'')
      else (case Option.bind (jget ''skid'' header) as_str_json of
        None \<Rightarrow> Inl ''authcrypt without skid''
      | Some skid \<Rightarrow>
      (case Option.bind (jget ''apu'' header) as_str_json of
        None \<Rightarrow> Inl ''authcrypt without apu''
      | Some apu \<Rightarrow>
      (case base64url lib (trim_padding apu) of
        Inl e \<Rightarrow> Inl (''apu is not base64url: '' @ e)
      | Inr apu \<Rightarrow>
          if apu \<noteq> skid
          then Inl (''skid '' @ skid @ '' is not the key the key agreement names (apu ''
                 @ show_debug (utf8_lossy apu) @ '')'')
          else Inr skid))))"

definition authcrypt_sender_kid :: "jwe_lib \<Rightarrow> string \<Rightarrow> string + string" where
  "authcrypt_sender_kid lib packed =
     (case parse_json lib packed of
        Inl e \<Rightarrow> Inl (''not a JSON-serialized JWE: '' @ e)
      | Inr jwe \<Rightarrow>
     (case Option.bind (jget ''protected'' jwe) as_str_json of
        None \<Rightarrow> Inl ''not a JWE: no protected header''
      | Some encoded \<Rightarrow>
     (case protected_header lib encoded of
        Inl e \<Rightarrow> Inl e
      | Inr header \<Rightarrow>
     (case find_map (\<lambda>h. find (\<lambda>m. jget m h \<noteq> None) SENDER_MEMBERS) (unprotected_headers jwe) of
        Some m \<Rightarrow> Inl (''`'' @ m @ ''` appears outside the protected header'')
      | None \<Rightarrow> bound_skid lib header))))"

definition did_of :: "string \<Rightarrow> string" where
  "did_of did_url = (case split_once ''#'' did_url of None \<Rightarrow> did_url | Some (did, _) \<Rightarrow> did)"

definition accept_reply ::
    "string option \<Rightarrow> string option \<Rightarrow> string \<Rightarrow> trust_task \<Rightarrow> string \<Rightarrow> string + unit" where
  "accept_reply authenticated_as claimed_from registry document request_id =
     (case authenticated_as of
        None \<Rightarrow> Inl ''reply was not authenticated to any sender''
      | Some proven \<Rightarrow>
          if did_of proven \<noteq> registry
          then Inl (''reply was authenticated as '' @ did_of proven @ '', not the registry '' @ registry)
          else (case (case claimed_from of None \<Rightarrow> None
                      | Some claimed \<Rightarrow> if did_of claimed \<noteq> registry then Some claimed else None) of
            Some claimed \<Rightarrow>
              Inl (''reply claims to be from '' @ claimed @ '', not the registry '' @ registry)
          | None \<Rightarrow>
              if task_thread document \<noteq> Some request_id
              then Inl (''reply threadId ''
                     @ (case task_thread document of None \<Rightarrow> ''None''
                        | Some t \<Rightarrow> ''Some('' @ show_debug t @ '')'')
                     @ '' does not answer request '' @ request_id)
              else Inr ()))"

section \<open>The preference order\<close>

definition usable :: "capabilities \<Rightarrow> transport_kind \<Rightarrow> bool" where
  "usable caps k \<longleftrightarrow>
     (case cap_endpoint caps k of None \<Rightarrow> False | Some e \<Rightarrow> k = KindHttps \<or> is_did e)"

text \<open>
  What the client library documents of \<open>select\<close>: the first of TSP, DIDComm and HTTPS that is
  both advertised and among the bindings given, at the endpoint advertised; an error if none is.
\<close>

definition select_documented :: "capabilities \<Rightarrow> bool" where
  "select_documented caps \<longleftrightarrow>
     (\<forall>ours. case find (\<lambda>k. k \<in> set ours \<and> cap_endpoint caps k \<noteq> None) supported_transports of
        Some k \<Rightarrow> cap_select caps ours = Inr \<lparr>choice_kind = k, choice_endpoint = the (cap_endpoint caps k)\<rparr>
      | None \<Rightarrow> \<exists>e. cap_select caps ours = Inl e)"

lemma find_cong_filter:
  "(\<And>k. k \<in> set xs \<Longrightarrow> P k = Q k) \<Longrightarrow> find P xs = find Q xs"
  by (induction xs) auto

lemma select_route_settles:
  assumes "select_documented caps"
  shows "case find (\<lambda>k. k \<in> set ours \<and> usable caps k) supported_transports of
      Some k \<Rightarrow> select_route caps ours
        = Some (Inr \<lparr>choice_kind = k, choice_endpoint = the (cap_endpoint caps k)\<rparr>)
    | None \<Rightarrow> \<exists>e. select_route caps ours = Some (Inl e)"
proof (induction "card (set ours)" arbitrary: ours rule: less_induct)
  case less
  let ?adv = "find (\<lambda>k. k \<in> set ours \<and> cap_endpoint caps k \<noteq> None) supported_transports"
  have sel0: "case ?adv of
      Some k \<Rightarrow> cap_select caps ours = Inr \<lparr>choice_kind = k, choice_endpoint = the (cap_endpoint caps k)\<rparr>
    | None \<Rightarrow> \<exists>e. cap_select caps ours = Inl e"
    using assms unfolding select_documented_def by (rule spec)
  show ?case
  proof (cases ?adv)
    case None
    with sel0 obtain e where "cap_select caps ours = Inl e" by auto
    then have "select_route caps ours = Some (Inl e)" by (simp add: select_route.simps)
    moreover have "find (\<lambda>k. k \<in> set ours \<and> usable caps k) supported_transports = None"
      using None by (auto simp: find_None_iff usable_def split: option.splits)
    ultimately show ?thesis by simp
  next
    case (Some k)
    then have k: "k \<in> set ours" "cap_endpoint caps k \<noteq> None"
      by (auto simp: find_Some_iff)
    have sel: "cap_select caps ours
        = Inr \<lparr>choice_kind = k, choice_endpoint = the (cap_endpoint caps k)\<rparr>"
      using sel0 Some by simp
    show ?thesis
    proof (cases "usable caps k")
      case True
      with k have "k = KindHttps \<or> is_did (the (cap_endpoint caps k))"
        by (auto simp: usable_def)
      with sel have "select_route caps ours
          = Some (Inr \<lparr>choice_kind = k, choice_endpoint = the (cap_endpoint caps k)\<rparr>)"
        by (simp add: select_route.simps)
      moreover have "find (\<lambda>k. k \<in> set ours \<and> usable caps k) supported_transports = Some k"
        using Some True by (fastforce simp: supported_transports_def usable_def split: if_splits)
      ultimately show ?thesis by simp
    next
      case False
      let ?rest = "filter (\<lambda>j. j \<noteq> k) ours"
      from False k sel have "select_route caps ours = select_route caps ?rest"
        by (subst select_route.simps) (auto simp: usable_def)
      moreover have "card (set ?rest) < card (set ours)"
        using k(1) by (intro psubset_card_mono) auto
      moreover have "find (\<lambda>j. j \<in> set ?rest \<and> usable caps j) supported_transports
          = find (\<lambda>j. j \<in> set ours \<and> usable caps j) supported_transports"
        using False by (intro find_cong_filter) auto
      ultimately show ?thesis using less.hyps [of ?rest] by (simp split: option.splits)
    qed
  qed
qed

text \<open>Automatic selection always ends and follows the strict preference order. Given a client
  library that selects as documented, the loop terminates for every set of bindings, with the
  first of TSP, DIDComm and HTTPS that this build speaks and whose advertised endpoint can be
  used: a mediator endpoint that is not a DID is passed over, and never handed to a transport as
  if it were an address.\<close>

theorem automatic_route_is_first_usable:
  assumes "select_documented caps"
  shows "case find (\<lambda>k. k \<in> set ours \<and> usable caps k) supported_transports of
      Some k \<Rightarrow> choose_route lib caps Auto ours
        = Some (Inr \<lparr>choice_kind = k, choice_endpoint = the (cap_endpoint caps k)\<rparr>)
    | None \<Rightarrow> \<exists>e. choose_route lib caps Auto ours = Some (Inl e)"
  using select_route_settles [OF assms, of ours]
  by (auto simp: choose_route_def split: option.splits)

definition sample_caps :: capabilities where
  "sample_caps =
     (let ep = (\<lambda>k. case k of KindTsp \<Rightarrow> Some ''https://oops'' | KindDidcomm \<Rightarrow> Some ''did:web:m''
                  | KindHttps \<Rightarrow> None)
      in \<lparr>cap_endpoint = ep, cap_advertised = [KindTsp, KindDidcomm],
          cap_select = (\<lambda>ours.
            case find (\<lambda>k. k \<in> set ours \<and> ep k \<noteq> None) supported_transports of
              Some k \<Rightarrow> Inr \<lparr>choice_kind = k, choice_endpoint = the (ep k)\<rparr>
            | None \<Rightarrow> Inl (TrqlConfig ''nothing in common''))\<rparr>)"

lemma sample_caps_documented: "select_documented sample_caps"
  by (simp add: select_documented_def sample_caps_def Let_def split: option.split)

lemma automatic_route_is_first_usable_witness:
  "choose_route \<lparr>show_error = (\<lambda>_. []), show_kind = (\<lambda>_. [])\<rparr> sample_caps Auto supported_transports
     = Some (Inr \<lparr>choice_kind = KindDidcomm, choice_endpoint = ''did:web:m''\<rparr>)"
proof -
  have f: "find (\<lambda>k. k \<in> set supported_transports \<and> usable sample_caps k) supported_transports
      = Some KindDidcomm"
    by (simp add: supported_transports_def usable_def sample_caps_def is_did_def starts_with_def Let_def)
  have e: "the (cap_endpoint sample_caps KindDidcomm) = ''did:web:m''"
    by (simp add: sample_caps_def Let_def)
  show ?thesis
    using automatic_route_is_first_usable [OF sample_caps_documented, where ours = supported_transports]
    unfolding f by (simp add: e)
qed

section \<open>Replies\<close>

text \<open>The whole rule for a mediated DIDComm reply: the proven sender, then the acceptance.\<close>

lemma bound_skid_InrD:
  "bound_skid lib header = Inr kid \<Longrightarrow>
     (\<exists>alg apu. jget ''alg'' header = Some (JString alg) \<and> starts_with ''ECDH-1PU'' alg
        \<and> jget ''skid'' header = Some (JString kid)
        \<and> jget ''apu'' header = Some (JString apu) \<and> base64url lib (trim_padding apu) = Inr kid)"
  by (auto simp: bound_skid_def Let_def Option.bind_eq_Some_conv starts_with_def
      split: if_splits option.splits sum.splits)

lemma authcrypt_InrD:
  assumes "authcrypt_sender_kid lib packed = Inr kid"
  obtains jwe encoded header where "parse_json lib packed = Inr jwe"
    "jget ''protected'' jwe = Some (JString encoded)" "protected_header lib encoded = Inr header"
    "\<forall>h\<in>set (unprotected_headers jwe). \<forall>m\<in>set SENDER_MEMBERS. jget m h = None"
    "bound_skid lib header = Inr kid"
  using assms
  by (auto simp: authcrypt_sender_kid_def Option.bind_eq_Some_conv find_map_None_iff find_None_iff
      split: sum.splits option.splits)

lemma accept_reply_iff:
  "accept_reply auth claimed registry document request = Inr () \<longleftrightarrow>
     (\<exists>proven. auth = Some proven \<and> did_of proven = registry)
     \<and> (\<forall>c. claimed = Some c \<longrightarrow> did_of c = registry)
     \<and> task_thread document = Some request"
  by (auto simp: accept_reply_def split: option.splits if_splits)


definition sample_jwe_lib :: jwe_lib where
  "sample_jwe_lib = \<lparr>
     parse_json = (\<lambda>s. if s = ''E'' then Inr (JObject [(''protected'', JString ''H'')])
       else Inr (JObject [(''alg'', JString ''ECDH-1PU+A256KW''), (''skid'', JString ''did:r#1''),
                          (''apu'', JString ''A'')])),
     base64url = (\<lambda>s. if s = ''A'' then Inr ''did:r#1'' else Inr s)\<rparr>"

definition sample_task :: trust_task where
  "sample_task = \<lparr>task_id = ''2'', task_thread = Some ''1'', task_recipient = None, task_payload = []\<rparr>"


section \<open>The latch\<close>

fun channel_run ::
    "trql_lib \<Rightarrow> channel_lib \<Rightarrow> (string \<Rightarrow> string \<Rightarrow> trql_error + string) \<Rightarrow> (string \<times> trust_task) list
       \<Rightarrow> channel_state \<Rightarrow> (trql_error + trust_task) list \<times> channel_state" where
  "channel_run lib ch channel [] st = ([], st)"
| "channel_run lib ch channel ((fresh, request) # rs) st =
     (let (r, st) = channel_exchange lib ch channel fresh request st;
          (rest, st) = channel_run lib ch channel rs st
      in (r # rest, st))"

lemma channel_run_latched:
  "latched st = Some why \<Longrightarrow>
     channel_run lib ch channel rs st
       = (map (\<lambda>_. Inl (TrqlTransport (channel_kind ch) why)) rs, st)"
  by (induction rs) (auto simp: channel_exchange_def)

lemma channel_exchange_failure:
  assumes "channel_exchange lib ch channel fresh request st = (Inl e, st')"
    and "latched st = None"
    and "case e of TrqlTimeout _ \<Rightarrow> True | TrqlTransport _ _ \<Rightarrow> True | _ \<Rightarrow> False"
  shows "latched st' = Some (''an earlier registry query failed: '' @ show_error lib e)"
  using assms
  by (auto simp: channel_exchange_def Let_def split: option.splits sum.splits trql_error.splits if_splits)

text \<open>The first transport failure ends the conversation. After one exchange fails with a
  timeout or a transport error, every later exchange of the run fails at once with the latched
  reason, and nothing more is handed to the channel; and a reply that is returned carries, on
  the wire, the fresh id that was sent, and to the client its own request id.\<close>

theorem channel_failure_is_latched:
  assumes "channel_exchange lib ch channel fresh request st = (r, st')" "latched st = None"
  shows "(\<forall>e. r = Inl e \<and> (case e of TrqlTimeout _ \<Rightarrow> True | TrqlTransport _ _ \<Rightarrow> True | _ \<Rightarrow> False)
            \<longrightarrow> channel_run lib ch channel rs st'
              = (map (\<lambda>_. Inl (TrqlTransport (channel_kind ch)
                   (''an earlier registry query failed: '' @ show_error lib e))) rs, st'))
       \<and> (\<forall>reply. r = Inr reply \<longrightarrow>
            task_thread reply = Some (task_id request)
            \<and> (\<exists>recipient body answer wire.
                 encode_task ch (request\<lparr>task_id := fresh\<rparr>) = Inr body
                 \<and> channel recipient body = Inr answer \<and> decode_task ch answer = Inr wire
                 \<and> task_thread wire = Some fresh \<and> sent st' = sent st @ [(recipient, body)]))"
proof (intro conjI allI impI)
  fix e
  assume e: "r = Inl e \<and> (case e of TrqlTimeout _ \<Rightarrow> True | TrqlTransport _ _ \<Rightarrow> True | _ \<Rightarrow> False)"
  with assms channel_exchange_failure [of lib ch channel fresh request st e st']
  have "latched st' = Some (''an earlier registry query failed: '' @ show_error lib e)" by blast
  then show "channel_run lib ch channel rs st'
      = (map (\<lambda>_. Inl (TrqlTransport (channel_kind ch)
           (''an earlier registry query failed: '' @ show_error lib e))) rs, st')"
    by (rule channel_run_latched)
next
  fix reply assume "r = Inr reply"
  with assms have *: "channel_exchange lib ch channel fresh request st = (Inr reply, st')" by simp
  then show "task_thread reply = Some (task_id request)"
    using assms(2)
    by (auto simp: channel_exchange_def Let_def split: option.splits sum.splits trql_error.splits if_splits)
  from * assms(2) show "\<exists>recipient body answer wire.
      encode_task ch (request\<lparr>task_id := fresh\<rparr>) = Inr body
      \<and> channel recipient body = Inr answer \<and> decode_task ch answer = Inr wire
      \<and> task_thread wire = Some fresh \<and> sent st' = sent st @ [(recipient, body)]"
    by (fastforce simp: channel_exchange_def Let_def split: option.splits sum.splits trql_error.splits if_splits)
qed

definition sample_channel_lib :: channel_lib where
  "sample_channel_lib = \<lparr>channel_kind = KindDidcomm, encode_task = (\<lambda>t. Inr (task_id t)),
     decode_task = (\<lambda>s. Inr sample_task)\<rparr>"

lemma channel_failure_is_latched_witness:
  "channel_run \<lparr>show_error = (\<lambda>_. ''slow''), show_kind = (\<lambda>_. [])\<rparr> sample_channel_lib
      (\<lambda>_ _. Inl (TrqlTimeout [])) [(''2'', sample_task)]
      \<lparr>latched = Some ''an earlier registry query failed: slow'', sent = [(''did:r'', ''1'')]\<rparr>
    = ([Inl (TrqlTransport KindDidcomm ''an earlier registry query failed: slow'')],
       \<lparr>latched = Some ''an earlier registry query failed: slow'', sent = [(''did:r'', ''1'')]\<rparr>)"
proof -
  let ?lib = "\<lparr>show_error = (\<lambda>_. ''slow''), show_kind = (\<lambda>_. [])\<rparr> :: trql_lib"
  have "channel_exchange ?lib sample_channel_lib (\<lambda>_ _. Inl (TrqlTimeout [])) ''1''
      (sample_task\<lparr>task_recipient := Some ''did:r''\<rparr>) \<lparr>latched = None, sent = []\<rparr>
    = (Inl (TrqlTimeout []),
       \<lparr>latched = Some ''an earlier registry query failed: slow'', sent = [(''did:r'', ''1'')]\<rparr>)"
    by (simp add: channel_exchange_def sample_channel_lib_def)
  from channel_failure_is_latched [OF this, of "[(''2'', sample_task)]"] show ?thesis
    by (simp add: sample_channel_lib_def)
qed

end
