(* ===== verification/Verify_Run.thy ===== *)
theory Verify_Run
  imports Merge_Policy Registry_Route
begin

text \<open>
  One run of \<open>verify-trust/src/lib.rs\<close>: the registry layer, the verdict of each commit, the
  three passes of \<open>verify_prepared_inner\<close> and the entry points around them. The registry client
  (\<open>trql_client\<close>) is outside the repository: it is the argument \<open>ask\<close>, the answer to one query.
  An answer is \<open>Inr\<close> of the \<open>authorized\<close> member, or \<open>Inl\<close> of an error.
\<close>

section \<open>The run\<close>

record verify_trust_args =
  repo_dir :: string
  revision_range :: string
  max_signers :: nat
  registry_url :: "string option"
  transport :: transport_selector
  registry_did :: string
  vtc_did :: string
  action :: string
  primary_resource :: string
  fallback_resource :: "string option"
  exempt_keyring :: "string option"
  resolve_agent_names :: bool
  json_output :: bool

record trust_report =
  ok :: bool
  report_commits :: "commit_verdict list"
  unresolved_signers :: "string \<Rightarrow> string option"
  signer_names :: "string \<Rightarrow> display_name option"

section \<open>The registry\<close>

record trqp_query =
  entity_id :: string
  authority_id :: string
  query_action :: string
  query_resource :: string

type_synonym registry_client = "trqp_query \<Rightarrow> trql_error + bool"
type_synonym registry_decisions = "string \<Rightarrow> (string + string option) option"

definition query_for :: "scid_lib \<Rightarrow> verify_trust_args \<Rightarrow> string \<Rightarrow> string \<Rightarrow> trqp_query" where
  "query_for lib args did resource =
     \<lparr>entity_id = signer_identity lib did, authority_id = signer_identity lib (vtc_did args),
      query_action = action args, query_resource = resource\<rparr>"

definition queried_resources :: "verify_trust_args \<Rightarrow> string list" where
  "queried_resources args =
     (case fallback_resource args of
        None \<Rightarrow> [primary_resource args]
      | Some fallback \<Rightarrow>
          if fallback \<noteq> primary_resource args then [primary_resource args, fallback]
          else [primary_resource args])"

text \<open>The loop over the resources for one signer: \<open>Inr None\<close> is a denial everywhere.\<close>

fun decide_signer ::
    "trql_lib \<Rightarrow> (string \<Rightarrow> trql_error + bool) \<Rightarrow> string list \<Rightarrow> string + string option" where
  "decide_signer trql ask [] = Inr None"
| "decide_signer trql ask (resource # rs) =
     (case ask resource of
        Inr True \<Rightarrow> Inr (Some resource)
      | Inr False \<Rightarrow> decide_signer trql ask rs
      | Inl (Rejected retryable m) \<Rightarrow>
          if retryable then Inl (show_error trql (Rejected retryable m)) else decide_signer trql ask rs
      | Inl e \<Rightarrow> Inl (show_error trql e))"

definition query_registry ::
    "scid_lib \<Rightarrow> trql_lib \<Rightarrow> verify_trust_args \<Rightarrow> registry_client \<Rightarrow> string list
       \<Rightarrow> registry_decisions" where
  "query_registry lib trql args ask signer_dids =
     (\<lambda>did. if did \<in> set signer_dids
            then Some (decide_signer trql (\<lambda>r. ask (query_for lib args did r)) (queried_resources args))
            else None)"

fun status_of :: "signature_check \<Rightarrow> registry_decisions \<Rightarrow> commit_status" where
  "status_of SigUnsigned decisions = Unsigned"
| "status_of (SigMalformed detail) decisions = Malformed detail"
| "status_of (SigNoSignerDid committer) decisions = NoSignerDid committer"
| "status_of (SigConflictingSignerDids t c) decisions = ConflictingSignerDids t c"
| "status_of (SigUnresolvedSigner did e) decisions = UnresolvedSigner did e"
| "status_of (SigUnknownKey did f) decisions = UnknownKey did f"
| "status_of (SigBadSignature did) decisions = BadSignature did"
| "status_of (SigPgpRejected detail) decisions = PgpRejected detail"
| "status_of (SigExempt f) decisions = Exempt f"
| "status_of (SigValid did) decisions =
     (case decisions did of
        Some (Inr (Some resource)) \<Rightarrow> Trusted did resource
      | Some (Inr None) \<Rightarrow> Unauthorized did
      | Some (Inl e) \<Rightarrow> RegistryUnavailable did e
      | None \<Rightarrow> RegistryUnavailable did ''no registry decision recorded'')"

section \<open>The three passes\<close>

fun valid_signer :: "signature_check \<Rightarrow> string option" where
  "valid_signer (SigValid did) = Some did"
| "valid_signer _ = None"

definition verify_prepared_inner ::
    "sig_lib \<Rightarrow> trql_lib \<Rightarrow> verify_trust_args \<Rightarrow> range_commit list \<Rightarrow> resolved_signers \<Rightarrow> pgp_key list option
       \<Rightarrow> registry_client \<Rightarrow> merge_source \<Rightarrow> string + trust_report" where
  "verify_prepared_inner lib trql args commits signers exempt ask source =
     (let checked = map (\<lambda>c. (rc_sha c, check_commit_signature lib (rc_raw c) signers exempt)) commits;
          signer_dids = remdups (List.map_filter (\<lambda>(_, sig). valid_signer sig) checked);
          decisions = query_registry (scid lib) trql args ask signer_dids;
          verdicts = map (\<lambda>(sha, sig). \<lparr>cv_sha = sha, cv_status = status_of sig decisions\<rparr>) checked
      in case apply_platform_merge_policy source commits verdicts of
           Inl e \<Rightarrow> Inl e
         | Inr verdicts \<Rightarrow>
             Inr \<lparr>ok = list_all (\<lambda>v. passes (cv_status v)) verdicts,
                  report_commits = verdicts,
                  unresolved_signers = unresolved signers,
                  signer_names = (\<lambda>did. if did \<in> set signer_dids then names signers did else None)\<rparr>)"

definition NEEDS_REPOSITORY :: string where
  "NEEDS_REPOSITORY =
     ''verify_prepared_with needs the repository and the revision range the commits came from ''
     @ ''(repo_dir and range are empty); a caller with no checkout passes what git would have ''
     @ ''answered to verify_prepared_with_facts instead''"

definition verify_prepared_with ::
    "sig_lib \<Rightarrow> trql_lib \<Rightarrow> verify_trust_args \<Rightarrow> range_commit list \<Rightarrow> resolved_signers \<Rightarrow> pgp_key list option
       \<Rightarrow> registry_client \<Rightarrow> git_call \<Rightarrow> string + trust_report" where
  "verify_prepared_with lib trql args commits signers exempt ask call =
     (if repo_dir args = [] \<or> trim (revision_range args) = [] then Inl NEEDS_REPOSITORY
      else verify_prepared_inner lib trql args commits signers exempt ask
             (Git call (revision_range args)))"

definition verify_prepared_with_facts ::
    "sig_lib \<Rightarrow> trql_lib \<Rightarrow> verify_trust_args \<Rightarrow> range_commit list \<Rightarrow> resolved_signers \<Rightarrow> pgp_key list option
       \<Rightarrow> registry_client \<Rightarrow> merge_facts \<Rightarrow> string + trust_report" where
  "verify_prepared_with_facts lib trql args commits signers exempt ask facts =
     verify_prepared_inner lib trql args commits signers exempt ask (Facts facts)"

text \<open>
  The registry of a run: the explicit URL when there is one (only \<open>auto\<close> and \<open>https\<close> may
  accompany it), else whatever discovery finds. \<open>https\<close> and \<open>discover\<close> stand for building a
  client at a URL and at the discovered binding.
\<close>

definition https_override ::
    "trql_lib \<Rightarrow> (string \<Rightarrow> string + registry_client) \<Rightarrow> string \<Rightarrow> transport_selector
        \<Rightarrow> string + registry_client" where
  "https_override trql https url selector =
     (if selector = Auto \<or> selector = Https then https url
      else Inl (''--registry-url is an HTTPS endpoint and cannot be combined with --transport ''
             @ selector_display trql selector @ ''; drop one of them''))"

definition verify_prepared ::
    "sig_lib \<Rightarrow> trql_lib \<Rightarrow> verify_trust_args \<Rightarrow> range_commit list \<Rightarrow> resolved_signers \<Rightarrow> pgp_key list option
       \<Rightarrow> (string \<Rightarrow> string + registry_client) \<Rightarrow> git_call \<Rightarrow> string + trust_report" where
  "verify_prepared lib trql args commits signers exempt https call =
     (case registry_url args of
        None \<Rightarrow> Inl (''registry URL not resolved: discover it from --registry-did or pass ''
                  @ ''--registry-url'')
      | Some url \<Rightarrow>
          (case https url of
             Inl e \<Rightarrow> Inl e
           | Inr ask \<Rightarrow> verify_prepared_with lib trql args commits signers exempt ask call))"

text \<open>
  The keyring named by the arguments, relative to the repository unless absolute; \<open>read_file\<close> is
  the file system, \<open>None\<close> where the file cannot be read.
\<close>

definition path_join :: "string \<Rightarrow> string \<Rightarrow> string" where
  "path_join dir path =
     (if starts_with ''/'' path then path
      else if dir = [] \<or> ends_with ''/'' dir then dir @ path else dir @ ''/'' @ path)"

definition load_exempt_keyring ::
    "sig_lib \<Rightarrow> (string \<Rightarrow> string option) \<Rightarrow> verify_trust_args \<Rightarrow> string + pgp_key list option" where
  "load_exempt_keyring lib read_file args =
     (case exempt_keyring args of
        None \<Rightarrow> Inr None
      | Some path \<Rightarrow>
          (let path = path_join (repo_dir args) path in
           case read_file path of
             None \<Rightarrow> Inl (''cannot read exempt keyring '' @ path)
           | Some text \<Rightarrow>
               (case keyring_from_armored lib text of
                  Inl e \<Rightarrow> Inl e
                | Inr keyring \<Rightarrow> Inr (Some keyring))))"

text \<open>
  The whole run, in the order of the code: the keyring, the range, the claims, the registry, the
  signers, the verdicts. The result is the exit code with the report.
\<close>

definition handle_verify_trust ::
    "sig_lib \<Rightarrow> trql_lib \<Rightarrow> verify_trust_args \<Rightarrow> (string \<Rightarrow> string option) \<Rightarrow> git_call
       \<Rightarrow> (string \<Rightarrow> string + registry_client) \<Rightarrow> (transport_selector \<Rightarrow> string + registry_client)
       \<Rightarrow> (string \<Rightarrow> bytes option) \<Rightarrow> (string \<Rightarrow> string + resolution) \<Rightarrow> string + nat \<times> trust_report" where
  "handle_verify_trust lib trql args read_file call https discover decode resolve =
     (case load_exempt_keyring lib read_file args of
        Inl e \<Rightarrow> Inl e
      | Inr exempt \<Rightarrow>
     (case read_range call (revision_range args) of
        Inl e \<Rightarrow> Inl e
      | Inr commits \<Rightarrow>
     (case claimed_signer_dids (scid lib) commits (max_signers args) of
        Inl e \<Rightarrow> Inl e
      | Inr claimed \<Rightarrow>
     (case (case registry_url args of
              Some url \<Rightarrow> https_override trql https url (transport args)
            | None \<Rightarrow> discover (transport args)) of
        Inl e \<Rightarrow> Inl e
      | Inr ask \<Rightarrow>
     (case resolve_signer_keys decode resolve claimed of
        Inl e \<Rightarrow> Inl e
      | Inr signers \<Rightarrow>
     (case verify_prepared_with lib trql args commits signers exempt ask call of
        Inl e \<Rightarrow> Inl e
      | Inr report \<Rightarrow> Inr (if ok report then 0 else 1, report)))))))"

section \<open>What the registry decided\<close>

lemma decide_signer_granted:
  "decide_signer trql ask rs = Inr (Some r) \<longleftrightarrow>
     (\<exists>before after. rs = before @ r # after \<and> ask r = Inr True
        \<and> (\<forall>q\<in>set before. ask q = Inr False \<or> (\<exists>m. ask q = Inl (Rejected False m))))"
proof (induction rs)
  case (Cons q rs)
  have iff: "(\<exists>before after. q # rs = before @ r # after \<and> P before) \<longleftrightarrow>
      (q = r \<and> P []) \<or> (\<exists>before after. rs = before @ r # after \<and> P (q # before))"
    for P :: "string list \<Rightarrow> bool"
    by (auto simp: Cons_eq_append_conv)
  show ?case
    using Cons iff [of "\<lambda>before. ask r = Inr True
        \<and> (\<forall>q\<in>set before. ask q = Inr False \<or> (\<exists>m. ask q = Inl (Rejected False m)))"]
    by (auto split: sum.splits bool.splits trql_error.splits)
qed simp

lemma decide_signer_denied:
  "decide_signer trql ask rs = Inr None \<longleftrightarrow>
     (\<forall>q\<in>set rs. ask q = Inr False \<or> (\<exists>m. ask q = Inl (Rejected False m)))"
  by (induction rs) (auto split: sum.splits bool.splits trql_error.splits)

lemma queried_resources_set:
  "set (queried_resources args) = {r. r = primary_resource args \<or> fallback_resource args = Some r}"
  by (auto simp: queried_resources_def split: option.splits)

definition denies :: "trql_error + bool \<Rightarrow> bool" where
  "denies answer \<longleftrightarrow> answer = Inr False \<or> (\<exists>m. answer = Inl (Rejected False m))"

definition answer_for ::
    "scid_lib \<Rightarrow> verify_trust_args \<Rightarrow> registry_client \<Rightarrow> string \<Rightarrow> string \<Rightarrow> trql_error + bool" where
  "answer_for lib args ask did r = ask (query_for lib args did r)"

text \<open>C12: The registry decides, and only by answering. A signer is authorised under a resource
  exactly when the registry authorised the tuple of the signer's identity, the community, the
  action and that resource: the configured resource, or the broader fallback after the first was
  denied. It is denied exactly when every resource was denied. Any other outcome, a retryable
  rejection or a failed exchange, is an unavailable registry, even when another resource would
  have answered; and a DID that signed nothing is never asked about.\<close>

theorem registry_decision_is_exact:
  "(query_registry lib trql args ask dids did = Some (Inr (Some r)) \<longleftrightarrow>
       did \<in> set dids \<and> answer_for lib args ask did r = Inr True
       \<and> (r = primary_resource args
          \<or> (fallback_resource args = Some r
             \<and> denies (answer_for lib args ask did (primary_resource args)))))
   \<and> (query_registry lib trql args ask dids did = Some (Inr None) \<longleftrightarrow>
       did \<in> set dids \<and> denies (answer_for lib args ask did (primary_resource args))
       \<and> (\<forall>q\<in>set (queried_resources args). denies (answer_for lib args ask did q)))"
proof
  show "query_registry lib trql args ask dids did = Some (Inr (Some r)) \<longleftrightarrow>
       did \<in> set dids \<and> answer_for lib args ask did r = Inr True
       \<and> (r = primary_resource args
          \<or> (fallback_resource args = Some r
             \<and> denies (answer_for lib args ask did (primary_resource args))))"
    by (auto simp: query_registry_def queried_resources_def denies_def answer_for_def
        split: option.splits sum.splits bool.splits trql_error.splits if_splits)
  show "query_registry lib trql args ask dids did = Some (Inr None) \<longleftrightarrow>
       did \<in> set dids \<and> denies (answer_for lib args ask did (primary_resource args))
       \<and> (\<forall>q\<in>set (queried_resources args). denies (answer_for lib args ask did q))"
    by (auto simp: query_registry_def decide_signer_denied queried_resources_set denies_def
        answer_for_def)
qed

section \<open>What a passing report rests on\<close>

text \<open>
  What vouches for a commit, in the terms of the whole run: a verified signature by a key its
  claimed DID publishes, under a grant the registry confirmed; or an exempt platform signature
  on a clean two-parent merge of commits that are on the boundary or vouched for in turn.
\<close>

inductive vouched ::
    "sig_lib \<Rightarrow> verify_trust_args \<Rightarrow> range_commit list \<Rightarrow> resolved_signers \<Rightarrow> pgp_key list option
       \<Rightarrow> registry_client \<Rightarrow> merge_source \<Rightarrow> nat \<Rightarrow> bool"
  for lib args commits signers exempt ask source where
  vouched_signer:
    "i < length commits \<Longrightarrow> signed_by lib (rc_raw (commits ! i)) payload did sig key \<Longrightarrow>
       keys signers did = Some published \<Longrightarrow> key \<in> set published \<Longrightarrow>
       ssh_verify lib (sig_public_key sig) GIT_SSHSIG_NAMESPACE payload sig \<Longrightarrow>
       resource = primary_resource args \<or> fallback_resource args = Some resource \<Longrightarrow>
       ask (query_for (scid lib) args did resource) = Inr True \<Longrightarrow>
       vouched lib args commits signers exempt ask source i"
| vouched_merge:
    "i < length commits \<Longrightarrow> exempt_signature lib exempt (rc_raw (commits ! i)) fingerprint \<Longrightarrow>
       commit_parents (rc_raw (commits ! i)) = [ours, theirs] \<Longrightarrow>
       find_map (strip_prefix ''tree '') (commit_headers (rc_raw (commits ! i))) = Some tree \<Longrightarrow>
       recompute_from source (rc_sha (commits ! i)) ours theirs = Clean tree \<Longrightarrow>
       \<forall>p\<in>{ours, theirs}.
         (\<exists>j. sha_position commits p = Some j
              \<and> vouched lib args commits signers exempt ask source j)
         \<or> (sha_position commits p = None \<and> at_boundary source p) \<Longrightarrow>
       vouched lib args commits signers exempt ask source i"

lemma status_of_Trusted:
  "status_of sig decisions = Trusted did r \<longleftrightarrow>
     sig = SigValid did \<and> decisions did = Some (Inr (Some r))"
  by (cases "(sig, decisions)" rule: status_of.cases) (auto split: option.splits sum.splits)

lemma status_of_Exempt: "status_of sig decisions = Exempt f \<longleftrightarrow> sig = SigExempt f"
  by (cases "(sig, decisions)" rule: status_of.cases) (auto split: option.splits sum.splits)

definition pass_two ::
    "sig_lib \<Rightarrow> trql_lib \<Rightarrow> verify_trust_args \<Rightarrow> range_commit list \<Rightarrow> resolved_signers
       \<Rightarrow> pgp_key list option \<Rightarrow> registry_client \<Rightarrow> string list \<Rightarrow> commit_verdict list" where
  "pass_two lib trql args commits signers exempt ask dids =
     map (\<lambda>c. \<lparr>cv_sha = rc_sha c,
        cv_status = status_of (check_commit_signature lib (rc_raw c) signers exempt)
                      (query_registry (scid lib) trql args ask dids)\<rparr>) commits"

lemma verify_prepared_innerD:
  assumes "verify_prepared_inner lib trql args commits signers exempt ask source = Inr report"
  obtains dids where
    "apply_platform_merge_policy source commits
       (pass_two lib trql args commits signers exempt ask dids) = Inr (report_commits report)"
    "ok report \<longleftrightarrow> (\<forall>v\<in>set (report_commits report). passes (cv_status v))"
  using assms
  by (auto simp: verify_prepared_inner_def Let_def pass_two_def comp_def list_all_iff
      split: sum.splits)

lemma grounded_vouched:
  "grounded source commits (pass_two lib trql args commits signers exempt ask dids) i \<Longrightarrow>
     vouched lib args commits signers exempt ask source i"
proof (induction rule: grounded.induct)
  case (grounded_signed i)
  then have i: "i < length commits" by (simp add: pass_two_def)
  let ?sig = "check_commit_signature lib (rc_raw (commits ! i)) signers exempt"
  let ?dec = "query_registry (scid lib) trql args ask dids"
  have "is_trusted (status_of ?sig ?dec)"
    using grounded_signed(2) i by (simp add: pass_two_def)
  then obtain did r where "status_of ?sig ?dec = Trusted did r"
    by (cases "status_of ?sig ?dec") auto
  then have valid: "?sig = SigValid did" and dec: "?dec did = Some (Inr (Some r))"
    by (simp_all add: status_of_Trusted)
  from dec have "r \<in> set (queried_resources args)"
    and granted: "ask (query_for (scid lib) args did r) = Inr True"
    by (auto simp: query_registry_def decide_signer_granted split: if_splits)
  then have r: "r = primary_resource args \<or> fallback_resource args = Some r"
    by (simp add: queried_resources_set)
  from valid obtain payload sig key pks where
    "signed_by lib (rc_raw (commits ! i)) payload did sig key" "keys signers did = Some pks"
    "key \<in> set pks" "ssh_verify lib (sig_public_key sig) GIT_SSHSIG_NAMESPACE payload sig"
    unfolding check_SigValid_iff by blast
  with i r granted show ?case by (intro vouched_signer)
next
  case (grounded_merge i ours theirs tree)
  then have i: "i < length commits" by (simp add: pass_two_def)
  then obtain f where "check_commit_signature lib (rc_raw (commits ! i)) signers exempt = SigExempt f"
    using grounded_merge.hyps(2)
    by (auto simp: pass_two_def is_exempt_def status_of_Exempt split: commit_status.splits)
  then have "exempt_signature lib exempt (rc_raw (commits ! i)) f" by (rule check_SigExemptD)
  then show ?case
    using i grounded_merge.hyps(3-5) grounded_merge.IH by (intro vouched_merge) auto
qed

lemma passing_vouched:
  assumes "verify_prepared_inner lib trql args commits signers exempt ask source = Inr report"
  shows "map cv_sha (report_commits report) = map rc_sha commits"
    and "i < length commits \<Longrightarrow> passes (cv_status (report_commits report ! i)) \<Longrightarrow>
      vouched lib args commits signers exempt ask source i"
    and "ok report \<longleftrightarrow> (\<forall>v\<in>set (report_commits report). passes (cv_status v))"
proof -
  from assms obtain dids where
    pol: "apply_platform_merge_policy source commits
       (pass_two lib trql args commits signers exempt ask dids) = Inr (report_commits report)"
    and okr: "ok report \<longleftrightarrow> (\<forall>v\<in>set (report_commits report). passes (cv_status v))"
    by (rule verify_prepared_innerD)
  have len: "length commits = length (pass_two lib trql args commits signers exempt ask dids)"
    by (simp add: pass_two_def)
  have st: "settling source commits (pass_two lib trql args commits signers exempt ask dids) []
      (report_commits report)"
    by (rule policy_settled [OF len pol])
  show "map cv_sha (report_commits report) = map rc_sha commits"
    using st by (intro nth_equalityI) (auto simp: settling_def pass_two_def)
  show "vouched lib args commits signers exempt ask source i"
    if "i < length commits" "passes (cv_status (report_commits report ! i))"
    using st that len by (auto simp: settling_def intro!: grounded_vouched)
  show "ok report \<longleftrightarrow> (\<forall>v\<in>set (report_commits report). passes (cv_status v))" by (rule okr)
qed

text \<open>C2: No commit passes without a reason. In the report of a range, every commit that passes is
  vouched for: either its signature verifies, over a payload claiming exactly that DID, under a
  key the DID's resolved document publishes, and the registry authorised the DID for the
  configured resource or its fallback; or it is a two-parent merge signed by a key of the exempt
  keyring, whose tree is the recomputed clean merge of two parents that are each on the boundary
  or themselves vouched for. The report lists exactly the range, in its order, and is \<open>ok\<close> only
  if every commit passes.\<close>

theorem passing_commits_are_vouched_for:
  assumes "verify_prepared_inner lib trql args commits signers exempt ask source = Inr report"
  shows "map cv_sha (report_commits report) = map rc_sha commits
     \<and> (\<forall>i<length commits. passes (cv_status (report_commits report ! i)) \<longrightarrow>
          vouched lib args commits signers exempt ask source i)
     \<and> (ok report \<longrightarrow> (\<forall>i<length commits. vouched lib args commits signers exempt ask source i))"
proof -
  note p = passing_vouched [OF assms]
  have "length (report_commits report) = length commits"
    using p(1) map_eq_imp_length_eq by blast
  with p show ?thesis by (auto simp: all_set_conv_all_nth)
qed

definition sample_args :: verify_trust_args where
  "sample_args = \<lparr>repo_dir = ''/r'', revision_range = ''a..b'', max_signers = 1, registry_url = None,
     transport = Auto, registry_did = ''did:reg'', vtc_did = ''did:vtc'', action = ''git.commit.sign'',
     primary_resource = ''github.com/o/r'', fallback_resource = Some ''github.com/o'',
     exempt_keyring = None, resolve_agent_names = False, json_output = False\<rparr>"

text \<open>A registry that grants at the organisation only.\<close>

definition sample_ask :: registry_client where
  "sample_ask q = Inr (entity_id q = ''did:x'' \<and> authority_id q = ''did:vtc''
     \<and> query_action q = ''git.commit.sign'' \<and> query_resource q = ''github.com/o'')"

definition sample_trql :: trql_lib where
  "sample_trql = \<lparr>show_error = (\<lambda>_. []), show_kind = (\<lambda>_. [])\<rparr>"

lemma sample_run:
  "\<exists>report. verify_prepared_inner sample_lib sample_trql sample_args [sample_commit] sample_signers
      None sample_ask sample_facts = Inr report
    \<and> ok report \<and> report_commits report
      = [\<lparr>cv_sha = ''c1'', cv_status = Trusted ''did:x'' ''github.com/o''\<rparr>]"
proof -
  have p: "apply_platform_merge_policy sample_facts [sample_commit]
      [\<lparr>cv_sha = ''c1'', cv_status = Trusted ''did:x'' ''github.com/o''\<rparr>]
    = Inr [\<lparr>cv_sha = ''c1'', cv_status = Trusted ''did:x'' ''github.com/o''\<rparr>]"
    by (simp add: apply_platform_merge_policy_def is_exempt_def settle_loop.simps)
  have "decide_signer sample_trql (\<lambda>r. sample_ask (query_for (scid sample_lib) sample_args ''did:x'' r))
      (queried_resources sample_args) = Inr (Some ''github.com/o'')"
    by code_simp
  with p show ?thesis
    by (simp add: verify_prepared_inner_def sample_commit_valid Let_def query_registry_def
        List.map_filter_simps sample_commit_def [THEN arg_cong, of rc_sha, simplified])
qed

lemma passing_commits_are_vouched_for_witness:
  "vouched sample_lib sample_args [sample_commit] sample_signers None sample_ask sample_facts 0"
proof -
  from sample_run obtain report where
    "verify_prepared_inner sample_lib sample_trql sample_args [sample_commit] sample_signers
      None sample_ask sample_facts = Inr report" "ok report" by blast
  from passing_commits_are_vouched_for [OF this(1)] this(2) show ?thesis by simp
qed

lemma registry_decision_is_exact_witness:
  "query_registry (scid sample_lib) sample_trql sample_args sample_ask [''did:x''] ''did:x''
     = Some (Inr (Some ''github.com/o''))"
proof -
  have "answer_for (scid sample_lib) sample_args sample_ask ''did:x'' ''github.com/o'' = Inr True"
    "answer_for (scid sample_lib) sample_args sample_ask ''did:x'' (primary_resource sample_args)
      = Inr False"
    "fallback_resource sample_args = Some ''github.com/o''"
    by code_simp+
  then show ?thesis
    using registry_decision_is_exact [of "scid sample_lib" sample_trql sample_args sample_ask
        "[''did:x'']" "''did:x''" "''github.com/o''"]
    by (simp add: denies_def)
qed

end
