(* ===== verification/Forge_Rights.thy ===== *)
theory Forge_Rights
  imports Forge_Error
begin

text \<open>
  Rights and forge roles (\<open>vgi-forge/src/rights.rs\<close>): the closure of granted rights kept as
  bits of a byte, the canonical grants, the role map with its rules, and the rounding onto a
  forge's ladder. Forge roles are a linear order, so the library's \<open>Max\<close>, \<open>\<le>\<close> and sorting apply.
\<close>

unbundle bit_operations_syntax

section \<open>Rights\<close>

datatype right = NsAdmin | RepoCreate | RepoOwn | RepoMaintain | CommitSign

definition RIGHT_ALL :: "right list" where
  "RIGHT_ALL = [NsAdmin, RepoCreate, RepoOwn, RepoMaintain, CommitSign]"

fun right_action :: "right \<Rightarrow> string" where
  "right_action NsAdmin = ''git.ns.admin''"
| "right_action RepoCreate = ''git.repo.create''"
| "right_action RepoOwn = ''git.repo.own''"
| "right_action RepoMaintain = ''git.repo.maintain''"
| "right_action CommitSign = ''git.commit.sign''"

definition from_action :: "string \<Rightarrow> right option" where
  "from_action a = find (\<lambda>r. right_action r = a) RIGHT_ALL"

text \<open>\<open>self as u8\<close>: the position in the declaration.\<close>

fun right_index :: "right \<Rightarrow> nat" where
  "right_index NsAdmin = 0"
| "right_index RepoCreate = 1"
| "right_index RepoOwn = 2"
| "right_index RepoMaintain = 3"
| "right_index CommitSign = 4"

definition right_bit :: "right \<Rightarrow> u8" where
  "right_bit r = push_bit (right_index r) 1"

record effective_rights =
  held :: u8
  projectable :: u8

definition RIGHTS_NONE :: effective_rights where
  "RIGHTS_NONE = \<lparr>held = 0, projectable = 0\<rparr>"

function right_closure :: "right \<Rightarrow> u8" where
  "right_closure CommitSign = right_bit CommitSign"
| "right_closure RepoCreate = right_bit RepoCreate"
| "right_closure RepoMaintain = right_bit RepoMaintain OR right_closure CommitSign"
| "right_closure RepoOwn = right_bit RepoOwn OR right_closure RepoMaintain"
| "right_closure NsAdmin = right_bit NsAdmin OR (right_closure RepoCreate OR right_closure RepoOwn)"
  by pat_completeness auto
termination
  by (relation "measure (\<lambda>r. 5 - right_index r)") auto

definition insert_right :: "right \<Rightarrow> effective_rights \<Rightarrow> effective_rights" where
  "insert_right r x =
     (let c = right_closure r; x = x\<lparr>held := held x OR c\<rparr> in
      case r of
        NsAdmin \<Rightarrow> x
      | RepoCreate \<Rightarrow> x
      | _ \<Rightarrow> x\<lparr>projectable := projectable x OR c\<rparr>)"

definition from_granted :: "right list \<Rightarrow> effective_rights" where
  "from_granted rs = foldl (\<lambda>x r. insert_right r x) RIGHTS_NONE rs"

definition holds :: "effective_rights \<Rightarrow> right \<Rightarrow> bool" where
  "holds x r \<longleftrightarrow> held x AND right_bit r \<noteq> 0"

definition rights_is_empty :: "effective_rights \<Rightarrow> bool" where
  "rights_is_empty x \<longleftrightarrow> held x = 0"

definition rights_iter :: "effective_rights \<Rightarrow> right list" where
  "rights_iter x = filter (holds x) RIGHT_ALL"

definition tier :: "u8 \<Rightarrow> right option" where
  "tier bits = find (\<lambda>r. bits AND right_bit r \<noteq> 0) [RepoOwn, RepoMaintain, CommitSign]"

definition repo_tier :: "effective_rights \<Rightarrow> right option" where
  "repo_tier x = tier (held x)"

definition forge_tier :: "effective_rights \<Rightarrow> right option" where
  "forge_tier x = tier (projectable x)"

definition granted :: "effective_rights \<Rightarrow> right list" where
  "granted x =
     (if holds x NsAdmin then [NsAdmin] else if holds x RepoCreate then [RepoCreate] else [])
     @ (case forge_tier x of None \<Rightarrow> [] | Some r \<Rightarrow> [r])"

section \<open>Roles\<close>

datatype forge_role = RoleNone | RoleRead | RoleTriage | RoleWrite | RoleMaintain | RoleAdmin

fun role_rank :: "forge_role \<Rightarrow> nat" where
  "role_rank RoleNone = 0"
| "role_rank RoleRead = 1"
| "role_rank RoleTriage = 2"
| "role_rank RoleWrite = 3"
| "role_rank RoleMaintain = 4"
| "role_rank RoleAdmin = 5"

lemma role_rank_inject [simp]: "role_rank a = role_rank b \<longleftrightarrow> a = b"
  by (cases a; cases b) simp_all

text \<open>The derived \<open>Ord\<close>: the order of the declaration.\<close>

instantiation forge_role :: linorder
begin

definition less_eq_forge_role :: "forge_role \<Rightarrow> forge_role \<Rightarrow> bool" where
  "less_eq_forge_role a b \<longleftrightarrow> role_rank a \<le> role_rank b"

definition less_forge_role :: "forge_role \<Rightarrow> forge_role \<Rightarrow> bool" where
  "less_forge_role a b \<longleftrightarrow> role_rank a < role_rank b"

instance
  by standard (auto simp: less_eq_forge_role_def less_forge_role_def intro: role_rank_inject [THEN iffD1])

end

lemma RoleNone_least [simp]: "RoleNone \<le> r"
  by (simp add: less_eq_forge_role_def)

lemma RoleAdmin_greatest [simp]: "r \<le> RoleAdmin"
  by (cases r) (simp_all add: less_eq_forge_role_def)

fun role_display :: "forge_role \<Rightarrow> string" where
  "role_display RoleNone = ''none''"
| "role_display RoleRead = ''read''"
| "role_display RoleTriage = ''triage''"
| "role_display RoleWrite = ''write''"
| "role_display RoleMaintain = ''maintain''"
| "role_display RoleAdmin = ''admin''"

record role_map =
  map_own :: forge_role
  map_maintain :: forge_role
  map_commit :: forge_role

definition MAX_COMMIT :: forge_role where
  "MAX_COMMIT = RoleWrite"

definition default_role_map :: role_map where
  "default_role_map = \<lparr>map_own = RoleAdmin, map_maintain = RoleMaintain, map_commit = RoleNone\<rparr>"

definition with_committer_write :: role_map where
  "with_committer_write = default_role_map\<lparr>map_commit := RoleWrite\<rparr>"

definition role_map_new :: "forge_role \<Rightarrow> forge_role \<Rightarrow> forge_role \<Rightarrow> string + role_map" where
  "role_map_new own maintain commit =
     (let admin_only = (\<lambda>(tier, role). Inl (tier @ '' may not get `'' @ role_display role
            @ ''`: only an owner (`own`) may map to the forge's administrator role, since ''
            @ ''maintain and commit are rights their holder may grant themselves''))
      in case find (\<lambda>(_, role). RoleAdmin \<le> role)
                [(''a maintainer'', maintain), (''a committer'', commit)] of
        Some refused \<Rightarrow> admin_only refused
      | None \<Rightarrow>
          if own < maintain
          then Inl (''a maintainer (`'' @ role_display maintain
                 @ ''`) may not get more than an owner (`'' @ role_display own @ ''`)'')
          else if maintain < commit
          then Inl (''a committer (`'' @ role_display commit
                 @ ''`) may not get more than a maintainer (`'' @ role_display maintain @ ''`)'')
          else if MAX_COMMIT < commit
          then Inl (''a committer may get at most `'' @ role_display MAX_COMMIT @ ''`, not `''
                 @ role_display commit @ ''`: the check decides whose commits land, and merging ''
                 @ ''is a maintainer's'')
          else Inr \<lparr>map_own = own, map_maintain = maintain, map_commit = commit\<rparr>)"

definition requested :: "role_map \<Rightarrow> effective_rights \<Rightarrow> forge_role" where
  "requested m rights =
     (case forge_tier rights of
        Some RepoOwn \<Rightarrow> map_own m
      | Some RepoMaintain \<Rightarrow> map_maintain m
      | Some CommitSign \<Rightarrow> map_commit m
      | _ \<Rightarrow> RoleNone)"

definition collapse_to_ladder :: "forge_role \<Rightarrow> forge_role list \<Rightarrow> forge_role" where
  "collapse_to_ladder req ladder =
     (case filter (\<lambda>level. level \<le> req) ladder of [] \<Rightarrow> RoleNone | l # ls \<Rightarrow> foldl max l ls)"

section \<open>Closure under implication\<close>

text \<open>The implications of the rights, as the specification states them.\<close>

fun implies_right :: "right \<Rightarrow> right \<Rightarrow> bool" where
  "implies_right NsAdmin r = True"
| "implies_right RepoCreate r = (r = RepoCreate)"
| "implies_right RepoOwn r = (r \<in> {RepoOwn, RepoMaintain, CommitSign})"
| "implies_right RepoMaintain r = (r \<in> {RepoMaintain, CommitSign})"
| "implies_right CommitSign r = (r = CommitSign)"

definition is_repo_right :: "right \<Rightarrow> bool" where
  "is_repo_right r \<longleftrightarrow> r \<in> {RepoOwn, RepoMaintain, CommitSign}"

lemma closure_implies: "right_closure g AND right_bit r \<noteq> 0 \<longleftrightarrow> implies_right g r"
  by (cases g; cases r) (simp_all add: right_bit_def)

lemma or_and_zero: "((a :: u8) OR b) AND c = 0 \<longleftrightarrow> a AND c = 0 \<and> b AND c = 0"
  by (simp add: bit.conj_disj_distrib2 or_eq_0_iff)

lemma holds_insert: "holds (insert_right g x) r \<longleftrightarrow> holds x r \<or> implies_right g r"
  using closure_implies [of g r]
  by (cases g) (simp_all add: insert_right_def holds_def or_and_zero Let_def)

text \<open>The rights that may become a forge role.\<close>

definition projects :: "effective_rights \<Rightarrow> right \<Rightarrow> bool" where
  "projects x r \<longleftrightarrow> projectable x AND right_bit r \<noteq> 0"

lemma projects_insert:
  "projects (insert_right g x) r \<longleftrightarrow> projects x r \<or> (is_repo_right g \<and> implies_right g r)"
  using closure_implies [of g r]
  by (cases g) (simp_all add: insert_right_def projects_def or_and_zero Let_def is_repo_right_def)

lemma holds_fold:
  "holds (foldl (\<lambda>x r. insert_right r x) x rs) r \<longleftrightarrow> holds x r \<or> (\<exists>g\<in>set rs. implies_right g r)"
  by (induction rs arbitrary: x) (auto simp: holds_insert)

lemma projects_fold:
  "projects (foldl (\<lambda>x r. insert_right r x) x rs) r \<longleftrightarrow>
     projects x r \<or> (\<exists>g\<in>set rs. is_repo_right g \<and> implies_right g r)"
  by (induction rs arbitrary: x) (auto simp: projects_insert)

lemma holds_from_granted: "holds (from_granted rs) r \<longleftrightarrow> (\<exists>g\<in>set rs. implies_right g r)"
  by (simp add: from_granted_def holds_fold) (simp add: holds_def RIGHTS_NONE_def)

lemma projects_from_granted:
  "projects (from_granted rs) r \<longleftrightarrow> (\<exists>g\<in>set rs. is_repo_right g \<and> implies_right g r)"
  by (simp add: from_granted_def projects_fold) (simp add: projects_def RIGHTS_NONE_def)

lemma repo_right_implies:
  "is_repo_right g \<and> implies_right g RepoOwn \<longleftrightarrow> g = RepoOwn"
  "is_repo_right g \<and> implies_right g RepoMaintain \<longleftrightarrow> g = RepoOwn \<or> g = RepoMaintain"
  "is_repo_right g \<and> implies_right g CommitSign \<longleftrightarrow> g = RepoOwn \<or> g = RepoMaintain \<or> g = CommitSign"
  by (cases g; simp add: is_repo_right_def)+

lemma forge_tier_projects:
  "forge_tier x = find (projects x) [RepoOwn, RepoMaintain, CommitSign]"
  by (simp add: forge_tier_def tier_def projects_def)

lemma forge_tier_from_granted:
  "forge_tier (from_granted rs) =
     (if RepoOwn \<in> set rs then Some RepoOwn
      else if RepoMaintain \<in> set rs then Some RepoMaintain
      else if CommitSign \<in> set rs then Some CommitSign
      else None)"
  by (auto simp: forge_tier_projects projects_from_granted repo_right_implies)

text \<open>The twelve values rights can take, closed under insertion.\<close>

definition reachable_rights :: "effective_rights list" where
  "reachable_rights =
     map from_granted
       (concat (map (\<lambda>ns. map (\<lambda>repo. ns @ repo) [[], [CommitSign], [RepoMaintain], [RepoOwn]])
          [[], [RepoCreate], [NsAdmin]]))"

lemma reachable_step:
  "list_all (\<lambda>x. list_all (\<lambda>r. insert_right r x \<in> set reachable_rights) RIGHT_ALL) reachable_rights"
  by code_simp

lemma from_granted_reachable: "from_granted rs \<in> set reachable_rights"
proof -
  have base: "RIGHTS_NONE \<in> set reachable_rights" by code_simp
  have step: "insert_right r x \<in> set reachable_rights" if "x \<in> set reachable_rights" for r x
    using reachable_step that by (cases r) (auto simp: list_all_iff RIGHT_ALL_def)
  have "foldl (\<lambda>x r. insert_right r x) x rs \<in> set reachable_rights"
    if "x \<in> set reachable_rights" for x
    using that step by (induction rs arbitrary: x) auto
  with base show ?thesis by (simp add: from_granted_def)
qed

text \<open>The canonical grants are exact. However rights were granted, and in whatever order, the
  value holds exactly the rights some grant implies; writing its canonical grants and reading
  them back gives the same value; and the canonical list is at most two grants long.\<close>

theorem rights_roundtrip:
  "(\<forall>r. holds (from_granted rs) r \<longleftrightarrow> (\<exists>g\<in>set rs. implies_right g r))
   \<and> from_granted (granted (from_granted rs)) = from_granted rs
   \<and> length (granted (from_granted rs)) \<le> 2"
proof -
  have "list_all (\<lambda>x. from_granted (granted x) = x \<and> length (granted x) \<le> 2) reachable_rights"
    by code_simp
  then show ?thesis
    using from_granted_reachable [of rs] by (auto simp: list_all_iff holds_from_granted)
qed

lemma rights_roundtrip_witness:
  "granted (from_granted [CommitSign, NsAdmin, RepoOwn]) = [NsAdmin, RepoOwn]
   \<and> from_granted [NsAdmin, RepoOwn] = from_granted [CommitSign, NsAdmin, RepoOwn]"
proof -
  have g: "granted (from_granted [CommitSign, NsAdmin, RepoOwn]) = [NsAdmin, RepoOwn]"
    by code_simp
  from rights_roundtrip [of "[CommitSign, NsAdmin, RepoOwn]"] g show ?thesis by simp
qed

section \<open>Rounding onto a ladder\<close>

lemma foldl_max_Max: "foldl max l ls = Max (set (l # ls))" for l :: "'a::linorder"
proof (induction ls arbitrary: l)
  case (Cons x ls)
  have "foldl max l (x # ls) = Max (insert (max l x) (set ls))" using Cons by simp
  also have "\<dots> = Max (insert l (insert x (set ls)))"
    by (cases "ls = []") (simp_all add: max.assoc)
  finally show ?case by simp
qed simp

lemma collapse_Max:
  "collapse_to_ladder r ladder =
     (if \<exists>l\<in>set ladder. l \<le> r then Max {l \<in> set ladder. l \<le> r} else RoleNone)"
  by (auto simp: collapse_to_ladder_def foldl_max_Max filter_empty_conv
      split: list.splits simp flip: set_filter)

text \<open>
  What the rest of the program relies on when a role is fitted to a forge: it is never raised,
  it is on the ladder, and nothing on the ladder fits better.
\<close>

locale role_rounding =
  fixes round_role :: "forge_role list \<Rightarrow> forge_role \<Rightarrow> forge_role"
  assumes round_below: "round_role ladder r \<le> r"
    and round_on_ladder: "round_role ladder r = RoleNone \<or> round_role ladder r \<in> set ladder"
    and round_best: "l \<in> set ladder \<Longrightarrow> l \<le> r \<Longrightarrow> l \<le> round_role ladder r"
begin

lemma round_mono: "r \<le> s \<Longrightarrow> round_role ladder r \<le> round_role ladder s"
  using round_below round_on_ladder round_best by (metis RoleNone_least order_trans)

lemma round_idem: "round_role ladder (round_role ladder r) = round_role ladder r"
  using round_below round_on_ladder round_best by (metis RoleNone_least antisym order_refl)

lemma round_admin: "round_role ladder r = RoleAdmin \<Longrightarrow> r = RoleAdmin"
  using round_below [of ladder r] by (simp add: antisym)

lemma round_ordered:
  "maintain \<le> own \<Longrightarrow> commit \<le> maintain \<Longrightarrow>
     round_role ladder maintain \<le> round_role ladder own
     \<and> round_role ladder commit \<le> round_role ladder maintain"
  by (simp add: round_mono)

end

interpretation ladder_rounding: role_rounding "\<lambda>ladder r. collapse_to_ladder r ladder"
proof
  fix ladder r
  show "collapse_to_ladder r ladder \<le> r"
  proof (cases "\<exists>l\<in>set ladder. l \<le> r")
    case True
    then have "Max {l \<in> set ladder. l \<le> r} \<in> {l \<in> set ladder. l \<le> r}"
      by (intro Max_in) auto
    with True show ?thesis by (simp add: collapse_Max)
  qed (simp add: collapse_Max)
  show "collapse_to_ladder r ladder = RoleNone \<or> collapse_to_ladder r ladder \<in> set ladder"
  proof (cases "\<exists>l\<in>set ladder. l \<le> r")
    case True
    then have "Max {l \<in> set ladder. l \<le> r} \<in> {l \<in> set ladder. l \<le> r}"
      by (intro Max_in) auto
    with True show ?thesis by (simp add: collapse_Max)
  qed (simp add: collapse_Max)
  fix l assume "l \<in> set ladder" "l \<le> r"
  then show "l \<le> collapse_to_ladder r ladder" by (auto simp: collapse_Max)
qed

section \<open>Role maps\<close>

definition wf_role_map :: "role_map \<Rightarrow> bool" where
  "wf_role_map m \<longleftrightarrow>
     map_commit m \<le> map_maintain m \<and> map_maintain m \<le> map_own m
     \<and> map_maintain m < RoleAdmin \<and> map_commit m \<le> RoleWrite"

lemma role_map_new_iff:
  "role_map_new own maintain commit = Inr m \<longleftrightarrow>
     m = \<lparr>map_own = own, map_maintain = maintain, map_commit = commit\<rparr> \<and> wf_role_map m"
  unfolding role_map_new_def wf_role_map_def Let_def MAX_COMMIT_def
  by (auto simp: not_le not_less split: if_splits)

text \<open>A role map exists exactly when it is safe. A map can be built, from the configuration or
  from the wire, exactly when own is at least maintain is at least commit, neither maintain nor
  commit is the forge's administrator role, and a committer gets at most write; the default map
  and the map with committer write are such maps.\<close>

theorem role_map_is_ordered:
  "(role_map_new own maintain commit = Inr m \<longleftrightarrow>
      m = \<lparr>map_own = own, map_maintain = maintain, map_commit = commit\<rparr>
      \<and> commit \<le> maintain \<and> maintain \<le> own \<and> maintain < RoleAdmin \<and> commit \<le> RoleWrite)
   \<and> wf_role_map default_role_map \<and> wf_role_map with_committer_write"
proof -
  have "wf_role_map default_role_map" "wf_role_map with_committer_write"
    by (simp_all add: wf_role_map_def default_role_map_def with_committer_write_def
        less_eq_forge_role_def less_forge_role_def)
  then show ?thesis unfolding role_map_new_iff by (auto simp: wf_role_map_def)
qed

lemma requested_from_granted:
  "requested m (from_granted rs) =
     (if RepoOwn \<in> set rs then map_own m
      else if RepoMaintain \<in> set rs then map_maintain m
      else if CommitSign \<in> set rs then map_commit m
      else RoleNone)"
  by (simp add: requested_def forge_tier_from_granted)

text \<open>C36: Nobody becomes an administrator of a repository on the forge unless \<open>git.repo.own\<close> was
  granted to them in its own name. For every safe map, every ladder and every set of grants, the
  role a person gets is at most the role the map gives their highest repository grant, is a
  level the forge offers (or none), and is the administrator role only for an owner; a namespace
  administrator with no repository right gets no role at all.\<close>

theorem only_owners_become_admin:
  assumes "wf_role_map m"
  shows "(collapse_to_ladder (requested m (from_granted rs)) ladder = RoleAdmin
            \<longrightarrow> RepoOwn \<in> set rs)
       \<and> collapse_to_ladder (requested m (from_granted rs)) ladder \<le> requested m (from_granted rs)
       \<and> (collapse_to_ladder (requested m (from_granted rs)) ladder
            \<in> insert RoleNone (set ladder))
       \<and> (set rs \<subseteq> {NsAdmin, RepoCreate} \<longrightarrow>
            collapse_to_ladder (requested m (from_granted rs)) ladder = RoleNone)"
proof -
  have "RepoOwn \<in> set rs" if "requested m (from_granted rs) = RoleAdmin"
    using that assms
    by (auto simp: requested_from_granted wf_role_map_def less_eq_forge_role_def less_forge_role_def
        split: if_splits)
  moreover have "requested m (from_granted rs) = RoleNone" if "set rs \<subseteq> {NsAdmin, RepoCreate}"
    using that by (auto simp: requested_from_granted)
  moreover have "collapse_to_ladder RoleNone ladder = RoleNone"
    using ladder_rounding.round_below [of RoleNone ladder] by (simp add: antisym)
  ultimately show ?thesis
    using ladder_rounding.round_admin ladder_rounding.round_below ladder_rounding.round_on_ladder
    by (metis insert_iff)
qed

lemma only_owners_become_admin_witness:
  "collapse_to_ladder (requested default_role_map (from_granted [NsAdmin])) [RoleRead, RoleAdmin]
     = RoleNone
   \<and> collapse_to_ladder (requested default_role_map (from_granted [RepoMaintain]))
       [RoleRead, RoleWrite, RoleAdmin] \<noteq> RoleAdmin"
  using only_owners_become_admin [of default_role_map "[NsAdmin]" "[RoleRead, RoleAdmin]"]
    only_owners_become_admin [of default_role_map "[RepoMaintain]" "[RoleRead, RoleWrite, RoleAdmin]"]
  by (auto simp: wf_role_map_def default_role_map_def less_eq_forge_role_def less_forge_role_def)

end
