(* ===== verification/Forge_Model.thy ===== *)
theory Forge_Model
  imports Forge_Resource Forge_Rights
begin

text \<open>
  The data an adapter is handed and hands back (\<open>vgi-forge/src/model.rs\<close>), with the constructors
  the program uses, the pull requests of \<open>vgi-forge/src/pulls.rs\<close>, and the default methods of
  the \<open>Forge\<close> trait (\<open>vgi-forge/src/forge.rs\<close>) that are not I/O.
\<close>

section \<open>Namespaces and capabilities\<close>

datatype forge_kind = GitHub | Forgejo

fun forge_kind_str :: "forge_kind \<Rightarrow> string" where
  "forge_kind_str GitHub = ''github''"
| "forge_kind_str Forgejo = ''forgejo''"

datatype namespace_kind = Organization | User

record namespace =
  ns_resource :: resource
  ns_owner_id :: "u64 option"
  ns_kind :: namespace_kind
  ns_installation_id :: "u64 option"

definition namespace_new :: "resource \<Rightarrow> namespace_kind \<Rightarrow> namespace" where
  "namespace_new r k =
     \<lparr>ns_resource = r, ns_owner_id = None, ns_kind = k, ns_installation_id = None\<rparr>"

definition with_owner_id :: "u64 \<Rightarrow> namespace \<Rightarrow> namespace" where
  "with_owner_id i ns = ns\<lparr>ns_owner_id := Some i\<rparr>"

definition with_installation :: "u64 \<Rightarrow> namespace \<Rightarrow> namespace" where
  "with_installation i ns = ns\<lparr>ns_installation_id := Some i\<rparr>"

datatype required_check_kind = NoRequiredCheck | Ruleset | BranchProtection

datatype link_method = NoLink | DeviceFlow | AuthorizationCodePkce

record capabilities =
  automation :: bool
  bot_can_create_repos :: bool
  role_levels :: "forge_role list"
  required_checks :: required_check_kind
  webhooks :: bool
  account_link :: link_method
  per_repo_tokens :: bool
  required_workflow :: bool
  single_owner_repos_unreviewed :: bool
  bridge_posted_check :: bool

section \<open>Accounts, roles and repositories\<close>

record forge_account =
  acc_id :: u64
  acc_login :: string

record role_assignment =
  ra_account :: forge_account
  ra_role :: forge_role

datatype unlisted = Keep | Remove

datatype visibility = Public | Private | Internal

record repo_spec =
  spec_resource :: resource
  spec_visibility :: visibility
  spec_description :: "string option"
  spec_owners :: "forge_account list"

definition repo_spec_new :: "resource \<Rightarrow> repo_spec" where
  "repo_spec_new r =
     \<lparr>spec_resource = r, spec_visibility = Public, spec_description = None, spec_owners = []\<rparr>"

datatype access_source = Team string | OrgOwner string | OrgMember string

fun access_source_display :: "access_source \<Rightarrow> string" where
  "access_source_display (Team t) = ''through team `'' @ t @ ''`''"
| "access_source_display (OrgOwner o') = ''as an owner of `'' @ o' @ ''`''"
| "access_source_display (OrgMember o') = ''as a member of `'' @ o' @ ''` (its base permission)''"

record indirect_access =
  ia_role :: forge_role
  ia_via :: "access_source list"

text \<open>The loop over \<open>via\<close>, with the separator its position asks for.\<close>

fun display_via :: "nat \<Rightarrow> nat \<Rightarrow> access_source list \<Rightarrow> string" where
  "display_via i n [] = []"
| "display_via i n (v # vs) =
     (if i = 0 then '' '' else if i + 1 = n then '' and '' else '', '')
     @ access_source_display v @ display_via (Suc i) n vs"

definition indirect_access_display :: "indirect_access \<Rightarrow> string" where
  "indirect_access_display a =
     ''`'' @ role_display (ia_role a) @ ''` access''
     @ (if ia_via a = [] then '' from something other than a direct role''
        else display_via 0 (length (ia_via a)) (ia_via a))"

record collaborator =
  co_account :: forge_account
  co_role :: forge_role
  co_pending :: bool

definition collaborator_new :: "forge_account \<Rightarrow> forge_role \<Rightarrow> collaborator" where
  "collaborator_new a r = \<lparr>co_account = a, co_role = r, co_pending = False\<rparr>"

definition collaborator_invited :: "forge_account \<Rightarrow> forge_role \<Rightarrow> collaborator" where
  "collaborator_invited a r = \<lparr>co_account = a, co_role = r, co_pending = True\<rparr>"

datatype merge_method = FastForward | MergeCommit | Rebase | RebaseMerge | Squash

datatype check_source_guard =
    GuardUnknown
  | GuardRequiredWorkflow
  | GuardOwnerReview "forge_account list" "string list"
  | GuardUnreviewed
  | GuardBridgePosted

datatype protection_gap =
    Missing
  | NotEnforced
  | DefaultBranchNotCovered
  | PullRequestNotRequired
  | CheckNotRequired string
  | ForcePushAllowed
  | DeletionAllowed
  | BypassActors "string list"
  | CheckSourceUnprotected string
  | UnprotectedPaths "string list"
  | MergeMethodAllowed merge_method
  | CiDisabled
  | ApprovalsBelow u8 u8

record protection_state =
  present :: bool
  enforced :: bool
  covers_default_branch :: bool
  requires_pull_request :: bool
  ps_required_checks :: "string list"
  blocks_force_push :: bool
  blocks_deletion :: bool
  bypass_actors :: "string list"
  other_gaps :: "protection_gap list"
  source_guard :: check_source_guard
  ps_protected_paths :: "string list"
  ps_merge_methods :: "merge_method list option"
  ci_enabled :: "bool option"
  ps_required_approvals :: u8

definition no_protection :: protection_state where
  "no_protection = \<lparr>present = False, enforced = False, covers_default_branch = False,
     requires_pull_request = False, ps_required_checks = [], blocks_force_push = False,
     blocks_deletion = False, bypass_actors = [], other_gaps = [], source_guard = GuardUnknown,
     ps_protected_paths = [], ps_merge_methods = None, ci_enabled = None,
     ps_required_approvals = 0\<rparr>"

record repo_state =
  rs_resource :: resource
  rs_forge_id :: u64
  rs_visibility :: visibility
  rs_archived :: bool
  rs_default_branch :: "string option"
  rs_collaborators :: "collaborator list"
  rs_protection :: protection_state

definition repo_state_new :: "resource \<Rightarrow> u64 \<Rightarrow> repo_state" where
  "repo_state_new r i = \<lparr>rs_resource = r, rs_forge_id = i, rs_visibility = Public,
     rs_archived = False, rs_default_branch = None, rs_collaborators = [],
     rs_protection = no_protection\<rparr>"

record projection =
  pr_resource :: resource
  pr_forge_id :: "u64 option"
  pr_roles :: "role_assignment list"
  pr_required_check :: "string option"
  pr_archived :: bool
  pr_visibility :: "visibility option"
  pr_owners :: "forge_account list"
  pr_required_approvals :: u8

definition projection_new :: "resource \<Rightarrow> projection" where
  "projection_new r = \<lparr>pr_resource = r, pr_forge_id = None, pr_roles = [],
     pr_required_check = None, pr_archived = False, pr_visibility = None, pr_owners = [],
     pr_required_approvals = 0\<rparr>"

datatype role_outcome = Applied | Invited | Failed string

record role_change =
  rch_account :: forge_account
  rch_from :: forge_role
  rch_to :: forge_role
  rch_outcome :: role_outcome

record apply_report =
  changes :: "role_change list"
  unchanged :: "forge_account list"
  kept_unlisted :: "collaborator list"

definition apply_report_is_complete :: "apply_report \<Rightarrow> bool" where
  "apply_report_is_complete r \<longleftrightarrow>
     \<not> list_ex (\<lambda>c. case rch_outcome c of Failed _ \<Rightarrow> True | _ \<Rightarrow> False) (changes r)"

section \<open>Pull requests\<close>

datatype pull_request_state = Open | Closed | Merged

record reopen =
  reopened_by :: forge_account
  reopened_at :: int

record pull_request =
  pull_state :: pull_request_state
  last_reopen_by_other :: "reopen option"

definition pull_request_new :: "pull_request_state \<Rightarrow> pull_request" where
  "pull_request_new s = \<lparr>pull_state = s, last_reopen_by_other = None\<rparr>"

definition with_reopen :: "reopen \<Rightarrow> pull_request \<Rightarrow> pull_request" where
  "with_reopen r p = p\<lparr>last_reopen_by_other := Some r\<rparr>"

definition pull_is_open :: "pull_request \<Rightarrow> bool" where
  "pull_is_open p \<longleftrightarrow> pull_state p = Open"

section \<open>The trait's default methods\<close>

definition forge_normalize :: "string \<Rightarrow> string \<Rightarrow> forge_error + resource" where
  "forge_normalize forge_host raw =
     (case parse_owner_repo raw of
        Inl e \<Rightarrow> Inl e
      | Inr r \<Rightarrow>
          if host r \<noteq> forge_host
          then Inl (WrongResource (as_str r) (''a resource on `'' @ forge_host @ ''`''))
          else Inr r)"

definition map_role :: "capabilities \<Rightarrow> effective_rights \<Rightarrow> role_map \<Rightarrow> forge_role" where
  "map_role caps rights m = collapse_to_ladder (requested m rights) (role_levels caps)"

definition is_protected_account :: "namespace \<Rightarrow> u64 \<Rightarrow> bool" where
  "is_protected_account ns account \<longleftrightarrow> ns_owner_id ns = Some account"

definition pulls_unsupported :: forge_error where
  "pulls_unsupported = Unsupported ''closePullRequest''
     (''this forge adapter has no pull-request gate; the pull request stays open, and ''
      @ ''the required commit-trust check still guards what merges'')"

end
