(* ===== verification/Forge_Drift.thy ===== *)
theory Forge_Drift
  imports Forge_Model
begin

text \<open>
  Drift between a repository as observed and the community's projection of it
  (\<open>vgi-forge/src/event.rs\<close>): the shortfalls of the protection, the comparison of the roles, and
  the default comparison of everything.
\<close>

datatype drift =
    UnexpectedRole forge_account forge_role
  | MissingRole forge_account forge_role
  | RoleMismatch forge_account forge_role forge_role
  | ProtectionWeakened "protection_gap list"
  | Renamed resource resource
  | Replaced u64 u64
  | ArchiveMismatch bool bool
  | VisibilityMismatch visibility visibility
  | ReplanNeeded string

definition is_critical :: "drift \<Rightarrow> bool" where
  "is_critical d \<longleftrightarrow>
     (case d of ProtectionWeakened _ \<Rightarrow> True | Replaced _ _ \<Rightarrow> True | Renamed _ _ \<Rightarrow> True | _ \<Rightarrow> False)"

definition protection_gaps :: "protection_state \<Rightarrow> string \<Rightarrow> protection_gap list" where
  "protection_gaps observed check =
     (if \<not> present observed then Missing # other_gaps observed
      else
        (if \<not> enforced observed then [NotEnforced] else [])
        @ (if \<not> covers_default_branch observed then [DefaultBranchNotCovered] else [])
        @ (if \<not> requires_pull_request observed then [PullRequestNotRequired] else [])
        @ (if \<not> list_ex (\<lambda>c. c = check) (ps_required_checks observed)
           then [CheckNotRequired check] else [])
        @ (if \<not> blocks_force_push observed then [ForcePushAllowed] else [])
        @ (if \<not> blocks_deletion observed then [DeletionAllowed] else [])
        @ (if bypass_actors observed \<noteq> [] then [BypassActors (bypass_actors observed)] else [])
        @ other_gaps observed)"

definition same_account :: "forge_account \<Rightarrow> forge_account \<Rightarrow> bool" where
  "same_account a b \<longleftrightarrow> acc_id a = acc_id b"

definition wanted_drift :: "collaborator list \<Rightarrow> role_assignment \<Rightarrow> drift list" where
  "wanted_drift collaborators want =
     (case find (\<lambda>c. same_account (co_account c) (ra_account want)) collaborators of
        None \<Rightarrow> if ra_role want \<noteq> RoleNone then [MissingRole (ra_account want) (ra_role want)] else []
      | Some c \<Rightarrow>
          if ra_role want = RoleNone then [UnexpectedRole (co_account c) (co_role c)]
          else if co_role c \<noteq> ra_role want
          then [RoleMismatch (ra_account want) (ra_role want) (co_role c)]
          else [])"

definition unlisted_drift :: "role_assignment list \<Rightarrow> collaborator \<Rightarrow> drift list" where
  "unlisted_drift desired c =
     (if co_role c \<noteq> RoleNone
         \<and> \<not> list_ex (\<lambda>d. same_account (ra_account d) (co_account c)) desired
      then [UnexpectedRole (co_account c) (co_role c)] else [])"

definition role_drift :: "repo_state \<Rightarrow> role_assignment list \<Rightarrow> drift list" where
  "role_drift observed desired =
     concat (map (wanted_drift (rs_collaborators observed)) desired)
     @ concat (map (unlisted_drift desired) (rs_collaborators observed))"

definition all_gaps :: "repo_state \<Rightarrow> projection \<Rightarrow> string \<Rightarrow> protection_gap list" where
  "all_gaps observed desired check =
     protection_gaps (rs_protection observed) check
     @ (if present (rs_protection observed)
           \<and> ps_required_approvals (rs_protection observed) < pr_required_approvals desired
        then [ApprovalsBelow (pr_required_approvals desired)
                (ps_required_approvals (rs_protection observed))]
        else [])"

text \<open>The comparison once the forge id is known not to differ.\<close>

definition same_repo_diff :: "repo_state \<Rightarrow> projection \<Rightarrow> drift list" where
  "same_repo_diff observed desired =
     (if rs_resource observed \<noteq> pr_resource desired
      then [Renamed (pr_resource desired) (rs_resource observed)] else [])
     @ (if rs_archived observed \<noteq> pr_archived desired
        then [ArchiveMismatch (pr_archived desired) (rs_archived observed)] else [])
     @ (case pr_visibility desired of
          None \<Rightarrow> []
        | Some expected \<Rightarrow>
            if expected \<noteq> rs_visibility observed
            then [VisibilityMismatch expected (rs_visibility observed)] else [])
     @ (case pr_required_check desired of
          None \<Rightarrow> []
        | Some check \<Rightarrow>
            (let gaps = all_gaps observed desired check in
             if gaps \<noteq> [] then [ProtectionWeakened gaps] else []))
     @ role_drift observed (pr_roles desired)"

definition default_diff :: "repo_state \<Rightarrow> projection \<Rightarrow> drift list" where
  "default_diff observed desired =
     (case pr_forge_id desired of
        Some expected \<Rightarrow>
          if expected \<noteq> rs_forge_id observed then [Replaced expected (rs_forge_id observed)]
          else same_repo_diff observed desired
      | None \<Rightarrow> same_repo_diff observed desired)"

section \<open>Agreement\<close>

text \<open>What the community asks of the protection and of the people of a repository.\<close>

definition protects :: "protection_state \<Rightarrow> string \<Rightarrow> bool" where
  "protects p check \<longleftrightarrow>
     present p \<and> enforced p \<and> covers_default_branch p \<and> requires_pull_request p
     \<and> check \<in> set (ps_required_checks p) \<and> blocks_force_push p \<and> blocks_deletion p
     \<and> bypass_actors p = [] \<and> other_gaps p = []"

text \<open>The role the forge reports for an account: its first entry, matched by id.\<close>

definition observed_role :: "repo_state \<Rightarrow> u64 \<Rightarrow> forge_role option" where
  "observed_role observed i =
     map_option co_role (find (\<lambda>c. acc_id (co_account c) = i) (rs_collaborators observed))"

definition roles_agree :: "repo_state \<Rightarrow> role_assignment list \<Rightarrow> bool" where
  "roles_agree observed desired \<longleftrightarrow>
     (\<forall>d\<in>set desired. observed_role observed (acc_id (ra_account d))
         = (if ra_role d = RoleNone then None else Some (ra_role d)))
     \<and> (\<forall>c\<in>set (rs_collaborators observed).
          co_role c \<noteq> RoleNone \<longrightarrow> acc_id (co_account c) \<in> (acc_id \<circ> ra_account) ` set desired)"

definition agrees :: "repo_state \<Rightarrow> projection \<Rightarrow> bool" where
  "agrees observed desired \<longleftrightarrow>
     (\<forall>i. pr_forge_id desired = Some i \<longrightarrow> rs_forge_id observed = i)
     \<and> rs_resource observed = pr_resource desired
     \<and> rs_archived observed = pr_archived desired
     \<and> (\<forall>v. pr_visibility desired = Some v \<longrightarrow> rs_visibility observed = v)
     \<and> (\<forall>check. pr_required_check desired = Some check \<longrightarrow>
          protects (rs_protection observed) check
          \<and> pr_required_approvals desired \<le> ps_required_approvals (rs_protection observed))
     \<and> roles_agree observed (pr_roles desired)"

lemma protection_gaps_empty: "protection_gaps p check = [] \<longleftrightarrow> protects p check"
  by (auto simp: protection_gaps_def protects_def list_ex_iff)

lemma all_gaps_empty:
  "all_gaps observed desired check = [] \<longleftrightarrow>
     protects (rs_protection observed) check
     \<and> pr_required_approvals desired \<le> ps_required_approvals (rs_protection observed)"
  by (auto simp: all_gaps_def protection_gaps_empty protects_def not_less)

lemma wanted_drift_empty:
  "wanted_drift (rs_collaborators observed) d = [] \<longleftrightarrow>
     observed_role observed (acc_id (ra_account d))
       = (if ra_role d = RoleNone then None else Some (ra_role d))"
  by (auto simp: wanted_drift_def observed_role_def same_account_def split: option.splits)

lemma unlisted_drift_empty:
  "unlisted_drift desired c = [] \<longleftrightarrow>
     (co_role c \<noteq> RoleNone \<longrightarrow> acc_id (co_account c) \<in> (acc_id \<circ> ra_account) ` set desired)"
  by (auto simp: unlisted_drift_def same_account_def list_ex_iff image_iff eq_commute)

lemma role_drift_empty: "role_drift observed desired = [] \<longleftrightarrow> roles_agree observed desired"
  by (simp add: role_drift_def roles_agree_def wanted_drift_empty unlisted_drift_empty)

lemma same_repo_diff_empty:
  "same_repo_diff observed desired = [] \<longleftrightarrow>
     rs_resource observed = pr_resource desired
     \<and> rs_archived observed = pr_archived desired
     \<and> (\<forall>v. pr_visibility desired = Some v \<longrightarrow> rs_visibility observed = v)
     \<and> (\<forall>check. pr_required_check desired = Some check \<longrightarrow>
          protects (rs_protection observed) check
          \<and> pr_required_approvals desired \<le> ps_required_approvals (rs_protection observed))
     \<and> roles_agree observed (pr_roles desired)"
  by (cases "pr_visibility desired"; cases "pr_required_check desired")
    (auto simp: same_repo_diff_def role_drift_empty all_gaps_empty Let_def)

text \<open>No drift means agreement, and agreement means no drift. The comparison of a repository
  with its projection reports nothing exactly when it is the same repository at the same
  resource, archived and visible as it should be, its managed rule is present, enforced, covers
  the default branch, requires a pull request and the check, forbids force-pushes and deletion,
  has no bypass actors and no other shortfall and asks for enough approvals; every person named
  has exactly the role they should have; and nobody else has any.\<close>

theorem no_drift_iff_agreement: "default_diff observed desired = [] \<longleftrightarrow> agrees observed desired"
  by (auto simp: default_diff_def agrees_def same_repo_diff_empty split: option.splits)

lemma replaced_not_in_diff: "Replaced a b \<notin> set (same_repo_diff observed desired)"
  by (auto simp: same_repo_diff_def role_drift_def wanted_drift_def unlisted_drift_def Let_def
      split: option.splits if_splits)

text \<open>Grants are never inherited across repositories, and a weakened guard is never quiet. When
  the recorded forge id differs, that replacement is the only drift reported, so no role of a
  stranger's repository is ever offered for repair; otherwise any shortfall of the protection
  the projection requires, and any rename, is reported as critical.\<close>

theorem critical_drift_is_reported:
  shows "(Replaced i j \<in> set (default_diff observed desired) \<longleftrightarrow>
            pr_forge_id desired = Some i \<and> rs_forge_id observed = j \<and> i \<noteq> j)
     \<and> (pr_forge_id desired = Some i \<and> rs_forge_id observed \<noteq> i \<longrightarrow>
            default_diff observed desired = [Replaced i (rs_forge_id observed)])
     \<and> (pr_required_check desired = Some check
          \<and> (\<not> protects (rs_protection observed) check
             \<or> ps_required_approvals (rs_protection observed) < pr_required_approvals desired)
          \<or> rs_resource observed \<noteq> pr_resource desired
         \<longrightarrow> list_ex is_critical (default_diff observed desired))"
proof (intro conjI impI)
  show "Replaced i j \<in> set (default_diff observed desired) \<longleftrightarrow>
      pr_forge_id desired = Some i \<and> rs_forge_id observed = j \<and> i \<noteq> j"
    by (auto simp: default_diff_def replaced_not_in_diff split: option.splits)
  show "default_diff observed desired = [Replaced i (rs_forge_id observed)]"
    if "pr_forge_id desired = Some i \<and> rs_forge_id observed \<noteq> i"
    using that by (auto simp: default_diff_def)
  assume weak: "pr_required_check desired = Some check
      \<and> (\<not> protects (rs_protection observed) check
         \<or> ps_required_approvals (rs_protection observed) < pr_required_approvals desired)
      \<or> rs_resource observed \<noteq> pr_resource desired"
  have "\<exists>d\<in>set (same_repo_diff observed desired). is_critical d"
  proof (cases "rs_resource observed \<noteq> pr_resource desired")
    case True
    then show ?thesis by (simp add: same_repo_diff_def is_critical_def)
  next
    case False
    with weak have "pr_required_check desired = Some check" "all_gaps observed desired check \<noteq> []"
      by (auto simp: all_gaps_empty not_le)
    then have "ProtectionWeakened (all_gaps observed desired check)
        \<in> set (same_repo_diff observed desired)"
      by (simp add: same_repo_diff_def)
    then show ?thesis by (intro bexI) (simp_all add: is_critical_def)
  qed
  then show "list_ex is_critical (default_diff observed desired)"
    by (auto simp: default_diff_def is_critical_def list_ex_iff split: option.splits)
qed

definition sample_repo :: repo_state where
  "sample_repo = repo_state_new (Resource ''github.com/o/r'') 7"

definition sample_projection :: projection where
  "sample_projection = (projection_new (Resource ''github.com/o/r''))
     \<lparr>pr_forge_id := Some 8, pr_required_check := Some ''Verify commit trust''\<rparr>"

lemma critical_drift_is_reported_witness:
  "default_diff sample_repo sample_projection = [Replaced 8 7]
   \<and> list_ex is_critical (default_diff sample_repo sample_projection)"
proof -
  have "pr_forge_id sample_projection = Some 8" "rs_forge_id sample_repo = 7"
    "pr_required_check sample_projection = Some ''Verify commit trust''"
    "\<not> protects (rs_protection sample_repo) ''Verify commit trust''"
    by (simp_all add: sample_projection_def sample_repo_def repo_state_new_def projection_new_def
        no_protection_def protects_def)
  with critical_drift_is_reported [of 8 7 sample_repo sample_projection "''Verify commit trust''"]
  show ?thesis by (simp add: is_critical_def)
qed

end
