(* ===== verification/Bootstrap.thy ===== *)
theory Bootstrap
  imports Forge_Model
begin

text \<open>
  Bootstrap plans (\<open>vgi-forge/src/bootstrap.rs\<close>): the configuration and the steps a plan is made
  of, the run that stops at the first failure, and the check of repository paths. Running one
  step is the forge adapter's: it is the argument \<open>run_step\<close>, which reads and changes the forge's
  state.
\<close>

section \<open>Configuration\<close>

definition DEFAULT_REQUIRED_CHECK :: string where
  "DEFAULT_REQUIRED_CHECK = ''Verify commit trust''"

datatype verify_transport = VtAuto | VtTsp | VtDidcomm | VtHttps

fun verify_transport_str :: "verify_transport \<Rightarrow> string" where
  "verify_transport_str VtAuto = ''auto''"
| "verify_transport_str VtTsp = ''tsp''"
| "verify_transport_str VtDidcomm = ''didcomm''"
| "verify_transport_str VtHttps = ''https''"

definition is_auto :: "verify_transport \<Rightarrow> bool" where
  "is_auto t \<longleftrightarrow> t = VtAuto"

definition workflow_input_line :: "verify_transport \<Rightarrow> string \<Rightarrow> string" where
  "workflow_input_line t indent =
     (if is_auto t then [] else indent @ ''transport: '' @ verify_transport_str t @ [newline])"

record extra_file =
  ef_path :: string
  ef_contents :: bytes

record vgi_config =
  trust_registry_did :: string
  cfg_vtc_did :: string
  verify_trust_action :: string
  verify_trust_version :: string
  verify_trust_sha256 :: "string option"
  cfg_required_check :: string
  platform_keyring :: "bytes option"
  extra_files :: "extra_file list"
  verify_trust_transport :: verify_transport
  cfg_required_approvals :: u8

definition vgi_config_new :: "string \<Rightarrow> string \<Rightarrow> string \<Rightarrow> string \<Rightarrow> vgi_config" where
  "vgi_config_new registry vtc act version =
     \<lparr>trust_registry_did = registry, cfg_vtc_did = vtc, verify_trust_action = act,
      verify_trust_version = version, verify_trust_sha256 = None,
      cfg_required_check = DEFAULT_REQUIRED_CHECK, platform_keyring = None, extra_files = [],
      verify_trust_transport = VtAuto, cfg_required_approvals = 0\<rparr>"

definition with_extra_file :: "string \<Rightarrow> bytes \<Rightarrow> vgi_config \<Rightarrow> vgi_config" where
  "with_extra_file path contents cfg =
     cfg\<lparr>extra_files := extra_files cfg @ [\<lparr>ef_path = path, ef_contents = contents\<rparr>]\<rparr>"

datatype bootstrap_component = Workflow | Keyring | Variables | RequiredCheck | Extra

record protection_spec =
  sp_required_check :: string
  require_pull_request :: bool
  block_force_push :: bool
  block_deletion :: bool
  require_status_check :: bool
  require_code_owner_review :: bool
  required_approvals :: u8
  protected_paths :: "string list"

definition protection_standard :: "string \<Rightarrow> protection_spec" where
  "protection_standard check =
     \<lparr>sp_required_check = check, require_pull_request = True, block_force_push = True,
      block_deletion = True, require_status_check = True, require_code_owner_review = False,
      required_approvals = 0, protected_paths = []\<rparr>"

definition with_protected_paths :: "string list \<Rightarrow> protection_spec \<Rightarrow> protection_spec" where
  "with_protected_paths paths p = p\<lparr>protected_paths := paths\<rparr>"

definition with_check_enforced_by_namespace :: "protection_spec \<Rightarrow> protection_spec" where
  "with_check_enforced_by_namespace p = p\<lparr>require_status_check := False\<rparr>"

definition with_code_owner_review :: "protection_spec \<Rightarrow> protection_spec" where
  "with_code_owner_review p = p\<lparr>require_code_owner_review := True\<rparr>"

definition with_required_approvals :: "u8 \<Rightarrow> protection_spec \<Rightarrow> protection_spec" where
  "with_required_approvals n p = p\<lparr>required_approvals := n\<rparr>"

definition approvals_needed :: "protection_spec \<Rightarrow> u8" where
  "approvals_needed p =
     max (required_approvals p) (if require_code_owner_review p then 1 else 0)"

record repo_settings =
  merge_methods :: "merge_method list"
  enable_ci :: bool

definition repo_settings_methods :: "merge_method list \<Rightarrow> repo_settings" where
  "repo_settings_methods ms = \<lparr>merge_methods = ms, enable_ci = True\<rparr>"

section \<open>Steps\<close>

datatype step_action =
    WriteFile string bytes string
  | SetVariable string string
  | ProtectDefaultBranch protection_spec
  | RequireNamespaceWorkflow bytes string string
  | RequireOwnerReview "string list" "forge_account list" bytes string
  | RemoveFile string string
  | RemoveVariable string
  | ConfigureRepo repo_settings
  | RefreshProtectedFiles "extra_file list" string

record bootstrap_step =
  step_id :: string
  step_component :: bootstrap_component
  step_action :: step_action

datatype step_outcome = Unchanged | Created | Updated

record bootstrap_report =
  completed :: "(string \<times> step_outcome) list"
  failed :: "(string \<times> forge_error) option"
  not_run :: "string list"

definition empty_report :: bootstrap_report where
  "empty_report = \<lparr>completed = [], failed = None, not_run = []\<rparr>"

definition bootstrap_is_complete :: "bootstrap_report \<Rightarrow> bool" where
  "bootstrap_is_complete r \<longleftrightarrow> failed r = None"

text \<open>The loop of \<open>run_plan\<close>, with the report so far.\<close>

fun run_steps ::
    "(bootstrap_step \<Rightarrow> 's \<Rightarrow> (forge_error + step_outcome) \<times> 's) \<Rightarrow> bootstrap_report
       \<Rightarrow> bootstrap_step list \<Rightarrow> 's \<Rightarrow> bootstrap_report \<times> 's" where
  "run_steps run_step report [] s = (report, s)"
| "run_steps run_step report (step # rest) s =
     (case run_step step s of
        (Inr outcome, s) \<Rightarrow>
          run_steps run_step (report\<lparr>completed := completed report @ [(step_id step, outcome)]\<rparr>) rest s
      | (Inl e, s) \<Rightarrow>
          (report\<lparr>failed := Some (step_id step, e), not_run := map step_id rest\<rparr>, s))"

definition run_plan ::
    "(bootstrap_step \<Rightarrow> 's \<Rightarrow> (forge_error + step_outcome) \<times> 's) \<Rightarrow> bootstrap_step list \<Rightarrow> 's
       \<Rightarrow> bootstrap_report \<times> 's" where
  "run_plan run_step steps s = run_steps run_step empty_report steps s"

definition validate_repo_path :: "string \<Rightarrow> forge_error + unit" where
  "validate_repo_path path =
     (let bad = path = [] \<or> starts_with ''/'' path \<or> CHR 0x5C \<in> set path
        \<or> list_ex (\<lambda>s. s = [] \<or> s = ''.'' \<or> s = ''..'' \<or> has_control s) (split_on CHR ''/'' path)
      in if bad
         then Inl (ConfigError (''`'' @ path @ ''` is not a clean repository-relative path (no leading ''
                @ ''`/`, no empty, `.` or `..` segments)''))
         else Inr ())"

section \<open>A plan stops at its first failure\<close>

text \<open>Running a list of steps without any report: the state after all of them.\<close>

fun run_all :: "('a \<Rightarrow> 's \<Rightarrow> 'r \<times> 's) \<Rightarrow> 'a list \<Rightarrow> 's \<Rightarrow> 'r list \<times> 's" where
  "run_all run [] s = ([], s)"
| "run_all run (x # xs) s =
     (let (r, s) = run x s; (rs, s) = run_all run xs s in (r # rs, s))"

lemma run_all_append:
  "run_all run (xs @ ys) s =
     (let (rs, s) = run_all run xs s; (qs, s) = run_all run ys s in (rs @ qs, s))"
  by (induction xs arbitrary: s) (auto simp: Let_def split: prod.splits)

definition succeeded :: "bootstrap_step list \<Rightarrow> (forge_error + step_outcome) list \<Rightarrow> (string \<times> step_outcome) list" where
  "succeeded steps rs = map2 (\<lambda>st r. (step_id st, projr r)) steps rs"

lemma run_steps_succeeded:
  "run_all run_step xs s = (rs, s') \<Longrightarrow> list_all (\<lambda>r. \<exists>v. r = Inr v) rs
   \<Longrightarrow> run_steps run_step report (xs @ rest) s
     = run_steps run_step (report\<lparr>completed := completed report @ succeeded xs rs\<rparr>) rest s'"
proof (induction xs arbitrary: report s rs)
  case Nil
  then show ?case by (simp add: succeeded_def)
next
  case (Cons st xs)
  obtain r s1 where r: "run_step st s = (r, s1)" by (cases "run_step st s")
  obtain qs where q: "run_all run_step xs s1 = (qs, s')" "rs = r # qs"
    using Cons.prems(1) r by (auto split: prod.splits)
  obtain v where v: "r = Inr v" "list_all (\<lambda>r. \<exists>v. r = Inr v) qs"
    using Cons.prems(2) q(2) by auto
  show ?case using Cons.IH [OF q(1) v(2)] r v(1) q(2) by (simp add: succeeded_def)
qed

lemma first_failure_split:
  "\<exists>done rest rs s'. steps = done @ rest \<and> run_all run_step done s = (rs, s')
     \<and> list_all (\<lambda>r. \<exists>v. r = Inr v) rs
     \<and> (rest = [] \<or> (\<exists>st more e s''. rest = st # more \<and> run_step st s' = (Inl e, s'')))"
proof (induction steps arbitrary: s)
  case Nil
  have "[] = [] @ []" "run_all run_step [] s = ([], s)" by simp_all
  then show ?case by fastforce
next
  case (Cons st steps)
  obtain r s1 where r: "run_step st s = (r, s1)" by (cases "run_step st s")
  show ?case
  proof (cases r)
    case (Inl e)
    have "st # steps = [] @ st # steps" "run_all run_step [] s = ([], s)" by simp_all
    with r Inl show ?thesis by fastforce
  next
    case (Inr v)
    obtain xs rest rs s' where ih: "steps = xs @ rest" "run_all run_step xs s1 = (rs, s')"
      "list_all (\<lambda>r. \<exists>v. r = Inr v) rs"
      "rest = [] \<or> (\<exists>st more e s''. rest = st # more \<and> run_step st s' = (Inl e, s''))"
      using Cons.IH [of s1] by auto
    have "st # steps = (st # xs) @ rest" "run_all run_step (st # xs) s = (r # rs, s')"
      "list_all (\<lambda>r. \<exists>v. r = Inr v) (r # rs)"
      using ih r Inr by simp_all
    with ih(4) show ?thesis by blast
  qed
qed

text \<open>A plan stops at its first failure and accounts for every step. Whatever running a step
  does, the steps of a plan fall, in order, into those that completed, at most one that failed,
  and those not run; nothing after a failure touches the forge; and the forge is left in exactly
  the state the attempted steps left it in. The report is complete exactly when every step
  succeeded.\<close>

theorem plan_stops_at_first_failure:
  "\<exists>done rest rs s'. steps = done @ rest \<and> run_all run_step done s = (rs, s')
     \<and> list_all (\<lambda>r. \<exists>v. r = Inr v) rs
     \<and> completed (fst (run_plan run_step steps s)) = succeeded done rs
     \<and> ((rest = [] \<and> snd (run_plan run_step steps s) = s'
           \<and> bootstrap_is_complete (fst (run_plan run_step steps s))
           \<and> not_run (fst (run_plan run_step steps s)) = [])
        \<or> (\<exists>st more e. rest = st # more \<and> run_step st s' = (Inl e, snd (run_plan run_step steps s))
             \<and> failed (fst (run_plan run_step steps s)) = Some (step_id st, e)
             \<and> not_run (fst (run_plan run_step steps s)) = map step_id more))"
proof -
  obtain xs rest rs s' where p: "steps = xs @ rest" "run_all run_step xs s = (rs, s')"
    "list_all (\<lambda>r. \<exists>v. r = Inr v) rs" and
    alt: "rest = [] \<or> (\<exists>st more e s''. rest = st # more \<and> run_step st s' = (Inl e, s''))"
    using first_failure_split [of steps run_step s] by auto
  have run: "run_plan run_step steps s
      = run_steps run_step (empty_report\<lparr>completed := succeeded xs rs\<rparr>) rest s'"
    using run_steps_succeeded [OF p(2,3), of empty_report rest] p(1)
    by (simp add: run_plan_def empty_report_def)
  from alt show ?thesis
  proof (elim disjE exE conjE)
    assume "rest = []"
    with run p show ?thesis
      by (intro exI [of _ xs] exI [of _ rest] exI [of _ rs] exI [of _ s'])
        (simp add: bootstrap_is_complete_def empty_report_def)
  next
    fix st more e s'' assume "rest = st # more" "run_step st s' = (Inl e, s'')"
    with run p show ?thesis
      by (intro exI [of _ xs] exI [of _ rest] exI [of _ rs] exI [of _ s']) simp
  qed
qed

section \<open>Paths stay in the repository\<close>

text \<open>Walking a path from the root of the repository: \<open>None\<close> leaves it.\<close>

fun walk :: "string list \<Rightarrow> string list \<Rightarrow> string list option" where
  "walk at [] = Some at"
| "walk at (s # ss) =
     (if s = [] \<or> s = ''.'' then walk at ss
      else if s = ''..'' then (if at = [] then None else walk (butlast at) ss)
      else walk (at @ [s]) ss)"

lemma walk_clean:
  "\<forall>s\<in>set ss. s \<noteq> [] \<and> s \<noteq> ''.'' \<and> s \<noteq> ''..'' \<Longrightarrow> walk at ss = Some (at @ ss)"
  by (induction ss arbitrary: at) auto

text \<open>A path the bootstrap accepts stays inside the repository and means what it says: walking
  it from the root never leaves the root and ends at exactly its own segments, so two accepted
  paths name the same file only if they are the same text, and none holds a backslash or a
  control character in a segment.\<close>

theorem accepted_path_stays_inside:
  assumes "validate_repo_path path = Inr ()"
  shows "walk [] (split_on CHR ''/'' path) = Some (split_on CHR ''/'' path)
    \<and> path = join ''/'' (split_on CHR ''/'' path)
    \<and> CHR 0x5C \<notin> set path \<and> list_all (\<lambda>s. \<not> has_control s) (split_on CHR ''/'' path)"
  using assms
  by (auto simp: validate_repo_path_def Let_def list_ex_iff list_all_iff walk_clean split: if_splits)

lemma accepted_path_stays_inside_witness:
  "validate_repo_path ''.github/x.yml'' = Inr ()
   \<and> walk [] (split_on CHR ''/'' ''.github/x.yml'') = Some [''.github'', ''x.yml'']"
proof -
  have v: "validate_repo_path ''.github/x.yml'' = Inr ()" by code_simp
  from accepted_path_stays_inside [OF v] v show ?thesis by simp
qed

end
