(* ===== verification/Bridge_Wire.thy ===== *)
theory Bridge_Wire
  imports Forge_Model Json_Value "HOL-Library.AList"
begin

text \<open>
  The documents on the link between a community (the VTC) and its bridge
  (\<open>vgi-bridge/src/wire.rs\<close>): which types are handled, the check every inbound document goes
  through before its payload is read, the rules on the members of a job, the second try of a
  failed proof, and the clipping of text. The Trust Task framework (the envelope, its freshness
  rule and the proof) is a library the source calls: its operations are the fields of \<open>tt_lib\<close>.
\<close>

section \<open>The envelope and the error payload\<close>

record trust_task =
  tt_id :: string
  tt_type :: string
  tt_thread_id :: "string option"
  tt_issuer :: "string option"
  tt_recipient :: "string option"
  tt_issued_at :: "int option"
  tt_payload :: json

datatype standard_code =
    MalformedRequest | PermissionDenied | IdentityMismatch | WrongRecipient | ProofRequired
  | ProofInvalid | UnavailableCode | UnsupportedVersion | UnsupportedType

datatype error_code = Standard standard_code | DeclaredCode string

record error_payload =
  ep_code :: error_code
  ep_message :: "string option"
  ep_retryable :: bool

record refusal =
  rf_payload :: error_payload
  rf_doc :: "trust_task option"

text \<open>
  The framework: reading an envelope, its freshness policy at a time, the proof, an error payload
  of a standard code, and the two readings of a type URI.
\<close>

record tt_lib =
  read_envelope :: "json \<Rightarrow> string + trust_task"
  validate_freshness :: "int \<Rightarrow> u64 \<Rightarrow> trust_task \<Rightarrow> error_payload + unit"
  error_of :: "standard_code \<Rightarrow> error_payload"
  proof_invalid :: "string \<Rightarrow> error_payload"
  is_response :: "string \<Rightarrow> bool"
  uri_slug :: "string \<Rightarrow> string"

definition with_message :: "string \<Rightarrow> error_payload \<Rightarrow> error_payload" where
  "with_message m p = p\<lparr>ep_message := Some m\<rparr>"

definition refusal_standard ::
    "tt_lib \<Rightarrow> standard_code \<Rightarrow> string \<Rightarrow> trust_task option \<Rightarrow> refusal" where
  "refusal_standard lib code message doc =
     \<lparr>rf_payload = with_message message (error_of lib code), rf_doc = doc\<rparr>"

record declared_error_code =
  dec_code :: string
  dec_retryable :: bool

definition declared_error :: "declared_error_code \<Rightarrow> error_payload" where
  "declared_error c =
     \<lparr>ep_code = DeclaredCode (dec_code c), ep_message = None, ep_retryable = dec_retryable c\<rparr>"

section \<open>Types\<close>

definition JOB_TYPE :: string where
  "JOB_TYPE = ''https://trusttasks.org/spec/git-ns/bridge/job/0.7''"

definition JOB_TYPES :: "string list" where
  "JOB_TYPES = [JOB_TYPE]"

definition DISCOVERY_TYPE :: string where
  "DISCOVERY_TYPE = ''https://trusttasks.org/spec/trust-task-discovery/0.3''"

definition DISCOVERY_TYPE_V0_2 :: string where
  "DISCOVERY_TYPE_V0_2 = ''https://trusttasks.org/spec/trust-task-discovery/0.2''"

definition is_discovery_type :: "string \<Rightarrow> bool" where
  "is_discovery_type uri \<longleftrightarrow> uri = DISCOVERY_TYPE \<or> uri = DISCOVERY_TYPE_V0_2"

definition is_job_type :: "string \<Rightarrow> bool" where
  "is_job_type uri \<longleftrightarrow> uri \<in> set JOB_TYPES"

definition is_other_job_version :: "string \<Rightarrow> bool" where
  "is_other_job_version uri \<longleftrightarrow>
     \<not> is_job_type uri \<and> starts_with ''https://trusttasks.org/spec/git-ns/bridge/job/'' uri"

definition JOB_SLUG :: string where
  "JOB_SLUG = ''git-ns/bridge/job''"

definition selects :: "string \<Rightarrow> bool" where
  "selects p \<longleftrightarrow>
     p = ''*'' \<or> p = JOB_SLUG
     \<or> (case strip_suffix ''/*'' p of
          None \<Rightarrow> False
        | Some pre \<Rightarrow> starts_with (pre @ ''/'') JOB_SLUG)"

definition discovery_answer :: "string list \<Rightarrow> json" where
  "discovery_answer patterns =
     (let listed = patterns = [] \<or> list_ex selects patterns;
          types = if listed then JOB_TYPES else []
      in JObject [(''supportedTypes'', JArray (map JString types))])"

definition digits :: "string option \<Rightarrow> bool" where
  "digits p = (case p of None \<Rightarrow> False | Some p \<Rightarrow> p \<noteq> [] \<and> list_all is_ascii_digit p)"

definition version_text :: "string \<Rightarrow> bool" where
  "version_text v \<longleftrightarrow>
     (case split_on CHR ''.'' v of
        [] \<Rightarrow> False
      | major # rest \<Rightarrow>
          digits (Some major)
          \<and> digits (case rest of [] \<Rightarrow> None | minor # _ \<Rightarrow> Some minor)
          \<and> drop 1 rest = [])"

definition is_response_of :: "string \<Rightarrow> string \<Rightarrow> bool" where
  "is_response_of uri slug =
     (case strip_prefix ''https://trusttasks.org/spec/'' uri of
        None \<Rightarrow> False
      | Some rest \<Rightarrow> (case strip_prefix slug rest of
          None \<Rightarrow> False
        | Some rest \<Rightarrow> (case strip_prefix ''/'' rest of
            None \<Rightarrow> False
          | Some rest \<Rightarrow> (case strip_suffix ''#response'' rest of
              None \<Rightarrow> False
            | Some v \<Rightarrow> version_text v))))"

definition is_event_response_type :: "string \<Rightarrow> bool" where
  "is_event_response_type uri = is_response_of uri ''git-ns/bridge/event''"

definition is_result_response_type :: "string \<Rightarrow> bool" where
  "is_result_response_type uri = is_response_of uri ''git-ns/bridge/result''"

section \<open>The check of an inbound document\<close>

record doc_checker =
  ck_vtc_did :: string
  ck_bridge_did :: string
  ck_max_age_secs :: u64

definition proof_purpose :: "json \<Rightarrow> string option" where
  "proof_purpose raw =
     Option.bind (Option.bind (jget ''proof'' raw) (jget ''proofPurpose'')) as_str_json"

text \<open>
  \<open>DocChecker::check\<close>: the document, or the refusal. The proof check may change its own state
  (its cache), so it takes and returns one.
\<close>

definition check_doc ::
    "tt_lib \<Rightarrow> (json \<Rightarrow> 'c \<Rightarrow> (string + unit) \<times> 'c) \<Rightarrow> doc_checker \<Rightarrow> int \<Rightarrow> json \<Rightarrow> string option
       \<Rightarrow> 'c \<Rightarrow> (refusal + trust_task) \<times> 'c" where
  "check_doc lib verify_raw ck now raw authenticated_sender c =
     (case read_envelope lib raw of
        Inl e \<Rightarrow>
          (Inl (refusal_standard lib MalformedRequest (''not a Trust Task document: '' @ e) None), c)
      | Inr doc \<Rightarrow>
          if tt_issuer doc \<noteq> Some (ck_vtc_did ck)
          then (Inl (refusal_standard lib PermissionDenied
                  ''this bridge serves one VTC, and this document is not from it'' (Some doc)), c)
          else if (case authenticated_sender of None \<Rightarrow> False | Some s \<Rightarrow> s \<noteq> ck_vtc_did ck)
          then (Inl (refusal_standard lib IdentityMismatch
                  ''the transport-authenticated sender is not the document's issuer'' (Some doc)), c)
          else if tt_recipient doc \<noteq> Some (ck_bridge_did ck)
          then (Inl (refusal_standard lib WrongRecipient
                  ''the document is not addressed to this bridge'' (Some doc)), c)
          else (case validate_freshness lib now (ck_max_age_secs ck) doc of
            Inl payload \<Rightarrow> (Inl \<lparr>rf_payload = payload, rf_doc = Some doc\<rparr>, c)
          | Inr _ \<Rightarrow>
              if jget ''proof'' raw = None
              then (Inl (refusal_standard lib ProofRequired
                      ''a proof is required on every document from the VTC'' (Some doc)), c)
              else if proof_purpose raw \<noteq> Some ''authentication''
              then (Inl (refusal_standard lib ProofInvalid
                      ''the proof's purpose must be authentication'' (Some doc)), c)
              else (case verify_raw raw c of
                (Inl e, c) \<Rightarrow> (Inl \<lparr>rf_payload = proof_invalid lib e, rf_doc = Some doc\<rparr>, c)
              | (Inr _, c) \<Rightarrow> (Inr doc, c))))"

section \<open>The second try of a failed proof\<close>

definition RE_RESOLVE_EVERY :: int where
  "RE_RESOLVE_EVERY = 30"

record 'c re_resolving =
  rr_cache :: 'c
  rr_last :: "(string \<times> int) list"

text \<open>Whether \<open>did\<close> may be resolved again now (and note that it is).\<close>

definition may_re_resolve :: "string \<Rightarrow> int \<Rightarrow> (string \<times> int) list \<Rightarrow> bool \<times> (string \<times> int) list" where
  "may_re_resolve did now seen =
     (if (case map_of seen did of None \<Rightarrow> False | Some t \<Rightarrow> now - t < RE_RESOLVE_EVERY)
      then (False, seen)
      else
        let seen = if 1024 < length seen
                   then filter (\<lambda>(_, t). now - t < RE_RESOLVE_EVERY) seen else seen
        in (True, AList.update did now seen))"

definition verify_raw_re_resolving ::
    "(json \<Rightarrow> 'c \<Rightarrow> (string + unit) \<times> 'c) \<Rightarrow> (string \<Rightarrow> 'c \<Rightarrow> 'c) \<Rightarrow> int \<Rightarrow> json \<Rightarrow> 'c re_resolving
       \<Rightarrow> (string + unit) \<times> 'c re_resolving" where
  "verify_raw_re_resolving inner evict now doc r =
     (case inner doc (rr_cache r) of
        (Inr u, c) \<Rightarrow> (Inr u, r\<lparr>rr_cache := c\<rparr>)
      | (Inl first, c) \<Rightarrow>
          (case Option.bind (jget ''issuer'' doc) as_str_json of
             None \<Rightarrow> (Inl first, r\<lparr>rr_cache := c\<rparr>)
           | Some issuer \<Rightarrow>
               if starts_with ''did:key:'' issuer \<or> starts_with ''did:peer:'' issuer
               then (Inl first, r\<lparr>rr_cache := c\<rparr>)
               else (case may_re_resolve issuer now (rr_last r) of
                 (False, seen) \<Rightarrow> (Inl first, \<lparr>rr_cache = c, rr_last = seen\<rparr>)
               | (True, seen) \<Rightarrow>
                   (case inner doc (evict issuer c) of
                      (v, c) \<Rightarrow> (v, \<lparr>rr_cache = c, rr_last = seen\<rparr>)))))"

section \<open>Jobs\<close>

text \<open>
  The payload of a job, as its schema has it
  (\<open>vgi-bridge/trust-tasks/git-ns/bridge/job/0.7.bundle.json\<close>); parsing it is the generated
  deserialiser's.
\<close>

datatype job_kind =
    ProjectRoles | CreateRepo | BootstrapJob | ArchiveJob | InspectJob | BeginBind
  | BeginAccountLink | ClosePullRequest

fun job_kind_str :: "job_kind \<Rightarrow> string" where
  "job_kind_str ProjectRoles = ''projectRoles''"
| "job_kind_str CreateRepo = ''createRepo''"
| "job_kind_str BootstrapJob = ''bootstrap''"
| "job_kind_str ArchiveJob = ''archive''"
| "job_kind_str InspectJob = ''inspect''"
| "job_kind_str BeginBind = ''beginBind''"
| "job_kind_str BeginAccountLink = ''beginAccountLink''"
| "job_kind_str ClosePullRequest = ''closePullRequest''"

record job_account =
  ja_forge :: string
  ja_id :: string
  ja_login :: string

record desired_role =
  dr_subject :: string
  dr_account :: job_account
  dr_right :: right

datatype job_visibility = JobPublic | JobPrivate

record job_repo_spec =
  js_visibility :: job_visibility
  js_description :: "string option"

record bind_target =
  bt_forge :: string
  bt_owner :: string

record job_payload =
  jp_job_id :: string
  jp_namespace :: string
  jp_kind :: job_kind
  jp_repo :: "string option"
  jp_spec :: "job_repo_spec option"
  jp_desired_roles :: "desired_role list option"
  jp_remove_accounts :: "job_account list option"
  jp_steps :: "string list option"
  jp_target :: "bind_target option"
  jp_subject :: "string option"
  jp_number :: "u64 option"
  jp_message :: "string option"

text \<open>Whether a member may be present, and whether it must.\<close>

datatype member_rule = No | May | Must

definition allowed :: "member_rule \<Rightarrow> bool" where
  "allowed r \<longleftrightarrow> r \<noteq> No"

definition required :: "member_rule \<Rightarrow> bool" where
  "required r \<longleftrightarrow> r = Must"

text \<open>Per kind: repo, spec, desiredRoles, steps, target, subject, number, message.\<close>

fun kind_rules :: "job_kind \<Rightarrow> member_rule list" where
  "kind_rules ProjectRoles = [Must, No, Must, No, No, No, No, No]"
| "kind_rules CreateRepo = [Must, Must, May, No, No, No, No, No]"
| "kind_rules BootstrapJob = [Must, No, No, May, No, No, No, No]"
| "kind_rules ArchiveJob = [Must, No, No, No, No, No, No, No]"
| "kind_rules InspectJob = [May, No, No, No, No, No, No, No]"
| "kind_rules BeginBind = [No, No, No, No, Must, No, No, No]"
| "kind_rules BeginAccountLink = [No, No, No, No, No, Must, No, No]"
| "kind_rules ClosePullRequest = [Must, No, No, No, No, No, Must, Must]"

definition members_present :: "job_payload \<Rightarrow> bool list" where
  "members_present p =
     [jp_repo p \<noteq> None, jp_spec p \<noteq> None, jp_desired_roles p \<noteq> None, jp_steps p \<noteq> None,
      jp_target p \<noteq> None, jp_subject p \<noteq> None, jp_number p \<noteq> None, jp_message p \<noteq> None]"

definition member_names :: "string list" where
  "member_names =
     [''repo'', ''spec'', ''desiredRoles'', ''steps'', ''target'', ''subject'', ''number'',
      ''message'']"

definition has_member :: "job_kind \<Rightarrow> bool \<Rightarrow> string \<Rightarrow> member_rule \<Rightarrow> string + unit" where
  "has_member kind pres name rule =
     (if required rule \<and> \<not> pres
      then Inl (''`'' @ job_kind_str kind @ ''` requires `'' @ name @ ''`'')
      else if pres \<and> \<not> allowed rule
      then Inl (''`'' @ job_kind_str kind @ ''` does not use `'' @ name @ ''`'')
      else Inr ())"

fun check_members :: "job_kind \<Rightarrow> (bool \<times> string \<times> member_rule) list \<Rightarrow> string + unit" where
  "check_members kind [] = Inr ()"
| "check_members kind ((pres, name, rule) # rest) =
     (case has_member kind pres name rule of
        Inl e \<Rightarrow> Inl e
      | Inr _ \<Rightarrow> check_members kind rest)"

text \<open>\<open>iter().all(|x| seen.insert(key(x)))\<close> from an empty set: no key comes twice.\<close>

fun all_inserted :: "'a set \<Rightarrow> 'a list \<Rightarrow> bool" where
  "all_inserted seen [] = True"
| "all_inserted seen (x # xs) = (x \<notin> seen \<and> all_inserted (insert x seen) xs)"

definition account_key :: "job_account \<Rightarrow> string \<times> string" where
  "account_key a = (ja_forge a, ja_id a)"

definition check_remove_accounts :: "job_payload \<Rightarrow> string + unit" where
  "check_remove_accounts p =
     (case jp_remove_accounts p of
        None \<Rightarrow> Inr ()
      | Some remove \<Rightarrow>
          if jp_kind p \<noteq> ProjectRoles
          then Inl (''`'' @ job_kind_str (jp_kind p) @ ''` does not use `removeAccounts`'')
          else if remove = [] then Inl ''`removeAccounts` must name at least one account''
          else if \<not> all_inserted {} (map account_key remove)
          then Inl ''`removeAccounts` names one account twice''
          else (case find (\<lambda>r. account_key (dr_account r) \<in> set (map account_key remove)
                             \<and> dr_right r \<noteq> NsAdmin)
                       (case jp_desired_roles p of None \<Rightarrow> [] | Some rs \<Rightarrow> rs) of
            Some overlap \<Rightarrow> Inl (''account '' @ ja_id (dr_account overlap) @ '' on `''
              @ ja_forge (dr_account overlap) @ ''` is in both `desiredRoles` and `removeAccounts`'')
          | None \<Rightarrow> Inr ()))"

definition check_kind_members :: "job_payload \<Rightarrow> string + unit" where
  "check_kind_members p =
     (case check_members (jp_kind p)
             (zip (members_present p) (zip member_names (kind_rules (jp_kind p)))) of
        Inl e \<Rightarrow> Inl e
      | Inr _ \<Rightarrow>
          if (case jp_steps p of
                None \<Rightarrow> False
              | Some steps \<Rightarrow> steps = [] \<or> \<not> all_inserted {} steps)
          then Inl ''`steps` must be a non-empty list of distinct names''
          else if (case jp_desired_roles p of
                None \<Rightarrow> False
              | Some roles \<Rightarrow> \<not> all_inserted {} (map (account_key \<circ> dr_account) roles))
          then Inl ''`desiredRoles` names one account twice''
          else check_remove_accounts p)"

section \<open>Clipping\<close>

text \<open>
  The result is \<open>None\<close> where the code panics: slicing a string inside a character. Strings are
  their UTF-8 bytes.
\<close>

definition clip :: "string \<Rightarrow> nat \<Rightarrow> string option" where
  "clip s m =
     (if length s \<le> m then Some s
      else
        let n = floor_char_boundary s (m - 1);
            cut = n - 2
        in if is_char_boundary s cut then Some (take cut s @ ellipsis) else None)"

section \<open>Only the community is heard\<close>

text \<open>C37: The bridge acts only on its community's documents. A document passes the check exactly when
  its envelope reads, its issuer is the one community the bridge serves, the transport (when it
  proved a sender) agrees, it is addressed to this bridge, it is fresh, and it carries a proof for
  authentication that verifies over the document as it arrived. The proof check, and with it any
  DID resolution, is not even reached unless all of the rest holds.\<close>

theorem only_the_vtc_is_heard:
  "((\<exists>c'. check_doc lib verify_raw ck now raw sender c = (Inr doc, c')) \<longleftrightarrow>
      read_envelope lib raw = Inr doc \<and> tt_issuer doc = Some (ck_vtc_did ck)
      \<and> (sender = None \<or> sender = Some (ck_vtc_did ck))
      \<and> tt_recipient doc = Some (ck_bridge_did ck)
      \<and> validate_freshness lib now (ck_max_age_secs ck) doc = Inr ()
      \<and> proof_purpose raw = Some ''authentication''
      \<and> fst (verify_raw raw c) = Inr ())
   \<and> (snd (check_doc lib verify_raw ck now raw sender c) = c
      \<or> (\<exists>d. read_envelope lib raw = Inr d \<and> tt_issuer d = Some (ck_vtc_did ck)
            \<and> tt_recipient d = Some (ck_bridge_did ck)
            \<and> validate_freshness lib now (ck_max_age_secs ck) d = Inr ()
            \<and> proof_purpose raw = Some ''authentication''))"
proof -
  have p: "jget ''proof'' raw \<noteq> None" if "proof_purpose raw = Some ''authentication''"
    using that by (cases "jget ''proof'' raw") (auto simp: proof_purpose_def)
  show ?thesis
  proof (cases "read_envelope lib raw")
    case (Inl e)
    then show ?thesis by (simp add: check_doc_def)
  next
    case (Inr d)
    obtain v c' where v: "verify_raw raw c = (v, c')" by (cases "verify_raw raw c")
    show ?thesis
      using p by (cases v; cases sender) (auto simp: check_doc_def Inr v split: sum.split)
  qed
qed

section \<open>A failed proof is tried once more, and rarely\<close>

text \<open>
  A run of checks, each at its time; the cache is paired with the log of the evictions, so that
  the log says when each DID was fetched again.
\<close>

fun verify_run ::
    "(json \<Rightarrow> 'c \<Rightarrow> (string + unit) \<times> 'c) \<Rightarrow> (string \<Rightarrow> 'c \<Rightarrow> 'c) \<Rightarrow> (int \<times> json) list
       \<Rightarrow> ('c \<times> (string \<times> int) list) re_resolving \<Rightarrow> ('c \<times> (string \<times> int) list) re_resolving" where
  "verify_run inner evict [] r = r"
| "verify_run inner evict ((now, doc) # ds) r =
     verify_run inner evict ds
       (snd (verify_raw_re_resolving
          (\<lambda>doc (c, log). case inner doc c of (v, c) \<Rightarrow> (v, (c, log)))
          (\<lambda>did (c, log). (evict did c, log @ [(did, now)])) now doc r))"

text \<open>Entries of one DID are at least the interval apart, and none is later than \<open>now\<close>.\<close>

definition spaced :: "(string \<times> int) list \<Rightarrow> bool" where
  "spaced log \<longleftrightarrow>
     (\<forall>i j. i < j \<longrightarrow> j < length log \<longrightarrow> fst (log ! i) = fst (log ! j)
        \<longrightarrow> snd (log ! i) + RE_RESOLVE_EVERY \<le> snd (log ! j))"

definition noted_upto :: "int \<Rightarrow> (string \<times> int) list \<Rightarrow> (string \<times> int) list \<Rightarrow> bool" where
  "noted_upto now seen log \<longleftrightarrow>
     distinct (map fst seen)
     \<and> (\<forall>(did, t)\<in>set log. t \<le> now \<and> (t + RE_RESOLVE_EVERY \<le> now
          \<or> (\<exists>t'\<ge>t. map_of seen did = Some t' \<and> t' \<le> now)))"

lemma spaced_snoc:
  "spaced log \<Longrightarrow> (\<And>t. (did, t) \<in> set log \<Longrightarrow> t + RE_RESOLVE_EVERY \<le> now) \<Longrightarrow>
   spaced (log @ [(did, now)])"
  unfolding spaced_def by (auto simp: nth_append less_Suc_eq in_set_conv_nth)
    (metis prod.collapse)

lemma may_re_resolve_spaced:
  assumes inv: "noted_upto now seen log" "spaced log"
    and r: "may_re_resolve did now seen = (go, seen')"
  shows "noted_upto now seen' (if go then log @ [(did, now)] else log)
    \<and> spaced (if go then log @ [(did, now)] else log)"
proof (cases "case map_of seen did of None \<Rightarrow> False | Some t \<Rightarrow> now - t < RE_RESOLVE_EVERY")
  case True
  with r inv show ?thesis by (auto simp: may_re_resolve_def)
next
  case False
  define kept where
    "kept = (if 1024 < length seen then filter (\<lambda>(_, t). now - t < RE_RESOLVE_EVERY) seen else seen)"
  have go: "go" "seen' = AList.update did now kept"
    using r False by (simp_all add: may_re_resolve_def kept_def Let_def)
  have d: "distinct (map fst kept)"
    using inv(1) by (simp add: noted_upto_def kept_def distinct_map_filter)
  have old: "t + RE_RESOLVE_EVERY \<le> now" if "(did, t) \<in> set log" for t
  proof -
    from inv(1) that consider "t + RE_RESOLVE_EVERY \<le> now"
      | t' where "t \<le> t'" "map_of seen did = Some t'"
      by (auto simp: noted_upto_def)
    then show ?thesis using False by cases auto
  qed
  have keep: "t' + RE_RESOLVE_EVERY \<le> now \<or> map_of kept x = Some t'" if "map_of seen x = Some t'" for x t'
  proof (cases "now - t' < RE_RESOLVE_EVERY")
    case True
    with map_of_SomeD [OF that] have "(x, t') \<in> set kept" by (simp add: kept_def)
    then show ?thesis using d by (auto intro: map_of_is_SomeI)
  qed simp
  have "noted_upto now seen' (log @ [(did, now)])"
    unfolding noted_upto_def go
  proof (intro conjI ballI)
    show "distinct (map fst (AList.update did now kept))" using d by (rule distinct_update)
    fix e assume "e \<in> set (log @ [(did, now)])"
    then show "case e of (x, t) \<Rightarrow> t \<le> now \<and> (t + RE_RESOLVE_EVERY \<le> now
        \<or> (\<exists>t'\<ge>t. map_of (AList.update did now kept) x = Some t' \<and> t' \<le> now))"
    proof (cases "e \<in> set log")
      case False
      with \<open>e \<in> set (log @ [(did, now)])\<close> have "e = (did, now)" by simp
      then show ?thesis by (simp add: update_conv)
    next
      case True
      obtain x t where e: "e = (x, t)" by (cases e)
      with True inv(1) have t: "t \<le> now" "t + RE_RESOLVE_EVERY \<le> now
          \<or> (\<exists>t'\<ge>t. map_of seen x = Some t' \<and> t' \<le> now)"
        by (auto simp: noted_upto_def)
      have "t + RE_RESOLVE_EVERY \<le> now
          \<or> (\<exists>t'\<ge>t. map_of kept x = Some t' \<and> t' \<le> now)"
        using t(2) keep [of x] by force
      with t(1) show ?thesis by (auto simp: e update_conv)
    qed
  qed
  with go spaced_snoc [OF inv(2)] old show ?thesis by simp
qed

lemma noted_upto_mono: "noted_upto now seen log \<Longrightarrow> now \<le> later \<Longrightarrow> noted_upto later seen log"
  unfolding noted_upto_def by fastforce

text \<open>A failing proof cannot make the bridge hammer a DID's host. Over any run of checks at
  non-decreasing times, from a bridge that has resolved nothing yet, two fresh resolutions of one
  DID are at least 30 seconds apart, however many bad documents name it.\<close>

theorem re_resolution_is_rate_limited:
  assumes "sorted (map fst checks)"
  shows "spaced (snd (rr_cache (verify_run inner evict checks \<lparr>rr_cache = (c, []), rr_last = []\<rparr>)))"
proof -
  have "spaced (snd (rr_cache (verify_run inner evict checks r)))"
    if "noted_upto now (rr_last r) (snd (rr_cache r))" "spaced (snd (rr_cache r))"
      "sorted (now # map fst checks)" for now r
    using that
  proof (induction checks arbitrary: now r)
    case Nil
    then show ?case by simp
  next
    case (Cons d checks)
    obtain t doc where d: "d = (t, doc)" by (cases d)
    obtain c log where c: "rr_cache r = (c, log)" by (cases "rr_cache r")
    let ?inner = "\<lambda>doc (c, log). case inner doc c of (v, c) \<Rightarrow> (v, (c, log))"
    let ?evict = "\<lambda>did (c, log). (evict did c, log @ [(did, t)])"
    let ?r = "snd (verify_raw_re_resolving ?inner ?evict t doc r)"
    have inv: "noted_upto t (rr_last r) log" "spaced log"
      using Cons.prems noted_upto_mono by (fastforce simp: c d)+
    obtain v c1 where v: "inner doc c = (v, c1)" by (cases "inner doc c")
    have "noted_upto t (rr_last ?r) (snd (rr_cache ?r)) \<and> spaced (snd (rr_cache ?r))"
    proof (cases v)
      case (Inr u)
      then show ?thesis using inv v by (simp add: verify_raw_re_resolving_def c)
    next
      case (Inl e)
      show ?thesis
      proof (cases "\<exists>issuer. Option.bind (jget ''issuer'' doc) as_str_json = Some issuer
          \<and> \<not> starts_with ''did:key:'' issuer \<and> \<not> starts_with ''did:peer:'' issuer")
        case False
        then show ?thesis using inv v Inl
          by (auto simp: verify_raw_re_resolving_def c split: option.split)
      next
        case True
        then obtain issuer where i: "Option.bind (jget ''issuer'' doc) as_str_json = Some issuer"
          "\<not> starts_with ''did:key:'' issuer" "\<not> starts_with ''did:peer:'' issuer" by blast
        obtain go seen where g: "may_re_resolve issuer t (rr_last r) = (go, seen)"
          by (cases "may_re_resolve issuer t (rr_last r)")
        show ?thesis using may_re_resolve_spaced [OF inv g] v Inl i g
          by (cases go) (auto simp: verify_raw_re_resolving_def c split: prod.split)
      qed
    qed
    then show ?case using Cons.IH [of t ?r] Cons.prems(3) by (simp add: d)
  qed
  from this [of "case checks of [] \<Rightarrow> 0 | x # _ \<Rightarrow> fst x" "\<lparr>rr_cache = (c, []), rr_last = []\<rparr>"] assms
  show ?thesis by (cases checks) (auto simp: noted_upto_def spaced_def)
qed

lemma re_resolution_is_rate_limited_witness:
  "spaced (snd (rr_cache (verify_run (\<lambda>_ c. (Inl ''bad'', c)) (\<lambda>_ c. c)
     [(0, JObject [(''issuer'', JString ''did:web:x'')]), (5, JObject [(''issuer'', JString ''did:web:x'')])]
     \<lparr>rr_cache = ((), []), rr_last = []\<rparr>)))
   \<and> snd (rr_cache (verify_run (\<lambda>_ c. (Inl ''bad'', c)) (\<lambda>_ c. c)
     [(0, JObject [(''issuer'', JString ''did:web:x'')]), (5, JObject [(''issuer'', JString ''did:web:x'')])]
     \<lparr>rr_cache = ((), []), rr_last = []\<rparr>)) = [(''did:web:x'', 0)]"
proof
  show "spaced (snd (rr_cache (verify_run (\<lambda>_ c. (Inl ''bad'', c)) (\<lambda>_ c. c)
     [(0, JObject [(''issuer'', JString ''did:web:x'')]), (5, JObject [(''issuer'', JString ''did:web:x'')])]
     \<lparr>rr_cache = ((), []), rr_last = []\<rparr>)))"
    by (rule re_resolution_is_rate_limited) simp
qed (simp add: verify_raw_re_resolving_def may_re_resolve_def starts_with_def RE_RESOLVE_EVERY_def)

section \<open>The members of a job\<close>

lemma all_inserted_iff: "all_inserted seen xs \<longleftrightarrow> distinct xs \<and> set xs \<inter> seen = {}"
  by (induction xs arbitrary: seen) auto

definition remove_accounts_ok :: "job_payload \<Rightarrow> bool" where
  "remove_accounts_ok p \<longleftrightarrow>
     (\<forall>remove. jp_remove_accounts p = Some remove \<longrightarrow>
        jp_kind p = ProjectRoles \<and> remove \<noteq> [] \<and> distinct (map account_key remove)
        \<and> (\<forall>r\<in>set (case jp_desired_roles p of None \<Rightarrow> [] | Some rs \<Rightarrow> rs).
             account_key (dr_account r) \<in> account_key ` set remove \<longrightarrow> dr_right r = NsAdmin))"

lemma check_remove_accounts_iff: "check_remove_accounts p = Inr () \<longleftrightarrow> remove_accounts_ok p"
  by (auto simp: check_remove_accounts_def remove_accounts_ok_def all_inserted_iff find_None_iff
      dest!: find_SomeD split: option.splits if_splits)

text \<open>What the specification asks of a job, kind by kind.\<close>

definition needs_repo :: "job_kind \<Rightarrow> bool" where
  "needs_repo k \<longleftrightarrow> k \<in> {ProjectRoles, CreateRepo, BootstrapJob, ArchiveJob, ClosePullRequest}"

definition well_formed_job :: "job_payload \<Rightarrow> bool" where
  "well_formed_job p \<longleftrightarrow>
     (needs_repo (jp_kind p) \<longrightarrow> jp_repo p \<noteq> None)
     \<and> (jp_repo p \<noteq> None \<longrightarrow> needs_repo (jp_kind p) \<or> jp_kind p = InspectJob)
     \<and> (jp_spec p \<noteq> None \<longleftrightarrow> jp_kind p = CreateRepo)
     \<and> (jp_kind p = ProjectRoles \<longrightarrow> jp_desired_roles p \<noteq> None)
     \<and> (jp_desired_roles p \<noteq> None \<longrightarrow> jp_kind p \<in> {ProjectRoles, CreateRepo})
     \<and> (\<forall>roles. jp_desired_roles p = Some roles \<longrightarrow> distinct (map (account_key \<circ> dr_account) roles))
     \<and> (\<forall>steps. jp_steps p = Some steps \<longrightarrow>
           jp_kind p = BootstrapJob \<and> steps \<noteq> [] \<and> distinct steps)
     \<and> (jp_target p \<noteq> None \<longleftrightarrow> jp_kind p = BeginBind)
     \<and> (jp_subject p \<noteq> None \<longleftrightarrow> jp_kind p = BeginAccountLink)
     \<and> (jp_number p \<noteq> None \<longleftrightarrow> jp_kind p = ClosePullRequest)
     \<and> (jp_message p \<noteq> None \<longleftrightarrow> jp_kind p = ClosePullRequest)
     \<and> remove_accounts_ok p"

lemma check_members_Inr:
  "check_members k xs = Inr () \<longleftrightarrow>
     (\<forall>(pres, name, rule)\<in>set xs. (required rule \<longrightarrow> pres) \<and> (pres \<longrightarrow> allowed rule))"
  by (induction k xs rule: check_members.induct) (auto simp: has_member_def split: sum.split)

text \<open>A job is taken exactly when it carries the members its kind uses. The table of members,
  the distinctness of steps and accounts, and the rule on removals together accept exactly the
  jobs the specification describes: nobody is both projected and removed (other than at the
  namespace-admin right, which projects to no role), and no account is named twice.\<close>

theorem job_members_are_checked: "check_kind_members p = Inr () \<longleftrightarrow> well_formed_job p"
proof -
  have s: "(case jp_steps p of None \<Rightarrow> False | Some steps \<Rightarrow> steps = [] \<or> \<not> all_inserted {} steps)
      \<longleftrightarrow> \<not> (\<forall>steps. jp_steps p = Some steps \<longrightarrow> steps \<noteq> [] \<and> distinct steps)"
    by (auto simp: all_inserted_iff split: option.split)
  have r: "(case jp_desired_roles p of None \<Rightarrow> False
      | Some roles \<Rightarrow> \<not> all_inserted {} (map (account_key \<circ> dr_account) roles))
      \<longleftrightarrow> \<not> (\<forall>roles. jp_desired_roles p = Some roles \<longrightarrow> distinct (map (account_key \<circ> dr_account) roles))"
    by (auto simp: all_inserted_iff split: option.split)
  have m: "check_members (jp_kind p) (zip (members_present p) (zip member_names (kind_rules (jp_kind p))))
        = Inr () \<longleftrightarrow>
      (needs_repo (jp_kind p) \<longrightarrow> jp_repo p \<noteq> None)
      \<and> (jp_repo p \<noteq> None \<longrightarrow> needs_repo (jp_kind p) \<or> jp_kind p = InspectJob)
      \<and> (jp_spec p \<noteq> None \<longleftrightarrow> jp_kind p = CreateRepo)
      \<and> (jp_kind p = ProjectRoles \<longrightarrow> jp_desired_roles p \<noteq> None)
      \<and> (jp_desired_roles p \<noteq> None \<longrightarrow> jp_kind p \<in> {ProjectRoles, CreateRepo})
      \<and> (jp_steps p \<noteq> None \<longrightarrow> jp_kind p = BootstrapJob)
      \<and> (jp_target p \<noteq> None \<longleftrightarrow> jp_kind p = BeginBind)
      \<and> (jp_subject p \<noteq> None \<longleftrightarrow> jp_kind p = BeginAccountLink)
      \<and> (jp_number p \<noteq> None \<longleftrightarrow> jp_kind p = ClosePullRequest)
      \<and> (jp_message p \<noteq> None \<longleftrightarrow> jp_kind p = ClosePullRequest)"
    unfolding check_members_Inr
    by (cases "jp_kind p")
      (simp_all add: members_present_def member_names_def required_def allowed_def needs_repo_def)
  have unfold: "check_kind_members p = Inr () \<longleftrightarrow>
      check_members (jp_kind p) (zip (members_present p) (zip member_names (kind_rules (jp_kind p))))
        = Inr ()
      \<and> (\<forall>steps. jp_steps p = Some steps \<longrightarrow> steps \<noteq> [] \<and> distinct steps)
      \<and> (\<forall>roles. jp_desired_roles p = Some roles \<longrightarrow> distinct (map (account_key \<circ> dr_account) roles))
      \<and> check_remove_accounts p = Inr ()"
    unfolding check_kind_members_def s r by (auto split: sum.split)
  have st: "(\<forall>steps. jp_steps p = Some steps \<longrightarrow> jp_kind p = BootstrapJob \<and> steps \<noteq> [] \<and> distinct steps)
      \<longleftrightarrow> (jp_steps p \<noteq> None \<longrightarrow> jp_kind p = BootstrapJob)
         \<and> (\<forall>steps. jp_steps p = Some steps \<longrightarrow> steps \<noteq> [] \<and> distinct steps)"
    by (cases "jp_steps p") auto
  show ?thesis
    unfolding unfold m check_remove_accounts_iff well_formed_job_def st by (simp only: conj_ac)
qed

section \<open>Clipped text fits\<close>

lemma cont_not_boundary: "i < length s \<Longrightarrow> cont (s ! i) \<Longrightarrow> 0 < i \<Longrightarrow> \<not> is_char_boundary s i"
  by (simp add: is_char_boundary_def)

lemma boundary_Cons: "is_char_boundary s k \<Longrightarrow> k \<noteq> 0 \<Longrightarrow> is_char_boundary (a # s) (Suc k)"
  by (auto simp: is_char_boundary_def)

lemma second_cont: "second_of_three a b \<Longrightarrow> cont b" "second_of_four a b \<Longrightarrow> cont b"
  by (auto simp: second_of_three_def second_of_four_def cont_def in_range_def split: if_splits)

lemma utf8_valid_take:
  "utf8_valid s \<Longrightarrow> is_char_boundary s k \<Longrightarrow> utf8_valid (take k s)"
proof (induction s arbitrary: k rule: utf8_valid.induct)
  case 1
  then show ?case by simp
next
  case (2 a s)
  have tail: "is_char_boundary t (k - n)"
    if "a # s = pre @ t" "length pre = n" "n \<le> k" "utf8_valid t" for pre t n
    using 2(6) that by (auto simp: is_char_boundary_def nth_append)
  show ?case
  proof (cases "k = 0")
    case False
    then obtain j where k: "k = Suc j" by (cases k) auto
    consider "is_ascii_char a" | "\<not> is_ascii_char a" "in_range 194 223 a"
      | "\<not> is_ascii_char a" "\<not> in_range 194 223 a" "in_range 224 239 a"
      | "\<not> is_ascii_char a" "\<not> in_range 194 223 a" "\<not> in_range 224 239 a" "in_range 240 244 a"
      using 2(5) by (auto split: if_splits)
    then show ?thesis
    proof cases
      case 1
      with 2 tail [of "[a]" s 1] k show ?thesis by simp
    next
      case 2
      then obtain b s2 where s: "s = b # s2" "cont b" "utf8_valid s2"
        using \<open>utf8_valid (a # s)\<close> by (auto split: list.splits)
      then have "j \<noteq> 0" using \<open>is_char_boundary (a # s) k\<close> k by (cases j) (auto simp: is_char_boundary_def)
      then obtain i where "j = Suc i" by (cases j) auto
      with 2 s k "2.IH"(2) [of b s2 i] tail [of "[a, b]" s2 2] show ?thesis by simp
    next
      case 3
      then obtain b c s3 where s: "s = b # c # s3" "second_of_three a b" "cont c" "utf8_valid s3"
        using \<open>utf8_valid (a # s)\<close> by (auto split: list.splits)
      have "j \<noteq> 0" "j \<noteq> 1"
        using \<open>is_char_boundary (a # s) k\<close> k s second_cont(1) [OF s(2)]
        by (auto simp: is_char_boundary_def nth_Cons split: nat.splits)
      then obtain i where "j = Suc (Suc i)" by (metis One_nat_def old.nat.exhaust)
      with 3 s k "2.IH"(3) [of b "c # s3" c s3 i] tail [of "[a, b, c]" s3 3] show ?thesis by simp
    next
      case 4
      then obtain b c d s4 where s: "s = b # c # d # s4" "second_of_four a b" "cont c" "cont d"
        "utf8_valid s4"
        using \<open>utf8_valid (a # s)\<close> by (auto split: list.splits)
      have "j \<noteq> 0" "j \<noteq> 1" "j \<noteq> 2"
        using \<open>is_char_boundary (a # s) k\<close> k s second_cont(2) [OF s(2)]
        by (auto simp: is_char_boundary_def nth_Cons split: nat.splits)
      then obtain i where "j = Suc (Suc (Suc i))"
        by (metis One_nat_def Suc_1 old.nat.exhaust)
      with 4 s k "2.IH"(4) [of b "c # d # s4" c "d # s4" d s4 i] tail [of "[a, b, c, d]" s4 4]
      show ?thesis by simp
    qed
  qed simp
qed

lemma floor_char_boundary_le: "floor_char_boundary s n \<le> n"
  by (induction s n rule: floor_char_boundary.induct) auto

lemma is_char_boundary_0 [simp]: "is_char_boundary s 0"
  by (simp add: is_char_boundary_def)

lemma ascii_boundary: "is_ascii s \<Longrightarrow> n \<le> length s \<Longrightarrow> is_char_boundary s n"
  unfolding is_char_boundary_def is_ascii_def list_all_length is_ascii_char_def cont_def in_range_def
  by (metis le_neq_implies_less not_le)

text \<open>Text clipped for the wire fits its bound and stays text. When clipping returns, the result
  is the text itself or a prefix of it with an ellipsis, at most \<open>m\<close> bytes long, and valid UTF-8
  whenever the text is; and it returns for every ASCII text. It does not return for every text: see
  \<open>clip_panics\<close>.\<close>

theorem clip_fits:
  assumes "3 \<le> m" "utf8_valid s" "clip s m = Some t"
  shows "length t \<le> m \<and> utf8_valid t \<and> (length s \<le> m \<longrightarrow> t = s)
    \<and> (t = s \<or> (\<exists>k. t = take k s @ ellipsis)) \<and> (\<forall>a. is_ascii a \<longrightarrow> clip a m \<noteq> None)"
proof -
  have e: "utf8_valid (xs @ ellipsis)" if "utf8_valid xs" for xs
    using that
    by (induction xs rule: utf8_valid.induct)
      (auto simp: ellipsis_def is_ascii_char_def in_range_def byte_of_def second_of_three_def cont_def
        split: if_splits list.splits)
  have le: "floor_char_boundary x (m - 1) - 2 \<le> m - 3" for x
    using floor_char_boundary_le [of x "m - 1"] by simp
  have ascii: "clip a m \<noteq> None" if "is_ascii a" for a
    using ascii_boundary [OF that, of "floor_char_boundary a (m - 1) - 2"] le [of a]
    by (auto simp: clip_def Let_def)
  show ?thesis
  proof (cases "length s \<le> m")
    case True
    with assms ascii show ?thesis by (simp add: clip_def)
  next
    case False
    let ?cut = "floor_char_boundary s (m - 1) - 2"
    have t: "is_char_boundary s ?cut" "t = take ?cut s @ ellipsis"
      using assms(3) False by (auto simp: clip_def Let_def split: if_splits)
    have "length t \<le> m"
      using le [of s] assms(1) by (simp add: t(2) ellipsis_def)
    with t e [OF utf8_valid_take [OF assms(2) t(1)]] False ascii show ?thesis by blast
  qed
qed

lemma clip_fits_witness:
  "clip ''abcdefgh'' 6 = Some (''abc'' @ ellipsis) \<and> length (''abc'' @ ellipsis) \<le> (6 :: nat)"
proof -
  have c: "clip ''abcdefgh'' 6 = Some (''abc'' @ ellipsis)" by code_simp
  have u: "utf8_valid ''abcdefgh''" by code_simp
  from clip_fits [OF _ u c] c show ?thesis by simp
qed

text \<open>Clipping can panic. The cut is moved two bytes back from a character boundary to make room
  for the ellipsis, and two bytes back from a boundary may be inside a character: a message of a
  few three-byte characters, one byte too long, makes the slice panic.\<close>

theorem clip_panics:
  "clip (concat (replicate 4 [CHR 0xE2, CHR 0x82, CHR 0xAC])) 10 = None
   \<and> utf8_valid (concat (replicate 4 [CHR 0xE2, CHR 0x82, CHR 0xAC]))"
  by code_simp

end
