(* ===== verification/Bridge_Mapping.thy ===== *)
theory Bridge_Mapping
  imports Bridge_Wire Forge_Drift Bootstrap "HOL-Library.Monad_Syntax"
begin

text \<open>
  Between the adapters' types and the wire (\<open>vgi-bridge/src/mapping.rs\<close>): the report of a job as it
  accumulates and the result made of it, the wire form of drift, and the rule that an event never
  names a repository outside its namespace. Text is clipped with \<open>clip\<close>, whose panic makes the
  result \<open>None\<close>. Whether a value fits the schema is the generated deserialiser's answer, an argument.
\<close>

definition DETAIL_MAX :: nat where
  "DETAIL_MAX = 1024"

definition DRIFT_TEXT_MAX :: nat where
  "DRIFT_TEXT_MAX = 256"

definition wire_right :: "right \<Rightarrow> right option" where
  "wire_right r = from_action (right_action r)"

definition wire_visibility :: "job_visibility \<Rightarrow> visibility" where
  "wire_visibility v = (case v of JobPrivate \<Rightarrow> Private | _ \<Rightarrow> Public)"

definition parse_u64 :: "string \<Rightarrow> u64 option" where
  "parse_u64 s = map_option of_nat (parse_uint 64 s)"

definition account_of :: "job_account \<Rightarrow> string + forge_account" where
  "account_of a =
     (case parse_u64 (ja_id a) of
        None \<Rightarrow> Inl (''forge account id `'' @ ja_id a @ ''` is not numeric'')
      | Some i \<Rightarrow> Inr \<lparr>acc_id = i, acc_login = ja_login a\<rparr>)"

definition wire_account :: "string \<Rightarrow> forge_account \<Rightarrow> json option" where
  "wire_account h a = do {
     login \<leftarrow> clip (acc_login a) 100;
     Some (JObject [(''forge'', JString h), (''id'', JString (show_word (acc_id a))),
                    (''login'', JString login)])
   }"

section \<open>The report of a job\<close>

datatype step_status = StApplied | StUnchanged | StFailed | StSkipped

fun step_status_str :: "step_status \<Rightarrow> string" where
  "step_status_str StApplied = ''applied''"
| "step_status_str StUnchanged = ''unchanged''"
| "step_status_str StFailed = ''failed''"
| "step_status_str StSkipped = ''skipped''"

definition step_status_of :: "step_outcome \<Rightarrow> step_status" where
  "step_status_of out = (case out of Unchanged \<Rightarrow> StUnchanged | _ \<Rightarrow> StApplied)"

fun step_rank :: "step_status \<Rightarrow> nat" where
  "step_rank StUnchanged = 0"
| "step_rank StApplied = 1"
| "step_rank StSkipped = 2"
| "step_rank StFailed = 3"

text \<open>The loop of \<open>camel\<close>: what was put out, and whether the next letter goes upper.\<close>

fun camel_from :: "string \<Rightarrow> bool \<Rightarrow> string \<Rightarrow> string" where
  "camel_from out upper [] = out"
| "camel_from out upper (c # cs) =
     (if is_ascii_alnum c then
        (if out = [] then camel_from (if is_ascii_alpha c then [to_lower c] else []) False cs
         else camel_from (out @ [if upper then to_upper c else c]) False cs)
      else camel_from out True cs)"

definition camel :: "string \<Rightarrow> string" where
  "camel s = (let out = camel_from [] False s in if out = [] then ''step'' else out)"

definition step_name :: "string \<Rightarrow> bootstrap_component \<Rightarrow> string" where
  "step_name i component =
     (case component of
        Workflow \<Rightarrow> ''workflow''
      | Keyring \<Rightarrow> ''keyring''
      | Variables \<Rightarrow> ''variables''
      | RequiredCheck \<Rightarrow> ''requiredCheck''
      | _ \<Rightarrow> camel (hd (split_on CHR '':'' i)))"

record report =
  rp_steps :: "(string \<times> step_status \<times> string option) list"
  rp_repo :: "(resource \<times> u64) option"
  rp_error :: "(string \<times> string) option"

definition report_default :: report where
  "report_default = \<lparr>rp_steps = [], rp_repo = None, rp_error = None\<rparr>"

fun merge_step ::
    "string \<Rightarrow> step_status \<Rightarrow> string option \<Rightarrow> (string \<times> step_status \<times> string option) list
       \<Rightarrow> (string \<times> step_status \<times> string option) list" where
  "merge_step name st detail [] = [(name, st, detail)]"
| "merge_step name st detail ((n, s, d) # rest) =
     (if n = name
      then (if step_rank st > step_rank s then (n, st, detail) else (n, s, d)) # rest
      else (n, s, d) # merge_step name st detail rest)"

definition report_step :: "string \<Rightarrow> step_status \<Rightarrow> string option \<Rightarrow> report \<Rightarrow> report" where
  "report_step name st detail r = r\<lparr>rp_steps := merge_step name st detail (rp_steps r)\<rparr>"

definition err_code :: "forge_error \<Rightarrow> string" where
  "err_code e =
     (case e of
        AlreadyExists _ _ \<Rightarrow> ''nameTaken''
      | NotFound _ \<Rightarrow> ''notFound''
      | Moved _ _ \<Rightarrow> ''notFound''
      | Forbidden _ \<Rightarrow> ''forbidden''
      | Unauthorized _ \<Rightarrow> ''forbidden''
      | Unsupported _ _ \<Rightarrow> ''notCapable''
      | NotBound _ \<Rightarrow> ''notCapable''
      | RateLimited _ \<Rightarrow> ''rateLimited''
      | _ \<Rightarrow> ''forgeError'')"

definition fail_with :: "string \<Rightarrow> string \<Rightarrow> report \<Rightarrow> report" where
  "fail_with code message r =
     (if rp_error r = None then r\<lparr>rp_error := Some (code, message)\<rparr> else r)"

definition report_fail :: "forge_error \<Rightarrow> report \<Rightarrow> report" where
  "report_fail e r =
     (if rp_error r = None then r\<lparr>rp_error := Some (err_code e, forge_error_display e)\<rparr> else r)"

definition outcome :: "report \<Rightarrow> string" where
  "outcome r =
     (let failed = rp_error r \<noteq> None \<or> list_ex (\<lambda>(_, s, _). s = StFailed) (rp_steps r);
          any_done = list_ex (\<lambda>(_, s, _). s = StApplied \<or> s = StUnchanged) (rp_steps r)
      in if \<not> failed then ''succeeded'' else if any_done then ''partial'' else ''failed'')"

definition step_json :: "string \<times> step_status \<times> string option \<Rightarrow> json option" where
  "step_json x =
     (case x of (name, st, detail) \<Rightarrow>
        (case detail of
           None \<Rightarrow> Some (JObject [(''step'', JString name), (''outcome'', JString (step_status_str st))])
         | Some d \<Rightarrow> do {
             d \<leftarrow> clip d DETAIL_MAX;
             Some (JObject [(''step'', JString name), (''outcome'', JString (step_status_str st)),
                            (''detail'', JString d)])
           }))"

text \<open>The JSON of the result; the outer option is the panic of \<open>clip\<close>.\<close>

definition result_json :: "string \<Rightarrow> report \<Rightarrow> json option" where
  "result_json job_id r = do {
     steps \<leftarrow> those (map step_json (rp_steps r));
     err \<leftarrow> (if outcome r \<noteq> ''succeeded''
       then (let (code, message) = (case rp_error r of
               None \<Rightarrow> (''forgeError'', ''a step failed; see steps'') | Some e \<Rightarrow> e)
             in do {
               message \<leftarrow> clip message DETAIL_MAX;
               Some [(''error'', JObject [(''code'', JString code), (''message'', JString message)])]
             })
       else Some []);
     Some (JObject ([(''jobId'', JString job_id), (''outcome'', JString (outcome r))]
       @ (case rp_repo r of
            None \<Rightarrow> []
          | Some (res, i) \<Rightarrow> [(''repo'', JObject [(''resource'', JString (as_str res)),
                                            (''forgeId'', JString (show_word i))])])
       @ (if rp_steps r = [] then [] else [(''steps'', JArray steps)])
       @ err))
   }"

definition to_result :: "(json \<Rightarrow> bool) \<Rightarrow> string \<Rightarrow> report \<Rightarrow> (string + json) option" where
  "to_result fits job_id r = do {
     v \<leftarrow> result_json job_id r;
     Some (if fits v then Inr v else Inl ''building the job result'')
   }"

section \<open>Drift on the wire\<close>

definition check_enforced :: "protection_gap list \<Rightarrow> bool" where
  "check_enforced gaps \<longleftrightarrow>
     \<not> list_ex (\<lambda>g. \<not> (case g of
          ForcePushAllowed \<Rightarrow> True | DeletionAllowed \<Rightarrow> True | ApprovalsBelow _ _ \<Rightarrow> True
        | _ \<Rightarrow> False)) gaps"

fun merge_method_debug :: "merge_method \<Rightarrow> string" where
  "merge_method_debug FastForward = ''FastForward''"
| "merge_method_debug MergeCommit = ''MergeCommit''"
| "merge_method_debug Rebase = ''Rebase''"
| "merge_method_debug RebaseMerge = ''RebaseMerge''"
| "merge_method_debug Squash = ''Squash''"

definition gap_text :: "protection_gap \<Rightarrow> string" where
  "gap_text g =
     (case g of
        NotEnforced \<Rightarrow> ''rule not enforced''
      | DefaultBranchNotCovered \<Rightarrow> ''default branch not covered''
      | PullRequestNotRequired \<Rightarrow> ''pull requests not required''
      | ForcePushAllowed \<Rightarrow> ''force-push allowed''
      | DeletionAllowed \<Rightarrow> ''deletion allowed''
      | BypassActors actors \<Rightarrow> ''bypass actors: '' @ join '', '' actors
      | UnprotectedPaths paths \<Rightarrow> ''unprotected paths: '' @ join '', '' paths
      | MergeMethodAllowed m \<Rightarrow> ''merge method allowed: '' @ merge_method_debug m
      | CiDisabled \<Rightarrow> ''CI disabled''
      | ApprovalsBelow req obs \<Rightarrow> ''approving reviews required: '' @ show_word obs
          @ '' (the community requires '' @ show_word req @ '')''
      | CheckSourceUnprotected d \<Rightarrow> ''check source unprotected: '' @ d
      | Missing \<Rightarrow> ''Missing''
      | CheckNotRequired c \<Rightarrow> ''CheckNotRequired { check: '' @ show_debug c @ '' }'')"

definition is_check_gap :: "protection_gap \<Rightarrow> bool" where
  "is_check_gap g \<longleftrightarrow> (case g of CheckNotRequired _ \<Rightarrow> True | Missing \<Rightarrow> True | _ \<Rightarrow> False)"

definition missing_check :: "protection_gap list \<Rightarrow> string option" where
  "missing_check gaps = find_map (\<lambda>g. case g of
     CheckNotRequired check \<Rightarrow> Some check | Missing \<Rightarrow> Some [] | _ \<Rightarrow> None) gaps"

definition drift_item :: "resource \<Rightarrow> string \<Rightarrow> (string \<times> json) list \<Rightarrow> json" where
  "drift_item res ty members =
     JObject ([(''type'', JString ty), (''resource'', JString (as_str res))] @ members)"

definition drift_text :: "string \<Rightarrow> json option" where
  "drift_text s = map_option JString (clip s DRIFT_TEXT_MAX)"

definition weakened_items :: "resource \<Rightarrow> protection_gap list \<Rightarrow> json list option" where
  "weakened_items res gaps = do {
     first \<leftarrow> (case missing_check gaps of
         None \<Rightarrow> Some []
       | Some check \<Rightarrow>
           (let name = if check = [] then ''the verify-trust check'' else check in do {
              observed \<leftarrow> drift_text (name @ '': not required'');
              expected \<leftarrow> drift_text (name @ '': required'');
              Some [drift_item res ''requiredCheckMissing''
                      [(''observed'', observed), (''expected'', expected)]]
            }));
     second \<leftarrow> (let rest = map gap_text (filter (\<lambda>g. \<not> is_check_gap g) gaps) in
       if rest = [] then Some []
       else do {
         observed \<leftarrow> drift_text (join ''; '' rest);
         expected \<leftarrow> drift_text ''no bypass, PR required, no force-push'';
         Some [drift_item res ''protectionWeakened'' [(''observed'', observed), (''expected'', expected)]]
       });
     Some (first @ second)
   }"

definition items_of :: "string \<Rightarrow> resource \<Rightarrow> drift \<Rightarrow> json list option" where
  "items_of h res d =
     (case d of
        UnexpectedRole account obs \<Rightarrow> do {
          a \<leftarrow> wire_account h account;
          t \<leftarrow> drift_text (role_display obs);
          Some [drift_item res ''roleAdded'' [(''account'', a), (''observed'', t)]]
        }
      | MissingRole account ex \<Rightarrow> do {
          a \<leftarrow> wire_account h account;
          t \<leftarrow> drift_text (role_display ex);
          Some [drift_item res ''roleRemoved'' [(''account'', a), (''expected'', t)]]
        }
      | RoleMismatch account ex obs \<Rightarrow> do {
          a \<leftarrow> wire_account h account;
          e \<leftarrow> drift_text (role_display ex);
          t \<leftarrow> drift_text (role_display obs);
          Some [drift_item res ''roleChanged''
                  [(''account'', a), (''expected'', e), (''observed'', t)]]
        }
      | ProtectionWeakened gaps \<Rightarrow> weakened_items res gaps
      | ReplanNeeded reason \<Rightarrow> do {
          t \<leftarrow> drift_text reason;
          Some [drift_item res ''bootstrapMissing'' [(''observed'', t)]]
        }
      | _ \<Rightarrow> Some [])"

definition drift_items :: "string \<Rightarrow> resource \<Rightarrow> drift list \<Rightarrow> json list option" where
  "drift_items h res drift = map_option concat (those (map (items_of h res) drift))"

section \<open>Events\<close>

definition event_payload ::
    "(json \<Rightarrow> bool) \<Rightarrow> string \<Rightarrow> json \<Rightarrow> json list option \<Rightarrow> string + json" where
  "event_payload fits ns event drift =
     (let v = JObject ([(''namespace'', JString ns), (''event'', event)]
        @ (case drift of None \<Rightarrow> [] | Some d \<Rightarrow> if d = [] then [] else [(''drift'', JArray d)]))
      in if fits v then Inr v else Inl ''building the event'')"

definition event_type :: "json \<Rightarrow> string option" where
  "event_type event = Option.bind (jget ''type'' event) as_str_json"

text \<open>The members that name a repository and must lie in the namespace.\<close>

definition named_members :: "json \<Rightarrow> json list \<Rightarrow> json option list" where
  "named_members event drift =
     [jget ''resource'' event, jget ''from'' event]
     @ (if event_type event = Some ''repoRenamed'' then [jget ''to'' event] else [])
     @ (if event_type event = Some ''roleMapReported''
        then map (jget ''resource'') (elements (jget ''repos'' event))
           @ map Some (elements (jget ''stale'' event))
        else [])
     @ map (jget ''resource'') drift"

definition json_text :: "json \<Rightarrow> string" where
  "json_text v = (case as_str_json v of None \<Rightarrow> [] | Some s \<Rightarrow> s)"

definition lies_in :: "resource option \<Rightarrow> string \<Rightarrow> bool" where
  "lies_in ns s \<longleftrightarrow>
     (case resource_parse s of
        Inl _ \<Rightarrow> False
      | Inr r \<Rightarrow> (case ns of None \<Rightarrow> False | Some n \<Rightarrow> contains_resource n r))"

definition outside_namespace :: "resource option \<Rightarrow> json \<Rightarrow> json list \<Rightarrow> string option" where
  "outside_namespace ns event drift =
     find_map (\<lambda>v. if lies_in ns (json_text v) then None else Some (json_text v))
       (List.map_filter id (named_members event drift))"

section \<open>A report never hides a failure\<close>

text \<open>The calls on a report, as a list.\<close>

datatype report_call =
    CallStep string step_status "string option"
  | CallFail forge_error
  | CallFailWith string string

fun do_call :: "report_call \<Rightarrow> report \<Rightarrow> report" where
  "do_call (CallStep name st detail) = report_step name st detail"
| "do_call (CallFail e) = report_fail e"
| "do_call (CallFailWith code m) = fail_with code m"

definition statuses :: "report_call list \<Rightarrow> string \<Rightarrow> step_status set" where
  "statuses calls name = {st. \<exists>d. CallStep name st d \<in> set calls}"

definition after_calls :: "report_call list \<Rightarrow> report" where
  "after_calls calls = foldl (\<lambda>r c. do_call c r) report_default calls"

lemma after_calls_simps [simp]:
  "after_calls [] = report_default"
  "after_calls (calls @ [c]) = do_call c (after_calls calls)"
  by (simp_all add: after_calls_def)

lemma map_of_merge_step:
  "map_of (merge_step name st detail steps) n =
     (if n = name
      then Some (case map_of steps name of
          None \<Rightarrow> (st, detail)
        | Some (s, d) \<Rightarrow> if step_rank st > step_rank s then (st, detail) else (s, d))
      else map_of steps n)"
  by (induction name st detail steps rule: merge_step.induct) (auto split: option.split)

lemma names_merge_step:
  "map fst (merge_step name st detail steps) =
     (if name \<in> fst ` set steps then map fst steps else map fst steps @ [name])"
  by (induction name st detail steps rule: merge_step.induct) auto

lemma statuses_snoc [simp]:
  "statuses [] n = {}"
  "statuses (calls @ [CallStep name st d]) n =
     (if n = name then insert st (statuses calls n) else statuses calls n)"
  "statuses (calls @ [CallFail e]) n = statuses calls n"
  "statuses (calls @ [CallFailWith c m]) n = statuses calls n"
  by (auto simp: statuses_def)

lemma rp_steps_calls [simp]:
  "rp_steps (report_fail e r) = rp_steps r" "rp_steps (fail_with c m r) = rp_steps r"
  "rp_steps (report_step n st d r) = merge_step n st d (rp_steps r)"
  "rp_error (report_step n st d r) = rp_error r"
  by (simp_all add: report_fail_def fail_with_def report_step_def)

lemma rp_error_calls:
  "rp_error (report_fail e r) \<noteq> None" "rp_error (fail_with c m r) \<noteq> None"
  by (simp_all add: report_fail_def fail_with_def)

definition worst :: "report_call list \<Rightarrow> string \<Rightarrow> step_status \<Rightarrow> bool" where
  "worst calls n s \<longleftrightarrow> s \<in> statuses calls n \<and> (\<forall>t\<in>statuses calls n. step_rank t \<le> step_rank s)"

lemma steps_are_worst:
  "case map_of (rp_steps (after_calls calls)) n of
      None \<Rightarrow> statuses calls n = {} | Some (s, d) \<Rightarrow> worst calls n s"
proof (induction calls rule: rev_induct)
  case Nil
  show ?case by (simp add: report_default_def)
next
  case (snoc c calls)
  show ?case
  proof (cases c)
    case (CallStep name st d)
    with snoc show ?thesis
      by (auto simp: map_of_merge_step worst_def split: option.splits if_splits)
  qed (use snoc in \<open>auto simp: worst_def split: option.splits\<close>)
qed

lemma step_names_distinct: "distinct (map fst (rp_steps (after_calls calls)))"
proof (induction calls rule: rev_induct)
  case Nil
  show ?case by (simp add: report_default_def)
next
  case (snoc c calls)
  then show ?case by (cases c) (auto simp: names_merge_step)
qed

lemma error_iff_failing_call:
  "rp_error (after_calls calls) \<noteq> None \<longleftrightarrow>
     (\<exists>e. CallFail e \<in> set calls) \<or> (\<exists>c m. CallFailWith c m \<in> set calls)"
proof (induction calls rule: rev_induct)
  case Nil
  show ?case by (simp add: report_default_def)
next
  case (snoc c calls)
  then show ?case
    by (cases c) (use rp_error_calls in auto)
qed

lemma step_rank_inject: "step_rank a = step_rank b \<longleftrightarrow> a = b"
  by (cases a; cases b) auto

lemma failed_is_worst: "StFailed \<in> statuses calls n \<Longrightarrow> worst calls n s \<Longrightarrow> s = StFailed"
  unfolding worst_def by (cases s) auto

lemma step_in_report:
  "(n, s, d) \<in> set (rp_steps (after_calls calls)) \<Longrightarrow> worst calls n s"
  using steps_are_worst [of calls n] map_of_is_SomeI [OF step_names_distinct, of n "(s, d)" calls]
  by simp

lemma reported_in_steps:
  "st \<in> statuses calls n \<Longrightarrow> \<exists>s d. (n, s, d) \<in> set (rp_steps (after_calls calls)) \<and> worst calls n s"
  using steps_are_worst [of calls n] by (auto split: option.splits dest: map_of_SomeD)

text \<open>A report never hides a failure. Whatever calls a job makes on its report, in whatever
  order, each step is listed once with the worst status it was ever given, and the job's outcome
  is \<open>succeeded\<close> exactly when no call reported a failure; otherwise it is \<open>partial\<close> exactly when some
  step's worst status is that it was applied or already in place, and \<open>failed\<close> when there is none.\<close>

theorem report_never_hides_a_failure:
  "distinct (map fst (rp_steps (after_calls calls)))
   \<and> (\<forall>n s d. (n, s, d) \<in> set (rp_steps (after_calls calls)) \<longrightarrow> worst calls n s)
   \<and> (outcome (after_calls calls) = ''succeeded'' \<longleftrightarrow>
        \<not> (\<exists>e. CallFail e \<in> set calls) \<and> \<not> (\<exists>c m. CallFailWith c m \<in> set calls)
        \<and> \<not> (\<exists>n d. CallStep n StFailed d \<in> set calls))
   \<and> (outcome (after_calls calls) = ''failed'' \<longrightarrow>
        \<not> (\<exists>n s. worst calls n s \<and> (s = StApplied \<or> s = StUnchanged)))
   \<and> (outcome (after_calls calls) = ''partial'' \<longrightarrow>
        (\<exists>n s. worst calls n s \<and> (s = StApplied \<or> s = StUnchanged)))"
proof -
  have any_failed: "list_ex (\<lambda>(_, s, _). s = StFailed) (rp_steps (after_calls calls)) \<longleftrightarrow>
      (\<exists>n d. CallStep n StFailed d \<in> set calls)"
  proof
    assume "list_ex (\<lambda>(_, s, _). s = StFailed) (rp_steps (after_calls calls))"
    then obtain n d where "(n, StFailed, d) \<in> set (rp_steps (after_calls calls))"
      by (auto simp: list_ex_iff)
    from step_in_report [OF this] show "\<exists>n d. CallStep n StFailed d \<in> set calls"
      by (auto simp: worst_def statuses_def)
  next
    assume "\<exists>n d. CallStep n StFailed d \<in> set calls"
    then obtain n where n: "StFailed \<in> statuses calls n" by (auto simp: statuses_def)
    then obtain s d where "(n, s, d) \<in> set (rp_steps (after_calls calls))" "worst calls n s"
      using reported_in_steps by blast
    with failed_is_worst [OF n] show "list_ex (\<lambda>(_, s, _). s = StFailed) (rp_steps (after_calls calls))"
      by (force simp: list_ex_iff)
  qed
  have any_done: "list_ex (\<lambda>(_, s, _). s = StApplied \<or> s = StUnchanged) (rp_steps (after_calls calls))
      \<longleftrightarrow> (\<exists>n s. worst calls n s \<and> (s = StApplied \<or> s = StUnchanged))"
  proof
    assume "list_ex (\<lambda>(_, s, _). s = StApplied \<or> s = StUnchanged) (rp_steps (after_calls calls))"
    then show "\<exists>n s. worst calls n s \<and> (s = StApplied \<or> s = StUnchanged)"
      by (auto simp: list_ex_iff dest!: step_in_report)
  next
    assume "\<exists>n s. worst calls n s \<and> (s = StApplied \<or> s = StUnchanged)"
    then obtain n s where s: "worst calls n s" "s = StApplied \<or> s = StUnchanged" by blast
    then obtain s' d where "(n, s', d) \<in> set (rp_steps (after_calls calls))" "worst calls n s'"
      using reported_in_steps worst_def by blast
    moreover from this(2) s(1) have "s' = s"
      by (metis antisym step_rank_inject worst_def)
    ultimately show "list_ex (\<lambda>(_, s, _). s = StApplied \<or> s = StUnchanged) (rp_steps (after_calls calls))"
      using s(2) by (auto simp: list_ex_iff)
  qed
  have succ: "outcome (after_calls calls) = ''succeeded'' \<longleftrightarrow>
      rp_error (after_calls calls) = None
      \<and> \<not> list_ex (\<lambda>(_, s, _). s = StFailed) (rp_steps (after_calls calls))"
    by (cases "rp_error (after_calls calls)") (simp_all add: outcome_def Let_def)
  show ?thesis
    unfolding succ any_failed
    using step_names_distinct [of calls] error_iff_failing_call [of calls] step_in_report any_done
    by (auto simp: outcome_def Let_def split: if_splits)
qed

lemma report_never_hides_a_failure_witness:
  "worst [CallStep ''roles'' StApplied None, CallStep ''workflow'' StFailed None,
      CallStep ''workflow'' StApplied None] ''workflow'' StFailed
   \<and> outcome (after_calls [CallStep ''roles'' StApplied None, CallStep ''workflow'' StFailed None,
      CallStep ''workflow'' StApplied None]) = ''partial''"
proof -
  let ?calls = "[CallStep ''roles'' StApplied None, CallStep ''workflow'' StFailed None,
      CallStep ''workflow'' StApplied None]"
  have "(''workflow'', StFailed, None) \<in> set (rp_steps (after_calls ?calls))"
    "outcome (after_calls ?calls) = ''partial''"
    by (simp_all add: after_calls_def report_default_def outcome_def)
  with report_never_hides_a_failure [of ?calls] show ?thesis by blast
qed

section \<open>Events stay in their namespace\<close>

lemma find_map_None: "find_map f xs = None \<longleftrightarrow> (\<forall>x\<in>set xs. f x = None)"
  by (induction f xs rule: find_map.induct) (auto split: option.split)

text \<open>The bridge never reports a repository outside the namespace it speaks for. The check lets
  an event through exactly when every repository it names parses and lies in the namespace by
  whole segments: its resource, where it comes from, where a rename goes, every repository of a
  role-map report, and every drift item. With no namespace nothing may be named. Only the
  destination of a transfer is exempt.\<close>

theorem events_name_only_their_namespace:
  "outside_namespace ns event drift = None \<longleftrightarrow>
     (\<forall>v. Some v \<in> {jget ''resource'' event, jget ''from'' event} \<longrightarrow> lies_in ns (json_text v))
     \<and> (event_type event = Some ''repoRenamed'' \<longrightarrow>
          (\<forall>v. jget ''to'' event = Some v \<longrightarrow> lies_in ns (json_text v)))
     \<and> (event_type event = Some ''roleMapReported'' \<longrightarrow>
          (\<forall>r\<in>set (elements (jget ''repos'' event)). \<forall>v. jget ''resource'' r = Some v
              \<longrightarrow> lies_in ns (json_text v))
          \<and> (\<forall>v\<in>set (elements (jget ''stale'' event)). lies_in ns (json_text v)))
     \<and> (\<forall>d\<in>set drift. \<forall>v. jget ''resource'' d = Some v \<longrightarrow> lies_in ns (json_text v))"
proof -
  have m: "set (List.map_filter id xs) = {v. Some v \<in> set xs}" for xs :: "json option list"
    by (force simp: List.map_filter_def)
  have n: "(\<forall>v. Some v \<in> set (named_members event drift) \<longrightarrow> P v) \<longleftrightarrow>
     (\<forall>v. Some v \<in> {jget ''resource'' event, jget ''from'' event} \<longrightarrow> P v)
     \<and> (event_type event = Some ''repoRenamed'' \<longrightarrow> (\<forall>v. jget ''to'' event = Some v \<longrightarrow> P v))
     \<and> (event_type event = Some ''roleMapReported'' \<longrightarrow>
          (\<forall>r\<in>set (elements (jget ''repos'' event)). \<forall>v. jget ''resource'' r = Some v \<longrightarrow> P v)
          \<and> (\<forall>v\<in>set (elements (jget ''stale'' event)). P v))
     \<and> (\<forall>d\<in>set drift. \<forall>v. jget ''resource'' d = Some v \<longrightarrow> P v)" for P
    unfolding named_members_def
    by (auto simp: image_iff) (metis+)?
  have "outside_namespace ns event drift = None \<longleftrightarrow>
      (\<forall>v. Some v \<in> set (named_members event drift) \<longrightarrow> lies_in ns (json_text v))"
    unfolding outside_namespace_def find_map_None m by auto
  then show ?thesis unfolding n .
qed

definition sample_ns :: resource where
  "sample_ns = Resource ''github.com/acme''"

lemma events_name_only_their_namespace_witness:
  "outside_namespace (Some sample_ns)
     (JObject [(''type'', JString ''repoRenamed''), (''from'', JString ''github.com/acme/a''),
               (''to'', JString ''github.com/acmex/a'')]) [] \<noteq> None"
proof -
  have "\<not> lies_in (Some sample_ns) ''github.com/acmex/a''" by code_simp
  then show ?thesis
    using events_name_only_their_namespace [of "Some sample_ns"
      "JObject [(''type'', JString ''repoRenamed''), (''from'', JString ''github.com/acme/a''),
                (''to'', JString ''github.com/acmex/a'')]" "[]"]
    by (simp add: event_type_def json_text_def)
qed

section \<open>Weakened protection travels\<close>

lemma those_Some: "those (map f xs) = Some ys \<longleftrightarrow> list_all2 (\<lambda>x y. f x = Some y) xs ys"
proof (induction xs arbitrary: ys)
  case (Cons x xs)
  then show ?case by (cases ys) (auto split: option.splits)
qed (auto)

lemma weakened_items_nonempty:
  "weakened_items res gaps = Some items \<Longrightarrow> gaps \<noteq> [] \<Longrightarrow>
   \<exists>i\<in>set items. jget ''type'' i \<in> {Some (JString ''requiredCheckMissing''), Some (JString ''protectionWeakened'')}"
proof (cases "missing_check gaps")
  case None
  assume w: "weakened_items res gaps = Some items" "gaps \<noteq> []"
  have "\<not> is_check_gap g" if "g \<in> set gaps" for g
    using None that by (cases g) (force simp: missing_check_def find_map_None is_check_gap_def)+
  then have "filter (\<lambda>g. \<not> is_check_gap g) gaps = gaps" by (simp add: filter_id_conv)
  with w None show ?thesis
    by (auto simp: weakened_items_def drift_item_def Let_def Option.bind_eq_Some_conv)
next
  case (Some c)
  assume "weakened_items res gaps = Some items"
  with Some show ?thesis
    by (auto simp: weakened_items_def drift_item_def Let_def Option.bind_eq_Some_conv)
qed

text \<open>What weakens a repository's protection reaches the community. If the comparison of a
  repository with its projection finds its protection short of what the community asks, then the
  drift items sent for it hold one that says so, naming the repository; and an event that says
  the check is not required never goes without one.\<close>

theorem weakened_protection_travels:
  assumes "drift_items h res drift = Some items"
    and "ProtectionWeakened gaps \<in> set drift"
    and "gaps \<noteq> []"
  shows "\<exists>i\<in>set items. jget ''resource'' i = Some (JString (as_str res))
     \<and> jget ''type'' i \<in> {Some (JString ''requiredCheckMissing''), Some (JString ''protectionWeakened'')}"
proof -
  obtain iss where l: "list_all2 (\<lambda>d its. items_of h res d = Some its) drift iss" "items = concat iss"
    using assms(1) by (auto simp: drift_items_def those_Some)
  then obtain its where w: "items_of h res (ProtectionWeakened gaps) = Some its" "its \<in> set iss"
    using assms(2) unfolding list_all2_conv_all_nth in_set_conv_nth by metis
  then have wi: "weakened_items res gaps = Some its" by (simp add: items_of_def)
  from weakened_items_nonempty [OF wi assms(3)] obtain i where i: "i \<in> set its"
    "jget ''type'' i \<in> {Some (JString ''requiredCheckMissing''), Some (JString ''protectionWeakened'')}"
    by blast
  have "jget ''resource'' i = Some (JString (as_str res))"
    using wi i(1)
    by (auto simp: weakened_items_def drift_item_def Let_def Option.bind_eq_Some_conv
        split: option.splits if_splits)
  with i l(2) w(2) show ?thesis by auto
qed

lemma weakened_protection_travels_witness:
  "\<exists>items. drift_items ''github.com'' (Resource ''github.com/acme/a'')
       [ProtectionWeakened [ForcePushAllowed, Missing]] = Some items
     \<and> (\<exists>i\<in>set items. jget ''resource'' i = Some (JString ''github.com/acme/a''))"
proof -
  have "drift_items ''github.com'' (Resource ''github.com/acme/a'')
      [ProtectionWeakened [ForcePushAllowed, Missing]] \<noteq> None"
    by code_simp
  then obtain items where d: "drift_items ''github.com'' (Resource ''github.com/acme/a'')
      [ProtectionWeakened [ForcePushAllowed, Missing]] = Some items" by blast
  from weakened_protection_travels [OF d, of "[ForcePushAllowed, Missing]"] d show ?thesis by auto
qed

end
