(* ===== verification/Effects.thy ===== *)
theory Effects
  imports Prelude "HOL-Library.State_Monad"
begin

text \<open>
  Stateful code is a function in the state monad of \<^theory_text>\<open>HOL-Library.State_Monad\<close>, written in do
  blocks. This theory has the operations the handlers share and a Hoare calculus for them:
  \<open>triple P m Q\<close> says that from every state with \<open>P\<close> the operation ends with a result and a state in
  \<open>Q\<close> (every operation ends: the monad is total). The rules are collected in \<open>wp\<close>.
\<close>

named_theorems wp \<open>Hoare rules of the stateful operations\<close>

abbreviation return :: "'a \<Rightarrow> ('s, 'a) state" where
  "return \<equiv> State_Monad.return"

definition gets :: "('s \<Rightarrow> 'a) \<Rightarrow> ('s, 'a) state" where
  "gets f = State (\<lambda>s. (f s, s))"

definition modify :: "('s \<Rightarrow> 's) \<Rightarrow> ('s, unit) state" where
  "modify f = State (\<lambda>s. ((), f s))"

lemma run_gets [simp]: "run_state (gets f) s = (f s, s)"
  by (simp add: gets_def)

lemma run_modify [simp]: "run_state (modify f) s = ((), f s)"
  by (simp add: modify_def)

text \<open>\<open>for x in xs\<close>: the loop body once per element, in order.\<close>

fun for_each :: "'a list \<Rightarrow> ('a \<Rightarrow> ('s, unit) state) \<Rightarrow> ('s, unit) state" where
  "for_each [] body = return ()"
| "for_each (x # xs) body = do { _ \<leftarrow> body x; for_each xs body }"

text \<open>The \<open>?\<close> operator on an operation that may fail: stop at the error, or go on with the value.\<close>

definition ok_then ::
    "('s, 'e + 'a) state \<Rightarrow> ('a \<Rightarrow> ('s, 'e + 'b) state) \<Rightarrow> ('s, 'e + 'b) state" where
  "ok_then m f = do { r \<leftarrow> m; case r of Inl e \<Rightarrow> return (Inl e) | Inr a \<Rightarrow> f a }"

text \<open>\<open>unwrap_or\<close>.\<close>

definition or_else :: "('s, 'e + 'a) state \<Rightarrow> 'a \<Rightarrow> ('s, 'a) state" where
  "or_else m d = do { r \<leftarrow> m; return (case r of Inl _ \<Rightarrow> d | Inr a \<Rightarrow> a) }"

lemma ok_then_InrE:
  assumes "run_state (ok_then m f) w = (Inr b, w')"
  obtains a w1 where "run_state m w = (Inr a, w1)" "run_state (f a) w1 = (Inr b, w')"
  using assms by (auto simp: ok_then_def split: prod.splits sum.splits)

lemma run_bindE:
  assumes "run_state (State_Monad.bind m f) w = (b, w')"
  obtains a w1 where "run_state m w = (a, w1)" "run_state (f a) w1 = (b, w')"
  using assms by (auto split: prod.splits)

section \<open>Hoare triples\<close>

definition triple :: "('s \<Rightarrow> bool) \<Rightarrow> ('s, 'a) state \<Rightarrow> ('a \<Rightarrow> 's \<Rightarrow> bool) \<Rightarrow> bool" where
  "triple P m Q \<longleftrightarrow> (\<forall>s. P s \<longrightarrow> (case run_state m s of (a, s') \<Rightarrow> Q a s'))"

lemma tripleI: "(\<And>s a s'. P s \<Longrightarrow> run_state m s = (a, s') \<Longrightarrow> Q a s') \<Longrightarrow> triple P m Q"
  by (auto simp: triple_def)

lemma tripleD: "triple P m Q \<Longrightarrow> P s \<Longrightarrow> run_state m s = (a, s') \<Longrightarrow> Q a s'"
  by (auto simp: triple_def)

lemma triple_conseq:
  "triple P m Q \<Longrightarrow> (\<And>s. P' s \<Longrightarrow> P s) \<Longrightarrow> (\<And>a s. Q a s \<Longrightarrow> Q' a s) \<Longrightarrow> triple P' m Q'"
  by (fastforce simp: triple_def)

lemma triple_return [wp]: "(\<And>s. P s \<Longrightarrow> Q x s) \<Longrightarrow> triple P (State_Monad.return x) Q"
  by (simp add: triple_def)

lemma triple_bind [wp]:
  "triple P m R \<Longrightarrow> (\<And>x. triple (R x) (f x) Q) \<Longrightarrow> triple P (State_Monad.bind m f) Q"
  by (fastforce simp: triple_def split: prod.splits)

lemma triple_gets [wp]: "(\<And>s. P s \<Longrightarrow> Q (f s) s) \<Longrightarrow> triple P (gets f) Q"
  by (simp add: triple_def)

lemma triple_modify [wp]: "(\<And>s. P s \<Longrightarrow> Q () (f s)) \<Longrightarrow> triple P (modify f) Q"
  by (simp add: triple_def)

lemma triple_ok_then:
  "triple P m (\<lambda>r. case r of Inl e \<Rightarrow> Q (Inl e) | Inr a \<Rightarrow> R a) \<Longrightarrow> (\<And>a. triple (R a) (f a) Q)
     \<Longrightarrow> triple P (ok_then m f) Q"
  by (fastforce simp: triple_def ok_then_def split: prod.splits sum.splits)

section \<open>Invariants\<close>

text \<open>\<open>keeps I m\<close>: the operation preserves \<open>I\<close>, whatever it returns.\<close>

definition keeps :: "('s \<Rightarrow> bool) \<Rightarrow> ('s, 'a) state \<Rightarrow> bool" where
  "keeps I m \<longleftrightarrow> (\<forall>s. I s \<longrightarrow> I (snd (run_state m s)))"

named_theorems keeps_rules \<open>rules that show an operation keeps an invariant\<close>

lemma keepsD: "keeps I m \<Longrightarrow> I s \<Longrightarrow> I (snd (run_state m s))"
  by (simp add: keeps_def)

lemma keeps_run: "keeps I m \<Longrightarrow> I s \<Longrightarrow> run_state m s = (a, s') \<Longrightarrow> I s'"
  by (auto simp: keeps_def dest!: spec [of _ s])

lemma keeps_return [keeps_rules]: "keeps I (State_Monad.return x)"
  by (simp add: keeps_def)

lemma keeps_bind [keeps_rules]:
  "keeps I m \<Longrightarrow> (\<And>x. keeps I (f x)) \<Longrightarrow> keeps I (State_Monad.bind m f)"
  unfolding keeps_def by (auto split: prod.split)

lemma keeps_gets [keeps_rules]: "keeps I (gets f)"
  by (simp add: keeps_def)

lemma keeps_if [keeps_rules]: "keeps I m \<Longrightarrow> keeps I n \<Longrightarrow> keeps I (if b then m else n)"
  by simp

lemma keeps_option [keeps_rules]:
  "keeps I n \<Longrightarrow> (\<And>x. keeps I (f x)) \<Longrightarrow> keeps I (case v of None \<Rightarrow> n | Some x \<Rightarrow> f x)"
  by (cases v) auto

lemma keeps_sum [keeps_rules]:
  "(\<And>x. keeps I (f x)) \<Longrightarrow> (\<And>x. keeps I (g x)) \<Longrightarrow> keeps I (case v of Inl x \<Rightarrow> f x | Inr x \<Rightarrow> g x)"
  by (cases v) auto

lemma keeps_prod [keeps_rules]:
  "(\<And>x y. keeps I (f x y)) \<Longrightarrow> keeps I (case v of (x, y) \<Rightarrow> f x y)"
  by (cases v) auto

lemma keeps_let [keeps_rules]: "(\<And>x. keeps I (f x)) \<Longrightarrow> keeps I (let x = v in f x)"
  by simp

lemma keeps_for_each [keeps_rules]: "(\<And>x. keeps I (body x)) \<Longrightarrow> keeps I (for_each xs body)"
  by (induction xs) (auto intro: keeps_rules)

lemma keeps_ok_then [keeps_rules]:
  "keeps I m \<Longrightarrow> (\<And>a. keeps I (f a)) \<Longrightarrow> keeps I (ok_then m f)"
  unfolding ok_then_def by (intro keeps_rules)

lemma keeps_or_else [keeps_rules]: "keeps I m \<Longrightarrow> keeps I (or_else m d)"
  unfolding or_else_def by (intro keeps_rules)

lemma keeps_modify: "(\<And>s. I s \<Longrightarrow> I (f s)) \<Longrightarrow> keeps I (modify f)"
  by (simp add: keeps_def)

section \<open>What a result rests on\<close>

text \<open>\<open>yields m Q\<close>: whatever \<open>m\<close> is run in, its result has \<open>Q\<close>.\<close>

definition yields :: "('s, 'a) state \<Rightarrow> ('a \<Rightarrow> bool) \<Rightarrow> bool" where
  "yields m Q \<longleftrightarrow> triple (\<lambda>_. True) m (\<lambda>a _. Q a)"

named_theorems yields_rules \<open>rules that show what a result rests on\<close>

lemma yieldsI: "(\<And>w r w'. run_state m w = (r, w') \<Longrightarrow> Q r) \<Longrightarrow> yields m Q"
  unfolding yields_def by (rule tripleI) blast

lemma yieldsD: "yields m Q \<Longrightarrow> run_state m w = (r, w') \<Longrightarrow> Q r"
  unfolding yields_def by (erule tripleD) simp_all

lemma yields_conseq: "yields m Q \<Longrightarrow> (\<And>a. Q a \<Longrightarrow> R a) \<Longrightarrow> yields m R"
  unfolding yields_def by (erule triple_conseq) simp_all

lemma yields_return [yields_rules]: "Q x \<Longrightarrow> yields (State_Monad.return x) Q"
  unfolding yields_def by (rule triple_return)

lemma yields_bind:
  "yields m R \<Longrightarrow> (\<And>x. R x \<Longrightarrow> yields (f x) Q) \<Longrightarrow> yields (State_Monad.bind m f) Q"
  unfolding yields_def by (rule triple_bind [where R = "\<lambda>x _. R x"]) (auto simp: triple_def)

lemma yields_any: "yields m (\<lambda>_. True)"
  unfolding yields_def triple_def by simp

lemma yields_after: "(\<And>x. yields (f x) Q) \<Longrightarrow> yields (State_Monad.bind m f) Q"
  by (rule yields_bind [OF yields_any])

lemma yields_if [yields_rules]:
  "(b \<Longrightarrow> yields m Q) \<Longrightarrow> (\<not> b \<Longrightarrow> yields n Q) \<Longrightarrow> yields (if b then m else n) Q"
  by simp

lemma yields_option [yields_rules]:
  "(v = None \<Longrightarrow> yields n Q) \<Longrightarrow> (\<And>x. v = Some x \<Longrightarrow> yields (f x) Q)
     \<Longrightarrow> yields (case v of None \<Rightarrow> n | Some x \<Rightarrow> f x) Q"
  by (cases v) auto

lemma yields_sum [yields_rules]:
  "(\<And>x. v = Inl x \<Longrightarrow> yields (f x) Q) \<Longrightarrow> (\<And>x. v = Inr x \<Longrightarrow> yields (g x) Q)
     \<Longrightarrow> yields (case v of Inl x \<Rightarrow> f x | Inr x \<Rightarrow> g x) Q"
  by (cases v) auto

lemma yields_prod [yields_rules]:
  "(\<And>x y. v = (x, y) \<Longrightarrow> yields (f x y) Q) \<Longrightarrow> yields (case v of (x, y) \<Rightarrow> f x y) Q"
  by (cases v) auto

lemma yields_ok_then:
  "yields m (\<lambda>r. case r of Inl _ \<Rightarrow> True | Inr a \<Rightarrow> R a) \<Longrightarrow> (\<And>e. Q (Inl e))
     \<Longrightarrow> (\<And>a. R a \<Longrightarrow> yields (f a) Q) \<Longrightarrow> yields (ok_then m f) Q"
  unfolding ok_then_def by (rule yields_bind, assumption) (auto intro: yields_rules split: sum.splits)

lemma yields_ok_any: "(\<And>e. Q (Inl e)) \<Longrightarrow> (\<And>a. yields (f a) Q) \<Longrightarrow> yields (ok_then m f) Q"
  by (rule yields_ok_then [where R = "\<lambda>_. True"]) (auto intro: yields_conseq [OF yields_any] split: sum.splits)

end
