(* ===== verification/Forge_Events.thy ===== *)
theory Forge_Events
  imports Forge_Drift
begin

text \<open>
  What a verified webhook delivery says: the forge-neutral events (\<open>vgi-forge/src/event.rs\<close>), and the
  two GitHub deliveries of their own, a call for the bridge-posted check
  (\<open>vgi-forge-github/src/checks.rs\<close>) and a push (\<open>resign.rs\<close>), with what GitHub's API answers about
  pull requests and ranges of commits.
\<close>

section \<open>Events\<close>

datatype member_change = MemberAdded | MemberRemoved | MemberEdited

datatype installation_change =
  InstallCreated | InstallDeleted | InstallSuspended | InstallUnsuspended | PermissionsAccepted

record pull_opened =
  po_repo :: resource
  po_forge_id :: u64
  po_number :: u64
  po_reopened :: bool
  po_author :: forge_account
  po_actor :: forge_account
  po_draft :: "bool option"
  po_from_fork :: "bool option"

datatype forge_event_kind =
    RepoCreated resource u64
  | RepoDeleted resource u64
  | RepoRenamed u64 resource resource
  | RepoTransferred u64 "resource option" resource
  | RepoArchived resource u64 bool
  | RepoVisibilityChanged resource u64 visibility
  | CollaboratorChanged resource u64 forge_account member_change
  | OrgMembershipChanged resource forge_account member_change
  | TeamMembershipChanged resource string forge_account member_change
  | ProtectionChanged "resource option" resource string
  | PullRequestOpened pull_opened
  | InstallationChanged resource u64 installation_change

record forge_event =
  ev_delivery_id :: "string option"
  ev_kind :: forge_event_kind

section \<open>GitHub's own deliveries and answers\<close>

datatype check_trigger_kind = CheckPullRequest u64 | CheckMergeGroup | CheckRerequested u64

record check_trigger =
  ct_repo :: resource
  ct_repo_id :: u64
  ct_head_sha :: string
  ct_base_sha :: string
  ct_base_ref :: string
  ct_kind :: check_trigger_kind
  ct_delivery_id :: "string option"
  ct_head_ref :: "string option"
  ct_author_login :: "string option"

record pull_request_info =
  pi_head_sha :: string
  pi_base_ref :: string
  pi_base_sha :: string
  pi_open :: bool
  pi_head_ref :: string
  pi_head_repo_id :: "u64 option"
  pi_base_repo_id :: "u64 option"
  pi_author_login :: "string option"
  pi_author_id :: "u64 option"

datatype check_conclusion = CheckSuccess | CheckFailure

definition check_conclusion_str :: "check_conclusion \<Rightarrow> string" where
  "check_conclusion_str c = (case c of CheckSuccess \<Rightarrow> ''success'' | CheckFailure \<Rightarrow> ''failure'')"

record comparison =
  cm_commits :: "string list"
  cm_total :: u64
  cm_merge_base :: string

record push_event =
  pe_repo :: resource
  pe_repo_id :: u64
  pe_git_ref :: string
  pe_before :: string
  pe_after :: string
  pe_created :: bool
  pe_deleted :: bool
  pe_forced :: bool
  pe_sender_login :: string
  pe_sender_id :: u64
  pe_delivery_id :: "string option"
  pe_pushed_at :: "int option"

definition ZERO_SHA :: string where
  "ZERO_SHA = replicate 40 CHR ''0''"

text \<open>The branch, when the ref is one.\<close>

definition push_branch :: "push_event \<Rightarrow> string option" where
  "push_branch p = strip_prefix ''refs/heads/'' (pe_git_ref p)"

end
