(* ===== verification/Bridge_Store.thy ===== *)
theory Bridge_Store
  imports Bridge_Wire Effects Forge_Events Registry_Binding "HOL-Library.List_Lexorder" "HOL-Library.Char_ord"
begin

text \<open>
  The bridge's durable state (\<open>vgi-bridge/src/store.rs\<close>): the records it keeps, string-keyed tables
  ordered by key, and the operations on them, each one transaction. A transaction either commits
  or fails and leaves the database as it was (what redb promises): the world carries the list of
  coming failures, so that every error branch of a caller is reached by some list. The file
  itself, the sealed secrets and the VTA mirror are not modelled; whether a flush to the mirror
  succeeded is the next answer of a list the world carries.
\<close>

section \<open>Tables\<close>

type_synonym 'v table = "(string \<times> 'v) list"

fun tab_put :: "string \<Rightarrow> 'v \<Rightarrow> 'v table \<Rightarrow> 'v table" where
  "tab_put k v [] = [(k, v)]"
| "tab_put k v ((j, w) # t) =
     (if k < j then (k, v) # (j, w) # t
      else if k = j then (k, v) # t
      else (j, w) # tab_put k v t)"

definition tab_del :: "string \<Rightarrow> 'v table \<Rightarrow> 'v table" where
  "tab_del k t = filter (\<lambda>(j, _). j \<noteq> k) t"

definition tab_ok :: "'v table \<Rightarrow> bool" where
  "tab_ok t \<longleftrightarrow> sorted_wrt (<) (map fst t)"

text \<open>What a caller relies on: a keyed table whose entries are listed once each.\<close>

locale record_table =
  fixes lookup :: "'t \<Rightarrow> string \<Rightarrow> 'v option"
    and put :: "string \<Rightarrow> 'v \<Rightarrow> 't \<Rightarrow> 't"
    and del :: "string \<Rightarrow> 't \<Rightarrow> 't"
    and entries :: "'t \<Rightarrow> (string \<times> 'v) list"
    and ok :: "'t \<Rightarrow> bool"
  assumes lookup_put: "lookup (put k v t) j = (if j = k then Some v else lookup t j)"
    and lookup_del: "lookup (del k t) j = (if j = k then None else lookup t j)"
    and ok_put: "ok t \<Longrightarrow> ok (put k v t)"
    and ok_del: "ok t \<Longrightarrow> ok (del k t)"
    and entries_lookup: "ok t \<Longrightarrow> (k, v) \<in> set (entries t) \<longleftrightarrow> lookup t k = Some v"
begin

lemma lookup_del_all: "lookup (fold del ks t) j = (if j \<in> set ks then None else lookup t j)"
  by (induction ks arbitrary: t) (auto simp: lookup_del)

lemma ok_del_all: "ok t \<Longrightarrow> ok (fold del ks t)"
  by (induction ks arbitrary: t) (auto simp: ok_del)

text \<open>Deleting every listed entry that matches leaves exactly the others.\<close>

lemma lookup_del_matching:
  assumes "ok t"
  shows "lookup (fold del (map fst (filter P (entries t))) t) j =
    (case lookup t j of None \<Rightarrow> None | Some v \<Rightarrow> if P (j, v) then None else Some v)"
proof (cases "lookup t j")
  case None
  then show ?thesis by (simp add: lookup_del_all)
next
  case (Some v)
  have "j \<in> set (map fst (filter P (entries t))) \<longleftrightarrow> P (j, v)"
    using entries_lookup [OF assms] Some by force
  with Some show ?thesis by (simp add: lookup_del_all)
qed

end

lemma map_of_tab_put: "map_of (tab_put k v t) j = (if j = k then Some v else map_of t j)"
  by (induction k v t rule: tab_put.induct) auto

lemma map_of_tab_del: "map_of (tab_del k t) j = (if j = k then None else map_of t j)"
  by (induction t) (auto simp: tab_del_def)

lemma fst_tab_put: "fst ` set (tab_put k v t) = insert k (fst ` set t)"
  by (induction k v t rule: tab_put.induct) auto

lemma tab_ok_put: "tab_ok t \<Longrightarrow> tab_ok (tab_put k v t)"
proof (induction k v t rule: tab_put.induct)
  case (2 k v j w t)
  then show ?case
    using fst_tab_put [of k v t]
    by (auto simp: tab_ok_def intro: less_trans dest!: not_less_iff_gr_or_eq [THEN iffD1])
qed (simp add: tab_ok_def)

lemma tab_ok_del: "tab_ok t \<Longrightarrow> tab_ok (tab_del k t)"
  unfolding tab_ok_def tab_del_def by (induction t) auto

lemma tab_ok_distinct: "tab_ok t \<Longrightarrow> distinct (map fst t)"
  by (auto simp: tab_ok_def strict_sorted_iff)

interpretation tab: record_table map_of tab_put tab_del id tab_ok
  by unfold_locales
    (auto simp: map_of_tab_put map_of_tab_del tab_ok_put tab_ok_del
      map_of_eq_Some_iff [OF tab_ok_distinct])

section \<open>Records\<close>

datatype job_state = Queued | Running | Waiting | Finished

record job_record =
  jr_job_id :: string
  jr_digest :: string
  jr_namespace :: string
  jr_kind :: string
  jr_payload :: "json option"
  jr_state :: job_state
  jr_next :: "json option"
  jr_result :: "json option"
  jr_received_at :: int
  jr_issued_at :: "int option"
  jr_finished_at :: "int option"

definition job_queued ::
    "string \<Rightarrow> string \<Rightarrow> string \<Rightarrow> string \<Rightarrow> json \<Rightarrow> int \<Rightarrow> job_record" where
  "job_queued job_id digest ns kind payload received_at =
     \<lparr>jr_job_id = job_id, jr_digest = digest, jr_namespace = ns, jr_kind = kind,
      jr_payload = Some payload, jr_state = Queued, jr_next = None, jr_result = None,
      jr_received_at = received_at, jr_issued_at = None, jr_finished_at = None\<rparr>"

datatype namespace_state = NsPending | NsBound | NsOrphaned

record pin_record =
  pin_repository_id :: u64
  pin_sha :: string
  pin_check :: string

record namespace_binding =
  nb_namespace :: namespace
  nb_capabilities :: "capabilities option"
  nb_missing_permissions :: "string list"

record namespace_record =
  nr_id :: string
  nr_resource :: resource
  nr_state :: namespace_state
  nr_binding :: "namespace_binding option"
  nr_capabilities :: "capabilities option"
  nr_required_workflow :: "bool option"
  nr_pin :: "pin_record option"
  nr_bridge_checks :: "bool option"
  nr_managed :: "u64 set"
  nr_orphaned_at :: "int option"
  nr_removal_warned_at :: "int option"

definition namespace_pending :: "string \<Rightarrow> resource \<Rightarrow> namespace_record" where
  "namespace_pending i r =
     \<lparr>nr_id = i, nr_resource = r, nr_state = NsPending, nr_binding = None, nr_capabilities = None,
      nr_required_workflow = None, nr_pin = None, nr_bridge_checks = None, nr_managed = {},
      nr_orphaned_at = None, nr_removal_warned_at = None\<rparr>"

definition is_bound :: "namespace_record \<Rightarrow> bool" where
  "is_bound n \<longleftrightarrow> nr_state n = NsBound \<and> nr_binding n \<noteq> None"

definition nr_is_orphaned :: "namespace_record \<Rightarrow> bool" where
  "nr_is_orphaned n \<longleftrightarrow> nr_state n = NsOrphaned"

definition RETIRED_PREFIX :: string where
  "RETIRED_PREFIX = ''retired-namespace/''"

record retired_namespace =
  rt_resource :: resource
  rt_superseded_by :: string
  rt_retired_at :: int

record last_check =
  lc_sha :: string
  lc_conclusion :: string
  lc_at :: int

record repo_record =
  rr_namespace :: string
  rr_resource :: resource
  rr_forge_id :: u64
  rr_owners :: "forge_account list"
  rr_roles :: "role_assignment list"
  rr_roles_known :: bool
  rr_required_check :: "string option"
  rr_archived :: bool
  rr_last_drift :: "string option"
  rr_guard :: "string option"
  rr_last_check :: "last_check option"
  rr_role_map :: "role_map option"

definition repo_record_new :: "string \<Rightarrow> resource \<Rightarrow> u64 \<Rightarrow> repo_record" where
  "repo_record_new ns r i =
     \<lparr>rr_namespace = ns, rr_resource = r, rr_forge_id = i, rr_owners = [], rr_roles = [],
      rr_roles_known = False, rr_required_check = None, rr_archived = False, rr_last_drift = None,
      rr_guard = None, rr_last_check = None, rr_role_map = None\<rparr>"

definition repo_key :: "string \<Rightarrow> u64 \<Rightarrow> string" where
  "repo_key h i = h @ ''#'' @ show_word i"

definition repo_record_key :: "repo_record \<Rightarrow> string" where
  "repo_record_key r = repo_key (host (rr_resource r)) (rr_forge_id r)"

record push_record =
  pu_before :: string
  pu_after :: string
  pu_sender_login :: string
  pu_sender_id :: u64
  pu_created :: bool
  pu_delivery_id :: "string option"
  pu_at :: int

record own_push =
  op_before :: string
  op_after :: string
  op_at :: int

record branch_ledger =
  bl_repo :: "resource option"
  bl_branch :: string
  bl_pushes :: "push_record list"
  bl_own :: "own_push list"
  bl_overflow :: bool
  bl_pull_request :: "u64 option"
  bl_touched :: int
  bl_last_pushed_at :: "int option"
  bl_last_skip :: "(string \<times> string) option"

definition branch_ledger_default :: branch_ledger where
  "branch_ledger_default =
     \<lparr>bl_repo = None, bl_branch = [], bl_pushes = [], bl_own = [], bl_overflow = False,
      bl_pull_request = None, bl_touched = 0, bl_last_pushed_at = None, bl_last_skip = None\<rparr>"

record device_poll =
  dp_interval :: u64
  dp_expires_in :: u64

datatype pending_flow =
    FlowBind (fl_job: string) (fl_namespace: string) resource (fl_expires: int)
  | FlowLink (fl_job: string) (fl_namespace: string) string string (fl_expires: int)
      "device_poll option"
  | FlowManifest string "string option" (fl_expires: int)

definition flow_job_id :: "pending_flow \<Rightarrow> string option" where
  "flow_job_id f =
     (case f of FlowBind j _ _ _ \<Rightarrow> Some j | FlowLink j _ _ _ _ _ \<Rightarrow> Some j | FlowManifest _ _ _ \<Rightarrow> None)"

datatype outbox_kind = OkResult | OkEvent

record outbox_entry =
  ob_kind :: outbox_kind
  ob_payload :: json
  ob_doc_ids :: "string list"
  ob_last_sent :: int
  ob_attempts :: u32

definition outbox_new :: "outbox_kind \<Rightarrow> json \<Rightarrow> outbox_entry" where
  "outbox_new k payload =
     \<lparr>ob_kind = k, ob_payload = payload, ob_doc_ids = [], ob_last_sent = 0, ob_attempts = 0\<rparr>"

section \<open>The database and the world\<close>

record store =
  jobs :: "job_record table"
  namespaces :: "namespace_record table"
  repos :: "repo_record table"
  pending :: "pending_flow table"
  outbox :: "outbox_entry table"
  deliveries :: "int table"
  retired :: "retired_namespace table"
  branches :: "branch_ledger table"
  secrets :: "string table"
  rotations :: "int table"

definition empty_store :: store where
  "empty_store = \<lparr>jobs = [], namespaces = [], repos = [], pending = [], outbox = [],
     deliveries = [], retired = [], branches = [], secrets = [],
     rotations = []\<rparr>"

text \<open>
  The world of one bridge: its database, the coming failures of transactions, sends and flushes
  (an empty list: no more of them), the clock, the forge, the documents the link carried, whether
  the link is down and whether its recovery was raised, the number of ids drawn, and the tasks
  spawned: a job to run, a device flow to poll, an installation to read again, an event to report,
  a webhook event to act on (for a host and an App's owner), a pull request to sign again, the
  checks of a delivery (recorded under a key once done), and a posted check to report. The rest is
  the memory of the check runner: the registry binding found last and when, the signers resolved
  afresh and when, and per repository when a check was last reported and whether a report waits.
\<close>

datatype task =
    RunJob string
  | PollDevice string
  | ProbeChecks string
  | ReportEvent string json
  | ActOnEvent string "string option" forge_event_kind
  | ResignPull resource u64 u64
  | RunChecks "check_trigger list" "string option"
  | ReportCheck string

record 'f world =
  db :: store
  faults :: "bool list"
  link_faults :: "bool list"
  flush_faults :: "bool list"
  clock :: int
  forge_state :: 'f
  carried :: "json list"
  link_is_down :: bool
  recovery_raised :: bool
  ids_drawn :: nat
  spawned :: "task list"
  route_cache :: "(transport_choice \<times> int) option"
  re_resolved :: "(string \<times> int) list"
  report_slots :: "(string \<times> int option \<times> bool) list"

type_synonym ('f, 'a) io = "('f world, 'a) state"

text \<open>One transaction: it fails and changes nothing, or commits.\<close>

definition txn :: "(store \<Rightarrow> 'a \<times> store) \<Rightarrow> ('f, string + 'a) io" where
  "txn f = State (\<lambda>w. case faults w of
       True # rest \<Rightarrow> (Inl ''store'', w\<lparr>faults := rest\<rparr>)
     | _ \<Rightarrow> (case f (db w) of (a, d) \<Rightarrow> (Inr a, w\<lparr>db := d, faults := tl (faults w)\<rparr>)))"

definition clock_now :: "('f, int) io" where
  "clock_now = gets clock"

type_synonym 'v table_at =
  "(store \<Rightarrow> 'v table) \<times> (('v table \<Rightarrow> 'v table) \<Rightarrow> store \<Rightarrow> store)"

definition JOBS :: "job_record table_at" where
  "JOBS = (jobs, jobs_update)"

definition NAMESPACES :: "namespace_record table_at" where
  "NAMESPACES = (namespaces, namespaces_update)"

definition REPOS :: "repo_record table_at" where
  "REPOS = (repos, repos_update)"

definition PENDING :: "pending_flow table_at" where
  "PENDING = (pending, pending_update)"

definition OUTBOX :: "outbox_entry table_at" where
  "OUTBOX = (outbox, outbox_update)"

definition DELIVERIES :: "int table_at" where
  "DELIVERIES = (deliveries, deliveries_update)"

definition RETIRED :: "retired_namespace table_at" where
  "RETIRED = (retired, retired_update)"

definition BRANCHES :: "branch_ledger table_at" where
  "BRANCHES = (branches, branches_update)"

text \<open>The times of the last token rotations, which the code files in the table of retired ids under
  \<open>forgejo/\<dots>\<close> keys.\<close>

definition ROTATIONS :: "int table_at" where
  "ROTATIONS = (rotations, rotations_update)"

text \<open>The secrets: sealed in the file, here their contents.\<close>

definition SECRETS :: "string table_at" where
  "SECRETS = (secrets, secrets_update)"

section \<open>Operations\<close>

definition get_rec :: "'v table_at \<Rightarrow> string \<Rightarrow> ('f, string + 'v option) io" where
  "get_rec t k = txn (\<lambda>d. (map_of (fst t d) k, d))"

definition put_rec :: "'v table_at \<Rightarrow> string \<Rightarrow> 'v \<Rightarrow> ('f, string + unit) io" where
  "put_rec t k v = txn (\<lambda>d. ((), snd t (tab_put k v) d))"

definition put_new :: "'v table_at \<Rightarrow> string \<Rightarrow> 'v \<Rightarrow> ('f, string + bool) io" where
  "put_new t k v = txn (\<lambda>d.
     if map_of (fst t d) k \<noteq> None then (False, d) else (True, snd t (tab_put k v) d))"

definition update_rec ::
    "'v table_at \<Rightarrow> string \<Rightarrow> ('v option \<Rightarrow> 'v option \<times> 'r) \<Rightarrow> ('f, string + 'r) io" where
  "update_rec t k f = txn (\<lambda>d.
     case f (map_of (fst t d) k) of
       (Some v, out) \<Rightarrow> (out, snd t (tab_put k v) d)
     | (None, out) \<Rightarrow> (out, snd t (tab_del k) d))"

text \<open>The common shape of an update: change the record when there is one.\<close>

definition map_rec :: "'v table_at \<Rightarrow> string \<Rightarrow> ('v \<Rightarrow> 'v) \<Rightarrow> ('f, string + unit) io" where
  "map_rec t k f = update_rec t k (\<lambda>r. (map_option f r, ()))"

definition delete_rec :: "'v table_at \<Rightarrow> string \<Rightarrow> ('f, string + bool) io" where
  "delete_rec t k = txn (\<lambda>d. (map_of (fst t d) k \<noteq> None, snd t (tab_del k) d))"

definition list_rec :: "'v table_at \<Rightarrow> ('f, string + (string \<times> 'v) list) io" where
  "list_rec t = txn (\<lambda>d. (fst t d, d))"

definition result_key :: "string \<Rightarrow> string" where
  "result_key job_id = ''result:'' @ job_id"

definition finish_record :: "json \<Rightarrow> int \<Rightarrow> job_record \<Rightarrow> job_record" where
  "finish_record result at r =
     r\<lparr>jr_state := Finished, jr_result := Some result, jr_payload := None, jr_finished_at := Some at\<rparr>"

definition store_finish_job :: "string \<Rightarrow> json \<Rightarrow> int \<Rightarrow> ('f, string + bool) io" where
  "store_finish_job job_id result finished_at = txn (\<lambda>d.
     case map_of (jobs d) job_id of
       None \<Rightarrow> (False, d)
     | Some r \<Rightarrow>
         if jr_state r = Finished then (False, d)
         else (True, d\<lparr>jobs := tab_put job_id (finish_record result finished_at r) (jobs d),
                       outbox := tab_put (result_key job_id) (outbox_new OkResult result) (outbox d)\<rparr>))"

definition store_is_retired :: "string \<Rightarrow> ('f, string + bool) io" where
  "store_is_retired i = do {
     r \<leftarrow> get_rec RETIRED (RETIRED_PREFIX @ i);
     return (case r of Inl e \<Rightarrow> Inl e | Inr v \<Rightarrow> Inr (v \<noteq> None))
   }"

definition put_secret :: "string \<Rightarrow> string \<Rightarrow> ('f, string + unit) io" where
  "put_secret name value = put_rec SECRETS name value"

definition get_secret_string :: "string \<Rightarrow> ('f, string + string option) io" where
  "get_secret_string name = get_rec SECRETS name"

definition delete_secret :: "string \<Rightarrow> ('f, string + unit) io" where
  "delete_secret name = ok_then (delete_rec SECRETS name) (\<lambda>_. return (Inr ()))"

text \<open>Whether every change reached the mirror in time.\<close>

definition store_flush :: "('f, bool) io" where
  "store_flush = State (\<lambda>w. case flush_faults w of
       True # rest \<Rightarrow> (False, w\<lparr>flush_faults := rest\<rparr>)
     | _ \<Rightarrow> (True, w\<lparr>flush_faults := tl (flush_faults w)\<rparr>))"

section \<open>Rules\<close>

lemma run_txn_InrD:
  "run_state (txn f) w = (Inr a, w') \<Longrightarrow> a = fst (f (db w)) \<and> db w' = snd (f (db w))"
  by (auto simp: txn_def split: list.splits bool.splits prod.splits)

text \<open>
  A transaction keeps an invariant of the database when its function does; nothing else it
  changes is more than the list of coming failures.
\<close>

definition on_db :: "(store \<Rightarrow> bool) \<Rightarrow> 'f world \<Rightarrow> bool" where
  "on_db I w \<longleftrightarrow> I (db w)"

lemma keeps_txn: "(\<And>d. I d \<Longrightarrow> I (snd (f d))) \<Longrightarrow> keeps (on_db I) (txn f)"
  by (fastforce simp: keeps_def on_db_def txn_def split: list.split bool.split prod.split)

lemma keeps_frame:
  assumes "\<And>v. keeps (on_db (\<lambda>d. f d = v)) m"
  shows "keeps (on_db (\<lambda>d. P (f d))) m"
  using assms unfolding keeps_def on_db_def by metis

lemma run_txn_ok: "faults w = [] \<Longrightarrow> run_state (txn f) w = (Inr (fst (f (db w))), w\<lparr>db := snd (f (db w))\<rparr>)"
  by (cases "f (db w)") (simp add: txn_def)

lemma run_txn_cases:
  "run_state (txn f) w = (r, w') \<Longrightarrow>
     (r = Inl ''store'' \<and> db w' = db w) \<or> (r = Inr (fst (f (db w))) \<and> db w' = snd (f (db w)))"
  by (auto simp: txn_def split: list.splits bool.splits prod.splits)

lemma keeps_reads [keeps_rules]:
  "keeps (on_db I) (get_rec t k)" "keeps (on_db I) (list_rec t)"
  by (simp_all add: get_rec_def list_rec_def keeps_txn)

lemma keeps_is_retired [keeps_rules]: "keeps (on_db I) (store_is_retired i)"
  by (simp add: store_is_retired_def keeps_rules)

lemma keeps_clock [keeps_rules]: "keeps I clock_now"
  by (simp add: clock_now_def keeps_rules)

lemmas table_defs = JOBS_def NAMESPACES_def REPOS_def PENDING_def OUTBOX_def DELIVERIES_def
  RETIRED_def BRANCHES_def SECRETS_def

lemmas op_defs = put_rec_def put_new_def update_rec_def map_rec_def delete_rec_def
  store_finish_job_def

definition store_ok :: "store \<Rightarrow> bool" where
  "store_ok d \<longleftrightarrow> tab_ok (jobs d) \<and> tab_ok (namespaces d) \<and> tab_ok (repos d) \<and> tab_ok (pending d)
     \<and> tab_ok (outbox d) \<and> tab_ok (deliveries d) \<and> tab_ok (retired d) \<and> tab_ok (branches d)
     \<and> tab_ok (secrets d)"

lemma store_ok_empty: "store_ok empty_store"
  by (simp add: store_ok_def empty_store_def tab_ok_def)

text \<open>What a listing returns is the table of a state with the invariant.\<close>

lemma triple_list:
  "triple (on_db I) (list_rec t)
     (\<lambda>r w. on_db I w \<and> (\<forall>es. r = Inr es \<longrightarrow> (\<exists>d. I d \<and> es = fst t d)))"
  by (rule tripleI) (auto simp: list_rec_def on_db_def dest!: run_txn_cases)

lemma triple_get:
  "triple (on_db I) (get_rec t k)
     (\<lambda>r w. on_db I w \<and> (\<forall>v. r = Inr v \<longrightarrow> v = map_of (fst t (db w)) k))"
  by (rule tripleI) (auto simp: get_rec_def on_db_def dest!: run_txn_cases)

lemma keeps_triple: "keeps I m \<longleftrightarrow> triple I m (\<lambda>_. I)"
  by (simp add: keeps_def triple_def case_prod_beta)

lemma keeps_list_then:
  assumes "\<And>es d. I d \<Longrightarrow> es = fst t d \<Longrightarrow> keeps (on_db I) (f (Inr es))"
    and "\<And>e. keeps (on_db I) (f (Inl e))"
  shows "keeps (on_db I) (State_Monad.bind (list_rec t) f)"
  unfolding keeps_triple
proof (rule triple_bind [OF triple_list])
  fix r
  show "triple (\<lambda>w. on_db I w \<and> (\<forall>es. r = Inr es \<longrightarrow> (\<exists>d. I d \<and> es = fst t d))) (f r) (\<lambda>_. on_db I)"
  proof (cases r)
    case (Inl e)
    with assms(2) [of e] show ?thesis
      unfolding keeps_triple by (auto intro: triple_conseq)
  next
    case (Inr es)
    show ?thesis
    proof (rule tripleI)
      fix w a w'
      assume "on_db I w \<and> (\<forall>es. r = Inr es \<longrightarrow> (\<exists>d. I d \<and> es = fst t d))"
        "run_state (f r) w = (a, w')"
      with assms(1) Inr show "on_db I w'" by (auto dest: keeps_run)
    qed
  qed
qed

lemma keeps_list_ok_then:
  "(\<And>es d. I d \<Longrightarrow> es = fst t d \<Longrightarrow> keeps (on_db I) (f es)) \<Longrightarrow>
   keeps (on_db I) (ok_then (list_rec t) f)"
  unfolding ok_then_def by (rule keeps_list_then) (auto intro: keeps_rules)

lemma keeps_list_or_else:
  "(\<And>es d. I d \<Longrightarrow> es = fst t d \<Longrightarrow> keeps (on_db I) (f es)) \<Longrightarrow>
   (keeps (on_db I) (f dflt)) \<Longrightarrow>
   keeps (on_db I) (State_Monad.bind (or_else (list_rec t) dflt) f)"
  unfolding or_else_def bind_assoc bind_left_identity
  by (rule keeps_list_then) auto

end
