(* ===== verification/Bridge_Namespaces.thy ===== *)
theory Bridge_Namespaces
  imports Bridge_Store
begin

text \<open>
  A namespace's life after its binding (\<open>vgi-bridge/src/namespaces.rs\<close>): orphaned by the community's
  answer, bound again by a job, superseded by a new binding of its owner, forgotten by the operator
  or the retention sweep. The commands on the VTA's remote copy are not modelled.
\<close>

section \<open>Retention\<close>

definition DAY :: int where
  "DAY = 86400"

definition WARN_AHEAD :: int where
  "WARN_AHEAD = 7 * DAY"

text \<open>\<open>i64\<close> arithmetic: the cast of a \<open>u64\<close> and the saturating operations.\<close>

definition sat64 :: "int \<Rightarrow> int" where
  "sat64 x = max (- (2 ^ 63)) (min (2 ^ 63 - 1) x)"

definition as_i64 :: "u64 \<Rightarrow> int" where
  "as_i64 w = sint w"

definition removal_due :: "namespace_record \<Rightarrow> u64 \<Rightarrow> int option" where
  "removal_due ns days =
     (if \<not> nr_is_orphaned ns then None
      else Some (sat64 ((case nr_orphaned_at ns of None \<Rightarrow> 0 | Some t \<Rightarrow> t)
                        + sat64 (as_i64 days * DAY))))"

fun state_word :: "namespace_state \<Rightarrow> string" where
  "state_word NsPending = ''pending''"
| "state_word NsBound = ''bound''"
| "state_word NsOrphaned = ''orphaned''"

section \<open>Dropping and forgetting\<close>

record forgotten =
  fg_resource :: resource
  fg_repos :: nat

definition event_namespace :: "outbox_entry \<Rightarrow> string option" where
  "event_namespace e = Option.bind (jget ''namespace'' (ob_payload e)) as_str_json"

definition event_of :: "string \<Rightarrow> outbox_entry \<Rightarrow> bool" where
  "event_of ns_id e \<longleftrightarrow> ob_kind e = OkEvent \<and> event_namespace e = Some ns_id"

definition drop_events :: "string \<Rightarrow> ('f, unit) io" where
  "drop_events ns_id = do {
     entries \<leftarrow> or_else (list_rec OUTBOX) [];
     for_each entries (\<lambda>(key, e).
       if event_of ns_id e then do { _ \<leftarrow> delete_rec OUTBOX key; return () } else return ())
   }"

fun delete_repos_of :: "string \<Rightarrow> (string \<times> repo_record) list \<Rightarrow> nat \<Rightarrow> ('f, string + nat) io" where
  "delete_repos_of i [] n = return (Inr n)"
| "delete_repos_of i ((key, rec) # rest) n =
     (if rr_namespace rec = i
      then ok_then (delete_rec REPOS key)
             (\<lambda>existed. delete_repos_of i rest (if existed then Suc n else n))
      else delete_repos_of i rest n)"

text \<open>What \<open>forget\<close> does once it has found the namespace orphaned.\<close>

definition forget_records :: "string \<Rightarrow> namespace_record \<Rightarrow> ('f, string + forgotten) io" where
  "forget_records i ns =
     ok_then (list_rec REPOS) (\<lambda>recs.
     ok_then (delete_repos_of i recs 0) (\<lambda>n. do {
       _ \<leftarrow> drop_events i;
       ok_then (delete_rec NAMESPACES i) (\<lambda>_.
         return (Inr \<lparr>fg_resource = nr_resource ns, fg_repos = n\<rparr>))
     }))"

definition forget :: "string \<Rightarrow> ('f, string + forgotten) io" where
  "forget i =
     ok_then (get_rec NAMESPACES i) (\<lambda>found. case found of
       None \<Rightarrow> return (Inl (''this bridge holds no namespace `'' @ i @ ''`''))
     | Some ns \<Rightarrow>
         if \<not> nr_is_orphaned ns
         then return (Inl (''namespace `'' @ i @ ''` ('' @ as_str (nr_resource ns) @ '') is ''
                @ state_word (nr_state ns)
                @ '', not orphaned: only a namespace its VTC no longer has is forgotten''))
         else forget_records i ns)"

section \<open>Orphaned and back\<close>

definition orphan_record ::
    "int \<Rightarrow> namespace_record option \<Rightarrow> namespace_record option \<times> bool" where
  "orphan_record at n =
     (case n of
        None \<Rightarrow> (None, False)
      | Some n \<Rightarrow>
          if nr_state n \<noteq> NsBound then (Some n, False)
          else (Some (n\<lparr>nr_state := NsOrphaned, nr_orphaned_at := Some at,
                        nr_removal_warned_at := None\<rparr>), True))"

definition orphan :: "string \<Rightarrow> ('f, bool) io" where
  "orphan ns_id = do {
     at \<leftarrow> clock_now;
     orphaned \<leftarrow> or_else (update_rec NAMESPACES ns_id (orphan_record at)) False;
     _ \<leftarrow> (if orphaned then drop_events ns_id else return ());
     return orphaned
   }"

definition unorphan_record :: "namespace_record option \<Rightarrow> namespace_record option \<times> bool" where
  "unorphan_record n =
     (case n of
        None \<Rightarrow> (None, False)
      | Some n \<Rightarrow>
          if \<not> nr_is_orphaned n then (Some n, False)
          else (Some (n\<lparr>nr_state := NsBound, nr_orphaned_at := None,
                        nr_removal_warned_at := None\<rparr>), True))"

definition unorphan :: "string \<Rightarrow> ('f, bool) io" where
  "unorphan ns_id = or_else (update_rec NAMESPACES ns_id unorphan_record) False"

definition is_orphaned :: "string \<Rightarrow> ('f, bool) io" where
  "is_orphaned ns_id = do {
     r \<leftarrow> get_rec NAMESPACES ns_id;
     return (case r of Inr (Some n) \<Rightarrow> nr_is_orphaned n | _ \<Rightarrow> False)
   }"

definition sweep_one :: "u64 \<Rightarrow> int \<Rightarrow> string \<Rightarrow> namespace_record \<Rightarrow> ('f, unit) io" where
  "sweep_one days now i ns =
     (case removal_due ns days of
        None \<Rightarrow> return ()
      | Some due \<Rightarrow>
          if due \<le> now then do { _ \<leftarrow> forget i; return () }
          else if due - now \<le> WARN_AHEAD
                  \<and> (case nr_removal_warned_at ns of None \<Rightarrow> True | Some w \<Rightarrow> DAY \<le> now - w)
          then do {
            _ \<leftarrow> map_rec NAMESPACES i (\<lambda>n. n\<lparr>nr_removal_warned_at := Some now\<rparr>);
            return ()
          }
          else return ())"

definition sweep_orphaned :: "u64 \<Rightarrow> ('f, unit) io" where
  "sweep_orphaned days = do {
     r \<leftarrow> list_rec NAMESPACES;
     case r of
       Inl _ \<Rightarrow> return ()
     | Inr entries \<Rightarrow> do {
         now \<leftarrow> clock_now;
         for_each entries (\<lambda>(i, ns). sweep_one days now i ns)
       }
   }"

section \<open>Superseded\<close>

definition binding_owner_id :: "namespace_record \<Rightarrow> u64 option" where
  "binding_owner_id n = Option.bind (nr_binding n) (\<lambda>b. ns_owner_id (nb_namespace b))"

definition same_owner_elsewhere :: "namespace_record \<Rightarrow> namespace_record \<Rightarrow> bool" where
  "same_owner_elsewhere new n \<longleftrightarrow>
     nr_id n \<noteq> nr_id new
     \<and> (nr_state n = NsBound \<or> nr_state n = NsOrphaned)
     \<and> host (nr_resource n) = host (nr_resource new)
     \<and> (nr_resource n = nr_resource new
        \<or> (binding_owner_id new \<noteq> None \<and> binding_owner_id n = binding_owner_id new))"

definition rehome :: "string \<Rightarrow> repo_record \<Rightarrow> repo_record" where
  "rehome new_id r = r\<lparr>rr_namespace := new_id, rr_owners := [], rr_last_drift := None\<rparr>"

fun rehome_repos ::
    "string \<Rightarrow> string \<Rightarrow> (string \<times> repo_record) list \<Rightarrow> repo_record list
       \<Rightarrow> ('f, string + repo_record list) io" where
  "rehome_repos old_id new_id [] moved = return (Inr moved)"
| "rehome_repos old_id new_id ((key, rec) # rest) moved =
     (if rr_namespace rec \<noteq> old_id then rehome_repos old_id new_id rest moved
      else ok_then (update_rec REPOS key (\<lambda>r. case r of
               None \<Rightarrow> (None, None)
             | Some r \<Rightarrow> (Some (rehome new_id r), Some (rehome new_id r))))
             (\<lambda>m. rehome_repos old_id new_id rest
                    (moved @ (case m of None \<Rightarrow> [] | Some r \<Rightarrow> [r]))))"

definition take_over :: "namespace_record \<Rightarrow> namespace_record \<Rightarrow> namespace_record" where
  "take_over old new =
     new\<lparr>nr_managed := nr_managed new \<union> nr_managed old,
         nr_pin := (case nr_pin new of None \<Rightarrow> nr_pin old | p \<Rightarrow> p),
         nr_required_workflow :=
           (case nr_required_workflow new of None \<Rightarrow> nr_required_workflow old | q \<Rightarrow> q)\<rparr>"

fun supersede_each ::
    "int \<Rightarrow> namespace_record list \<Rightarrow> namespace_record \<Rightarrow> string list \<Rightarrow> repo_record list
       \<Rightarrow> ('f, string + namespace_record \<times> string list \<times> repo_record list) io" where
  "supersede_each at [] new gone moved = return (Inr (new, gone, moved))"
| "supersede_each at (old # rest) new gone moved =
     ok_then (put_rec RETIRED (RETIRED_PREFIX @ nr_id old)
               \<lparr>rt_resource = nr_resource old, rt_superseded_by = nr_id new, rt_retired_at = at\<rparr>) (\<lambda>_.
     ok_then (list_rec REPOS) (\<lambda>recs.
     ok_then (rehome_repos (nr_id old) (nr_id new) recs moved) (\<lambda>moved. do {
       _ \<leftarrow> drop_events (nr_id old);
       ok_then (delete_rec NAMESPACES (nr_id old)) (\<lambda>_.
         supersede_each at rest (take_over old new) (gone @ [nr_id old]) moved)
     })))"

definition supersede ::
    "namespace_record \<Rightarrow> ('f, string + namespace_record \<times> string list \<times> repo_record list) io" where
  "supersede new =
     ok_then (list_rec NAMESPACES) (\<lambda>entries. do {
       at \<leftarrow> clock_now;
       ok_then (supersede_each at (filter (same_owner_elsewhere new) (map snd entries)) new [] [])
         (\<lambda>(new, gone, moved). return (Inr (new, sort gone, moved)))
     })"

section \<open>Forgetting touches only the orphan\<close>

text \<open>
  Nothing but namespace \<open>i\<close>'s own record, its repositories and its waiting events differs from the
  database \<open>d0\<close>, and of those nothing was changed, only removed.
\<close>

definition only_removed :: "string \<Rightarrow> store \<Rightarrow> store \<Rightarrow> bool" where
  "only_removed i d0 d \<longleftrightarrow>
     store_ok d \<and> jobs d = jobs d0 \<and> pending d = pending d0 \<and> deliveries d = deliveries d0
     \<and> retired d = retired d0 \<and> branches d = branches d0
     \<and> (\<forall>k. map_of (namespaces d) k = map_of (namespaces d0) k
            \<or> (k = i \<and> map_of (namespaces d) k = None))
     \<and> (\<forall>k. map_of (repos d) k = map_of (repos d0) k
            \<or> (map_of (repos d) k = None \<and> (\<exists>r. map_of (repos d0) k = Some r \<and> rr_namespace r = i)))
     \<and> (\<forall>k. map_of (outbox d) k = map_of (outbox d0) k
            \<or> (map_of (outbox d) k = None \<and> (\<exists>e. map_of (outbox d0) k = Some e \<and> event_of i e)))"

lemma only_removed_refl: "store_ok d \<Longrightarrow> only_removed i d d"
  by (simp add: only_removed_def)

lemma only_removed_outbox:
  "only_removed i d0 d \<Longrightarrow> (k, e) \<in> set (outbox d) \<Longrightarrow> event_of i e \<Longrightarrow>
   \<exists>e. map_of (outbox d0) k = Some e \<and> event_of i e"
  using tab.entries_lookup [of "outbox d" k e]
  by (auto simp: only_removed_def store_ok_def) metis

lemma only_removed_repos:
  "only_removed i d0 d \<Longrightarrow> (k, r) \<in> set (repos d) \<Longrightarrow> rr_namespace r = i \<Longrightarrow>
   \<exists>r. map_of (repos d0) k = Some r \<and> rr_namespace r = i"
  using tab.entries_lookup [of "repos d" k r]
  by (auto simp: only_removed_def store_ok_def) metis

lemma keeps_delete_event:
  "\<exists>e. map_of (outbox d0) k = Some e \<and> event_of i e \<Longrightarrow>
   keeps (on_db (only_removed i d0)) (delete_rec OUTBOX k)"
  unfolding delete_rec_def
  by (rule keeps_txn)
    (auto simp: only_removed_def OUTBOX_def store_ok_def map_of_tab_del intro: tab_ok_del)

lemma keeps_orphan_events: "keeps (on_db (only_removed i d0)) (drop_events i)"
proof -
  have loop: "keeps (on_db (only_removed i d0)) (for_each es (\<lambda>(key, e).
       if event_of i e then do { _ \<leftarrow> delete_rec OUTBOX key; return () } else return ()))"
    if "\<forall>(k, e)\<in>set es. event_of i e \<longrightarrow> (\<exists>e. map_of (outbox d0) k = Some e \<and> event_of i e)" for es
    using that
  proof (induction es)
    case (Cons x es)
    obtain k e where "x = (k, e)" by (cases x)
    with Cons show ?case by (auto intro!: keeps_rules keeps_delete_event)
  qed (simp add: keeps_rules)
  show ?thesis
    unfolding drop_events_def
    by (rule keeps_list_or_else; rule loop) (auto simp: OUTBOX_def dest: only_removed_outbox)
qed

lemma keeps_delete_repo:
  "\<exists>r. map_of (repos d0) k = Some r \<and> rr_namespace r = i \<Longrightarrow>
   keeps (on_db (only_removed i d0)) (delete_rec REPOS k)"
  unfolding delete_rec_def
  by (rule keeps_txn)
    (auto simp: only_removed_def REPOS_def store_ok_def map_of_tab_del intro: tab_ok_del)

lemma keeps_delete_repos_of:
  "\<forall>(k, r)\<in>set recs. rr_namespace r = i \<longrightarrow> (\<exists>r. map_of (repos d0) k = Some r \<and> rr_namespace r = i) \<Longrightarrow>
   keeps (on_db (only_removed i d0)) (delete_repos_of i recs n)"
  by (induction i recs n rule: delete_repos_of.induct)
    (auto intro!: keeps_rules keeps_delete_repo)

lemma keeps_delete_namespace:
  "keeps (on_db (only_removed i d0)) (delete_rec NAMESPACES i)"
  unfolding delete_rec_def
  by (rule keeps_txn)
    (auto simp: only_removed_def NAMESPACES_def store_ok_def map_of_tab_del intro: tab_ok_del)

lemma keeps_forget: "keeps (on_db (only_removed i d0)) (forget i)"
  unfolding forget_def forget_records_def
  by (intro keeps_rules keeps_list_ok_then keeps_delete_repos_of keeps_orphan_events
      keeps_delete_namespace) (auto simp: REPOS_def dest: only_removed_repos)

lemma forget_refuses:
  assumes "\<not> (\<exists>n. map_of (namespaces (db w)) i = Some n \<and> nr_is_orphaned n)"
  shows "db (snd (run_state (forget i) w)) = db w \<and> (\<exists>e. fst (run_state (forget i) w) = Inl e)"
proof -
  obtain r w1 where g: "run_state (get_rec NAMESPACES i) w = (r, w1)"
    by (cases "run_state (get_rec NAMESPACES i) w")
  then have "db w1 = db w \<and> (\<forall>v. r = Inr v \<longrightarrow> v = map_of (namespaces (db w)) i)"
    by (auto simp: get_rec_def NAMESPACES_def dest!: run_txn_cases)
  with g assms show ?thesis
    by (cases r; cases "map_of (namespaces (db w)) i") (auto simp: forget_def ok_then_def)
qed

lemma delete_rec_InrD:
  "run_state (delete_rec REPOS k) w = (Inr b, w') \<Longrightarrow> db w' = (db w)\<lparr>repos := tab_del k (repos (db w))\<rparr>"
  "run_state (delete_rec NAMESPACES k) w = (Inr b, w') \<Longrightarrow>
     db w' = (db w)\<lparr>namespaces := tab_del k (namespaces (db w))\<rparr>"
  by (auto simp: delete_rec_def REPOS_def NAMESPACES_def dest!: run_txn_InrD)

lemma list_rec_InrD:
  "run_state (list_rec t) w = (Inr es, w') \<Longrightarrow> es = fst t (db w) \<and> db w' = db w"
  by (auto simp: list_rec_def dest!: run_txn_InrD)

lemma get_rec_InrD:
  "run_state (get_rec t k) w = (Inr v, w') \<Longrightarrow> v = map_of (fst t (db w)) k \<and> db w' = db w"
  by (auto simp: get_rec_def dest!: run_txn_InrD)

lemma delete_repos_of_Inr:
  "run_state (delete_repos_of i recs n) w = (Inr m, w') \<Longrightarrow>
     map_of (repos (db w')) k =
       (if \<exists>r. (k, r) \<in> set recs \<and> rr_namespace r = i then None else map_of (repos (db w)) k)"
proof (induction i recs n arbitrary: w rule: delete_repos_of.induct)
  case (2 i key rec rest n)
  show ?case
  proof (cases "rr_namespace rec = i")
    case True
    with 2(3) obtain b w1 where r: "run_state (delete_rec REPOS key) w = (Inr b, w1)"
      "run_state (delete_repos_of i rest (if b then Suc n else n)) w1 = (Inr m, w')"
      by (auto elim!: ok_then_InrE)
    from delete_rec_InrD(1) [OF r(1)] 2(1) [OF True r(2)] True
    show ?thesis by (auto simp: map_of_tab_del)
  next
    case False
    with 2(2,3) show ?thesis by auto
  qed
qed simp

lemma repos_frame:
  "keeps (on_db (\<lambda>d. repos d = rs)) (drop_events i)"
proof -
  have "keeps (on_db (\<lambda>d. repos d = rs)) (delete_rec OUTBOX k)" for k
    unfolding delete_rec_def by (rule keeps_txn) (simp add: OUTBOX_def)
  then show ?thesis
    unfolding drop_events_def by (intro keeps_rules) (auto intro!: keeps_rules split: prod.split)
qed

lemma forget_Inr:
  assumes "run_state (forget i) w = (Inr f, w')" "store_ok (db w)"
  shows "map_of (namespaces (db w')) i = None
    \<and> (\<forall>k r. map_of (repos (db w')) k = Some r \<longrightarrow> rr_namespace r \<noteq> i)"
proof -
  from assms(1) obtain v w1 where 1: "run_state (get_rec NAMESPACES i) w = (Inr v, w1)"
    and r1: "run_state (case v of
       None \<Rightarrow> return (Inl (''this bridge holds no namespace `'' @ i @ ''`''))
     | Some ns \<Rightarrow>
         if \<not> nr_is_orphaned ns
         then return (Inl (''namespace `'' @ i @ ''` ('' @ as_str (nr_resource ns) @ '') is ''
                @ state_word (nr_state ns)
                @ '', not orphaned: only a namespace its VTC no longer has is forgotten''))
         else forget_records i ns) w1 = (Inr f, w')"
    unfolding forget_def by (elim ok_then_InrE)
  then obtain ns where "run_state (forget_records i ns) w1 = (Inr f, w')"
    by (cases v) (auto split: if_splits)
  then obtain recs w2 n w3 u w4 b where
    2: "run_state (list_rec REPOS) w1 = (Inr recs, w2)" and
    3: "run_state (delete_repos_of i recs 0) w2 = (Inr n, w3)" and
    4: "run_state (drop_events i) w3 = (u, w4)" and
    5: "run_state (delete_rec NAMESPACES i) w4 = (Inr b, w')"
    unfolding forget_records_def by (elim ok_then_InrE run_bindE) auto
  have recs: "recs = repos (db w)" "db w2 = db w"
    using list_rec_InrD [OF 2] get_rec_InrD [OF 1] by (simp_all add: REPOS_def)
  have "repos (db w4) = repos (db w3)"
    using keeps_run [OF repos_frame _ 4] by (simp add: on_db_def)
  then have r: "repos (db w') = repos (db w3)" "map_of (namespaces (db w')) i = None"
    using delete_rec_InrD(2) [OF 5] by (simp_all add: map_of_tab_del)
  have "rr_namespace x \<noteq> i" if "map_of (repos (db w')) k = Some x" for k x
    using that delete_repos_of_Inr [OF 3, of k] recs map_of_SomeD [of "repos (db w)" k x]
    by (auto simp: r split: if_splits)
  with r(2) show ?thesis by blast
qed

text \<open>C39: Forgetting removes an orphan and nothing else. Whatever transactions fail on the way, forgetting
  namespace \<open>i\<close> leaves every other namespace, every repository of another namespace, every result
  and every other namespace's event, every job and every retired id exactly as they were; a
  namespace that is not orphaned is refused and nothing at all changes; and when it reports
  success, the namespace and all its repositories are gone.\<close>

theorem forget_removes_only_the_orphan:
  assumes "store_ok (db w)" "run_state (forget i) w = (r, w')"
  shows "only_removed i (db w) (db w')
    \<and> (\<not> (\<exists>n. map_of (namespaces (db w)) i = Some n \<and> nr_is_orphaned n) \<longrightarrow>
         db w' = db w \<and> (\<exists>e. r = Inl e))
    \<and> (\<forall>f. r = Inr f \<longrightarrow> map_of (namespaces (db w')) i = None
         \<and> (\<forall>k x. map_of (repos (db w')) k = Some x \<longrightarrow> rr_namespace x \<noteq> i))"
  using keeps_run [OF keeps_forget _ assms(2), of "db w"] only_removed_refl [OF assms(1)]
    forget_refuses [of w i] forget_Inr [of i w _ w'] assms
  by (auto simp: on_db_def)

definition sample_orphan :: namespace_record where
  "sample_orphan = (namespace_pending ''gone'' (Resource ''github.com/acme''))
     \<lparr>nr_state := NsOrphaned, nr_orphaned_at := Some 1\<rparr>"

definition sample_world :: "unit world" where
  "sample_world = \<lparr>db = empty_store\<lparr>namespaces := [(''gone'', sample_orphan)],
       repos := [(''github.com#1'', repo_record_new ''gone'' (Resource ''github.com/acme/a'') 1),
                 (''github.com#2'', repo_record_new ''kept'' (Resource ''github.com/b/b'') 2)]\<rparr>,
     faults = [], link_faults = [], flush_faults = [], clock = 0, forge_state = (), carried = [],
     link_is_down = False, recovery_raised = False, ids_drawn = 0, spawned = [],
      route_cache = None, re_resolved = [], report_slots = []\<rparr>"

lemma forget_removes_only_the_orphan_witness:
  "\<exists>f w'. run_state (forget ''gone'') sample_world = (Inr f, w') \<and> fg_repos f = 1
     \<and> map_of (namespaces (db w')) ''gone'' = None
     \<and> map_of (repos (db w')) ''github.com#2'' = map_of (repos (db sample_world)) ''github.com#2''"
proof -
  have ok: "store_ok (db sample_world)"
    by (simp add: sample_world_def store_ok_def empty_store_def tab_ok_def)
  have "\<exists>f w'. run_state (forget ''gone'') sample_world = (Inr f, w') \<and> fg_repos f = 1"
    by (simp add: sample_world_def sample_orphan_def forget_def forget_records_def ok_then_def get_rec_def list_rec_def
        delete_rec_def txn_def NAMESPACES_def REPOS_def OUTBOX_def namespace_pending_def
        nr_is_orphaned_def repo_record_new_def drop_events_def or_else_def empty_store_def)
  then obtain f w' where r: "run_state (forget ''gone'') sample_world = (Inr f, w')" "fg_repos f = 1"
    by blast
  note p = forget_removes_only_the_orphan [OF ok r(1)]
  have "map_of (repos (db w')) ''github.com#2'' = map_of (repos (db sample_world)) ''github.com#2''
    \<or> (\<exists>x. map_of (repos (db sample_world)) ''github.com#2'' = Some x \<and> rr_namespace x = ''gone'')"
    using p by (auto simp only: only_removed_def)
  moreover have "map_of (repos (db sample_world)) ''github.com#2''
      = Some (repo_record_new ''kept'' (Resource ''github.com/b/b'') 2)"
    by (simp add: sample_world_def)
  ultimately have "map_of (repos (db w')) ''github.com#2'' = map_of (repos (db sample_world)) ''github.com#2''"
    by (auto simp: repo_record_new_def)
  moreover have "map_of (namespaces (db w')) ''gone'' = None" using p by blast
  ultimately
  show ?thesis using r by blast
qed

section \<open>The sweep removes only what is overdue\<close>

definition overdue :: "u64 \<Rightarrow> int \<Rightarrow> namespace_record \<Rightarrow> bool" where
  "overdue days now n \<longleftrightarrow> (\<exists>due. removal_due n days = Some due \<and> due \<le> now)"

definition overdue_at :: "u64 \<Rightarrow> int \<Rightarrow> store \<Rightarrow> string \<Rightarrow> bool" where
  "overdue_at days now d i \<longleftrightarrow> (\<exists>n. map_of (namespaces d) i = Some n \<and> overdue days now n)"

definition only_overdue_removed :: "u64 \<Rightarrow> int \<Rightarrow> store \<Rightarrow> store \<Rightarrow> bool" where
  "only_overdue_removed days now d0 d \<longleftrightarrow>
     store_ok d \<and> jobs d = jobs d0 \<and> pending d = pending d0 \<and> deliveries d = deliveries d0
     \<and> retired d = retired d0 \<and> branches d = branches d0
     \<and> (\<forall>k. map_of (namespaces d) k = map_of (namespaces d0) k
          \<or> (overdue_at days now d0 k \<and> map_of (namespaces d) k = None)
          \<or> (\<exists>n. map_of (namespaces d0) k = Some n \<and> nr_is_orphaned n
                \<and> map_of (namespaces d) k = Some (n\<lparr>nr_removal_warned_at := Some now\<rparr>)))
     \<and> (\<forall>k. map_of (repos d) k = map_of (repos d0) k
          \<or> (map_of (repos d) k = None
             \<and> (\<exists>r. map_of (repos d0) k = Some r \<and> overdue_at days now d0 (rr_namespace r))))
     \<and> (\<forall>k. map_of (outbox d) k = map_of (outbox d0) k
          \<or> (map_of (outbox d) k = None
             \<and> (\<exists>e i. map_of (outbox d0) k = Some e \<and> event_of i e \<and> overdue_at days now d0 i)))"

lemma only_overdue_removed_refl: "store_ok d \<Longrightarrow> only_overdue_removed days now d d"
  by (simp add: only_overdue_removed_def)

lemma only_overdue_removed_forget:
  assumes "only_overdue_removed days now d0 d1" "only_removed i d1 d2" "overdue_at days now d0 i"
  shows "only_overdue_removed days now d0 d2"
proof -
  have n: "map_of (namespaces d2) k = map_of (namespaces d0) k
      \<or> (overdue_at days now d0 k \<and> map_of (namespaces d2) k = None)
      \<or> (\<exists>n. map_of (namespaces d0) k = Some n \<and> nr_is_orphaned n
            \<and> map_of (namespaces d2) k = Some (n\<lparr>nr_removal_warned_at := Some now\<rparr>))" for k
  proof (cases "map_of (namespaces d2) k = map_of (namespaces d1) k")
    case True
    with assms(1) show ?thesis unfolding only_overdue_removed_def by metis
  next
    case False
    with assms(2) have "k = i" "map_of (namespaces d2) k = None" by (auto simp: only_removed_def)
    with assms(3) show ?thesis by simp
  qed
  have r: "map_of (repos d2) k = map_of (repos d0) k
      \<or> (map_of (repos d2) k = None
         \<and> (\<exists>r. map_of (repos d0) k = Some r \<and> overdue_at days now d0 (rr_namespace r)))" for k
    using assms unfolding only_overdue_removed_def only_removed_def by metis
  have o: "map_of (outbox d2) k = map_of (outbox d0) k
      \<or> (map_of (outbox d2) k = None
         \<and> (\<exists>e i. map_of (outbox d0) k = Some e \<and> event_of i e \<and> overdue_at days now d0 i))" for k
    using assms unfolding only_overdue_removed_def only_removed_def by metis
  show ?thesis
    using assms(1,2) n r o by (simp add: only_overdue_removed_def only_removed_def)
qed

lemma keeps_overdue_forget:
  assumes "overdue_at days now d0 i"
  shows "keeps (on_db (only_overdue_removed days now d0)) (forget i)"
  unfolding keeps_def
proof (intro allI impI)
  fix w :: "'a world"
  assume w: "on_db (only_overdue_removed days now d0) w"
  then have "on_db (only_removed i (db w)) w"
    by (simp add: on_db_def only_removed_refl only_overdue_removed_def)
  then have "only_removed i (db w) (db (snd (run_state (forget i) w)))"
    using keepsD [OF keeps_forget] by (auto simp: on_db_def)
  with w assms show "on_db (only_overdue_removed days now d0) (snd (run_state (forget i) w))"
    by (auto simp: on_db_def intro: only_overdue_removed_forget)
qed

lemma keeps_warn:
  assumes "map_of (namespaces d0) i = Some n" "nr_is_orphaned n"
  shows "keeps (on_db (only_overdue_removed days now d0))
    (map_rec NAMESPACES i (\<lambda>n. n\<lparr>nr_removal_warned_at := Some now\<rparr>))"
  unfolding map_rec_def update_rec_def
proof (rule keeps_txn)
  fix d assume d: "only_overdue_removed days now d0 d"
  show "only_overdue_removed days now d0
    (snd (case (map_option (\<lambda>n. n\<lparr>nr_removal_warned_at := Some now\<rparr>) (map_of (fst NAMESPACES d) i), ())
       of (Some v, out) \<Rightarrow> (out, snd NAMESPACES (tab_put i v) d)
        | (None, out) \<Rightarrow> (out, snd NAMESPACES (tab_del i) d)))"
  proof (cases "map_of (namespaces d) i")
    case None
    then have same: "map_of (tab_del i (namespaces d)) = map_of (namespaces d)"
      by (auto simp: fun_eq_iff map_of_tab_del)
    have "store_ok d" using d by (simp add: only_overdue_removed_def)
    then have "store_ok (d\<lparr>namespaces := tab_del i (namespaces d)\<rparr>)"
      by (simp add: store_ok_def tab_ok_del)
    then have "only_overdue_removed days now d0 (d\<lparr>namespaces := tab_del i (namespaces d)\<rparr>)"
      using d by (simp add: only_overdue_removed_def same)
    moreover have upd: "namespaces_update (tab_del i) d = d\<lparr>namespaces := tab_del i (namespaces d)\<rparr>"
      by simp
    ultimately show ?thesis by (simp add: None NAMESPACES_def upd)
  next
    case (Some m)
    let ?n = "n\<lparr>nr_removal_warned_at := Some now\<rparr>"
    have old: "map_of (namespaces d) i = Some n \<or> map_of (namespaces d) i = Some ?n"
      using d assms(1) Some unfolding only_overdue_removed_def by (metis option.distinct(1) option.inject)
    then have m: "m\<lparr>nr_removal_warned_at := Some now\<rparr> = ?n" using Some by auto
    have "store_ok d" using d by (simp add: only_overdue_removed_def)
    then have "store_ok (d\<lparr>namespaces := tab_put i ?n (namespaces d)\<rparr>)"
      by (simp add: store_ok_def tab_ok_put)
    then have "only_overdue_removed days now d0 (d\<lparr>namespaces := tab_put i ?n (namespaces d)\<rparr>)"
      using d assms unfolding only_overdue_removed_def by (elim conjE) (simp add: map_of_tab_put)
    moreover have upd: "namespaces_update (tab_put i ?n) d = d\<lparr>namespaces := tab_put i ?n (namespaces d)\<rparr>"
      by simp
    ultimately show ?thesis by (simp add: Some NAMESPACES_def m upd)
  qed
qed

lemma keeps_sweep_one:
  assumes "map_of (namespaces d0) i = Some n"
  shows "keeps (on_db (only_overdue_removed days now d0)) (sweep_one days now i n)"
proof (cases "removal_due n days")
  case None
  then show ?thesis by (simp add: sweep_one_def keeps_rules)
next
  case (Some due)
  then have o: "nr_is_orphaned n" by (simp add: removal_due_def split: if_splits)
  have "overdue_at days now d0 i" if "due \<le> now"
    using that assms Some by (auto simp: overdue_at_def overdue_def)
  then show ?thesis
    using Some keeps_warn [OF assms o] keeps_overdue_forget
    by (auto simp: sweep_one_def intro!: keeps_rules)
qed

text \<open>C40: The sweep never removes a namespace that is not an orphan past its retention. Whatever
  transactions fail, one sweep at time \<open>clock w\<close> leaves every bound or pending namespace as it was,
  removes an orphan only when its retention of \<open>days\<close> days has run out (in saturating 64-bit
  arithmetic), changes of the others at most the date of the last warning, and removes only
  repositories and waiting events of the namespaces it removes; jobs, results, pending flows and
  retired ids are untouched.\<close>

theorem sweep_removes_only_overdue_orphans:
  assumes "store_ok (db w)"
  shows "only_overdue_removed days (clock w) (db w) (db (snd (run_state (sweep_orphaned days) w)))"
proof -
  obtain r w1 where l: "run_state (list_rec NAMESPACES) w = (r, w1)"
    by (cases "run_state (list_rec NAMESPACES) w")
  have w1: "db w1 = db w" "clock w1 = clock w" "\<And>es. r = Inr es \<Longrightarrow> es = namespaces (db w)"
    using l by (auto simp: list_rec_def NAMESPACES_def txn_def split: list.splits bool.splits)
  let ?I = "on_db (only_overdue_removed days (clock w) (db w))"
  have start: "?I w1" using assms by (simp add: on_db_def w1 only_overdue_removed_refl)
  show ?thesis
  proof (cases r)
    case (Inl e)
    with l start show ?thesis by (simp add: sweep_orphaned_def on_db_def)
  next
    case (Inr es)
    have "keeps ?I (for_each xs (\<lambda>(i, ns). sweep_one days (clock w) i ns))"
      if "\<forall>(i, n)\<in>set xs. map_of (namespaces (db w)) i = Some n" for xs
      using that
    proof (induction xs)
      case (Cons x xs)
      then show ?case by (cases x) (auto intro!: keeps_rules keeps_sweep_one)
    qed (simp add: keeps_rules)
    moreover have "\<forall>(i, n)\<in>set es. map_of (namespaces (db w)) i = Some n"
      using w1(3) [OF Inr] assms tab.entries_lookup [of "namespaces (db w)"] by (auto simp: store_ok_def)
    ultimately have "?I (snd (run_state (for_each es (\<lambda>(i, ns). sweep_one days (clock w) i ns)) w1))"
      using start by (blast intro: keepsD)
    then show ?thesis
      using l Inr w1(2) by (simp add: sweep_orphaned_def on_db_def clock_now_def)
  qed
qed

definition sweep_world :: "unit world" where
  "sweep_world = sample_world\<lparr>clock := 3000000\<rparr>"

lemma sweep_removes_only_overdue_orphans_witness:
  "only_overdue_removed 30 3000000 (db sweep_world) (db (snd (run_state (sweep_orphaned 30) sweep_world)))
   \<and> map_of (repos (db (snd (run_state (sweep_orphaned 30) sweep_world)))) ''github.com#2''
     = map_of (repos (db sweep_world)) ''github.com#2''"
proof -
  have ok: "store_ok (db sweep_world)"
    by (simp add: sweep_world_def sample_world_def store_ok_def empty_store_def tab_ok_def)
  note t = sweep_removes_only_overdue_orphans [OF ok, of 30]
  have c: "clock sweep_world = 3000000" by (simp add: sweep_world_def)
  have "\<not> overdue_at 30 3000000 (db sweep_world) ''kept''"
    by (simp add: overdue_at_def sweep_world_def sample_world_def)
  moreover have "rr_namespace r = ''kept''"
    if "map_of (repos (db sweep_world)) ''github.com#2'' = Some r" for r
    using that by (auto simp: sweep_world_def sample_world_def repo_record_new_def split: if_splits)
  ultimately have "map_of (repos (db (snd (run_state (sweep_orphaned 30) sweep_world)))) ''github.com#2''
      = map_of (repos (db sweep_world)) ''github.com#2''"
    using t unfolding only_overdue_removed_def c by metis
  with t show ?thesis unfolding c by blast
qed

section \<open>A re-binding loses nothing\<close>

text \<open>
  Between the database \<open>d0\<close> and \<open>d\<close>, namespaces of \<open>S\<close> were taken over by \<open>new\<close>: one that is gone is
  retired in favour of \<open>new\<close>, a repository of one may have moved to \<open>new\<close>, a waiting event of one may
  have been dropped; nothing else differs.
\<close>

definition retired_to :: "string \<Rightarrow> store \<Rightarrow> string \<Rightarrow> bool" where
  "retired_to new d i \<longleftrightarrow>
     (\<exists>t. map_of (retired d) (RETIRED_PREFIX @ i) = Some t \<and> rt_superseded_by t = new)"

definition taken_over :: "string \<Rightarrow> string set \<Rightarrow> store \<Rightarrow> store \<Rightarrow> bool" where
  "taken_over new S d0 d \<longleftrightarrow>
     store_ok d \<and> jobs d = jobs d0 \<and> pending d = pending d0 \<and> deliveries d = deliveries d0
     \<and> branches d = branches d0
     \<and> (\<forall>k. map_of (namespaces d) k = map_of (namespaces d0) k
          \<or> (k \<in> S \<and> map_of (namespaces d) k = None \<and> retired_to new d k))
     \<and> (\<forall>k. map_of (repos d) k = map_of (repos d0) k
          \<or> (\<exists>r. map_of (repos d0) k = Some r \<and> rr_namespace r \<in> S
                \<and> map_of (repos d) k = Some (rehome new r)))
     \<and> (\<forall>k. map_of (retired d) k = map_of (retired d0) k
          \<or> (\<exists>i\<in>S. k = RETIRED_PREFIX @ i \<and> retired_to new d i))
     \<and> (\<forall>k. map_of (outbox d) k = map_of (outbox d0) k
          \<or> (map_of (outbox d) k = None
             \<and> (\<exists>e. map_of (outbox d0) k = Some e \<and> (\<exists>i\<in>S. event_of i e))))"

lemma taken_over_refl: "store_ok d \<Longrightarrow> taken_over new S d d"
  by (simp add: taken_over_def)

lemma taken_over_ok: "taken_over new S d0 d \<Longrightarrow> store_ok d"
  by (simp add: taken_over_def)

lemma rehome_rehome [simp]: "rehome n (rehome m r) = rehome n r"
  by (simp add: rehome_def)

lemma rehome_namespace [simp]: "rr_namespace (rehome n r) = n"
  by (simp add: rehome_def)

lemma retired_to_frame [simp]:
  "retired_to new (namespaces_update x d) i = retired_to new d i"
  "retired_to new (repos_update y d) i = retired_to new d i"
  "retired_to new (outbox_update z d) i = retired_to new d i"
  by (simp_all add: retired_to_def)

lemma taken_over_repos:
  assumes "taken_over new S d0 d" "map_of (repos d0) k = Some r0" "rr_namespace r0 \<in> S"
    "map_of (repos d) k = Some r"
  shows "taken_over new S d0 (repos_update (tab_put k (rehome new r)) d)"
proof -
  have "rehome new r = rehome new r0"
    using assms unfolding taken_over_def by (metis option.inject rehome_rehome)
  moreover have "store_ok (repos_update (tab_put k (rehome new r)) d)"
    using taken_over_ok [OF assms(1)] by (simp add: store_ok_def tab_ok_put)
  ultimately show ?thesis
    using assms unfolding taken_over_def by (elim conjE) (simp add: map_of_tab_put)
qed

lemma taken_over_repos_del:
  assumes "taken_over new S d0 d" "map_of (repos d) k = None"
  shows "taken_over new S d0 (repos_update (tab_del k) d)"
proof -
  have same: "map_of (tab_del k (repos d)) = map_of (repos d)"
    using assms(2) by (auto simp: fun_eq_iff map_of_tab_del)
  have "store_ok (repos_update (tab_del k) d)"
    using taken_over_ok [OF assms(1)] by (simp add: store_ok_def tab_ok_del)
  then show ?thesis using assms unfolding taken_over_def by (simp add: same)
qed

lemma taken_over_retire:
  assumes "taken_over new S d0 d" "i \<in> S" "rt_superseded_by t = new"
  shows "taken_over new S d0 (retired_update (tab_put (RETIRED_PREFIX @ i) t) d)"
proof -
  let ?d = "retired_update (tab_put (RETIRED_PREFIX @ i) t) d"
  have "store_ok ?d" using taken_over_ok [OF assms(1)] by (simp add: store_ok_def tab_ok_put)
  moreover have "retired_to new d k \<Longrightarrow> retired_to new ?d k" "retired_to new ?d i" for k
    using assms(3) by (auto simp: retired_to_def map_of_tab_put)
  ultimately show ?thesis
    using assms(1,2) unfolding taken_over_def
    by (elim conjE) (simp add: map_of_tab_put; blast)
qed

lemma taken_over_delete:
  assumes "taken_over new S d0 d" "i \<in> S" "retired_to new d i"
  shows "taken_over new S d0 (namespaces_update (tab_del i) d)"
proof -
  have "store_ok (namespaces_update (tab_del i) d)"
    using taken_over_ok [OF assms(1)] by (simp add: store_ok_def tab_ok_del)
  then show ?thesis
    using assms unfolding taken_over_def by (elim conjE) (simp add: map_of_tab_del)
qed

lemma taken_over_outbox:
  assumes "taken_over new S d0 d" "i \<in> S" "map_of (outbox d0) k = Some e" "event_of i e"
  shows "taken_over new S d0 (outbox_update (tab_del k) d)"
proof -
  have "store_ok (outbox_update (tab_del k) d)"
    using taken_over_ok [OF assms(1)] by (simp add: store_ok_def tab_ok_del)
  then show ?thesis
    using assms unfolding taken_over_def by (elim conjE) (simp add: map_of_tab_del; blast)
qed

text \<open>While namespace \<open>i\<close> is being taken over, its retirement is on record.\<close>

definition taking :: "string \<Rightarrow> string set \<Rightarrow> store \<Rightarrow> string \<Rightarrow> store \<Rightarrow> bool" where
  "taking new S d0 i d \<longleftrightarrow> taken_over new S d0 d \<and> retired_to new d i"

lemma keeps_rehome_repos:
  assumes "new \<notin> S" "i \<in> S"
    "\<forall>(k, r)\<in>set recs. rr_namespace r = i \<longrightarrow> (\<exists>r0. map_of (repos d0) k = Some r0 \<and> rr_namespace r0 \<in> S)"
  shows "keeps (on_db (taking new S d0 i)) (rehome_repos i new recs moved)"
  using assms(3)
proof (induction recs arbitrary: moved)
  case (Cons x recs)
  obtain k r where x: "x = (k, r)" by (cases x)
  have "keeps (on_db (taking new S d0 i)) (update_rec REPOS k (\<lambda>r. case r of
          None \<Rightarrow> (None, None) | Some r \<Rightarrow> (Some (rehome new r), Some (rehome new r))))"
    if mine: "rr_namespace r = i"
    unfolding update_rec_def
  proof (rule keeps_txn)
    fix d assume d: "taking new S d0 i d"
    obtain r0 where r0: "map_of (repos d0) k = Some r0" "rr_namespace r0 \<in> S"
      using Cons.prems mine x by auto
    show "taking new S d0 i (snd (case (case map_of (fst REPOS d) k of
              None \<Rightarrow> (None, None) | Some r \<Rightarrow> (Some (rehome new r), Some (rehome new r)))
            of (Some v, out) \<Rightarrow> (out, snd REPOS (tab_put k v) d)
             | (None, out) \<Rightarrow> (out, snd REPOS (tab_del k) d)))"
      using d taken_over_repos_del [of new S d0 d k] taken_over_repos [of new S d0 d k, OF _ r0]
      by (cases "map_of (repos d) k") (simp_all add: REPOS_def taking_def)
  qed
  with Cons x show ?case by (auto intro!: keeps_rules)
qed (simp add: keeps_rules)

lemma keeps_supersede_events:
  assumes "i \<in> S"
  shows "keeps (on_db (taking new S d0 i)) (drop_events i)"
proof -
  have del: "keeps (on_db (taking new S d0 i)) (delete_rec OUTBOX k)"
    if "map_of (outbox d0) k = Some e" "event_of i e" for k e
    unfolding delete_rec_def
  proof (rule keeps_txn)
    fix d assume "taking new S d0 i d"
    then show "taking new S d0 i (snd (map_of (fst OUTBOX d) k \<noteq> None, snd OUTBOX (tab_del k) d))"
      using taken_over_outbox [OF _ assms that] by (simp add: taking_def OUTBOX_def) 
  qed
  have loop: "keeps (on_db (taking new S d0 i)) (for_each es (\<lambda>(key, e).
       if event_of i e then do { _ \<leftarrow> delete_rec OUTBOX key; return () } else return ()))"
    if "\<forall>(k, e)\<in>set es. map_of (outbox d0) k = Some e" for es
    using that
  proof (induction es)
    case (Cons x es)
    obtain k e where "x = (k, e)" by (cases x)
    with Cons show ?case by (auto intro!: keeps_rules del)
  qed (simp add: keeps_rules)
  have entry: "map_of (outbox d0) k = Some e" if "taking new S d0 i d" "(k, e) \<in> set (outbox d)" for d k e
  proof -
    have "map_of (outbox d) k = Some e"
      using that tab.entries_lookup [of "outbox d" k e] by (simp add: taking_def taken_over_def store_ok_def)
    with that(1) show ?thesis
      unfolding taking_def taken_over_def by (metis option.distinct(1))
  qed
  show ?thesis
    unfolding drop_events_def
    by (rule keeps_list_or_else; rule loop) (auto simp: OUTBOX_def intro: entry)
qed

lemma triple_retire:
  assumes "i \<in> S" "rt_superseded_by t = new"
  shows "triple (on_db (taken_over new S d0)) (put_rec RETIRED (RETIRED_PREFIX @ i) t)
    (\<lambda>r. case r of Inl _ \<Rightarrow> on_db (taken_over new S d0) | Inr _ \<Rightarrow> on_db (taking new S d0 i))"
proof (rule tripleI)
  fix w a w'
  assume w: "on_db (taken_over new S d0) w"
    and r: "run_state (put_rec RETIRED (RETIRED_PREFIX @ i) t) w = (a, w')"
  from taken_over_retire [OF w [unfolded on_db_def] assms]
  have "taking new S d0 i (retired_update (tab_put (RETIRED_PREFIX @ i) t) (db w))"
    using assms(2) by (simp add: taking_def retired_to_def map_of_tab_put)
  with w r show "(case a of Inl _ \<Rightarrow> on_db (taken_over new S d0)
      | Inr _ \<Rightarrow> on_db (taking new S d0 i)) w'"
    by (auto simp: put_rec_def RETIRED_def on_db_def dest!: run_txn_cases)
qed

lemma triple_taking_list:
  "triple (on_db (taking new S d0 i)) (list_rec REPOS)
     (\<lambda>r. case r of Inl _ \<Rightarrow> on_db (taken_over new S d0)
        | Inr recs \<Rightarrow> (\<lambda>w. on_db (taking new S d0 i) w \<and> recs = repos (db w)))"
  by (rule tripleI)
    (auto simp: list_rec_def on_db_def REPOS_def taking_def dest!: run_txn_cases split: sum.splits)

lemma keeps_weaken_triple:
  "keeps J m \<Longrightarrow> (\<And>w. P w \<Longrightarrow> J w) \<Longrightarrow> (\<And>r w. J w \<Longrightarrow> Q r w) \<Longrightarrow> triple P m Q"
  unfolding keeps_triple by (rule triple_conseq)

lemma keeps_supersede_each:
  assumes "new = nr_id n" "new \<notin> S" "\<forall>x\<in>set olds. nr_id x \<in> S"
  shows "keeps (on_db (taken_over new S d0) :: 'f world \<Rightarrow> bool) (supersede_each at olds n gone moved)"
  using assms(1,3)
proof (induction olds arbitrary: n gone moved)
  case (Cons old olds)
  let ?K = "on_db (taken_over new S d0) :: 'f world \<Rightarrow> bool"
    and ?J = "on_db (taking new S d0 (nr_id old)) :: 'f world \<Rightarrow> bool"
  have old: "nr_id old \<in> S" using Cons.prems by simp
  have rest: "triple ?K (supersede_each at olds (take_over old n) (gone @ [nr_id old]) m) (\<lambda>_. ?K)" for m
    using Cons.IH [of "take_over old n"] Cons.prems by (simp add: keeps_triple [symmetric] take_over_def)
  have weak: "?J w \<Longrightarrow> ?K w" for w by (simp add: on_db_def taking_def)
  have del: "keeps ?J (delete_rec NAMESPACES (nr_id old))"
    unfolding delete_rec_def
    by (rule keeps_txn) (simp add: NAMESPACES_def taking_def taken_over_delete [OF _ old])
  have tail: "triple ?J (do { _ \<leftarrow> drop_events (nr_id old);
      ok_then (delete_rec NAMESPACES (nr_id old)) (\<lambda>_.
        supersede_each at olds (take_over old n) (gone @ [nr_id old]) m) }) (\<lambda>_. ?K)" for m
  proof (rule triple_bind)
    show "triple ?J (drop_events (nr_id old)) (\<lambda>_. ?J)"
      using keeps_supersede_events [OF old] unfolding keeps_triple .
    show "triple ?J (ok_then (delete_rec NAMESPACES (nr_id old)) (\<lambda>_.
        supersede_each at olds (take_over old n) (gone @ [nr_id old]) m)) (\<lambda>_. ?K)"
      by (rule triple_ok_then [where R = "\<lambda>_. ?K"], rule keeps_weaken_triple [OF del])
        (auto intro: weak rest split: sum.split)
  qed
  have move: "triple (\<lambda>w. ?J w \<and> recs = repos (db w)) (rehome_repos (nr_id old) new recs moved)
      (\<lambda>r. case r of Inl _ \<Rightarrow> ?K | Inr _ \<Rightarrow> ?J)" for recs
  proof (rule tripleI)
    fix w a w'
    assume w: "?J w \<and> recs = repos (db w)" and r: "run_state (rehome_repos (nr_id old) new recs moved) w = (a, w')"
    have "\<exists>r0. map_of (repos d0) k = Some r0 \<and> rr_namespace r0 \<in> S"
      if "(k, r) \<in> set recs" "rr_namespace r = nr_id old" for k r
    proof -
      have t: "taken_over new S d0 (db w)" using w by (simp add: on_db_def taking_def)
      then have "map_of (repos (db w)) k = Some r"
        using that w tab.entries_lookup [of "repos (db w)" k r] by (simp add: taken_over_def store_ok_def)
      moreover have "rr_namespace r \<in> S" using that old by simp
      ultimately show ?thesis
        using t assms(2) unfolding taken_over_def by (metis option.inject rehome_namespace)
    qed
    then have "keeps ?J (rehome_repos (nr_id old) new recs moved)"
      by (intro keeps_rehome_repos [OF assms(2) old]) auto
    with w r have "?J w'" by (auto dest: keeps_run)
    then show "(case a of Inl _ \<Rightarrow> ?K | Inr _ \<Rightarrow> ?J) w'" by (auto intro: weak split: sum.split)
  qed
  have retire: "triple ?K (put_rec RETIRED (RETIRED_PREFIX @ nr_id old)
      \<lparr>rt_resource = nr_resource old, rt_superseded_by = new, rt_retired_at = at\<rparr>)
      (\<lambda>r. case r of Inl _ \<Rightarrow> ?K | Inr _ \<Rightarrow> ?J)"
    by (rule triple_retire [OF old]) simp
  show ?case
    unfolding keeps_triple supersede_each.simps Cons.prems(1) [symmetric]
    by (rule triple_ok_then, rule retire, rule triple_ok_then, rule triple_taking_list,
        rule triple_ok_then, rule move, rule tail)
qed (simp add: keeps_rules)

section \<open>What a complete re-binding leaves\<close>

lemma update_repos_InrD:
  "run_state (update_rec REPOS k (\<lambda>r. case r of
      None \<Rightarrow> (None, None) | Some r \<Rightarrow> (Some (rehome new r), Some (rehome new r)))) w = (Inr m, w') \<Longrightarrow>
   map_of (repos (db w')) j = (if j = k then map_option (rehome new) (map_of (repos (db w)) k)
     else map_of (repos (db w)) j)"
  by (cases "map_of (repos (db w)) k")
    (auto simp: update_rec_def REPOS_def map_of_tab_put map_of_tab_del dest!: run_txn_InrD)

lemma rehome_repos_Inr:
  "run_state (rehome_repos i new recs moved) w = (Inr m, w') \<Longrightarrow>
   map_of (repos (db w')) k =
     (if \<exists>r. (k, r) \<in> set recs \<and> rr_namespace r = i then map_option (rehome new) (map_of (repos (db w)) k)
      else map_of (repos (db w)) k)"
proof (induction i new recs moved arbitrary: w rule: rehome_repos.induct)
  case (2 i new key rec rest moved)
  show ?case
  proof (cases "rr_namespace rec = i")
    case True
    with 2(3) obtain a w1 where r:
      "run_state (update_rec REPOS key (\<lambda>r. case r of
          None \<Rightarrow> (None, None) | Some r \<Rightarrow> (Some (rehome new r), Some (rehome new r)))) w = (Inr a, w1)"
      "run_state (rehome_repos i new rest (moved @ (case a of None \<Rightarrow> [] | Some r \<Rightarrow> [r]))) w1 = (Inr m, w')"
      by (auto elim!: ok_then_InrE)
    from update_repos_InrD [OF r(1), of k] 2(2) [OF _ r(2)] True
    show ?thesis by (auto simp: option.map_comp o_def)
  next
    case False
    with 2(1) 2(3) show ?thesis by auto
  qed
qed simp

lemma keeps_gone:
  "keeps (on_db (\<lambda>d. map_of (namespaces d) i = None)) (supersede_each at olds n gone moved)"
proof -
  have "keeps (on_db (\<lambda>d. map_of (namespaces d) i = None)) (rehome_repos j new recs m)" for j new recs m
    by (induction j new recs m rule: rehome_repos.induct)
      (auto intro!: keeps_rules keeps_txn simp: update_rec_def REPOS_def split: option.split prod.split)
  moreover have "keeps (on_db (\<lambda>d. map_of (namespaces d) i = None)) (drop_events j)" for j
    unfolding drop_events_def
    by (intro keeps_rules) (auto intro!: keeps_rules keeps_txn simp: delete_rec_def OUTBOX_def split: prod.split)
  ultimately show ?thesis
    by (induction at olds n gone moved rule: supersede_each.induct)
      (auto intro!: keeps_rules keeps_txn simp: put_rec_def delete_rec_def RETIRED_def NAMESPACES_def map_of_tab_del)
qed

lemma keeps_not_of:
  assumes "nr_id n \<noteq> i"
  shows "keeps (on_db (\<lambda>d. \<forall>k r. map_of (repos d) k = Some r \<longrightarrow> rr_namespace r \<noteq> i) :: 'f world \<Rightarrow> bool)
    (supersede_each at olds n gone moved)"
proof -
  let ?I = "\<lambda>d. \<forall>k r. map_of (repos d) k = Some r \<longrightarrow> rr_namespace r \<noteq> i"
  let ?J = "on_db ?I :: 'f world \<Rightarrow> bool"
  have upd: "keeps ?J (update_rec REPOS key (\<lambda>r. case r of
      None \<Rightarrow> (None, None) | Some r \<Rightarrow> (Some (rehome new r), Some (rehome new r))))" if "new \<noteq> i" for new key
    unfolding update_rec_def
    by (rule keeps_txn)
      (use that in \<open>auto simp: REPOS_def map_of_tab_put map_of_tab_del split: option.split\<close>)
  have move: "keeps ?J (rehome_repos j new recs m)" if "new \<noteq> i" for j new recs m
    using that
    by (induction j new recs m rule: rehome_repos.induct) (auto intro!: keeps_rules upd)
  have evs: "keeps ?J (drop_events j)" for j
    by (rule keeps_frame [where f = repos, OF repos_frame])
  have puts: "keeps ?J (put_rec RETIRED k t)" "keeps ?J (delete_rec NAMESPACES k)" for k t
    unfolding put_rec_def delete_rec_def RETIRED_def NAMESPACES_def by (rule keeps_txn; simp)+
  show ?thesis
    using assms
  proof (induction olds arbitrary: n gone moved)
    case (Cons old olds)
    have rest: "keeps ?J (supersede_each at olds (take_over old n) g m)" for g m
      using Cons by (simp add: take_over_def)
    show ?case
      unfolding supersede_each.simps
      by (intro keeps_rules rest puts evs move) (rule Cons.prems)
  qed (simp add: keeps_rules)
qed

lemma supersede_each_Inr:
  assumes "run_state (supersede_each at olds n gone moved) w = (Inr (n', gone', moved'), w')"
    "\<forall>x\<in>set olds. nr_id x \<noteq> nr_id n"
  shows "gone' = gone @ map nr_id olds \<and> nr_id n' = nr_id n
    \<and> nr_managed n' = nr_managed n \<union> \<Union> (nr_managed ` set olds)
    \<and> (\<forall>x\<in>set olds. map_of (namespaces (db w')) (nr_id x) = None
         \<and> (\<forall>k r. map_of (repos (db w')) k = Some r \<longrightarrow> rr_namespace r \<noteq> nr_id x))"
  using assms
proof (induction olds arbitrary: n gone moved w)
  case (Cons old olds)
  let ?N = "take_over old n"
  from Cons.prems(1) obtain u w1 recs w2 m w3 v w4 b w5 where
    2: "run_state (list_rec REPOS) w1 = (Inr recs, w2)" and
    3: "run_state (rehome_repos (nr_id old) (nr_id n) recs moved) w2 = (Inr m, w3)" and
    4: "run_state (drop_events (nr_id old)) w3 = (v, w4)" and
    5: "run_state (delete_rec NAMESPACES (nr_id old)) w4 = (Inr b, w5)" and
    6: "run_state (supersede_each at olds ?N (gone @ [nr_id old]) m) w5 = (Inr (n', gone', moved'), w')"
    unfolding supersede_each.simps by (elim ok_then_InrE run_bindE)
  have N: "nr_id ?N = nr_id n" "nr_managed ?N = nr_managed n \<union> nr_managed old"
    by (simp_all add: take_over_def)
  have ne: "nr_id old \<noteq> nr_id n" using Cons.prems(2) by simp
  have recs: "recs = repos (db w2)" using list_rec_InrD [OF 2] by (simp add: REPOS_def)
  have "repos (db w4) = repos (db w3)" using keeps_run [OF repos_frame _ 4] by (simp add: on_db_def)
  then have r5: "repos (db w5) = repos (db w3)" "map_of (namespaces (db w5)) (nr_id old) = None"
    using delete_rec_InrD(2) [OF 5] by (simp_all add: map_of_tab_del)
  have none: "rr_namespace x \<noteq> nr_id old" if "map_of (repos (db w5)) k = Some x" for k x
    using that rehome_repos_Inr [OF 3, of k] recs ne map_of_SomeD [of "repos (db w2)" k x]
    by (auto simp: r5 split: if_splits)
  have "map_of (namespaces (db w')) (nr_id old) = None"
    using keeps_run [OF keeps_gone _ 6] r5(2) by (simp add: on_db_def)
  moreover have "\<forall>k r. map_of (repos (db w')) k = Some r \<longrightarrow> rr_namespace r \<noteq> nr_id old"
    using keeps_run [OF keeps_not_of _ 6, of "nr_id old"] none ne N(1) unfolding on_db_def by metis
  moreover note Cons.IH [OF 6]
  ultimately show ?case using Cons.prems(2) N by auto
qed auto

text \<open>C38: A re-binding loses nothing of the forge-side state. Whatever transactions fail on the way, when
  namespace \<open>n\<close> takes over the earlier namespaces of its owner, a namespace that disappears is one of
  them and its id is already retired in favour of \<open>n\<close> (retired first), every repository record is
  still there, unchanged or moved to \<open>n\<close>, and everything of other namespaces, every job, flow and
  result is untouched. When it reports success, the earlier namespaces are gone, no repository still
  belongs to one of them, and \<open>n\<close> manages everything they managed.\<close>

theorem rebinding_loses_nothing:
  fixes w :: "'f world"
  assumes "store_ok (db w)"
    "S = nr_id ` {x \<in> snd ` set (namespaces (db w)). same_owner_elsewhere n x}"
    "run_state (supersede n) w = (r, w')"
  shows "taken_over (nr_id n) S (db w) (db w')
    \<and> (\<forall>n' gone moved. r = Inr (n', gone, moved) \<longrightarrow>
         set gone = S
         \<and> (\<forall>i\<in>S. map_of (namespaces (db w')) i = None
              \<and> (\<forall>k x. map_of (repos (db w')) k = Some x \<longrightarrow> rr_namespace x \<noteq> i))
         \<and> nr_managed n' = nr_managed n
              \<union> \<Union> (nr_managed ` {x \<in> snd ` set (namespaces (db w)). same_owner_elsewhere n x}))"
proof -
  have self: "nr_id n \<notin> S" using assms(2) by (auto simp: same_owner_elsewhere_def)
  obtain l w1 where l: "run_state (list_rec NAMESPACES) w = (l, w1)"
    by (cases "run_state (list_rec NAMESPACES) w")
  then have w1: "db w1 = db w" "\<And>es. l = Inr es \<Longrightarrow> es = namespaces (db w)"
    by (auto simp: list_rec_def NAMESPACES_def dest!: run_txn_cases)
  let ?olds = "filter (same_owner_elsewhere n) (map snd (namespaces (db w)))"
  have olds: "nr_id ` set ?olds = S" using assms(2) by auto
  show ?thesis
  proof (cases l)
    case (Inl e)
    with l assms(3) w1(1) have "r = Inl e" "db w' = db w"
      by (auto simp: supersede_def ok_then_def)
    with taken_over_refl [OF assms(1)] show ?thesis by simp
  next
    case (Inr es)
    obtain at where "run_state clock_now w1 = (at, w1)" by (simp add: clock_now_def)
    then have run: "run_state (ok_then (supersede_each at ?olds n [] [])
        (\<lambda>(new, gone, moved). return (Inr (new, sort gone, moved)))) w1 = (r, w')"
      using l Inr w1(2) [OF Inr] assms(3) by (simp add: supersede_def ok_then_def)
    have keeps_each: "keeps (on_db (taken_over (nr_id n) S (db w)) :: 'f world \<Rightarrow> bool)
        (supersede_each at ?olds n [] [])"
      by (rule keeps_supersede_each [OF refl self]) (use olds in auto)
    have keeps_all: "keeps (on_db (taken_over (nr_id n) S (db w)) :: 'f world \<Rightarrow> bool)
        (ok_then (supersede_each at ?olds n [] []) (\<lambda>(new, gone, moved). return (Inr (new, sort gone, moved))))"
      by (intro keeps_ok_then keeps_each keeps_prod keeps_return)
    have "on_db (taken_over (nr_id n) S (db w)) w1"
      by (simp add: on_db_def w1 taken_over_refl assms(1))
    then have K: "taken_over (nr_id n) S (db w) (db w')"
      using keeps_run [OF keeps_all _ run] by (simp add: on_db_def)
    have "set gone = S
         \<and> (\<forall>i\<in>S. map_of (namespaces (db w')) i = None
              \<and> (\<forall>k x. map_of (repos (db w')) k = Some x \<longrightarrow> rr_namespace x \<noteq> i))
         \<and> nr_managed n' = nr_managed n
              \<union> \<Union> (nr_managed ` {x \<in> snd ` set (namespaces (db w)). same_owner_elsewhere n x})"
      if "r = Inr (n', gone, moved)" for n' gone moved
    proof -
      from run that obtain g m where
        e: "run_state (supersede_each at ?olds n [] []) w1 = (Inr (n', g, m), w')" "gone = sort g"
        by (auto elim!: ok_then_InrE)
      have "\<forall>x\<in>set ?olds. nr_id x \<noteq> nr_id n" by (auto simp: same_owner_elsewhere_def)
      from supersede_each_Inr [OF e(1) this] olds e(2) show ?thesis by auto
    qed
    with K show ?thesis by blast
  qed
qed

definition earlier_namespace :: namespace_record where
  "earlier_namespace = (namespace_pending ''old'' (Resource ''github.com/acme''))
     \<lparr>nr_state := NsBound, nr_managed := {7}\<rparr>"

definition rebinding_world :: "unit world" where
  "rebinding_world = sample_world\<lparr>db := empty_store\<lparr>namespaces := [(''old'', earlier_namespace)],
     repos := [(''github.com#7'', repo_record_new ''old'' (Resource ''github.com/acme/a'') 7)]\<rparr>\<rparr>"

lemma rebinding_loses_nothing_witness:
  "\<exists>n' moved w'.
     run_state (supersede (namespace_pending ''new'' (Resource ''github.com/acme''))) rebinding_world
       = (Inr (n', [''old''], moved), w')
     \<and> nr_managed n' = {7} \<and> map_of (namespaces (db w')) ''old'' = None
     \<and> retired_to ''new'' (db w') ''old''"
proof -
  let ?n = "namespace_pending ''new'' (Resource ''github.com/acme'')"
  have ok: "store_ok (db rebinding_world)"
    by (simp add: rebinding_world_def store_ok_def empty_store_def tab_ok_def)
  have same: "same_owner_elsewhere ?n earlier_namespace"
    by (simp add: same_owner_elsewhere_def earlier_namespace_def namespace_pending_def)
  have S: "{''old''} = nr_id ` {x \<in> snd ` set (namespaces (db rebinding_world)). same_owner_elsewhere ?n x}"
    using same by (auto simp: rebinding_world_def) (simp_all add: earlier_namespace_def namespace_pending_def)
  have "\<exists>n' moved w'. run_state (supersede ?n) rebinding_world = (Inr (n', [''old''], moved), w')"
    using same
    by (simp add: supersede_def rebinding_world_def sample_world_def ok_then_def list_rec_def put_rec_def
        delete_rec_def update_rec_def txn_def NAMESPACES_def REPOS_def OUTBOX_def RETIRED_def clock_now_def
        drop_events_def or_else_def empty_store_def repo_record_new_def)
      (simp add: earlier_namespace_def namespace_pending_def)
  then obtain n' moved w' where r: "run_state (supersede ?n) rebinding_world = (Inr (n', [''old''], moved), w')"
    by blast
  have m: "{x \<in> snd ` set (namespaces (db rebinding_world)). same_owner_elsewhere ?n x} = {earlier_namespace}"
    using same by (auto simp: rebinding_world_def)
  note p = rebinding_loses_nothing [OF ok S r, unfolded m]
  from p have gone: "map_of (namespaces (db w')) ''old'' = None" by simp
  from p have "nr_managed n' = {7}"
    by (simp add: earlier_namespace_def namespace_pending_def)
  moreover have "map_of (namespaces (db rebinding_world)) ''old'' \<noteq> None" by (simp add: rebinding_world_def)
  moreover have "map_of (namespaces (db w')) ''old'' = map_of (namespaces (db rebinding_world)) ''old''
      \<or> retired_to (nr_id ?n) (db w') ''old''"
    using p unfolding taken_over_def by blast
  ultimately show ?thesis using r gone by (auto simp: namespace_pending_def)
qed

end
