(* ===== verification/Bridge_Config.thy ===== *)
theory Bridge_Config
  imports Forge_Model Bootstrap
begin

text \<open>
  The operator's configuration of the bridge (\<open>vgi-bridge/src/config.rs\<close>): the settings the other
  parts read, the layered role maps, and the check of a configuration before the bridge starts.
  Reading TOML and the environment is the libraries'; a URL is its parsed scheme and host.
\<close>

section \<open>The settings\<close>

record url =
  u_scheme :: string
  u_host :: "string option"

text \<open>An error is the chain of contexts, outermost first.\<close>

type_synonym anyhow = "string list"

record role_map_config =
  rmc_own :: "forge_role option"
  rmc_maintain :: "forge_role option"
  rmc_commit :: "forge_role option"

definition role_map_config_default :: role_map_config where
  "role_map_config_default = \<lparr>rmc_own = None, rmc_maintain = None, rmc_commit = None\<rparr>"

text \<open>A \<open>BTreeMap\<close> is its entries in key order. A repository's settings are its overrides.\<close>

type_synonym repo_config = "role_map_config option"

record namespace_config =
  nc_role_map :: "role_map_config option"
  nc_repos :: "(string \<times> repo_config) list"
  nc_resign_dependabot :: bool

record github_config =
  gc_host :: string
  gc_app_name :: string
  gc_app_owner :: string
  gc_bridge_checks :: bool
  gc_dependabot_login :: string
  gc_dependabot_id :: u64
  gc_platform_keyring_file :: "string option"
  gc_role_map :: "role_map_config option"
  gc_namespaces :: "(string \<times> namespace_config) list"

record forgejo_config =
  fc_base_url :: url
  fc_runs_on :: "string option"
  fc_rotate_token_days :: "u64 option"
  fc_role_map :: "role_map_config option"
  fc_namespaces :: "(string \<times> namespace_config) list"

record vta_config =
  vc_context :: string
  vc_credential_file :: "string option"
  vc_credential_env :: "string option"
  vc_mediator_did :: "string option"
  vc_url :: "url option"
  vc_did :: "string option"
  vc_signing_switch_after_secs :: u64

record bridge_config =
  bc_vtc_did :: string
  bc_trust_registry_did :: string
  bc_mediator_did :: string
  bc_public_url :: url
  bc_master_key_file :: "string option"
  bc_master_key_env :: "string option"
  bc_vta :: "vta_config option"
  bc_max_job_age_secs :: u64
  bc_max_body_bytes :: u64
  bc_resend_secs :: u64
  bc_did_cache_ttl_secs :: u64
  bc_flow_ttl_secs :: u64
  bc_orphan_retention_days :: u64
  bc_required_approvals :: u8
  bc_max_commits :: nat
  bc_max_signers :: nat
  bc_git :: string
  bc_max_fetch_bytes :: u64
  bc_committer_name :: string
  bc_committer_email :: string
  bc_role_map :: role_map_config
  bc_github :: "github_config list"
  bc_forgejo :: "forgejo_config list"

definition MIN_ORPHAN_RETENTION_DAYS :: u64 where
  "MIN_ORPHAN_RETENTION_DAYS = 30"

section \<open>Layered role maps\<close>

definition first_of :: "'a option \<Rightarrow> 'a option \<Rightarrow> 'a option" where
  "first_of a b = (case a of None \<Rightarrow> b | Some _ \<Rightarrow> a)"

definition role_map_over :: "role_map_config \<Rightarrow> role_map_config \<Rightarrow> role_map_config" where
  "role_map_over self base =
     \<lparr>rmc_own = first_of (rmc_own self) (rmc_own base),
      rmc_maintain = first_of (rmc_maintain self) (rmc_maintain base),
      rmc_commit = first_of (rmc_commit self) (rmc_commit base)\<rparr>"

definition unwrap_or :: "'a option \<Rightarrow> 'a \<Rightarrow> 'a" where
  "unwrap_or v d = (case v of None \<Rightarrow> d | Some x \<Rightarrow> x)"

definition role_map_resolve :: "role_map_config option list \<Rightarrow> anyhow + role_map" where
  "role_map_resolve layers =
     (let merged = foldl (\<lambda>acc l. role_map_over l acc) role_map_config_default
                     (List.map_filter id layers)
      in case role_map_new (unwrap_or (rmc_own merged) (map_own default_role_map))
                (unwrap_or (rmc_maintain merged) (map_maintain default_role_map))
                (unwrap_or (rmc_commit merged) (map_commit default_role_map)) of
           Inl e \<Rightarrow> Inl [e]
         | Inr m \<Rightarrow> Inr m)"

definition owner_key :: "github_config \<Rightarrow> string" where
  "owner_key g = to_ascii_lowercase (gc_app_owner g)"

definition resign_dependabot :: "github_config \<Rightarrow> string \<Rightarrow> bool" where
  "resign_dependabot g ow =
     (case map_of (gc_namespaces g) (to_ascii_lowercase ow) of
        None \<Rightarrow> True | Some n \<Rightarrow> nc_resign_dependabot n)"

definition forgejo_host :: "forgejo_config \<Rightarrow> anyhow + string" where
  "forgejo_host f =
     (case u_host (fc_base_url f) of
        None \<Rightarrow> Inl [''Forgejo base_url has no host'']
      | Some h \<Rightarrow> Inr (to_ascii_lowercase h))"

definition github_for :: "bridge_config \<Rightarrow> string \<Rightarrow> string \<Rightarrow> github_config option" where
  "github_for cfg h ow =
     find (\<lambda>g. gc_host g = h \<and> eq_ignore_ascii_case (gc_app_owner g) ow) (bc_github cfg)"

text \<open>The forge entry's own map and the namespace's settings, of the entry that serves the owner.\<close>

definition config_layers ::
    "bridge_config \<Rightarrow> string \<Rightarrow> string \<Rightarrow> role_map_config option \<times> namespace_config option" where
  "config_layers cfg h ow =
     (case github_for cfg h ow of
        Some g \<Rightarrow> (gc_role_map g, map_of (gc_namespaces g) ow)
      | None \<Rightarrow>
          (case find (\<lambda>f. forgejo_host f = Inr h) (bc_forgejo cfg) of
             Some f \<Rightarrow> (fc_role_map f, map_of (fc_namespaces f) ow)
           | None \<Rightarrow> (None, None)))"

definition layers_of :: "bridge_config \<Rightarrow> resource \<Rightarrow> role_map_config option list" where
  "layers_of cfg repo =
     (let ow = to_ascii_lowercase (owner repo);
          name = map_option to_ascii_lowercase (repo_name repo);
          (forge, ns) = config_layers cfg (host repo) ow;
          ns_layer = Option.bind ns nc_role_map;
          repo_layer = (case (ns, name) of
              (Some n, Some nm) \<Rightarrow> Option.bind (map_of (nc_repos n) nm) id
            | _ \<Rightarrow> None)
      in [Some (bc_role_map cfg), forge, ns_layer, repo_layer])"

definition cfg_role_map :: "bridge_config \<Rightarrow> resource \<Rightarrow> role_map" where
  "cfg_role_map cfg repo =
     (case role_map_resolve (layers_of cfg repo) of Inl _ \<Rightarrow> default_role_map | Inr m \<Rightarrow> m)"

definition role_map_repos :: "bridge_config \<Rightarrow> resource \<Rightarrow> resource list" where
  "role_map_repos cfg ns =
     (case snd (config_layers cfg (host ns) (to_ascii_lowercase (owner ns))) of
        None \<Rightarrow> []
      | Some n \<Rightarrow>
          List.map_filter
            (\<lambda>(name, _). case resource_join (resource_namespace ns) name of Inl _ \<Rightarrow> None | Inr r \<Rightarrow> Some r)
            (filter (\<lambda>(_, r). r \<noteq> None) (nc_repos n)))"

section \<open>The check of a configuration\<close>

text \<open>A sequence of checks ends at the first that fails.\<close>

fun all_ok :: "('e + unit) list \<Rightarrow> 'e + unit" where
  "all_ok [] = Inr ()"
| "all_ok (Inl e # _) = Inl e"
| "all_ok (Inr _ # cs) = all_ok cs"

definition require :: "bool \<Rightarrow> string \<Rightarrow> anyhow + unit" where
  "require b msg = (if b then Inr () else Inl [msg])"

definition with_context :: "string \<Rightarrow> anyhow + 'a \<Rightarrow> anyhow + unit" where
  "with_context c r = (case r of Inl e \<Rightarrow> Inl (c # e) | Inr _ \<Rightarrow> Inr ())"

definition url_segment_ok :: "string \<Rightarrow> bool" where
  "url_segment_ok login \<longleftrightarrow>
     login \<noteq> [] \<and> length login \<le> 39 \<and> list_all (\<lambda>b. is_ascii_alnum b \<or> b = CHR ''-'') login
     \<and> \<not> starts_with ''-'' login"

definition check_ident :: "string \<Rightarrow> string \<Rightarrow> anyhow + unit" where
  "check_ident what v =
     require (trim v \<noteq> []
         \<and> \<not> list_ex (\<lambda>c. c = CHR ''<'' \<or> c = CHR ''>'' \<or> c = CHR 0x0A \<or> c = CHR 0x0D \<or> c = CHR 0x00) v)
       (''`'' @ what @ ''` must be non-empty and hold no `<`, `>` or line break; got `'' @ v @ ''`'')"

definition check_runs_on :: "string \<Rightarrow> forge_error + unit" where
  "check_runs_on label =
     (if label \<noteq> [] \<and> length label \<le> 100
         \<and> list_all (\<lambda>b. is_ascii_alnum b \<or> b = CHR ''-'' \<or> b = CHR ''_'' \<or> b = CHR ''.'') label
      then Inr ()
      else Inl (ConfigError (''runner label `'' @ label @ ''` must be letters, digits, `-`, `_` or `.`'')))"

definition check_did :: "string \<times> string \<Rightarrow> anyhow + unit" where
  "check_did wd =
     (case wd of (what, did) \<Rightarrow>
        require (starts_with ''did:'' did \<and> \<not> has_whitespace did)
          (''`'' @ what @ ''` must be a DID, got `'' @ did @ ''`''))"

definition is_loopback_host :: "url \<Rightarrow> bool" where
  "is_loopback_host u \<longleftrightarrow>
     u_host u \<in> {Some ''localhost'', Some ''127.0.0.1'', Some ''[::1]''}"

definition check_namespace ::
    "string \<Rightarrow> role_map_config option list \<Rightarrow> string \<times> namespace_config \<Rightarrow> anyhow + unit" where
  "check_namespace what base on =
     (case on of (ow, n) \<Rightarrow>
        all_ok
          ([require (ow = to_ascii_lowercase ow)
              (''`'' @ what @ ''.namespaces` keys are lowercase owner logins; got `'' @ ow @ ''`''),
            with_context (''`'' @ what @ ''.namespaces.'' @ ow @ ''.role_map`'')
              (role_map_resolve (base @ [nc_role_map n]))]
           @ concat (map (\<lambda>(name, r).
               [require (name = to_ascii_lowercase name)
                  (''`'' @ what @ ''.namespaces.'' @ ow
                   @ ''.repos` keys are lowercase repository names; got `'' @ name @ ''`''),
                with_context (''`'' @ what @ ''.namespaces.'' @ ow @ ''.repos.'' @ name @ ''.role_map`'')
                  (role_map_resolve (base @ [nc_role_map n, r]))]) (nc_repos n))))"

definition check_role_maps ::
    "bridge_config \<Rightarrow> string \<Rightarrow> role_map_config option \<Rightarrow> (string \<times> namespace_config) list
       \<Rightarrow> anyhow + unit" where
  "check_role_maps cfg what forge nss =
     all_ok (with_context (''`'' @ what @ ''.role_map`'')
               (role_map_resolve [Some (bc_role_map cfg), forge])
             # map (check_namespace what [Some (bc_role_map cfg), forge]) nss)"

definition validate_role_maps :: "bridge_config \<Rightarrow> anyhow + unit" where
  "validate_role_maps cfg =
     all_ok
       ([with_context ''`role_map`'' (role_map_resolve [Some (bc_role_map cfg)])]
        @ map (\<lambda>g. check_role_maps cfg (''github ('' @ gc_host g @ '', '' @ gc_app_owner g @ '')'')
                 (gc_role_map g) (gc_namespaces g)) (bc_github cfg)
        @ map (\<lambda>f. case forgejo_host f of
              Inl e \<Rightarrow> Inl e
            | Inr h \<Rightarrow> check_role_maps cfg (''forgejo ('' @ h @ '')'') (fc_role_map f) (fc_namespaces f))
            (bc_forgejo cfg))"

fun check_apps ::
    "(string \<times> string) set \<Rightarrow> (string \<times> string) set \<Rightarrow> github_config list \<Rightarrow> anyhow + unit" where
  "check_apps apps names [] = Inr ()"
| "check_apps apps names (g # gs) =
     all_ok
       [case resource_namespace_of (gc_host g) (gc_app_owner g) of
          Inl e \<Rightarrow> Inl [''github `'' @ gc_host g @ ''` / app_owner `'' @ gc_app_owner g @ ''`: ''
            @ forge_error_display e]
        | Inr _ \<Rightarrow> Inr (),
        require ((gc_host g, owner_key g) \<notin> apps)
          (''two `[[github]]` entries for `'' @ gc_app_owner g @ ''` on `'' @ gc_host g
           @ ''`: one App per organisation (or account), each its own entry''),
        require ((gc_host g, to_ascii_lowercase (gc_app_name g)) \<notin> names)
          (''two `[[github]]` entries on `'' @ gc_host g @ ''` name the App `'' @ gc_app_name g
           @ ''`: GitHub App names are unique per instance, so give each organisation's App its own ''
           @ ''`app_name`''),
        require (url_segment_ok (gc_app_owner g))
          (''`app_owner` `'' @ gc_app_owner g @ ''` is not a GitHub login''),
        require (gc_dependabot_login g \<noteq> [] \<and> gc_dependabot_id g \<noteq> 0)
          ''`dependabot_login` and `dependabot_id` must be set'',
        check_apps (insert (gc_host g, owner_key g) apps)
          (insert (gc_host g, to_ascii_lowercase (gc_app_name g)) names) gs]"

fun check_forgejo_hosts :: "string set \<Rightarrow> string set \<Rightarrow> forgejo_config list \<Rightarrow> anyhow + unit" where
  "check_forgejo_hosts github_hosts hosts [] = Inr ()"
| "check_forgejo_hosts github_hosts hosts (f # fs) =
     (case forgejo_host f of
        Inl e \<Rightarrow> Inl e
      | Inr h \<Rightarrow>
          all_ok
            [require (h \<notin> github_hosts \<and> h \<notin> hosts)
               (''forge host `'' @ h @ ''` is configured twice''),
             case fc_runs_on f of
               None \<Rightarrow> Inr ()
             | Some label \<Rightarrow>
                 (case check_runs_on label of
                    Inl e \<Rightarrow> Inl [''forgejo ('' @ h @ '') `runs_on`'', forge_error_display e]
                  | Inr _ \<Rightarrow> Inr ()),
             check_forgejo_hosts github_hosts (insert h hosts) fs])"

definition check_vta :: "bridge_config \<Rightarrow> vta_config \<Rightarrow> anyhow + unit" where
  "check_vta cfg v =
     all_ok
       ([require (bc_master_key_file cfg = None \<and> bc_master_key_env cfg = None)
           (''`[vta]` and a master key are both set: in VTA mode nothing is sealed into the ''
            @ ''local store (secrets live in the VTA), so remove `master_key_file` / ''
            @ ''`master_key_env`''),
         require (bc_did_cache_ttl_secs cfg \<le> vc_signing_switch_after_secs v)
           (''`vta.signing_switch_after_secs` ('' @ show_word (vc_signing_switch_after_secs v)
            @ '') must be at least `did_cache_ttl_secs` ('' @ show_word (bc_did_cache_ttl_secs cfg)
            @ ''): a verifier's cached DID document must have the new key before the ''
            @ ''bridge signs with it''),
         require (trim (vc_context v) \<noteq> [])
           ''`vta.context` must name the bridge's context in the VTA'',
         require (vc_credential_file v \<noteq> None \<or> vc_credential_env v \<noteq> None)
           ''`[vta]` needs `credential_file` or `credential_env`'']
        @ map (\<lambda>(what, d). case d of None \<Rightarrow> Inr () | Some d \<Rightarrow> check_did (what, d))
            [(''vta.mediator_did'', vc_mediator_did v), (''vta.did'', vc_did v)]
        @ [case vc_url v of
             None \<Rightarrow> Inr ()
           | Some u \<Rightarrow> require (u_scheme u = ''https'' \<or> is_loopback_host u)
               ''`vta.url` must be https (the credential handshake travels over it)''])"

definition validate :: "bridge_config \<Rightarrow> anyhow + unit" where
  "validate cfg =
     all_ok
       ([require (bc_required_approvals cfg \<le> 10)
           (''`required_approvals` is at most 10 (GitHub's limit); got ''
            @ show_word (bc_required_approvals cfg))]
        @ map check_did
            [(''vtc_did'', bc_vtc_did cfg), (''trust_registry_did'', bc_trust_registry_did cfg),
             (''mediator_did'', bc_mediator_did cfg)]
        @ [require (u_scheme (bc_public_url cfg) = ''https''
               \<or> (u_scheme (bc_public_url cfg) = ''http'' \<and> is_loopback_host (bc_public_url cfg)))
             (''`public_url` must be https (the forges send secrets-bearing redirects and ''
              @ ''webhooks to it); got `'' @ u_scheme (bc_public_url cfg) @ ''`''),
           case bc_vta cfg of None \<Rightarrow> Inr () | Some v \<Rightarrow> check_vta cfg v,
           require (MIN_ORPHAN_RETENTION_DAYS \<le> bc_orphan_retention_days cfg)
             (''`orphan_retention_days` must be at least '' @ show_word MIN_ORPHAN_RETENTION_DAYS
              @ '': an orphaned namespace's record is what a VTC that binds the owner again takes ''
              @ ''over; got '' @ show_word (bc_orphan_retention_days cfg)),
           require (10 \<le> bc_did_cache_ttl_secs cfg \<and> bc_did_cache_ttl_secs cfg \<le> 3600)
             ''`did_cache_ttl_secs` must be between 10 and 3600'',
           require (64 * 1024 \<le> bc_max_body_bytes cfg)
             ''`max_body_bytes` below 64 KiB would refuse ordinary webhooks'',
           require (bc_max_commits cfg \<noteq> 0 \<and> bc_max_signers cfg \<noteq> 0)
             ''`checks.max_commits` and `checks.max_signers` must be at least 1'',
           check_ident ''resign.committer_name'' (bc_committer_name cfg),
           check_ident ''resign.committer_email'' (bc_committer_email cfg),
           require (\<not> starts_with ''did:'' (bc_committer_email cfg))
             (''`resign.committer_email` must not be a DID: the re-signed commits claim the ''
              @ ''bridge's DID in their `Signed-by-DID:` trailer''),
           check_apps {} {} (bc_github cfg),
           check_forgejo_hosts (gc_host ` set (bc_github cfg)) {} (bc_forgejo cfg),
           validate_role_maps cfg])"

text \<open>What the environment and the other settings fill in before the check.\<close>

definition fill_defaults :: "bridge_config \<Rightarrow> bridge_config" where
  "fill_defaults cfg =
     (case bc_vta cfg of
        None \<Rightarrow> cfg
      | Some v \<Rightarrow>
          if vc_mediator_did v = None
          then cfg\<lparr>bc_vta := Some (v\<lparr>vc_mediator_did := Some (bc_mediator_did cfg)\<rparr>)\<rparr>
          else cfg)"

definition load_config :: "bridge_config \<Rightarrow> anyhow + bridge_config" where
  "load_config parsed =
     (let cfg = fill_defaults parsed in case validate cfg of Inl e \<Rightarrow> Inl e | Inr _ \<Rightarrow> Inr cfg)"

section \<open>An accepted configuration\<close>

lemma all_ok_Inr: "all_ok cs = Inr () \<longleftrightarrow> (\<forall>c\<in>set cs. c = Inr ())"
  by (induction cs rule: all_ok.induct) auto

lemma require_Inr [simp]: "require b m = Inr () \<longleftrightarrow> b"
  by (simp add: require_def)

lemma with_context_Inr: "with_context c r = Inr () \<longleftrightarrow> (\<exists>x. r = Inr x)"
  by (cases r) (simp_all add: with_context_def)

lemma check_apps_keys:
  "check_apps apps names gs = Inr () \<Longrightarrow>
     distinct (map (\<lambda>g. (gc_host g, owner_key g)) gs)
     \<and> (\<lambda>g. (gc_host g, owner_key g)) ` set gs \<inter> apps = {}"
proof (induction gs arbitrary: apps names)
  case (Cons g gs)
  then have "(gc_host g, owner_key g) \<notin> apps"
    "check_apps (insert (gc_host g, owner_key g) apps)
       (insert (gc_host g, to_ascii_lowercase (gc_app_name g)) names) gs = Inr ()"
    by (simp_all add: all_ok_Inr)
  with Cons.IH show ?case by fastforce
qed simp

lemma check_forgejo_keys:
  "check_forgejo_hosts ghs hosts fs = Inr () \<Longrightarrow>
     distinct (map forgejo_host fs) \<and> (\<forall>f\<in>set fs. \<exists>h. forgejo_host f = Inr h \<and> h \<notin> ghs \<and> h \<notin> hosts)"
proof (induction fs arbitrary: hosts)
  case (Cons f fs)
  then obtain h where h: "forgejo_host f = Inr h" "h \<notin> ghs" "h \<notin> hosts"
    "check_forgejo_hosts ghs (insert h hosts) fs = Inr ()"
    by (auto simp: all_ok_Inr split: sum.splits)
  with Cons.IH [OF h(4)] show ?case by fastforce
qed simp

lemma validated:
  assumes "validate cfg = Inr ()"
  shows "check_apps {} {} (bc_github cfg) = Inr ()"
    "check_forgejo_hosts (gc_host ` set (bc_github cfg)) {} (bc_forgejo cfg) = Inr ()"
    "validate_role_maps cfg = Inr ()"
  using assms unfolding validate_def all_ok_Inr by simp_all

text \<open>Every chain of layers the check accepts resolves; a chain without its last layers is one.\<close>

lemma resolve_None [simp]:
  "role_map_resolve (ls @ [None]) = role_map_resolve ls"
  by (simp add: role_map_resolve_def List.map_filter_def)

lemma resolve_drop:
  "role_map_resolve [a, b, c, None] = role_map_resolve [a, b, c]"
  "role_map_resolve [a, b, None] = role_map_resolve [a, b]"
  "role_map_resolve [a, None] = role_map_resolve [a]"
  using resolve_None [of "[a, b, c]"] resolve_None [of "[a, b]"] resolve_None [of "[a]"] by simp_all

lemma ball_append: "(\<forall>x\<in>set (xs @ ys). P x) \<longleftrightarrow> (\<forall>x\<in>set xs. P x) \<and> (\<forall>x\<in>set ys. P x)"
  by auto

lemma ball_concat_map: "(\<forall>x\<in>set (concat (map f xs)). P x) \<longleftrightarrow> (\<forall>y\<in>set xs. \<forall>x\<in>set (f y). P x)"
  by auto

lemma checked_namespace:
  assumes "check_namespace what base (ow, n) = Inr ()"
  shows "\<exists>m. role_map_resolve (base @ [nc_role_map n]) = Inr m"
    "(name, r) \<in> set (nc_repos n) \<Longrightarrow> \<exists>m. role_map_resolve (base @ [nc_role_map n, r]) = Inr m"
proof -
  from assms have c: "\<exists>m. role_map_resolve (base @ [nc_role_map n]) = Inr m"
    "\<forall>(name, r)\<in>set (nc_repos n). \<exists>m. role_map_resolve (base @ [nc_role_map n, r]) = Inr m"
    by (simp_all only: check_namespace_def all_ok_Inr ball_append ball_concat_map split_beta fst_conv
        snd_conv list.set ball_simps with_context_Inr require_Inr simp_thms) fastforce
  from c(1) show "\<exists>m. role_map_resolve (base @ [nc_role_map n]) = Inr m" .
  assume "(name, r) \<in> set (nc_repos n)"
  with c(2) show "\<exists>m. role_map_resolve (base @ [nc_role_map n, r]) = Inr m" by auto
qed

definition layers_resolve :: "role_map_config \<Rightarrow> role_map_config option \<Rightarrow> namespace_config option \<Rightarrow> bool" where
  "layers_resolve base forge ns \<longleftrightarrow>
     (\<exists>m. role_map_resolve [Some base, forge] = Inr m)
     \<and> (\<forall>n. ns = Some n \<longrightarrow> (\<exists>m. role_map_resolve [Some base, forge, nc_role_map n] = Inr m)
          \<and> (\<forall>name r. map_of (nc_repos n) name = Some r \<longrightarrow>
               (\<exists>m. role_map_resolve [Some base, forge, nc_role_map n, r] = Inr m)))"

lemma checked_entry:
  assumes "check_role_maps cfg what forge nss = Inr ()"
  shows "layers_resolve (bc_role_map cfg) forge (map_of nss ow)"
proof -
  have c: "\<exists>m. role_map_resolve [Some (bc_role_map cfg), forge] = Inr m"
    "\<forall>on\<in>set nss. check_namespace what [Some (bc_role_map cfg), forge] on = Inr ()"
    using assms by (auto simp: check_role_maps_def all_ok_Inr with_context_Inr)
  have "(\<exists>m. role_map_resolve [Some (bc_role_map cfg), forge, nc_role_map n] = Inr m)
      \<and> (\<forall>name r. map_of (nc_repos n) name = Some r \<longrightarrow>
           (\<exists>m. role_map_resolve [Some (bc_role_map cfg), forge, nc_role_map n, r] = Inr m))"
    if "map_of nss ow = Some n" for n
    using map_of_SomeD [OF that] c(2) checked_namespace [of what "[Some (bc_role_map cfg), forge]" ow n]
    by (auto dest: map_of_SomeD)
  with c(1) show ?thesis by (simp add: layers_resolve_def)
qed

lemma layers_resolve_none:
  assumes "validate_role_maps cfg = Inr ()"
  shows "layers_resolve (bc_role_map cfg) None None"
  using assms by (auto simp: validate_role_maps_def all_ok_Inr with_context_Inr layers_resolve_def resolve_drop)

lemma config_layers_resolve:
  assumes "validate_role_maps cfg = Inr ()" "config_layers cfg h ow = (forge, ns)"
  shows "layers_resolve (bc_role_map cfg) forge ns"
proof (cases "github_for cfg h ow")
  case (Some g)
  then have "g \<in> set (bc_github cfg)"
    unfolding github_for_def by (auto simp: find_Some_iff)
  with assms(1) have "check_role_maps cfg (''github ('' @ gc_host g @ '', '' @ gc_app_owner g @ '')'')
      (gc_role_map g) (gc_namespaces g) = Inr ()"
    by (auto simp: validate_role_maps_def all_ok_Inr)
  from checked_entry [OF this] assms(2) Some show ?thesis by (auto simp: config_layers_def)
next
  case None
  show ?thesis
  proof (cases "find (\<lambda>f. forgejo_host f = Inr h) (bc_forgejo cfg)")
    case (Some f)
    then have f: "f \<in> set (bc_forgejo cfg)" "forgejo_host f = Inr h" by (auto simp: find_Some_iff)
    then have "(case forgejo_host f of Inl e \<Rightarrow> Inl e
        | Inr h \<Rightarrow> check_role_maps cfg (''forgejo ('' @ h @ '')'') (fc_role_map f) (fc_namespaces f)) = Inr ()"
      using assms(1) unfolding validate_role_maps_def all_ok_Inr ball_append set_map by blast
    with f have "check_role_maps cfg (''forgejo ('' @ h @ '')'') (fc_role_map f) (fc_namespaces f) = Inr ()"
      by simp
    from checked_entry [OF this] assms(2) Some None show ?thesis by (auto simp: config_layers_def)
  next
    case none: None
    with assms None layers_resolve_none show ?thesis by (auto simp: config_layers_def)
  qed
qed

lemma layers_of_resolve:
  assumes "validate_role_maps cfg = Inr ()"
  shows "\<exists>m. role_map_resolve (layers_of cfg repo) = Inr m"
proof -
  obtain forge ns where fn: "config_layers cfg (host repo) (to_ascii_lowercase (owner repo)) = (forge, ns)"
    by (cases "config_layers cfg (host repo) (to_ascii_lowercase (owner repo))")
  note l = config_layers_resolve [OF assms fn]
  show ?thesis
    using l
    by (cases ns; cases "repo_name repo")
      (auto simp: layers_of_def Let_def fn layers_resolve_def resolve_drop split: option.split
        bind_split_asm bind_split)
qed

lemma merged_field:
  fixes fld :: "role_map_config \<Rightarrow> forge_role option"
  assumes "\<And>a b. fld (role_map_over a b) = first_of (fld a) (fld b)"
  shows "fld (foldl (\<lambda>acc l. role_map_over l acc) acc ls) = first_of (find_map fld (rev ls)) (fld acc)"
proof (induction ls rule: rev_induct)
  case (snoc l ls)
  then show ?case by (auto simp: assms first_of_def split: option.split)
qed (simp add: first_of_def)

lemma resolve_fields:
  assumes "role_map_resolve layers = Inr m"
  defines "ls \<equiv> rev (List.map_filter id layers)"
  shows "map_own m = unwrap_or (find_map rmc_own ls) RoleAdmin
    \<and> map_maintain m = unwrap_or (find_map rmc_maintain ls) RoleMaintain
    \<and> map_commit m = unwrap_or (find_map rmc_commit ls) RoleNone \<and> wf_role_map m"
proof -
  have none: "first_of x None = x" for x :: "forge_role option" by (cases x) (simp_all add: first_of_def)
  have merged: "rmc_own (foldl (\<lambda>acc l. role_map_over l acc) role_map_config_default xs) = find_map rmc_own (rev xs)"
    "rmc_maintain (foldl (\<lambda>acc l. role_map_over l acc) role_map_config_default xs)
       = find_map rmc_maintain (rev xs)"
    "rmc_commit (foldl (\<lambda>acc l. role_map_over l acc) role_map_config_default xs)
       = find_map rmc_commit (rev xs)" for xs
    using merged_field [of rmc_own role_map_config_default xs]
      merged_field [of rmc_maintain role_map_config_default xs]
      merged_field [of rmc_commit role_map_config_default xs] none
    by (simp_all add: role_map_config_default_def) (simp_all add: role_map_over_def)
  show ?thesis
    using assms(1) unfolding role_map_resolve_def Let_def ls_def merged
    by (auto simp: default_role_map_def role_map_new_iff split: sum.splits)
qed

text \<open>C24: An accepted configuration decides every role, and safely. For every resource, configured or
  not, the layers that apply to it make a well-formed role map (ordered, administrator only for
  owners, committers at most writers), so the silent fallback to the default is never taken; each
  field of the map is the one of the most specific layer that sets it, the built-in default where
  none does. And no two entries serve one owner: a GitHub App is found under its own owner, each
  Forgejo host is configured once and is no GitHub host.\<close>

theorem accepted_config_decides_every_role:
  assumes "load_config parsed = Inr cfg"
  shows "(let ls = rev (List.map_filter id (layers_of cfg repo)); m = cfg_role_map cfg repo in
      role_map_resolve (layers_of cfg repo) = Inr m \<and> wf_role_map m
      \<and> map_own m = unwrap_or (find_map rmc_own ls) RoleAdmin
      \<and> map_maintain m = unwrap_or (find_map rmc_maintain ls) RoleMaintain
      \<and> map_commit m = unwrap_or (find_map rmc_commit ls) RoleNone)
    \<and> (\<forall>g\<in>set (bc_github cfg). github_for cfg (gc_host g) (gc_app_owner g) = Some g)
    \<and> distinct (map forgejo_host (bc_forgejo cfg))
    \<and> (\<forall>f\<in>set (bc_forgejo cfg). \<exists>h. forgejo_host f = Inr h \<and> h \<notin> gc_host ` set (bc_github cfg))"
proof -
  have "validate cfg = Inr ()" using assms by (auto simp: load_config_def Let_def split: sum.splits)
  note v = validated [OF this]
  obtain m where m: "role_map_resolve (layers_of cfg repo) = Inr m"
    using layers_of_resolve [OF v(3)] by blast
  then have c: "cfg_role_map cfg repo = m" by (simp add: cfg_role_map_def)
  have G: "github_for cfg (gc_host g) (gc_app_owner g) = Some g" if "g \<in> set (bc_github cfg)" for g
  proof -
    have d: "distinct (map (\<lambda>g. (gc_host g, owner_key g)) (bc_github cfg))"
      using check_apps_keys [OF v(1)] by simp
    have "github_for cfg (gc_host g) (gc_app_owner g) \<noteq> None"
      using that unfolding github_for_def find_None_iff eq_ignore_ascii_case_def by blast
    then obtain g' where g': "github_for cfg (gc_host g) (gc_app_owner g) = Some g'" by blast
    then have "g' \<in> set (bc_github cfg)" "(gc_host g', owner_key g') = (gc_host g, owner_key g)"
      by (auto simp: github_for_def find_Some_iff eq_ignore_ascii_case_def owner_key_def)
    with d that have "g' = g" by (auto simp: distinct_map inj_on_def)
    with g' show ?thesis by simp
  qed
  have F: "distinct (map forgejo_host (bc_forgejo cfg))"
    "\<forall>f\<in>set (bc_forgejo cfg). \<exists>h. forgejo_host f = Inr h \<and> h \<notin> gc_host ` set (bc_github cfg)"
    using check_forgejo_keys [OF v(2)] by simp_all
  show ?thesis
    unfolding Let_def c
    by (intro conjI ballI m F(1) G F(2) [rule_format]) (use resolve_fields [OF m] in simp_all)
qed

definition sample_config :: bridge_config where
  "sample_config =
     \<lparr>bc_vtc_did = ''did:x:vtc'', bc_trust_registry_did = ''did:x:tr'', bc_mediator_did = ''did:x:m'',
      bc_public_url = \<lparr>u_scheme = ''https'', u_host = Some ''b.example''\<rparr>,
      bc_master_key_file = None, bc_master_key_env = None, bc_vta = None, bc_max_job_age_secs = 300,
      bc_max_body_bytes = 2097152, bc_resend_secs = 60, bc_did_cache_ttl_secs = 60,
      bc_flow_ttl_secs = 900, bc_orphan_retention_days = 30, bc_required_approvals = 0,
      bc_max_commits = 4, bc_max_signers = 4, bc_git = ''git'',
      bc_max_fetch_bytes = 1000, bc_committer_name = ''b'', bc_committer_email = ''b@e'',
      bc_role_map = role_map_config_default\<lparr>rmc_commit := Some RoleRead\<rparr>,
      bc_github = [\<lparr>gc_host = ''github.com'', gc_app_name = ''app'', gc_app_owner = ''Acme'',
        gc_bridge_checks = True, gc_dependabot_login = ''d'', gc_dependabot_id = 1,
        gc_platform_keyring_file = None, gc_role_map = None,
        gc_namespaces = [(''acme'', \<lparr>nc_role_map = None,
          nc_repos = [(''w'', Some (role_map_config_default\<lparr>rmc_commit := Some RoleWrite\<rparr>))],
          nc_resign_dependabot = True\<rparr>)]\<rparr>],
      bc_forgejo = []\<rparr>"

lemma accepted_config_decides_every_role_witness:
  "load_config sample_config = Inr sample_config
   \<and> map_commit (cfg_role_map sample_config (Resource ''github.com/acme/w'')) = RoleWrite
   \<and> map_commit (cfg_role_map sample_config (Resource ''github.com/acme/x'')) = RoleRead"
proof -
  have l: "load_config sample_config = Inr sample_config" by code_simp
  have w: "find_map rmc_commit (rev (List.map_filter id
      (layers_of sample_config (Resource ''github.com/acme/w'')))) = Some RoleWrite"
    and x: "find_map rmc_commit (rev (List.map_filter id
      (layers_of sample_config (Resource ''github.com/acme/x'')))) = Some RoleRead"
    by code_simp+
  from l accepted_config_decides_every_role [OF l, of "Resource ''github.com/acme/w''"] w
    accepted_config_decides_every_role [OF l, of "Resource ''github.com/acme/x''"] x
  show ?thesis by (simp add: Let_def unwrap_or_def)
qed

end
