(* ===== verification/Forge_Interface.thy ===== *)
theory Forge_Interface
  imports Bridge_Store Forge_Drift Bootstrap
begin

text \<open>
  What the bridge calls of a forge adapter: the \<open>Forge\<close> trait (\<open>vgi-forge/src/forge.rs\<close>), the
  lifecycle hooks (\<open>hooks.rs\<close>) and the steps of the interactive flows (\<open>model.rs\<close>). A trait object is a record of its methods; a method that talks to the forge is an
  operation on the forge's state, so that it cannot touch the bridge's database. The methods only
  one of the two adapters has are a record of their own.
\<close>

section \<open>Hooks\<close>

datatype 'p hook_decision = Continue | Modify 'p | Abort string

record forge_hooks =
  before_create :: "repo_spec \<Rightarrow> repo_spec hook_decision"
  after_create :: "repo_state \<Rightarrow> bootstrap_step list hook_decision"
  before_apply_roles :: "resource \<Rightarrow> role_assignment list \<Rightarrow> role_assignment list hook_decision"
  after_bootstrap :: "resource \<Rightarrow> (string \<times> step_outcome) list \<Rightarrow> bootstrap_step list hook_decision"
  on_event :: "forge_event \<Rightarrow> forge_event hook_decision"
  on_drift :: "resource \<Rightarrow> drift list \<Rightarrow> drift list hook_decision"

text \<open>The default hooks do nothing.\<close>

definition no_hooks :: forge_hooks where
  "no_hooks =
     \<lparr>before_create = (\<lambda>_. Continue), after_create = (\<lambda>_. Continue),
      before_apply_roles = (\<lambda>_ _. Continue), after_bootstrap = (\<lambda>_ _. Continue),
      on_event = (\<lambda>_. Continue), on_drift = (\<lambda>_ _. Continue)\<rparr>"

definition modified :: "'p \<Rightarrow> 'p hook_decision \<Rightarrow> 'p" where
  "modified x d = (case d of Modify y \<Rightarrow> y | _ \<Rightarrow> x)"

section \<open>Interactive flows\<close>

record bind_request =
  bq_namespace :: resource
  bq_state :: string

datatype bind_step = BindRedirect string

record bind_callback =
  bb_params :: "(string \<times> string) list"
  bb_expected_state :: string
  bb_expected_namespace :: resource

datatype link_step =
    LinkDeviceCode (ls_device_code: string) (ls_user_code: string) (ls_verification_uri: string)
      (ls_expires_in: u64) (ls_interval: u64)
  | LinkRedirect string

datatype link_callback =
    LinkCbDeviceCode string u64 u64
  | LinkCbRedirect "(string \<times> string) list" "string option"

section \<open>The trait\<close>

record 'f forge_ops =
  fo_host :: string
  fo_capabilities :: "namespace \<Rightarrow> 'f \<Rightarrow> capabilities"
  fo_map_role :: "namespace \<Rightarrow> effective_rights \<Rightarrow> role_map \<Rightarrow> 'f \<Rightarrow> forge_role"
  fo_is_protected :: "namespace \<Rightarrow> u64 \<Rightarrow> 'f \<Rightarrow> bool"
  fo_begin_bind :: "bind_request \<Rightarrow> ('f, forge_error + bind_step) state"
  fo_complete_bind :: "bind_callback \<Rightarrow> ('f, forge_error + namespace_binding) state"
  fo_begin_link :: "string \<Rightarrow> ('f, forge_error + link_step) state"
  fo_complete_link :: "link_callback \<Rightarrow> ('f, forge_error + forge_account) state"
  fo_inspect :: "resource \<Rightarrow> ('f, forge_error + repo_state) state"
  fo_create_repo :: "repo_spec \<Rightarrow> ('f, forge_error + repo_state) state"
  fo_archive_repo :: "resource \<Rightarrow> ('f, forge_error + unit) state"
  fo_apply_roles :: "resource \<Rightarrow> role_assignment list \<Rightarrow> unlisted \<Rightarrow> ('f, forge_error + apply_report) state"
  fo_indirect_access :: "resource \<Rightarrow> forge_account \<Rightarrow> ('f, forge_error + indirect_access option) state"
  fo_bootstrap_plan :: "repo_spec \<Rightarrow> vgi_config \<Rightarrow> 'f \<Rightarrow> forge_error + bootstrap_step list"
  fo_run_step :: "resource \<Rightarrow> bootstrap_step \<Rightarrow> ('f, forge_error + step_outcome) state"
  fo_pull_request :: "resource \<Rightarrow> u64 \<Rightarrow> ('f, forge_error + pull_request) state"
  fo_has_own_comment :: "resource \<Rightarrow> u64 \<Rightarrow> string \<Rightarrow> ('f, forge_error + bool) state"
  fo_comment :: "resource \<Rightarrow> u64 \<Rightarrow> string \<Rightarrow> ('f, forge_error + unit) state"
  fo_close_pull :: "resource \<Rightarrow> u64 \<Rightarrow> ('f, forge_error + unit) state"
  fo_diff :: "repo_state \<Rightarrow> projection \<Rightarrow> drift list"
  fo_parse_event :: "string \<Rightarrow> forge_error + forge_event option"
  fo_register_namespace :: "namespace \<Rightarrow> ('f, forge_error + unit) state"

record 'f github_ops =
  gh_app_slug :: string
  gh_set_required_workflow :: "resource \<Rightarrow> bool \<Rightarrow> ('f, unit) state"
  gh_set_managed :: "resource \<Rightarrow> u64 set \<Rightarrow> ('f, unit) state"
  gh_managed :: "resource \<Rightarrow> 'f \<Rightarrow> u64 set option"
  gh_set_checks_ready :: "resource \<Rightarrow> bool \<Rightarrow> ('f, unit) state"
  gh_checks_ready :: "resource \<Rightarrow> 'f \<Rightarrow> bool option"
  gh_set_pin :: "resource \<Rightarrow> pin_record \<Rightarrow> ('f, unit) state"
  gh_pin :: "resource \<Rightarrow> 'f \<Rightarrow> pin_record option"
  gh_detect_installation :: "resource \<Rightarrow> ('f, forge_error + bool \<times> string list) state"
  gh_repository_by_id :: "resource \<Rightarrow> u64 \<Rightarrow> ('f, forge_error + resource option) state"
  gh_parse_push :: "string \<Rightarrow> forge_error + push_event option"
  gh_parse_check_trigger :: "string \<Rightarrow> forge_error + check_trigger list"
  gh_pull_request :: "resource \<Rightarrow> u64 \<Rightarrow> ('f, forge_error + pull_request_info) state"
  gh_default_branch :: "resource \<Rightarrow> ('f, forge_error + string) state"
  gh_compare_commits :: "resource \<Rightarrow> string \<Rightarrow> string \<Rightarrow> ('f, forge_error + comparison) state"
  gh_merge_base :: "resource \<Rightarrow> string \<Rightarrow> string \<Rightarrow> ('f, forge_error + string) state"
  gh_contents_read_token :: "resource \<Rightarrow> ('f, forge_error + string) state"
  gh_contents_write_token :: "resource \<Rightarrow> ('f, forge_error + string) state"
  gh_clone_url :: "resource \<Rightarrow> forge_error + string"
  gh_start_check_run :: "resource \<Rightarrow> string \<Rightarrow> string \<Rightarrow> string \<Rightarrow> ('f, forge_error + u64) state"
  gh_finish_check_run ::
    "resource \<Rightarrow> u64 \<Rightarrow> check_conclusion \<Rightarrow> string \<Rightarrow> string \<Rightarrow> ('f, forge_error + unit) state"

record token_ref =
  tr_id :: u64
  tr_name :: string

record minted_token =
  mt_token :: token_ref
  mt_secret :: string
  mt_previous :: "token_ref option"

record 'f forgejo_ops =
  fj_mint_token :: "('f, forge_error + minted_token) state"
  fj_retire_token :: "token_ref \<Rightarrow> ('f, forge_error + unit) state"

text \<open>One adapter: its methods, its hooks, and its own methods when it is GitHub's or Forgejo's.\<close>

record 'f adapter =
  ad_ops :: "'f forge_ops"
  ad_hooks :: forge_hooks
  ad_github :: "'f github_ops option"
  ad_forgejo :: "'f forgejo_ops option"

text \<open>A method of an adapter, run in the bridge.\<close>

definition on_forge :: "('f, 'a) state \<Rightarrow> ('f, 'a) io" where
  "on_forge m = State (\<lambda>w. case run_state m (forge_state w) of (a, f) \<Rightarrow> (a, w\<lparr>forge_state := f\<rparr>))"

definition ask_forge :: "('f \<Rightarrow> 'a) \<Rightarrow> ('f, 'a) io" where
  "ask_forge q = gets (\<lambda>w. q (forge_state w))"

text \<open>The methods with a default.\<close>

definition with_default_methods :: "'f forge_ops \<Rightarrow> 'f forge_ops" where
  "with_default_methods ops =
     ops\<lparr>fo_map_role := (\<lambda>ns rights m f. map_role (fo_capabilities ops ns f) rights m),
         fo_is_protected := (\<lambda>ns account _. is_protected_account ns account),
         fo_indirect_access := (\<lambda>_ _. return (Inr None)),
         fo_pull_request := (\<lambda>_ _. return (Inl pulls_unsupported)),
         fo_has_own_comment := (\<lambda>_ _ _. return (Inl pulls_unsupported)),
         fo_comment := (\<lambda>_ _ _. return (Inl pulls_unsupported)),
         fo_close_pull := (\<lambda>_ _. return (Inl pulls_unsupported)),
         fo_diff := default_diff\<rparr>"

lemma keeps_on_forge [keeps_rules]: "keeps (on_db I) (on_forge m)"
  by (simp add: keeps_def on_db_def on_forge_def split: prod.split)

lemma keeps_ask_forge [keeps_rules]: "keeps I (ask_forge q)"
  by (simp add: ask_forge_def keeps_rules)

lemma keeps_flush [keeps_rules]: "keeps (on_db I) store_flush"
  by (simp add: keeps_def on_db_def store_flush_def split: list.split bool.split)

end
