(* ===== verification/Bridge_Env.thy ===== *)
theory Bridge_Env
  imports Forge_Interface Bridge_Config Bridge_Mapping Bridge_Namespaces
begin

unbundle bit_operations_syntax

text \<open>
  The bridge as its operations see it: the configuration, the adapters in service and which one
  serves a resource (\<open>vgi-bridge/src/registry.rs\<close>), the libraries it calls, and sending a document to
  the community (\<open>wire.rs\<close>, \<open>bridge.rs\<close>). The bridge record is fixed while an operation runs; what changes
  is the world.
\<close>

section \<open>Libraries\<close>

text \<open>
  \<open>doc_lib\<close> is the Trust Task framework's side of an outbound document and the signer; \<open>gen_lib\<close> is the
  code generated from the schemas, with the hash and the formatting of a time.
\<close>

record doc_lib =
  dl_respond :: "trust_task \<Rightarrow> string \<Rightarrow> json \<Rightarrow> trust_task"
  dl_reject :: "trust_task \<Rightarrow> string \<Rightarrow> error_payload \<Rightarrow> trust_task"
  dl_sign :: "trust_task \<Rightarrow> string + json"
  dl_random :: "nat \<Rightarrow> u8 list"
  dl_state :: "nat \<Rightarrow> string"

record gen_lib =
  gl_parse_job :: "json \<Rightarrow> string + job_payload"
  gl_digest :: "json \<Rightarrow> string"
  gl_sha256_hex :: "json \<Rightarrow> string"
  gl_fits_result :: "json \<Rightarrow> bool"
  gl_fits_event :: "json \<Rightarrow> bool"
  gl_bad_next :: "json \<Rightarrow> string option"
  gl_acked_job :: "json \<Rightarrow> string option"
  gl_link_state :: "string \<Rightarrow> string option"
  gl_rfc3339 :: "int \<Rightarrow> string"
  gl_result_type :: string
  gl_event_type :: string
  gl_job_id_reused :: declared_error_code
  gl_unknown_namespace :: declared_error_code
  gl_not_capable :: declared_error_code
  gl_result_unknown_job :: string
  gl_event_unknown_namespace :: string

section \<open>Adapters\<close>

text \<open>What an adapter is filed under: its host, and for a GitHub App the owner.\<close>

type_synonym adapter_key = "string \<times> string option"

record 'f bridge =
  br_cfg :: bridge_config
  br_did :: string
  br_adapters :: "adapter_key \<Rightarrow> 'f adapter option"
  br_vgi :: "adapter_key \<Rightarrow> vgi_config option"
  br_tt :: tt_lib
  br_doc :: doc_lib
  br_gen :: gen_lib

definition adapter_key :: "string \<Rightarrow> string option \<Rightarrow> adapter_key" where
  "adapter_key h ow = (h, map_option to_ascii_lowercase ow)"

definition insert_adapter :: "'f adapter \<Rightarrow> string option \<Rightarrow> vgi_config \<Rightarrow> 'f bridge \<Rightarrow> 'f bridge" where
  "insert_adapter a ow vgi br =
     br\<lparr>br_vgi := (br_vgi br)(adapter_key (fo_host (ad_ops a)) ow \<mapsto> vgi),
        br_adapters := (br_adapters br)(adapter_key (fo_host (ad_ops a)) ow \<mapsto> a)\<rparr>"

definition get_forgejo :: "'f bridge \<Rightarrow> string \<Rightarrow> 'f adapter option" where
  "get_forgejo br h = br_adapters br (h, None)"

definition get_github :: "'f bridge \<Rightarrow> string \<Rightarrow> string \<Rightarrow> 'f adapter option" where
  "get_github br h ow = br_adapters br (h, Some (to_ascii_lowercase ow))"

definition key_of :: "'f bridge \<Rightarrow> resource \<Rightarrow> adapter_key option" where
  "key_of br r =
     find (\<lambda>k. \<not> Option.is_none (br_adapters br k))
       [(host r, None), (host r, Some (to_ascii_lowercase (owner r)))]"

definition for_resource :: "'f bridge \<Rightarrow> resource \<Rightarrow> 'f adapter option" where
  "for_resource br r = Option.bind (key_of br r) (br_adapters br)"

definition vgi_for :: "'f bridge \<Rightarrow> resource \<Rightarrow> vgi_config option" where
  "vgi_for br r = Option.bind (key_of br r) (br_vgi br)"

text \<open>Hand a stored namespace back to its adapter.\<close>

definition adapter_restore :: "'f adapter \<Rightarrow> namespace_record \<Rightarrow> ('f, forge_error + unit) io" where
  "adapter_restore a rec =
     (if nr_state rec \<notin> {NsBound, NsOrphaned} then return (Inr ())
      else case nr_binding rec of
        None \<Rightarrow> return (Inr ())
      | Some b \<Rightarrow>
          ok_then (on_forge (fo_register_namespace (ad_ops a) (nb_namespace b))) (\<lambda>_.
            case ad_github a of
              None \<Rightarrow> return (Inr ())
            | Some g \<Rightarrow> do {
                _ \<leftarrow> (case first_of (nr_required_workflow rec)
                        (map_option required_workflow (nr_capabilities rec)) of
                   None \<Rightarrow> return ()
                 | Some rw \<Rightarrow> on_forge (gh_set_required_workflow g (nr_resource rec) rw));
                _ \<leftarrow> on_forge (gh_set_managed g (nr_resource rec) (nr_managed rec));
                _ \<leftarrow> (case nr_bridge_checks rec of
                   None \<Rightarrow> return ()
                 | Some ready \<Rightarrow> on_forge (gh_set_checks_ready g (nr_resource rec) ready));
                _ \<leftarrow> (case nr_pin rec of
                   None \<Rightarrow> return ()
                 | Some pin \<Rightarrow> on_forge (gh_set_pin g (nr_resource rec) pin));
                return (Inr ())
              }))"

section \<open>Reading the store for a job\<close>

definition job_refusal :: "'f bridge \<Rightarrow> standard_code \<Rightarrow> string \<Rightarrow> error_payload" where
  "job_refusal br code msg = with_message msg (error_of (br_tt br) code)"

definition unknown_namespace :: "'f bridge \<Rightarrow> string \<Rightarrow> error_payload" where
  "unknown_namespace br msg = with_message msg (declared_error (gl_unknown_namespace (br_gen br)))"

definition not_capable :: "'f bridge \<Rightarrow> string \<Rightarrow> error_payload" where
  "not_capable br msg = with_message msg (declared_error (gl_not_capable (br_gen br)))"

definition bound_namespace :: "'f bridge \<Rightarrow> string \<Rightarrow> ('f, error_payload + namespace_record) io" where
  "bound_namespace br i = do {
     r \<leftarrow> get_rec NAMESPACES i;
     return (case r of
         Inl e \<Rightarrow> Inl (job_refusal br UnavailableCode (''store: '' @ e))
       | Inr None \<Rightarrow> Inl (unknown_namespace br (''no namespace `'' @ i @ ''` is bound to this bridge''))
       | Inr (Some ns) \<Rightarrow>
           if is_bound ns then Inr ns
           else Inl (unknown_namespace br (''no namespace `'' @ i @ ''` is bound to this bridge'')))
   }"

text \<open>A job's namespace, its adapter, and the adapter's view of the namespace.\<close>

record 'f ctx =
  cx_ns :: namespace_record
  cx_adapter :: "'f adapter"
  cx_namespace :: namespace

definition cx_host :: "'f ctx \<Rightarrow> string" where
  "cx_host c = host (nr_resource (cx_ns c))"

definition cx_ops :: "'f ctx \<Rightarrow> 'f forge_ops" where
  "cx_ops c = ad_ops (cx_adapter c)"

definition ctx_with :: "'f bridge \<Rightarrow> namespace_record \<Rightarrow> string + 'f ctx" where
  "ctx_with br ns =
     (case (for_resource br (nr_resource ns), nr_binding ns) of
        (None, _) \<Rightarrow> Inl (''no adapter for `'' @ host (nr_resource ns) @ ''`'')
      | (Some a, Some b) \<Rightarrow> Inr \<lparr>cx_ns = ns, cx_adapter = a, cx_namespace = nb_namespace b\<rparr>
      | (Some a, None) \<Rightarrow> Inl [])"

definition ctx_load :: "'f bridge \<Rightarrow> string \<Rightarrow> ('f, string + 'f ctx) io" where
  "ctx_load br i = do {
     r \<leftarrow> bound_namespace br i;
     return (case r of
         Inl e \<Rightarrow> Inl (unwrap_or (ep_message e) [])
       | Inr ns \<Rightarrow> ctx_with br ns)
   }"

definition ctx_load_posting_checks :: "'f bridge \<Rightarrow> string \<Rightarrow> ('f, string + 'f ctx) io" where
  "ctx_load_posting_checks br i = do {
     r \<leftarrow> get_rec NAMESPACES i;
     case r of
       Inr (Some ns) \<Rightarrow>
         if nr_is_orphaned ns \<and> nr_binding ns \<noteq> None then return (ctx_with br ns) else ctx_load br i
     | _ \<Rightarrow> ctx_load br i
   }"

definition find_rec :: "'v table_at \<Rightarrow> string \<Rightarrow> ('f, 'v option) io" where
  "find_rec t k = or_else (get_rec t k) None"

definition the_repo_record :: "string \<Rightarrow> u64 \<Rightarrow> ('f, repo_record option) io" where
  "the_repo_record h i = find_rec REPOS (repo_key h i)"

definition list_or_empty :: "'v table_at \<Rightarrow> ('f, (string \<times> 'v) list) io" where
  "list_or_empty t = or_else (list_rec t) []"

definition repo_record_by_resource :: "resource \<Rightarrow> ('f, repo_record option) io" where
  "repo_record_by_resource r = do {
     recs \<leftarrow> list_or_empty REPOS;
     return (find (\<lambda>rec. rr_resource rec = r) (map snd recs))
   }"

definition probe_bridge_checks :: "'f bridge \<Rightarrow> string \<Rightarrow> ('f, unit) io" where
  "probe_bridge_checks br i = do {
     r \<leftarrow> find_rec NAMESPACES i;
     case r of
       None \<Rightarrow> return ()
     | Some ns \<Rightarrow>
         (case Option.bind (for_resource br (nr_resource ns)) ad_github of
            None \<Rightarrow> return ()
          | Some g \<Rightarrow> do {
              answer \<leftarrow> on_forge (gh_detect_installation g (nr_resource ns));
              case answer of
                Inl _ \<Rightarrow> return ()
              | Inr (ready, missing) \<Rightarrow> do {
                  _ \<leftarrow> map_rec NAMESPACES i (\<lambda>n. n\<lparr>nr_bridge_checks := Some ready,
                         nr_binding := map_option (\<lambda>b. b\<lparr>nb_missing_permissions := missing\<rparr>)
                                         (nr_binding n)\<rparr>);
                  return ()
                }
            })
   }"

section \<open>Sending\<close>

definition hex2 :: "u8 \<Rightarrow> string" where
  "hex2 b = [hex_digit (unat b div 16), hex_digit (unat b mod 16)]"

definition new_id_of :: "u8 list \<Rightarrow> string" where
  "new_id_of random =
     (let b = random[6 := (random ! 6 AND 0x0F) OR 0x40];
          b = b[8 := (b ! 8 AND 0x3F) OR 0x80];
          h = concat (map hex2 b)
      in ''urn:uuid:'' @ take 8 h @ ''-'' @ take 4 (drop 8 h) @ ''-'' @ take 4 (drop 12 h) @ ''-''
         @ take 4 (drop 16 h) @ ''-'' @ take 12 (drop 20 h))"

definition draw :: "(nat \<Rightarrow> 'a) \<Rightarrow> ('f, 'a) io" where
  "draw f = State (\<lambda>w. (f (ids_drawn w), w\<lparr>ids_drawn := Suc (ids_drawn w)\<rparr>))"

definition new_id :: "'f bridge \<Rightarrow> ('f, string) io" where
  "new_id br = draw (\<lambda>n. new_id_of (dl_random (br_doc br) n))"

definition signed_request :: "'f bridge \<Rightarrow> string \<Rightarrow> json \<Rightarrow> ('f, string + string \<times> json) io" where
  "signed_request br type_uri payload = do {
     i \<leftarrow> new_id br;
     at \<leftarrow> clock_now;
     return (case dl_sign (br_doc br)
                \<lparr>tt_id = i, tt_type = type_uri, tt_thread_id = Some i, tt_issuer = Some (br_did br),
                 tt_recipient = Some (bc_vtc_did (br_cfg br)), tt_issued_at = Some at,
                 tt_payload = payload\<rparr> of
         Inl e \<Rightarrow> Inl e
       | Inr doc \<Rightarrow> Inr (i, doc))
   }"

definition signed_response :: "'f bridge \<Rightarrow> trust_task \<Rightarrow> json \<Rightarrow> ('f, string + json) io" where
  "signed_response br req payload = do {
     i \<leftarrow> new_id br;
     return (dl_sign (br_doc br) (dl_respond (br_doc br) req i payload))
   }"

definition signed_error :: "'f bridge \<Rightarrow> trust_task \<Rightarrow> error_payload \<Rightarrow> ('f, string + json) io" where
  "signed_error br req payload = do {
     i \<leftarrow> new_id br;
     return (dl_sign (br_doc br)
       ((dl_reject (br_doc br) req i payload)\<lparr>tt_issuer := Some (br_did br)\<rparr>))
   }"

text \<open>The link: it takes the document, or fails.\<close>

definition link_send :: "json \<Rightarrow> ('f, bool) io" where
  "link_send doc = State (\<lambda>w. case link_faults w of
       True # rest \<Rightarrow> (False, w\<lparr>link_faults := rest\<rparr>)
     | _ \<Rightarrow> (True, w\<lparr>link_faults := tl (link_faults w), carried := carried w @ [doc]\<rparr>))"

definition send_doc :: "json \<Rightarrow> ('f, bool) io" where
  "send_doc doc = do {
     ok \<leftarrow> link_send doc;
     _ \<leftarrow> modify (\<lambda>w. if ok
            then (if link_is_down w then w\<lparr>link_is_down := False, recovery_raised := True\<rparr> else w)
            else w\<lparr>link_is_down := True\<rparr>);
     return ok
   }"

definition send_error :: "'f bridge \<Rightarrow> trust_task \<Rightarrow> error_payload \<Rightarrow> ('f, unit) io" where
  "send_error br req payload = do {
     r \<leftarrow> signed_error br req payload;
     case r of Inl _ \<Rightarrow> return () | Inr doc \<Rightarrow> do { _ \<leftarrow> send_doc doc; return () }
   }"

definition respond :: "'f bridge \<Rightarrow> trust_task \<Rightarrow> json \<Rightarrow> ('f, unit) io" where
  "respond br req payload = do {
     r \<leftarrow> signed_response br req payload;
     case r of Inl _ \<Rightarrow> return () | Inr doc \<Rightarrow> do { _ \<leftarrow> send_doc doc; return () }
   }"

section \<open>None of this touches the database\<close>

lemma keeps_outside [keeps_rules]:
  "keeps (on_db I) (draw f)" "keeps (on_db I) (link_send doc)"
  by (auto simp: keeps_def on_db_def draw_def link_send_def split: list.split bool.split)

lemma keeps_new_id [keeps_rules]: "keeps (on_db I) (new_id br)"
  unfolding new_id_def by (intro keeps_rules)

lemma keeps_send_doc [keeps_rules]: "keeps (on_db I) (send_doc doc)"
  unfolding send_doc_def
  by (intro keeps_rules keeps_modify) (simp add: on_db_def)

lemma keeps_signed [keeps_rules]:
  "keeps (on_db I) (signed_request br ty p)" "keeps (on_db I) (signed_response br req p)"
  "keeps (on_db I) (signed_error br req e)"
  unfolding signed_request_def signed_response_def signed_error_def by (intro keeps_rules)+

lemma keeps_answers [keeps_rules]:
  "keeps (on_db I) (send_error br req e)" "keeps (on_db I) (respond br req p)"
  unfolding send_error_def respond_def by (intro keeps_rules)+

lemma keeps_find [keeps_rules]:
  "keeps (on_db I) (find_rec t k)" "keeps (on_db I) (list_or_empty t)"
  "keeps (on_db I) (the_repo_record h i)" "keeps (on_db I) (repo_record_by_resource r)"
  unfolding find_rec_def list_or_empty_def the_repo_record_def repo_record_by_resource_def
  by (intro keeps_rules)+

lemma keeps_ctx [keeps_rules]:
  "keeps (on_db I) (bound_namespace br i)" "keeps (on_db I) (ctx_load br i)"
  "keeps (on_db I) (ctx_load_posting_checks br i)"
  unfolding bound_namespace_def ctx_load_def ctx_load_posting_checks_def by (intro keeps_rules)+

lemma keeps_adapter_restore [keeps_rules]: "keeps (on_db I) (adapter_restore a rec)"
  unfolding adapter_restore_def by (intro keeps_rules)

section \<open>A bridge for examples\<close>

text \<open>
  A forge without any state that has no repository, and a bridge with it as the one Forgejo host of
  \<open>sample_config\<close>'s community. The framework and the generated code are the simplest functions of
  their types.
\<close>

definition absent :: "('f, forge_error + 'a) state" where
  "absent = return (Inl (NotFound ''repository''))"

definition full_caps :: capabilities where
  "full_caps =
     \<lparr>automation = True, bot_can_create_repos = True,
      role_levels = [RoleNone, RoleRead, RoleWrite, RoleAdmin], required_checks = BranchProtection,
      webhooks = True, account_link = AuthorizationCodePkce, per_repo_tokens = False,
      required_workflow = False, single_owner_repos_unreviewed = False, bridge_posted_check = False\<rparr>"

definition sample_ops :: "'f forge_ops" where
  "sample_ops = with_default_methods
     \<lparr>fo_host = ''code.example'', fo_capabilities = (\<lambda>_ _. full_caps),
      fo_map_role = (\<lambda>_ _ _ _. RoleNone), fo_is_protected = (\<lambda>_ _ _. False),
      fo_begin_bind = (\<lambda>_. return (Inr (BindRedirect ''https://code.example/bind''))),
      fo_complete_bind = (\<lambda>_. absent), fo_begin_link = (\<lambda>_. absent), fo_complete_link = (\<lambda>_. absent),
      fo_inspect = (\<lambda>_. absent), fo_create_repo = (\<lambda>_. absent), fo_archive_repo = (\<lambda>_. absent),
      fo_apply_roles = (\<lambda>_ _ _. absent), fo_indirect_access = (\<lambda>_ _. absent),
      fo_bootstrap_plan = (\<lambda>_ _ _. Inr []), fo_run_step = (\<lambda>_ _. absent),
      fo_pull_request = (\<lambda>_ _. absent), fo_has_own_comment = (\<lambda>_ _ _. absent),
      fo_comment = (\<lambda>_ _ _. absent), fo_close_pull = (\<lambda>_ _. absent), fo_diff = (\<lambda>_ _. []),
      fo_parse_event = (\<lambda>_. Inr None), fo_register_namespace = (\<lambda>_. return (Inr ()))\<rparr>"

definition sample_adapter :: "'f adapter" where
  "sample_adapter = \<lparr>ad_ops = sample_ops, ad_hooks = no_hooks, ad_github = None, ad_forgejo = None\<rparr>"

definition sample_bridge :: "'f bridge" where
  "sample_bridge =
     \<lparr>br_cfg = sample_config, br_did = ''did:x:bridge'',
      br_adapters = (\<lambda>k. if k = (''code.example'', None) then Some sample_adapter else None),
      br_vgi = (\<lambda>k. if k = (''code.example'', None) then Some (vgi_config_new [] [] [] []) else None),
      br_tt = \<lparr>read_envelope = (\<lambda>_. Inl []), validate_freshness = (\<lambda>_ _ _. Inr ()),
        error_of = (\<lambda>c. \<lparr>ep_code = Standard c, ep_message = None, ep_retryable = False\<rparr>),
        proof_invalid = (\<lambda>e. \<lparr>ep_code = Standard ProofInvalid, ep_message = Some e, ep_retryable = False\<rparr>),
        is_response = (\<lambda>_. False), uri_slug = (\<lambda>u. u)\<rparr>,
      br_doc = \<lparr>dl_respond = (\<lambda>req i p. req\<lparr>tt_id := i, tt_thread_id := Some (tt_id req), tt_payload := p\<rparr>),
        dl_reject = (\<lambda>req i e. req\<lparr>tt_id := i, tt_thread_id := Some (tt_id req), tt_payload := JNull\<rparr>),
        dl_sign = (\<lambda>d. Inr (JObject [(''id'', JString (tt_id d)), (''payload'', tt_payload d)])),
        dl_random = (\<lambda>n. replicate 16 (of_nat n)), dl_state = (\<lambda>n. replicate (Suc n) CHR ''s'')\<rparr>,
      br_gen = \<lparr>gl_parse_job = (\<lambda>_. Inl []), gl_digest = (\<lambda>_. []), gl_sha256_hex = (\<lambda>_. []),
        gl_fits_result = (\<lambda>_. True), gl_fits_event = (\<lambda>_. True), gl_bad_next = (\<lambda>_. None),
        gl_acked_job = (\<lambda>j. Option.bind (jget ''jobId'' j) as_str_json), gl_link_state = (\<lambda>_. None),
        gl_rfc3339 = (\<lambda>_. []), gl_result_type = ''result'', gl_event_type = ''event'',
        gl_job_id_reused = \<lparr>dec_code = ''jobIdReused'', dec_retryable = False\<rparr>,
        gl_unknown_namespace = \<lparr>dec_code = ''unknownNamespace'', dec_retryable = False\<rparr>,
        gl_not_capable = \<lparr>dec_code = ''notCapable'', dec_retryable = False\<rparr>,
        gl_result_unknown_job = ''unknownJob'', gl_event_unknown_namespace = ''unknownNamespace''\<rparr>\<rparr>"

definition example_world :: "store \<Rightarrow> unit world" where
  "example_world d =
     \<lparr>db = d, faults = [], link_faults = [], flush_faults = [], clock = 1000, forge_state = (), carried = [],
      link_is_down = False, recovery_raised = False, ids_drawn = 0, spawned = [],
      route_cache = None, re_resolved = [], report_slots = []\<rparr>"

definition example_namespace :: namespace_record where
  "example_namespace =
     (namespace_pending ''ns1'' (Resource ''code.example/acme''))
       \<lparr>nr_state := NsBound,
        nr_binding := Some \<lparr>nb_namespace = namespace_new (Resource ''code.example/acme'') Organization,
          nb_capabilities = None, nb_missing_permissions = []\<rparr>\<rparr>"

end
