(* ===== verification/Bridge_Status.thy ===== *)
theory Bridge_Status
  imports Bridge_Env
begin

text \<open>
  What the bridge tells the community about itself: the status report that rides on every result
  and event (\<open>vgi-bridge/src/status.rs\<close>), and the report of the role map it projects rights with
  (\<open>rolemap.rs\<close>).
\<close>

section \<open>The guard in force\<close>

definition EXT_KEY :: string where
  "EXT_KEY = ''org.openvtc.git-ns''"

datatype guard = RequiredWorkflowGuard | CodeOwnerReviewGuard | BridgePostedGuard
  | ProtectedFilesGuard | NoGuard

fun guard_str :: "guard \<Rightarrow> string" where
  "guard_str RequiredWorkflowGuard = ''requiredWorkflow''"
| "guard_str CodeOwnerReviewGuard = ''codeOwnerReview''"
| "guard_str BridgePostedGuard = ''bridgePostedCheck''"
| "guard_str ProtectedFilesGuard = ''protectedFiles''"
| "guard_str NoGuard = ''none''"

definition source_weakened :: "drift list \<Rightarrow> bool" where
  "source_weakened drift \<longleftrightarrow>
     list_ex (\<lambda>d. case d of
         ProtectionWeakened gaps \<Rightarrow>
           list_ex (\<lambda>g. case g of CheckSourceUnprotected _ \<Rightarrow> True | UnprotectedPaths _ \<Rightarrow> True | _ \<Rightarrow> False) gaps
       | _ \<Rightarrow> False) drift"

definition in_force :: "repo_state \<Rightarrow> drift list \<Rightarrow> guard" where
  "in_force state drift =
     (let p = rs_protection state;
          observed = (case source_guard p of
              GuardBridgePosted \<Rightarrow> BridgePostedGuard
            | GuardRequiredWorkflow \<Rightarrow> RequiredWorkflowGuard
            | GuardOwnerReview _ _ \<Rightarrow> CodeOwnerReviewGuard
            | GuardUnreviewed \<Rightarrow> NoGuard
            | _ \<Rightarrow> if present p \<and> ps_protected_paths p \<noteq> [] then ProtectedFilesGuard else NoGuard)
      in if source_weakened drift \<and> observed \<noteq> BridgePostedGuard then NoGuard else observed)"

section \<open>The status report\<close>

definition manifest_pending :: "string \<Rightarrow> string \<Rightarrow> ('f, bool) io" where
  "manifest_pending h ow = do {
     now \<leftarrow> clock_now;
     flows \<leftarrow> list_or_empty PENDING;
     return (list_ex (\<lambda>(_, f). case f of
         FlowManifest h' o' expires \<Rightarrow>
           h' = h \<and> expires > now \<and> (case o' of None \<Rightarrow> True | Some x \<Rightarrow> eq_ignore_ascii_case x ow)
       | _ \<Rightarrow> False) flows)
   }"

definition upgrade_pending :: "namespace_record \<Rightarrow> namespace_binding \<Rightarrow> github_config \<Rightarrow> bool option" where
  "upgrade_pending ns b g =
     (if nb_missing_permissions b \<noteq> [] then Some True
      else if gc_bridge_checks g then map_option Not (nr_bridge_checks ns)
      else Some False)"

definition opt_member :: "string \<Rightarrow> ('a \<Rightarrow> json) \<Rightarrow> 'a option \<Rightarrow> (string \<times> json) list" where
  "opt_member k f v = (case v of None \<Rightarrow> [] | Some x \<Rightarrow> [(k, f x)])"

definition app_members :: "'f bridge \<Rightarrow> namespace_record \<Rightarrow> ('f, (string \<times> json) list) io" where
  "app_members br ns =
     (case github_for (br_cfg br) (host (nr_resource ns)) (owner (nr_resource ns)) of
        None \<Rightarrow> return []
      | Some g \<Rightarrow> do {
          registration \<leftarrow> (if \<not> Option.is_none (for_resource br (nr_resource ns)) then return ''registered''
            else do {
              p \<leftarrow> manifest_pending (host (nr_resource ns)) (gc_app_owner g);
              return (if p then ''pending'' else ''unregistered'')
            });
          return ([(''appName'', JString (gc_app_name g))]
            @ opt_member ''appSlug'' (\<lambda>gh. JString (gh_app_slug gh))
                (Option.bind (for_resource br (nr_resource ns)) ad_github)
            @ [(''appRegistration'', JString registration)])
        })"

definition installation_members :: "'f bridge \<Rightarrow> namespace_record \<Rightarrow> namespace_binding \<Rightarrow> (string \<times> json) list" where
  "installation_members br ns b =
     opt_member ''installationId'' (\<lambda>i. JString (show_word i)) (ns_installation_id (nb_namespace b))
     @ (case github_for (br_cfg br) (host (nr_resource ns)) (owner (nr_resource ns)) of
          None \<Rightarrow> []
        | Some g \<Rightarrow>
            if ns_installation_id (nb_namespace b) = None then []
            else (if nb_missing_permissions b = [] then []
                  else [(''missingPermissions'', JArray (map JString (nb_missing_permissions b)))])
              @ opt_member ''permissionUpgradePending'' JBool (upgrade_pending ns b g)
              @ opt_member ''orgRulesets'' JBool (nr_required_workflow ns))"

definition namespace_report :: "'f bridge \<Rightarrow> namespace_record \<Rightarrow> ('f, (string \<times> json) list) io" where
  "namespace_report br ns = do {
     app \<leftarrow> app_members br ns;
     case nr_binding ns of
       None \<Rightarrow> return app
     | Some b \<Rightarrow> do {
         caps \<leftarrow> (case for_resource br (nr_resource ns) of
            None \<Rightarrow> return []
          | Some a \<Rightarrow> do {
              caps \<leftarrow> ask_forge (fo_capabilities (ad_ops a) (nb_namespace b));
              return (if automation caps
                then [(''requiredWorkflow'', JBool (required_workflow caps)),
                      (''bridgePostedCheck'', JBool (bridge_posted_check caps))]
                else [])
            });
         return (app @ installation_members br ns b @ caps)
       }
   }"

definition repo_report :: "'f bridge \<Rightarrow> repo_record \<Rightarrow> (string \<times> json) list" where
  "repo_report br rec =
     opt_member ''guard'' JString (rr_guard rec)
     @ opt_member ''lastCheck'' (\<lambda>c. JObject
         [(''sha'', JString (lc_sha c)), (''conclusion'', JString (lc_conclusion c)),
          (''at'', JString (gl_rfc3339 (br_gen br) (lc_at c)))]) (rr_last_check rec)"

definition ext :: "'f bridge \<Rightarrow> string \<Rightarrow> (string \<times> u64) option \<Rightarrow> ('f, json option) io" where
  "ext br ns_id repo = do {
     r \<leftarrow> find_rec NAMESPACES ns_id;
     n \<leftarrow> (case r of
        None \<Rightarrow> return []
      | Some ns \<Rightarrow> do {
          n \<leftarrow> namespace_report br ns;
          return (if n = [] then [] else [(''namespace'', JObject n)])
        });
     q \<leftarrow> (case repo of
        None \<Rightarrow> return []
      | Some (h, i) \<Rightarrow> do {
          rec \<leftarrow> the_repo_record h i;
          return (case rec of
              None \<Rightarrow> []
            | Some rec \<Rightarrow> if repo_report br rec = [] then [] else [(''repo'', JObject (repo_report br rec))])
        });
     return (if n @ q = [] then None else Some (JObject [(EXT_KEY, JObject (n @ q))]))
   }"

text \<open>\<open>payload["ext"] = ext\<close>, kept only when the whole still fits its type.\<close>

fun set_member :: "string \<Rightarrow> json \<Rightarrow> json \<Rightarrow> json" where
  "set_member k v (JObject ms) =
     (if k \<in> fst ` set ms then JObject (map (\<lambda>(j, w). (j, if j = k then v else w)) ms)
      else JObject (ms @ [(k, v)]))"
| "set_member k v j = j"

definition attach :: "(json \<Rightarrow> bool) \<Rightarrow> json \<Rightarrow> json option \<Rightarrow> json" where
  "attach fits payload e =
     (case e of
        None \<Rightarrow> payload
      | Some e \<Rightarrow>
          let with_ext = set_member ''ext'' e payload in if fits with_ext then with_ext else payload)"

section \<open>The role map\<close>

definition OUTBOX_PREFIX :: string where
  "OUTBOX_PREFIX = ''event:roleMap:''"

definition outbox_key :: "string \<Rightarrow> string" where
  "outbox_key ns_id = OUTBOX_PREFIX @ ns_id"

definition effective_for :: "'f forge_ops \<Rightarrow> namespace \<Rightarrow> role_map \<Rightarrow> 'f \<Rightarrow> role_map option" where
  "effective_for ops ns m f =
     (let role = (\<lambda>r. fo_map_role ops ns (from_granted [r]) m f)
      in case role_map_new (role RepoOwn) (role RepoMaintain) (role CommitSign) of
           Inl _ \<Rightarrow> None
         | Inr e \<Rightarrow> Some e)"

definition effective :: "'f ctx \<Rightarrow> role_map \<Rightarrow> 'f \<Rightarrow> role_map option" where
  "effective c m f = effective_for (cx_ops c) (cx_namespace c) m f"

definition ladder_for :: "'f forge_ops \<Rightarrow> namespace \<Rightarrow> 'f \<Rightarrow> forge_role list" where
  "ladder_for ops ns f = remdups_adj (sort (filter (\<lambda>l. l \<noteq> RoleNone) (role_levels (fo_capabilities ops ns f))))"

definition role_map_json :: "role_map \<Rightarrow> json" where
  "role_map_json m =
     JObject [(''own'', JString (role_display (map_own m))),
              (''maintain'', JString (role_display (map_maintain m))),
              (''commit'', JString (role_display (map_commit m)))]"

text \<open>The repositories of \<open>ns\<close> last projected under another map than the one now applied to them.\<close>

definition is_stale :: "namespace_record \<Rightarrow> role_map \<Rightarrow> (resource \<Rightarrow> role_map option) \<Rightarrow> repo_record \<Rightarrow> bool" where
  "is_stale ns default_map at rec \<longleftrightarrow>
     rr_namespace rec = nr_id ns \<and> rr_roles_known rec \<and> \<not> rr_archived rec
     \<and> contains_resource (nr_resource ns) (rr_resource rec)
     \<and> Some (unwrap_or (rr_role_map rec) default_map) \<noteq> at (rr_resource rec)"

definition stale_of ::
    "namespace_record \<Rightarrow> role_map \<Rightarrow> (resource \<Rightarrow> role_map option) \<Rightarrow> (string \<times> repo_record) list
       \<Rightarrow> string list" where
  "stale_of ns default_map at recs =
     sort (remdups (map (\<lambda>rec. as_str (rr_resource rec))
       (filter (is_stale ns default_map at) (map snd recs))))"

definition differing_repos ::
    "role_map \<Rightarrow> (resource \<times> role_map) list \<Rightarrow> json list" where
  "differing_repos base ms =
     map (\<lambda>(r, m). JObject [(''resource'', JString (as_str r)), (''roleMap'', role_map_json m)])
       (filter (\<lambda>(_, m). m \<noteq> base) ms)"

definition role_map_reported :: "role_map \<Rightarrow> forge_role list \<Rightarrow> json list \<Rightarrow> string list \<Rightarrow> json" where
  "role_map_reported base ladder listed stale =
     JObject ([(''type'', JString ''roleMapReported''), (''roleMap'', role_map_json base),
               (''ladder'', JArray (map (\<lambda>l. JString (role_display l)) ladder))]
       @ (if listed = [] then [] else [(''repos'', JArray listed)])
       @ (if stale = [] then [] else [(''stale'', JArray (map JString stale))]))"

definition role_map_event :: "'f bridge \<Rightarrow> namespace_record \<Rightarrow> ('f, json option) io" where
  "role_map_event br ns =
     (case (nr_state ns, nr_binding ns, for_resource br (nr_resource ns)) of
        (NsBound, Some b, Some a) \<Rightarrow> do {
          at \<leftarrow> ask_forge (\<lambda>f m. effective_for (ad_ops a) (nb_namespace b) m f);
          ladder \<leftarrow> ask_forge (ladder_for (ad_ops a) (nb_namespace b));
          let here = (\<lambda>r. at (cfg_role_map (br_cfg br) r));
          case (here (nr_resource ns),
                those (map (\<lambda>r. map_option (Pair r) (here r)) (role_map_repos (br_cfg br) (nr_resource ns))),
                at default_role_map) of
            (Some base, Some ms, Some default_map) \<Rightarrow> do {
              recs \<leftarrow> list_or_empty REPOS;
              return (Some (role_map_reported base ladder (differing_repos base ms)
                (stale_of ns default_map here recs)))
            }
          | _ \<Rightarrow> return None
        }
      | _ \<Rightarrow> return None)"

section \<open>Rules\<close>

lemma keeps_manifest_pending [keeps_rules]: "keeps (on_db I) (manifest_pending h ow)"
  unfolding manifest_pending_def by (intro keeps_rules)

lemma keeps_namespace_report [keeps_rules]: "keeps (on_db I) (namespace_report br ns)"
  unfolding namespace_report_def app_members_def by (intro keeps_rules)

lemma keeps_ext [keeps_rules]: "keeps (on_db I) (ext br i repo)"
  unfolding ext_def by (intro keeps_rules)

lemma keeps_role_map_event [keeps_rules]: "keeps (on_db I) (role_map_event br ns)"
  unfolding role_map_event_def
  by (auto split: namespace_state.split option.split prod.split intro!: keeps_rules)

section \<open>A role-map report is exact\<close>

lemma jget_role_map_reported:
  "jget ''roleMap'' (role_map_reported base ladder listed stale) = Some (role_map_json base)"
  "elements (jget ''ladder'' (role_map_reported base ladder listed stale)) = map (\<lambda>l. JString (role_display l)) ladder"
  "elements (jget ''repos'' (role_map_reported base ladder listed stale)) = listed"
  "elements (jget ''stale'' (role_map_reported base ladder listed stale)) = map JString stale"
  by (simp_all add: role_map_reported_def elements_def)

lemma effective_forD:
  "effective_for ops ns m f = Some e \<Longrightarrow> wf_role_map e
     \<and> map_own e = fo_map_role ops ns (from_granted [RepoOwn]) m f
     \<and> map_maintain e = fo_map_role ops ns (from_granted [RepoMaintain]) m f
     \<and> map_commit e = fo_map_role ops ns (from_granted [CommitSign]) m f"
  by (auto simp: effective_for_def Let_def role_map_new_iff split: sum.splits)

lemma role_map_event_SomeD:
  assumes "run_state (role_map_event br ns) w = (Some ev, w')"
  obtains b a base ms default_map where
    "nr_state ns = NsBound" "nr_binding ns = Some b" "for_resource br (nr_resource ns) = Some a"
    "effective_for (ad_ops a) (nb_namespace b) (cfg_role_map (br_cfg br) (nr_resource ns)) (forge_state w) = Some base"
    "effective_for (ad_ops a) (nb_namespace b) default_role_map (forge_state w) = Some default_map"
    "those (map (\<lambda>r. map_option (Pair r) (effective_for (ad_ops a) (nb_namespace b)
        (cfg_role_map (br_cfg br) r) (forge_state w))) (role_map_repos (br_cfg br) (nr_resource ns))) = Some ms"
    "ev = role_map_reported base (ladder_for (ad_ops a) (nb_namespace b) (forge_state w)) (differing_repos base ms)
       (stale_of ns default_map (\<lambda>r. effective_for (ad_ops a) (nb_namespace b) (cfg_role_map (br_cfg br) r) (forge_state w))
          (case faults w of True # _ \<Rightarrow> [] | _ \<Rightarrow> repos (db w)))"
  using assms
  by (auto simp: role_map_event_def ask_forge_def Let_def list_or_empty_def or_else_def list_rec_def txn_def REPOS_def
      split: namespace_state.splits option.splits list.splits bool.splits)

lemma strict_remdups_adj:
  fixes xs :: "'a::linorder list"
  shows "sorted xs \<Longrightarrow> sorted_wrt (<) (remdups_adj xs)"
  by (induction xs rule: remdups_adj.induct) (auto simp: less_le)

lemma ladder_strict: "sorted_wrt (<) (ladder_for ops ns f)"
  unfolding ladder_for_def by (rule strict_remdups_adj) (rule sorted_sort)

text \<open>The reported role map is the one the forge applies. A report is made only for a bound namespace
  an adapter serves. Its map is ordered, with only owners at administrator, and gives each tier
  exactly the role the adapter maps that right to under the configured map; its ladder is strictly
  increasing and leaves out \<open>none\<close>; and a repository is listed as stale exactly when the bridge
  projected its roles and they were last projected under another map than the one it would apply
  now (a failed read of the records lists none).\<close>

theorem role_map_report_is_exact:
  assumes "run_state (role_map_event br ns) w = (Some ev, w')"
  shows "\<exists>b a base default_map.
     nr_state ns = NsBound \<and> nr_binding ns = Some b \<and> for_resource br (nr_resource ns) = Some a
     \<and> jget ''roleMap'' ev = Some (role_map_json base) \<and> wf_role_map base
     \<and> (let given = (\<lambda>right. fo_map_role (ad_ops a) (nb_namespace b) (from_granted [right])
             (cfg_role_map (br_cfg br) (nr_resource ns)) (forge_state w))
        in map_own base = given RepoOwn \<and> map_maintain base = given RepoMaintain
           \<and> map_commit base = given CommitSign)
     \<and> (\<exists>ladder. elements (jget ''ladder'' ev) = map (\<lambda>l. JString (role_display l)) ladder
           \<and> sorted_wrt (<) ladder \<and> RoleNone \<notin> set ladder)
     \<and> effective_for (ad_ops a) (nb_namespace b) default_role_map (forge_state w) = Some default_map
     \<and> set (elements (jget ''stale'' ev)) =
         {JString (as_str (rr_resource rec)) | rec k.
            (k, rec) \<in> set (case faults w of True # _ \<Rightarrow> [] | _ \<Rightarrow> repos (db w))
            \<and> is_stale ns default_map (\<lambda>r. effective_for (ad_ops a) (nb_namespace b)
                 (cfg_role_map (br_cfg br) r) (forge_state w)) rec}"
proof -
  from assms obtain b a base ms default_map where
    1: "nr_state ns = NsBound" "nr_binding ns = Some b" "for_resource br (nr_resource ns) = Some a" and
    2: "effective_for (ad_ops a) (nb_namespace b) (cfg_role_map (br_cfg br) (nr_resource ns)) (forge_state w) = Some base" and
    3: "effective_for (ad_ops a) (nb_namespace b) default_role_map (forge_state w) = Some default_map" and
    4: "ev = role_map_reported base (ladder_for (ad_ops a) (nb_namespace b) (forge_state w)) (differing_repos base ms)
       (stale_of ns default_map (\<lambda>r. effective_for (ad_ops a) (nb_namespace b) (cfg_role_map (br_cfg br) r) (forge_state w))
          (case faults w of True # _ \<Rightarrow> [] | _ \<Rightarrow> repos (db w)))"
    by (rule role_map_event_SomeD)
  have stale: "set (map JString (stale_of ns default_map at recs))
      = {JString (as_str (rr_resource rec)) | rec k. (k, rec) \<in> set recs \<and> is_stale ns default_map at rec}" for at recs
    by (auto simp: stale_of_def image_iff Bex_def)
  have none: "RoleNone \<notin> set (ladder_for (ad_ops a) (nb_namespace b) (forge_state w))"
    by (simp add: ladder_for_def)
  show ?thesis
    unfolding Let_def
    by (intro exI [of _ b] exI [of _ a] exI [of _ base] exI [of _ default_map] conjI
        exI [of _ "ladder_for (ad_ops a) (nb_namespace b) (forge_state w)"])
      (use 1 3 effective_forD [OF 2] ladder_strict none stale in \<open>simp_all add: 4 jget_role_map_reported\<close>)
qed

lemma sample_effective_for:
  "effective_for sample_ops ns m f =
     (case role_map_new (map_role full_caps (from_granted [RepoOwn]) m)
        (map_role full_caps (from_granted [RepoMaintain]) m) (map_role full_caps (from_granted [CommitSign]) m) of
        Inl _ \<Rightarrow> None | Inr e \<Rightarrow> Some e)"
  by (simp add: effective_for_def sample_ops_def with_default_methods_def Let_def)

lemma sample_for_resource: "for_resource sample_bridge (Resource ''code.example/acme'') = Some sample_adapter"
proof -
  have "host (Resource ''code.example/acme'') = ''code.example''" by code_simp
  then show ?thesis by (simp add: for_resource_def key_of_def sample_bridge_def)
qed

lemma role_map_report_is_exact_witness:
  "\<exists>ev w'. run_state (role_map_event sample_bridge example_namespace) (example_world empty_store) = (Some ev, w')
     \<and> jget ''roleMap'' ev \<noteq> None"
proof -
  let ?R = "Resource ''code.example/acme''"
  let ?ns = "namespace_new ?R Organization"
  have "effective_for sample_ops ?ns (cfg_role_map sample_config ?R) () \<noteq> None"
    unfolding sample_effective_for by code_simp
  then obtain base where 1: "effective_for sample_ops ?ns (cfg_role_map sample_config ?R) () = Some base" by blast
  have "effective_for sample_ops ?ns default_role_map () \<noteq> None"
    unfolding sample_effective_for by code_simp
  then obtain d where 2: "effective_for sample_ops ?ns default_role_map () = Some d" by blast
  have 3: "role_map_repos sample_config ?R = []" by code_simp
  have c: "br_cfg sample_bridge = sample_config" by (simp add: sample_bridge_def)
  have "\<exists>ev w'. run_state (role_map_event sample_bridge example_namespace) (example_world empty_store) = (Some ev, w')"
    using 1 2 3
    by (simp add: role_map_event_def example_namespace_def namespace_pending_def sample_for_resource
        ask_forge_def example_world_def sample_adapter_def c list_or_empty_def or_else_def
        list_rec_def txn_def Let_def)
  then obtain ev w' where r: "run_state (role_map_event sample_bridge example_namespace)
      (example_world empty_store) = (Some ev, w')" by blast
  from role_map_report_is_exact [OF r] show ?thesis using r by blast
qed

end
