(* ===== verification/Bridge_Outbox.thy ===== *)
theory Bridge_Outbox
  imports Bridge_Status
begin

text \<open>
  The outbox (\<open>vgi-bridge/src/bridge.rs\<close>, \<open>rolemap.rs\<close>): what waits for the community's acknowledgement, how
  it is sent and sent again, and what its answers do to it. Each send is a freshly issued and
  signed document; a role-map report is built anew for every send.
\<close>

section \<open>Events into the outbox\<close>

definition repo_of_event :: "json \<Rightarrow> u64 option" where
  "repo_of_event event = Option.bind (Option.bind (jget ''forgeId'' event) as_str_json) parse_u64"

definition event_outbox_payload ::
    "'f bridge \<Rightarrow> string \<Rightarrow> json \<Rightarrow> json list option \<Rightarrow> ('f, string + json option) io" where
  "event_outbox_payload br ns event drift = do {
     rec \<leftarrow> find_rec NAMESPACES ns;
     let ns_resource = map_option nr_resource rec;
     if outside_namespace ns_resource event (unwrap_or drift []) \<noteq> None then return (Inr None)
     else (case event_payload (gl_fits_event (br_gen br)) ns event drift of
         Inl e \<Rightarrow> return (Inl e)
       | Inr payload \<Rightarrow> do {
           e \<leftarrow> ext br ns (case (ns_resource, repo_of_event event) of
               (Some r, Some i) \<Rightarrow> Some (host r, i) | _ \<Rightarrow> None);
           return (Inr (Some (attach (gl_fits_event (br_gen br)) payload e)))
         })
   }"

section \<open>Sending an entry\<close>

text \<open>The entry after a send: the last eight documents that carried it, the time and the count.\<close>

definition note_sent :: "string \<Rightarrow> int \<Rightarrow> outbox_entry \<Rightarrow> outbox_entry" where
  "note_sent i at e =
     (let ids = ob_doc_ids e @ [i]
      in e\<lparr>ob_doc_ids := (if length ids > 8 then tl ids else ids), ob_last_sent := at,
           ob_attempts := ob_attempts e + 1\<rparr>)"

text \<open>Rebuild a role-map entry, or drop it when there is nothing to report now.\<close>

definition refresh_role_map_entry :: "'f bridge \<Rightarrow> string \<Rightarrow> ('f, bool) io" where
  "refresh_role_map_entry br key = do {
     let ns_id = drop (length OUTBOX_PREFIX) key;
     rec \<leftarrow> find_rec NAMESPACES ns_id;
     ev \<leftarrow> (case rec of None \<Rightarrow> return None | Some ns \<Rightarrow> role_map_event br ns);
     fresh \<leftarrow> (case ev of
         None \<Rightarrow> return None
       | Some ev \<Rightarrow> or_else (event_outbox_payload br ns_id ev None) None);
     case fresh of
       None \<Rightarrow> do { _ \<leftarrow> delete_rec OUTBOX key; return False }
     | Some payload \<Rightarrow> do {
         r \<leftarrow> map_rec OUTBOX key (\<lambda>e. e\<lparr>ob_payload := payload\<rparr>);
         return (case r of Inl _ \<Rightarrow> False | Inr _ \<Rightarrow> True)
       }
   }"

definition type_of_kind :: "gen_lib \<Rightarrow> outbox_kind \<Rightarrow> string" where
  "type_of_kind gen k = (case k of OkResult \<Rightarrow> gl_result_type gen | OkEvent \<Rightarrow> gl_event_type gen)"

text \<open>Issue, sign and send one entry (the flush to the mirror comes first).\<close>

definition send_entry :: "'f bridge \<Rightarrow> string \<Rightarrow> outbox_entry \<Rightarrow> ('f, unit) io" where
  "send_entry br key entry = do {
     flushed \<leftarrow> store_flush;
     if \<not> flushed then return ()
     else do {
       r \<leftarrow> signed_request br (type_of_kind (br_gen br) (ob_kind entry)) (ob_payload entry);
       case r of
         Inl _ \<Rightarrow> return ()
       | Inr (i, doc) \<Rightarrow> do {
           at \<leftarrow> clock_now;
           _ \<leftarrow> map_rec OUTBOX key (note_sent i at);
           _ \<leftarrow> send_doc doc;
           return ()
         }
     }
   }"

definition send_current :: "'f bridge \<Rightarrow> string \<Rightarrow> ('f, unit) io" where
  "send_current br key = do {
     r \<leftarrow> find_rec OUTBOX key;
     case r of
       None \<Rightarrow> return ()
     | Some entry \<Rightarrow> do {
         stale \<leftarrow> (if ob_kind entry = OkEvent
            then (case event_namespace entry of None \<Rightarrow> return False | Some ns \<Rightarrow> is_orphaned ns)
            else return False);
         if stale then do { _ \<leftarrow> delete_rec OUTBOX key; return () }
         else send_entry br key entry
       }
   }"

definition send_outbox :: "'f bridge \<Rightarrow> string \<Rightarrow> ('f, unit) io" where
  "send_outbox br key = do {
     go \<leftarrow> (if starts_with OUTBOX_PREFIX key then refresh_role_map_entry br key else return True);
     if go then send_current br key else return ()
   }"

section \<open>Reporting an event\<close>

definition send_event_keyed ::
    "'f bridge \<Rightarrow> string \<Rightarrow> json \<Rightarrow> json list option \<Rightarrow> string option \<Rightarrow> ('f, string + unit) io" where
  "send_event_keyed br ns event drift key = do {
     orphaned \<leftarrow> is_orphaned ns;
     if orphaned then return (Inr ())
     else ok_then (event_outbox_payload br ns event drift) (\<lambda>payload. case payload of
         None \<Rightarrow> return (Inr ())
       | Some payload \<Rightarrow> do {
           key \<leftarrow> (case key of
               Some k \<Rightarrow> return k
             | None \<Rightarrow> do { i \<leftarrow> new_id br; return (''event:'' @ i) });
           ok_then (put_rec OUTBOX key (outbox_new OkEvent payload)) (\<lambda>_. do {
             _ \<leftarrow> send_outbox br key;
             return (Inr ())
           })
         })
   }"

definition send_event :: "'f bridge \<Rightarrow> string \<Rightarrow> json \<Rightarrow> json list option \<Rightarrow> ('f, string + unit) io" where
  "send_event br ns event drift = send_event_keyed br ns event drift None"

definition report_role_map :: "'f bridge \<Rightarrow> string \<Rightarrow> ('f, unit) io" where
  "report_role_map br ns_id = do {
     r \<leftarrow> find_rec NAMESPACES ns_id;
     case r of
       None \<Rightarrow> return ()
     | Some ns \<Rightarrow> do {
         ev \<leftarrow> role_map_event br ns;
         case ev of
           None \<Rightarrow> return ()
         | Some ev \<Rightarrow> do {
             _ \<leftarrow> send_event_keyed br ns_id ev None (Some (outbox_key ns_id));
             return ()
           }
       }
   }"

definition started_serving :: "'f bridge \<Rightarrow> string \<Rightarrow> ('f, unit) io" where
  "started_serving br ns_id = report_role_map br ns_id"

definition report_role_maps :: "'f bridge \<Rightarrow> ('f, unit) io" where
  "report_role_maps br = do {
     all \<leftarrow> list_or_empty NAMESPACES;
     for_each all (\<lambda>(_, ns). if nr_state ns = NsBound then report_role_map br (nr_id ns) else return ())
   }"

section \<open>Sending again\<close>

text \<open>The resend interval, doubled per attempt up to six times and capped at an hour.\<close>

definition backoff :: "u64 \<Rightarrow> u32 \<Rightarrow> int" where
  "backoff resend_secs attempts =
     min 3600 (sat64 (as_i64 resend_secs * 2 ^ min (unat attempts) 6))"

definition resend_matching :: "'f bridge \<Rightarrow> bool \<Rightarrow> (string \<Rightarrow> bool) \<Rightarrow> ('f, unit) io" where
  "resend_matching br everything pick = do {
     entries \<leftarrow> list_or_empty OUTBOX;
     now \<leftarrow> clock_now;
     for_each (filter (\<lambda>(k, _). pick k) entries) (\<lambda>(key, e).
       if everything \<or> ob_last_sent e + backoff (bc_resend_secs (br_cfg br)) (ob_attempts e) \<le> now
       then send_outbox br key else return ())
   }"

definition resend_unacknowledged :: "'f bridge \<Rightarrow> bool \<Rightarrow> ('f, unit) io" where
  "resend_unacknowledged br everything = resend_matching br everything (\<lambda>_. True)"

definition link_up :: "'f bridge \<Rightarrow> ('f, unit) io" where
  "link_up br = do {
     _ \<leftarrow> modify (\<lambda>w. w\<lparr>link_is_down := False\<rparr>);
     _ \<leftarrow> resend_matching br True (\<lambda>k. \<not> starts_with OUTBOX_PREFIX k);
     report_role_maps br
   }"

section \<open>The community's answers\<close>

definition on_result_ack :: "'f bridge \<Rightarrow> trust_task \<Rightarrow> ('f, unit) io" where
  "on_result_ack br doc =
     (case gl_acked_job (br_gen br) (tt_payload doc) of
        None \<Rightarrow> return ()
      | Some job_id \<Rightarrow> do { _ \<leftarrow> delete_rec OUTBOX (result_key job_id); return () })"

definition clear_outbox_thread :: "string \<Rightarrow> ('f, outbox_entry option) io" where
  "clear_outbox_thread thread = do {
     entries \<leftarrow> list_or_empty OUTBOX;
     case find (\<lambda>(_, e). thread \<in> set (ob_doc_ids e)) entries of
       None \<Rightarrow> return None
     | Some (key, e) \<Rightarrow> do { _ \<leftarrow> delete_rec OUTBOX key; return (Some e) }
   }"

definition on_event_ack :: "trust_task \<Rightarrow> ('f, unit) io" where
  "on_event_ack doc =
     (case tt_thread_id doc of
        None \<Rightarrow> return ()
      | Some thread \<Rightarrow> do { _ \<leftarrow> clear_outbox_thread thread; return () })"

definition on_error_response :: "'f bridge \<Rightarrow> trust_task \<Rightarrow> ('f, unit) io" where
  "on_error_response br doc =
     (let code = unwrap_or (Option.bind (jget ''code'' (tt_payload doc)) as_str_json) [];
          thread = unwrap_or (tt_thread_id doc) []
      in if code = gl_result_unknown_job (br_gen br)
         then do { _ \<leftarrow> clear_outbox_thread thread; return () }
         else if code = gl_event_unknown_namespace (br_gen br)
         then do {
           cleared \<leftarrow> clear_outbox_thread thread;
           case cleared of
             None \<Rightarrow> return ()
           | Some entry \<Rightarrow>
               (case (ob_kind entry, event_namespace entry) of
                  (OkEvent, Some ns) \<Rightarrow>
                    if thread \<noteq> [] then do { _ \<leftarrow> orphan ns; return () } else return ()
                | _ \<Rightarrow> return ())
         }
         else return ())"
section \<open>What the outbox operations keep\<close>

text \<open>
  Results are filed under \<open>result:\<close> and events under \<open>event:\<close>. An invariant that every change of an
  event entry keeps, and the note of a send, is kept by every operation that sends.
\<close>

fun kind_prefix :: "outbox_kind \<Rightarrow> string" where
  "kind_prefix OkResult = ''result:''"
| "kind_prefix OkEvent = ''event:''"

definition outbox_keyed :: "store \<Rightarrow> bool" where
  "outbox_keyed d \<longleftrightarrow> (\<forall>k e. (k, e) \<in> set (outbox d) \<longrightarrow> starts_with (kind_prefix (ob_kind e)) k)"

lemma outbox_keyedD:
  assumes "outbox_keyed d" "(k, e) \<in> set (outbox d)"
  shows "ob_kind e = OkEvent \<Longrightarrow> starts_with ''event:'' k" "ob_kind e = OkResult \<Longrightarrow> starts_with ''result:'' k"
  using assms unfolding outbox_keyed_def by (metis kind_prefix.simps)+

lemma prefixes_differ: "starts_with ''event:'' k \<Longrightarrow> \<not> starts_with ''result:'' k"
  by (auto simp: starts_with_def split: option.splits list.splits if_splits elim: strip_prefix.elims)

lemma role_map_key_is_event: "starts_with OUTBOX_PREFIX k \<Longrightarrow> starts_with ''event:'' k"
  by (auto simp: starts_with_prefix OUTBOX_PREFIX_def prefix_def)

locale outbox_inv =
  fixes I :: "store \<Rightarrow> bool"
  assumes keyed: "I d \<Longrightarrow> outbox_keyed d"
    and put_event: "I d \<Longrightarrow> starts_with ''event:'' k \<Longrightarrow> ob_kind e = OkEvent \<Longrightarrow>
      I (outbox_update (tab_put k e) d)"
    and del_event: "I d \<Longrightarrow> starts_with ''event:'' k \<Longrightarrow> I (outbox_update (tab_del k) d)"
    and noted: "I d \<Longrightarrow> map_of (outbox d) k = Some e \<Longrightarrow> I (outbox_update (tab_put k (note_sent i at e)) d)"
    and not_noted: "I d \<Longrightarrow> map_of (outbox d) k = None \<Longrightarrow> I (outbox_update (tab_del k) d)"
begin

lemma keeps_del_event: "starts_with ''event:'' k \<Longrightarrow> keeps (on_db I) (delete_rec OUTBOX k)"
  unfolding delete_rec_def by (rule keeps_txn) (simp add: OUTBOX_def del_event)

lemma keeps_put_event:
  "starts_with ''event:'' k \<Longrightarrow> ob_kind e = OkEvent \<Longrightarrow> keeps (on_db I) (put_rec OUTBOX k e)"
  unfolding put_rec_def by (rule keeps_txn) (simp add: OUTBOX_def put_event)

lemma keeps_note: "keeps (on_db I) (map_rec OUTBOX k (note_sent i at))"
  unfolding map_rec_def update_rec_def
  by (rule keeps_txn) (auto simp: OUTBOX_def noted not_noted split: option.split)

lemma keeps_new_payload:
  assumes "starts_with ''event:'' k"
  shows "keeps (on_db I) (map_rec OUTBOX k (\<lambda>e. e\<lparr>ob_payload := p\<rparr>))"
  unfolding map_rec_def update_rec_def
proof (rule keeps_txn)
  fix d
  assume d: "I d"
  have "ob_kind e = OkEvent" if "map_of (outbox d) k = Some e" for e
    using outbox_keyedD(2) [OF keyed [OF d] map_of_SomeD [OF that]] assms prefixes_differ [of k]
    by (cases "ob_kind e") auto
  with d assms show "I (snd (case (map_option (\<lambda>e. e\<lparr>ob_payload := p\<rparr>) (map_of (fst OUTBOX d) k), ()) of
      (Some v, out) \<Rightarrow> (out, snd OUTBOX (tab_put k v) d) | (None, out) \<Rightarrow> (out, snd OUTBOX (tab_del k) d)))"
    by (cases "map_of (outbox d) k") (simp_all add: OUTBOX_def put_event del_event)
qed

lemma keeps_event_outbox_payload: "keeps (on_db I) (event_outbox_payload br ns ev drift)"
  unfolding event_outbox_payload_def Let_def by (intro keeps_rules)

lemma keeps_refresh: "starts_with OUTBOX_PREFIX k \<Longrightarrow> keeps (on_db I) (refresh_role_map_entry br k)"
  unfolding refresh_role_map_entry_def Let_def
  by (intro keeps_rules keeps_event_outbox_payload keeps_del_event keeps_new_payload)
    (simp_all add: role_map_key_is_event)

lemma keeps_send_entry: "keeps (on_db I) (send_entry br k e)"
  unfolding send_entry_def by (intro keeps_rules keeps_flush keeps_note)

lemma keeps_is_orphaned: "keeps (on_db I) (is_orphaned i)"
  unfolding is_orphaned_def by (intro keeps_rules)

lemma keeps_send_current: "keeps (on_db I) (send_current br k)"
  unfolding send_current_def find_rec_def or_else_def bind_assoc bind_left_identity keeps_triple
proof (rule triple_bind [OF triple_get])
  fix r :: "string + outbox_entry option"
  let ?body = "case (case r of Inl _ \<Rightarrow> None | Inr a \<Rightarrow> a) of
       None \<Rightarrow> return ()
     | Some entry \<Rightarrow> do {
         stale \<leftarrow> (if ob_kind entry = OkEvent
            then (case event_namespace entry of None \<Rightarrow> return False | Some ns \<Rightarrow> is_orphaned ns)
            else return False);
         if stale then do { _ \<leftarrow> delete_rec OUTBOX k; return () }
         else send_entry br k entry
       }"
  show "triple (\<lambda>w. on_db I w \<and> (\<forall>v. r = Inr v \<longrightarrow> v = map_of (fst OUTBOX (db w)) k)) ?body (\<lambda>_. on_db I)"
  proof (rule tripleI, elim conjE)
    fix w a w'
    assume I: "on_db I w" and v: "\<forall>v. r = Inr v \<longrightarrow> v = map_of (fst OUTBOX (db w)) k"
      and run: "run_state ?body w = (a, w')"
    have key: "starts_with ''event:'' k" if "r = Inr (Some e)" "ob_kind e = OkEvent" for e
      using v that outbox_keyedD(1) [OF keyed [of "db w"]] I by (auto simp: on_db_def OUTBOX_def dest!: sym [of "Some e"] map_of_SomeD)
    have "keeps (on_db I) ?body"
    proof (cases "case r of Inl _ \<Rightarrow> None | Inr a \<Rightarrow> a")
      case (Some e)
      then have r: "r = Inr (Some e)" by (simp split: sum.splits)
      show ?thesis
      proof (cases "ob_kind e = OkEvent")
        case True
        from key [OF r True] show ?thesis
          unfolding Some option.case by (intro keeps_rules keeps_del_event keeps_send_entry keeps_is_orphaned)
      next
        case False
        then show ?thesis by (simp add: Some keeps_send_entry)
      qed
    qed (simp add: keeps_return)
    from keeps_run [OF this I run] show "on_db I w'" .
  qed
qed

lemma keeps_send_outbox: "keeps (on_db I) (send_outbox br k)"
  by (cases "starts_with OUTBOX_PREFIX k")
    (auto simp: send_outbox_def intro!: keeps_rules keeps_refresh keeps_send_current)

lemma keeps_enqueue:
  assumes "starts_with ''event:'' k"
  shows "keeps (on_db I) (ok_then (put_rec OUTBOX k (outbox_new OkEvent p)) (\<lambda>_. do {
      _ \<leftarrow> send_outbox br k; return (Inr ()) }))"
  using assms by (intro keeps_rules keeps_put_event keeps_send_outbox) (simp_all add: outbox_new_def)

lemma keeps_send_event_keyed:
  assumes "\<And>k. key = Some k \<Longrightarrow> starts_with ''event:'' k"
  shows "keeps (on_db I) (send_event_keyed br ns ev drift key)"
proof (cases key)
  case None
  then show ?thesis
    unfolding send_event_keyed_def None option.case bind_assoc bind_left_identity
    by (intro keeps_rules keeps_is_orphaned keeps_event_outbox_payload keeps_enqueue)
      (simp add: starts_with_prefix)
next
  case (Some k)
  with assms show ?thesis
    unfolding send_event_keyed_def Some option.case bind_assoc bind_left_identity
    by (intro keeps_rules keeps_is_orphaned keeps_event_outbox_payload keeps_enqueue) simp
qed

lemma keeps_report_role_map: "keeps (on_db I) (report_role_map br i)"
  unfolding report_role_map_def
  by (intro keeps_rules keeps_send_event_keyed)
    (auto simp: outbox_key_def OUTBOX_PREFIX_def starts_with_prefix)

lemma keeps_started_serving: "keeps (on_db I) (started_serving br i)"
  unfolding started_serving_def by (rule keeps_report_role_map)

lemma keeps_resend: "keeps (on_db I) (resend_matching br everything pick)"
  unfolding resend_matching_def by (intro keeps_rules keeps_send_outbox)

lemma keeps_link_up: "keeps (on_db I) (link_up br)"
  unfolding link_up_def report_role_maps_def
  by (intro keeps_rules keeps_resend keeps_report_role_map keeps_modify) (simp add: on_db_def)

lemma keeps_drop_events: "keeps (on_db I) (drop_events i)"
proof -
  have loop: "keeps (on_db I) (for_each es (\<lambda>(key, e).
       if event_of i e then do { _ \<leftarrow> delete_rec OUTBOX key; return () } else return ()))"
    if "\<forall>(k, e)\<in>set es. ob_kind e = OkEvent \<longrightarrow> starts_with ''event:'' k" for es
    using that
  proof (induction es)
    case (Cons x es)
    obtain k e where "x = (k, e)" by (cases x)
    with Cons show ?case by (auto simp: event_of_def intro!: keeps_rules keeps_del_event)
  qed (simp add: keeps_rules)
  show ?thesis
    unfolding drop_events_def
    by (rule keeps_list_or_else; rule loop) (auto simp: OUTBOX_def dest: keyed intro: outbox_keyedD)
qed

end
lemma set_tab_put: "set (tab_put k v t) \<subseteq> insert (k, v) (set t)"
  by (induction k v t rule: tab_put.induct) auto

lemma note_sent_simps [simp]:
  "ob_kind (note_sent i at e) = ob_kind e" "ob_payload (note_sent i at e) = ob_payload e"
  "ob_last_sent (note_sent i at e) = at"
  by (simp_all add: note_sent_def Let_def)

text \<open>The keying of the outbox, with any property of the rest of the database.\<close>

definition keyed_and :: "(store \<Rightarrow> bool) \<Rightarrow> store \<Rightarrow> bool" where
  "keyed_and P d \<longleftrightarrow> outbox_keyed d \<and> P (outbox_update (\<lambda>_. []) d)"

lemma outbox_keyed_put:
  "outbox_keyed d \<Longrightarrow> starts_with (kind_prefix (ob_kind e)) k \<Longrightarrow> outbox_keyed (outbox_update (tab_put k e) d)"
  using set_tab_put [of k e "outbox d"] by (auto simp: outbox_keyed_def)

lemma outbox_keyed_del: "outbox_keyed d \<Longrightarrow> outbox_keyed (outbox_update (tab_del k) d)"
  by (auto simp: outbox_keyed_def tab_del_def)

lemma outbox_keyed_noted:
  assumes "outbox_keyed d" "map_of (outbox d) k = Some e"
  shows "outbox_keyed (outbox_update (tab_put k (note_sent i at e)) d)"
  using assms outbox_keyed_put [OF assms(1), of "note_sent i at e" k] map_of_SomeD [OF assms(2)]
  by (simp add: outbox_keyed_def)

interpretation frame: outbox_inv "keyed_and P" for P
  by unfold_locales
    (simp_all add: keyed_and_def outbox_keyed_put outbox_keyed_del outbox_keyed_noted comp_def)

text \<open>A result that waits, with its payload.\<close>

definition result_waits :: "string \<Rightarrow> json \<Rightarrow> store \<Rightarrow> bool" where
  "result_waits j p d \<longleftrightarrow> outbox_keyed d
     \<and> (\<exists>e. map_of (outbox d) (result_key j) = Some e \<and> ob_kind e = OkResult \<and> ob_payload e = p)"

lemma result_key_not_event: "\<not> starts_with ''event:'' (result_key j)"
  using prefixes_differ [of "result_key j"] by (auto simp: result_key_def starts_with_prefix)

interpretation waits: outbox_inv "result_waits j p" for j p
proof unfold_locales
  fix d k e i at
  assume w: "result_waits j p d" and m: "map_of (outbox d) k = Some e"
  from w have keyed: "outbox_keyed d" by (simp add: result_waits_def)
  from w m outbox_keyed_noted [OF keyed m]
  show "result_waits j p (outbox_update (tab_put k (note_sent i at e)) d)"
    by (auto simp: result_waits_def map_of_tab_put)
qed (use result_key_not_event in \<open>auto simp: result_waits_def outbox_keyed_put outbox_keyed_del
    map_of_tab_put map_of_tab_del\<close>)

section \<open>Nothing is lost on the way\<close>

text \<open>
  Between two states of the bridge: the clock stands still, the coming failures are used up, and
  what the link carried stays carried; nothing was spawned.
\<close>

definition coming_failures :: "'f world \<Rightarrow> nat" where
  "coming_failures w = length (faults w) + length (link_faults w) + length (flush_faults w)"

definition later :: "'f world \<Rightarrow> 'f world \<Rightarrow> bool" where
  "later w w' \<longleftrightarrow> clock w' = clock w \<and> coming_failures w' \<le> coming_failures w
     \<and> set (carried w) \<subseteq> set (carried w') \<and> spawned w' = spawned w"

lemma later_refl [simp]: "later w w"
  by (simp add: later_def)

lemma later_trans: "later w w1 \<Longrightarrow> later w1 w2 \<Longrightarrow> later w w2"
  by (auto simp: later_def)

lemma later_txn [keeps_rules]: "keeps (later w) (txn f)"
  by (fastforce simp: keeps_def later_def txn_def coming_failures_def split: list.split bool.split prod.split)

lemma later_store [keeps_rules]:
  "keeps (later w) (get_rec t k)" "keeps (later w) (put_rec t k v)" "keeps (later w) (put_new t k v)"
  "keeps (later w) (update_rec t k f)" "keeps (later w) (map_rec t k g)" "keeps (later w) (delete_rec t k)"
  "keeps (later w) (list_rec t)" "keeps (later w) (store_finish_job j r at)"
  by (simp_all add: get_rec_def op_defs list_rec_def later_txn)

lemma later_outside [keeps_rules]:
  "keeps (later w) (draw h)" "keeps (later w) store_flush" "keeps (later w) (link_send doc)"
  "keeps (later w) (on_forge m)"
  by (fastforce simp: keeps_def later_def coming_failures_def draw_def store_flush_def link_send_def on_forge_def
      split: list.split bool.split prod.split)+

lemma later_send_doc [keeps_rules]: "keeps (later w) (send_doc doc)"
  unfolding send_doc_def
  by (intro keeps_rules keeps_modify) (simp add: later_def coming_failures_def)

lemma later_reads [keeps_rules]:
  "keeps (later w) (find_rec t k)" "keeps (later w) (list_or_empty t)"
  "keeps (later w) (the_repo_record h i)" "keeps (later w) (is_orphaned n)"
  unfolding find_rec_def list_or_empty_def the_repo_record_def is_orphaned_def by (intro keeps_rules)+

lemma later_status [keeps_rules]: "keeps (later w) (ext br i repo)"
  unfolding ext_def namespace_report_def app_members_def manifest_pending_def by (intro keeps_rules)

lemma later_role_map_event [keeps_rules]: "keeps (later w) (role_map_event br ns)"
  unfolding role_map_event_def
  by (auto split: namespace_state.split option.split prod.split intro!: keeps_rules)

lemma later_signed [keeps_rules]:
  "keeps (later w) (signed_request br ty p)" "keeps (later w) (signed_response br req p)"
  "keeps (later w) (signed_error br req e)"
  unfolding signed_request_def signed_response_def signed_error_def new_id_def by (intro keeps_rules)+

lemma later_event_outbox_payload [keeps_rules]: "keeps (later w) (event_outbox_payload br ns ev drift)"
  unfolding event_outbox_payload_def Let_def by (intro keeps_rules)

lemma later_send_outbox [keeps_rules]: "keeps (later w) (send_outbox br k)"
proof -
  have "keeps (later w) (send_entry br k e)" for e
    unfolding send_entry_def by (intro keeps_rules)
  then have "keeps (later w) (send_current br k)"
    unfolding send_current_def by (intro keeps_rules)
  moreover have "keeps (later w) (refresh_role_map_entry br k)"
    unfolding refresh_role_map_entry_def Let_def by (intro keeps_rules)
  ultimately show ?thesis
    unfolding send_outbox_def by (intro keeps_rules)
qed
section \<open>A waiting result is delivered\<close>

text \<open>A document with payload \<open>p\<close>, signed for the community, was carried.\<close>

definition delivered :: "'f bridge \<Rightarrow> outbox_kind \<Rightarrow> json \<Rightarrow> 'f world \<Rightarrow> bool" where
  "delivered br k p w \<longleftrightarrow> (\<exists>i at doc. doc \<in> set (carried w) \<and> dl_sign (br_doc br)
      \<lparr>tt_id = i, tt_type = type_of_kind (br_gen br) k, tt_thread_id = Some i,
       tt_issuer = Some (br_did br), tt_recipient = Some (bc_vtc_did (br_cfg br)),
       tt_issued_at = Some at, tt_payload = p\<rparr> = Inr doc)"

definition signer_works :: "'f bridge \<Rightarrow> bool" where
  "signer_works br \<longleftrightarrow> (\<forall>d. \<exists>doc. dl_sign (br_doc br) d = Inr doc)"

lemma delivered_later: "delivered br k p w \<Longrightarrow> later w w' \<Longrightarrow> delivered br k p w'"
  by (auto simp: delivered_def later_def)

lemma later_run: "keeps (later w) m \<Longrightarrow> run_state m w = (a, w') \<Longrightarrow> later w w'"
  by (rule keeps_run [of _ m w]) simp_all

text \<open>Each link of the chain either works or uses up a failure.\<close>

lemma send_doc_delivers:
  assumes "run_state (send_doc doc) w = (a, w')"
  shows "doc \<in> set (carried w') \<or> coming_failures w' < coming_failures w"
  using assms
  by (auto simp: send_doc_def link_send_def coming_failures_def split: list.splits bool.splits)

lemma store_flush_uses:
  "run_state store_flush w = (False, w') \<Longrightarrow> coming_failures w' < coming_failures w"
  by (auto simp: store_flush_def coming_failures_def split: list.splits bool.splits)

lemma txn_uses: "run_state (txn f) w = (Inl e, w') \<Longrightarrow> coming_failures w' < coming_failures w"
  by (auto simp: txn_def coming_failures_def split: list.splits bool.splits prod.splits)

lemma send_entry_delivers:
  assumes "signer_works br" "run_state (send_entry br k e) w = (a, w')"
  shows "delivered br (ob_kind e) (ob_payload e) w' \<or> coming_failures w' < coming_failures w"
proof -
  from assms(2) obtain ok w1 where 1: "run_state store_flush w = (ok, w1)" and
    2: "run_state (if \<not> ok then return () else do {
       r \<leftarrow> signed_request br (type_of_kind (br_gen br) (ob_kind e)) (ob_payload e);
       case r of
         Inl _ \<Rightarrow> return ()
       | Inr (i, doc) \<Rightarrow> do { at \<leftarrow> clock_now; _ \<leftarrow> map_rec OUTBOX k (note_sent i at); _ \<leftarrow> send_doc doc; return () }
     }) w1 = (a, w')"
    unfolding send_entry_def by (elim run_bindE)
  have l1: "coming_failures w1 \<le> coming_failures w"
    using later_run [OF later_outside(2) 1] by (simp add: later_def)
  show ?thesis
  proof (cases ok)
    case False
    with 1 2 store_flush_uses [of w w1] show ?thesis by simp
  next
    case True
    obtain r w2 where 3: "run_state (signed_request br (type_of_kind (br_gen br) (ob_kind e)) (ob_payload e)) w1 = (r, w2)"
      by (cases "run_state (signed_request br (type_of_kind (br_gen br) (ob_kind e)) (ob_payload e)) w1")
    let ?i = "new_id_of (dl_random (br_doc br) (ids_drawn w1))"
    obtain doc where signed: "dl_sign (br_doc br)
      \<lparr>tt_id = ?i, tt_type = type_of_kind (br_gen br) (ob_kind e), tt_thread_id = Some ?i,
       tt_issuer = Some (br_did br), tt_recipient = Some (bc_vtc_did (br_cfg br)),
       tt_issued_at = Some (clock w1), tt_payload = ob_payload e\<rparr> = Inr doc"
      using assms(1) unfolding signer_works_def by blast
    with 3 have r: "r = Inr (?i, doc)"
      by (simp add: signed_request_def new_id_def draw_def clock_now_def)
    from 2 3 r True obtain t u w3 b w4 where
      4: "run_state (map_rec OUTBOX k (note_sent ?i t)) w2 = (u, w3)" and
      5: "run_state (send_doc doc) w3 = (b, w4)" and 6: "w' = w4"
      by (auto simp: clock_now_def split: prod.splits)
    have l: "coming_failures w3 \<le> coming_failures w"
      using l1 later_run [OF later_signed(1) 3] later_run [OF later_store(5) 4] by (simp add: later_def)
    from send_doc_delivers [OF 5] signed l 6 show ?thesis
      unfolding delivered_def by fastforce
  qed
qed

lemma send_outbox_delivers:
  assumes "signer_works br" "result_waits j p (db w)"
    and run: "run_state (send_outbox br (result_key j)) w = (a, w')"
  shows "delivered br OkResult p w' \<or> coming_failures w' < coming_failures w"
proof -
  have "\<not> starts_with OUTBOX_PREFIX (result_key j)"
    using result_key_not_event role_map_key_is_event by blast
  with run have "run_state (send_current br (result_key j)) w = (a, w')"
    by (simp add: send_outbox_def)
  then obtain r w1 where 1: "run_state (get_rec OUTBOX (result_key j)) w = (r, w1)" and
    2: "run_state (case (case r of Inl _ \<Rightarrow> None | Inr a \<Rightarrow> a) of
       None \<Rightarrow> return ()
     | Some entry \<Rightarrow> do {
         stale \<leftarrow> (if ob_kind entry = OkEvent
            then (case event_namespace entry of None \<Rightarrow> return False | Some ns \<Rightarrow> is_orphaned ns)
            else return False);
         if stale then do { _ \<leftarrow> delete_rec OUTBOX (result_key j); return () }
         else send_entry br (result_key j) entry
       }) w1 = (a, w')"
    unfolding send_current_def find_rec_def or_else_def bind_assoc bind_left_identity by (elim run_bindE)
  have l1: "coming_failures w1 \<le> coming_failures w"
    using later_run [OF later_store(1) 1] by (simp add: later_def)
  show ?thesis
  proof (cases r)
    case (Inl e)
    with 1 2 txn_uses show ?thesis by (fastforce simp: get_rec_def)
  next
    case (Inr v)
    from assms(2) 1 Inr obtain e where e: "v = Some e" "ob_kind e = OkResult" "ob_payload e = p"
      by (auto simp: result_waits_def OUTBOX_def dest!: get_rec_InrD)
    with 2 Inr have "run_state (send_entry br (result_key j) e) w1 = (a, w')" by simp
    from send_entry_delivers [OF assms(1) this] e l1 show ?thesis by auto
  qed
qed

lemma keeps_for_each_in:
  "(\<And>x. x \<in> set xs \<Longrightarrow> keeps I (body x)) \<Longrightarrow> keeps I (for_each xs body)"
  by (induction xs) (auto intro: keeps_rules)

lemma run_for_each_append:
  "run_state (for_each (xs @ ys) body) w = run_state (for_each ys body) (snd (run_state (for_each xs body) w))"
  by (induction xs arbitrary: w) (auto split: prod.splits)

text \<open>One round of resending.\<close>

definition resend_round :: "'f bridge \<Rightarrow> 'f world \<Rightarrow> 'f world" where
  "resend_round br w = snd (run_state (resend_unacknowledged br True) w)"

lemma resend_round_keeps:
  "result_waits j p (db w) \<Longrightarrow> result_waits j p (db (resend_round br w))"
  using keepsD [OF waits.keeps_resend, of j p w br True "\<lambda>_. True"]
  by (simp add: resend_round_def resend_unacknowledged_def on_db_def)

lemma resend_round_delivers:
  assumes "signer_works br" "result_waits j p (db w)"
  shows "delivered br OkResult p (resend_round br w) \<or> coming_failures (resend_round br w) < coming_failures w"
proof -
  let ?body = "\<lambda>(key, e). if True
      \<or> ob_last_sent e + backoff (bc_resend_secs (br_cfg br)) (ob_attempts e) \<le> clock w
    then send_outbox br key else return ()"
  have later_body: "keeps (later w1) (for_each es ?body)" for w1 es
    by (intro keeps_rules)
  show ?thesis
  proof (cases "faults w")
    case (Cons f rest)
    show ?thesis
    proof (cases f)
      case True
      then show ?thesis
        using Cons by (simp add: resend_round_def resend_unacknowledged_def resend_matching_def
            list_or_empty_def or_else_def list_rec_def txn_def clock_now_def coming_failures_def)
    next
      case False
      let ?w1 = "w\<lparr>faults := rest\<rparr>"
      have "coming_failures ?w1 < coming_failures w" using Cons by (simp add: coming_failures_def)
      moreover have "resend_round br w = snd (run_state (for_each (outbox (db w)) ?body) ?w1)"
        using Cons False by (simp add: resend_round_def resend_unacknowledged_def resend_matching_def
            list_or_empty_def or_else_def list_rec_def txn_def clock_now_def OUTBOX_def)
      ultimately show ?thesis
        using keepsD [OF later_body, of ?w1 ?w1 "outbox (db w)"] by (simp add: later_def)
    qed
  next
    case Nil
    from assms(2) obtain e where "(result_key j, e) \<in> set (outbox (db w))"
      by (auto simp: result_waits_def dest: map_of_SomeD)
    then obtain pre post where es: "outbox (db w) = pre @ (result_key j, e) # post"
      by (auto dest: split_list)
    let ?w1 = "snd (run_state (for_each pre ?body) w)"
    obtain a w2 where 2: "run_state (send_outbox br (result_key j)) ?w1 = (a, w2)"
      by (cases "run_state (send_outbox br (result_key j)) ?w1")
    have same: "w\<lparr>faults := []\<rparr> = w" using Nil by (cases w) simp
    have "resend_round br w = snd (run_state (for_each (outbox (db w)) ?body) (w\<lparr>faults := []\<rparr>))"
      using Nil by (simp add: resend_round_def resend_unacknowledged_def resend_matching_def
          list_or_empty_def or_else_def list_rec_def txn_def clock_now_def OUTBOX_def)
    also have "\<dots> = snd (run_state (for_each post ?body) w2)"
      unfolding same es run_for_each_append using 2 by simp
    finally have round: "resend_round br w = snd (run_state (for_each post ?body) w2)" .
    have "keeps (on_db (result_waits j p)) (for_each pre ?body)"
      by (intro keeps_rules waits.keeps_send_outbox)
    then have "result_waits j p (db ?w1)"
      using keepsD assms(2) by (fastforce simp: on_db_def)
    from send_outbox_delivers [OF assms(1) this 2]
    have "delivered br OkResult p w2 \<or> coming_failures w2 < coming_failures w"
      using keepsD [OF later_body, of w w pre] by (auto simp: later_def)
    then show ?thesis
      using keepsD [OF later_body, of w2 w2 post] unfolding round
      by (auto intro: delivered_later simp: later_def)
  qed
qed

text \<open>C21: A result is delivered in the end. Whatever finite sequence of failures of the store, the mirror
  and the link is still to come, a result that waits in the outbox is signed for the community and
  carried within as many rounds of resending as there are failures, and one more, and it keeps
  waiting there for its acknowledgement; the signer is supposed to work.\<close>

theorem waiting_result_is_delivered:
  assumes "signer_works br" "result_waits j p (db w)"
  shows "\<exists>n \<le> Suc (coming_failures w). delivered br OkResult p ((resend_round br ^^ n) w)
     \<and> result_waits j p (db ((resend_round br ^^ n) w))"
  using assms(2)
proof (induction "coming_failures w" arbitrary: w rule: less_induct)
  case less
  let ?w1 = "resend_round br w"
  have waits: "result_waits j p (db ?w1)" by (rule resend_round_keeps [OF less.prems])
  show ?case
  proof (cases "delivered br OkResult p ?w1")
    case True
    with waits show ?thesis by (intro exI [of _ 1]) simp
  next
    case False
    with resend_round_delivers [OF assms(1) less.prems] have f: "coming_failures ?w1 < coming_failures w" by blast
    from less.hyps [OF f waits] obtain n where n: "n \<le> Suc (coming_failures ?w1)"
      "delivered br OkResult p ((resend_round br ^^ n) ?w1)" "result_waits j p (db ((resend_round br ^^ n) ?w1))"
      by blast
    then show ?thesis
      using f by (intro exI [of _ "Suc n"]) (simp add: funpow_swap1)
  qed
qed

definition example_waiting :: store where
  "example_waiting = empty_store\<lparr>outbox := [(result_key ''j1'', outbox_new OkResult (JString ''done''))]\<rparr>"

lemma waiting_result_is_delivered_witness:
  "\<exists>n. delivered sample_bridge OkResult (JString ''done'')
     ((resend_round sample_bridge ^^ n) ((example_world example_waiting)\<lparr>link_faults := [True, True]\<rparr>))"
proof -
  have s: "signer_works (sample_bridge :: unit bridge)" by (simp add: signer_works_def sample_bridge_def)
  have "result_waits ''j1'' (JString ''done'') (db ((example_world example_waiting)\<lparr>link_faults := [True, True]\<rparr>))"
    by (simp add: result_waits_def example_world_def example_waiting_def empty_store_def outbox_keyed_def
        outbox_new_def result_key_def starts_with_def)
  from waiting_result_is_delivered [OF s this] show ?thesis by blast
qed

end
