(* ===== verification/Bridge_Detach.thy ===== *)
theory Bridge_Detach
  imports Bridge_Outbox
begin

text \<open>
  Which repositories a webhook's sender may speak for, and what happens to one that is gone
  (\<open>vgi-bridge/src/events.rs\<close>): a delivery speaks for its App's owner only, and a repository that was
  deleted, moved or replaced is detached, nothing of it being carried anywhere. Panics of the code
  (a slice inside a character, an \<open>expect\<close>) are the value \<open>None\<close>.
\<close>

section \<open>Panics\<close>

definition some_then :: "('s, 'a option) state \<Rightarrow> ('a \<Rightarrow> ('s, 'b option) state) \<Rightarrow> ('s, 'b option) state" where
  "some_then m f = do { r \<leftarrow> m; case r of None \<Rightarrow> return None | Some a \<Rightarrow> f a }"

definition done_some :: "('s, 'a) state \<Rightarrow> ('s, 'a option) state" where
  "done_some m = do { a \<leftarrow> m; return (Some a) }"

lemma keeps_some_then [keeps_rules]:
  "keeps I m \<Longrightarrow> (\<And>a. keeps I (f a)) \<Longrightarrow> keeps I (some_then m f)"
  unfolding some_then_def by (intro keeps_rules)

lemma keeps_done_some [keeps_rules]: "keeps I m \<Longrightarrow> keeps I (done_some m)"
  unfolding done_some_def by (intro keeps_rules)

section \<open>Scope\<close>

definition NAMESPACE_REPOS :: "string list" where
  "NAMESPACE_REPOS = [''.vgi'']"

definition webhook_adapter :: "'f bridge \<Rightarrow> string \<Rightarrow> string option \<Rightarrow> 'f adapter option" where
  "webhook_adapter br h ow = (case ow of Some x \<Rightarrow> get_github br h x | None \<Rightarrow> get_forgejo br h)"

record scope =
  sc_host :: string
  sc_owner :: "string option"

definition covers :: "scope \<Rightarrow> resource \<Rightarrow> bool" where
  "covers s r \<longleftrightarrow> host r = sc_host s
     \<and> (case sc_owner s of None \<Rightarrow> True | Some x \<Rightarrow> eq_ignore_ascii_case (owner r) x)"

definition admits_repo :: "scope \<Rightarrow> resource \<Rightarrow> u64 \<Rightarrow> bool \<Rightarrow> ('f, bool) io" where
  "admits_repo s repo i need_record =
     (if \<not> covers s repo then return False
      else do {
        rec \<leftarrow> the_repo_record (sc_host s) i;
        case rec of
          None \<Rightarrow> return (\<not> need_record)
        | Some rec \<Rightarrow>
            if \<not> covers s (rr_resource rec) then return False
            else do {
              n \<leftarrow> find_rec NAMESPACES (rr_namespace rec);
              return (case n of None \<Rightarrow> False | Some n \<Rightarrow> covers s (nr_resource n))
            }
      })"

fun admits :: "scope \<Rightarrow> forge_event_kind \<Rightarrow> bool" where
  "admits s (RepoCreated r _) = covers s r"
| "admits s (RepoDeleted r _) = covers s r"
| "admits s (RepoArchived r _ _) = covers s r"
| "admits s (RepoVisibilityChanged r _ _) = covers s r"
| "admits s (CollaboratorChanged r _ _ _) = covers s r"
| "admits s (PullRequestOpened p) = covers s (po_repo p)"
| "admits s (RepoRenamed _ from to) = (covers s from \<and> covers s to)"
| "admits s (RepoTransferred _ from_ns to) =
     (covers s to \<or> (case from_ns of None \<Rightarrow> False | Some f \<Rightarrow> covers s f))"
| "admits s (OrgMembershipChanged ns _ _) = covers s ns"
| "admits s (TeamMembershipChanged ns _ _ _) = covers s ns"
| "admits s (InstallationChanged ns _ _) = covers s ns"
| "admits s (ProtectionChanged r ns _) =
     (covers s ns \<and> (case r of None \<Rightarrow> True | Some r \<Rightarrow> covers s r))"

definition already_seen :: "string \<Rightarrow> ('f, bool) io" where
  "already_seen key = do { r \<leftarrow> find_rec DELIVERIES key; return (r \<noteq> None) }"

definition seen :: "string \<Rightarrow> string option \<Rightarrow> ('f, bool) io" where
  "seen h delivery =
     (case delivery of
        None \<Rightarrow> return False
      | Some d \<Rightarrow> do {
          now \<leftarrow> clock_now;
          fresh \<leftarrow> or_else (put_new DELIVERIES (h @ ''#'' @ d) now) True;
          return (\<not> fresh)
        })"

definition namespace_in :: "scope \<Rightarrow> resource \<Rightarrow> ('f, namespace_record option) io" where
  "namespace_in s r =
     (if \<not> covers s r then return None
      else do {
        all \<leftarrow> list_or_empty NAMESPACES;
        return (find (\<lambda>n. nr_state n = NsBound \<and> contains_resource (nr_resource n) r
          \<and> covers s (nr_resource n)) (map snd all))
      })"

definition repo_in :: "namespace_record \<Rightarrow> u64 \<Rightarrow> ('f, repo_record option) io" where
  "repo_in ns i = do {
     rec \<leftarrow> the_repo_record (host (nr_resource ns)) i;
     return (case rec of None \<Rightarrow> None | Some r \<Rightarrow> if rr_namespace r = nr_id ns then Some r else None)
   }"

definition claimed_elsewhere :: "namespace_record \<Rightarrow> u64 \<Rightarrow> ('f, bool) io" where
  "claimed_elsewhere ns i = do {
     let h = host (nr_resource ns);
     rec \<leftarrow> the_repo_record h i;
     if (case rec of None \<Rightarrow> False | Some r \<Rightarrow> rr_namespace r \<noteq> nr_id ns) then return True
     else do {
       all \<leftarrow> list_or_empty NAMESPACES;
       return (list_ex (\<lambda>(_, n). nr_id n \<noteq> nr_id ns \<and> host (nr_resource n) = h \<and> i \<in> nr_managed n) all)
     }
   }"

section \<open>Detaching\<close>

definition drop_managed :: "u64 \<Rightarrow> namespace_record option \<Rightarrow> namespace_record option \<times> u64 set option" where
  "drop_managed i n =
     (case n of
        None \<Rightarrow> (None, None)
      | Some n \<Rightarrow> (Some (n\<lparr>nr_managed := nr_managed n - {i}\<rparr>), Some (nr_managed n - {i})))"

text \<open>The adapter's own managed set, on GitHub.\<close>

definition tell_managed :: "'f adapter option \<Rightarrow> resource \<Rightarrow> u64 set \<Rightarrow> ('f, unit) io" where
  "tell_managed a r m =
     (case Option.bind a ad_github of None \<Rightarrow> return () | Some g \<Rightarrow> on_forge (gh_set_managed g r m))"

definition unmanage :: "'f bridge \<Rightarrow> u64 \<Rightarrow> string \<Rightarrow> namespace_record \<Rightarrow> ('f, unit) io" where
  "unmanage br i key ns = do {
     r \<leftarrow> update_rec NAMESPACES key (drop_managed i);
     case r of
       Inr (Some m) \<Rightarrow> tell_managed (for_resource br (nr_resource ns)) (nr_resource ns) m
     | _ \<Rightarrow> return ()
   }"

definition detach :: "'f bridge \<Rightarrow> string \<Rightarrow> u64 \<Rightarrow> ('f, unit) io" where
  "detach br h i = do {
     _ \<leftarrow> delete_rec REPOS (repo_key h i);
     nss \<leftarrow> list_or_empty NAMESPACES;
     _ \<leftarrow> for_each nss (\<lambda>(key, ns).
       if host (nr_resource ns) \<noteq> h \<or> i \<notin> nr_managed ns then return () else unmanage br i key ns);
     ledgers \<leftarrow> list_or_empty BRANCHES;
     for_each (filter (\<lambda>(k, _). starts_with (repo_key h i @ ''#'') k) ledgers) (\<lambda>(key, _).
       do { _ \<leftarrow> delete_rec BRANCHES key; return () })
   }"

definition detach_from :: "'f bridge \<Rightarrow> namespace_record \<Rightarrow> u64 \<Rightarrow> ('f, bool) io" where
  "detach_from br ns i = do {
     other \<leftarrow> claimed_elsewhere ns i;
     if other then return False
     else do { _ \<leftarrow> detach br (host (nr_resource ns)) i; return True }
   }"

definition detach_reused_name :: "'f bridge \<Rightarrow> string \<Rightarrow> resource \<Rightarrow> u64 \<Rightarrow> ('f, bool) io" where
  "detach_reused_name br ns_id r i = do {
     recs \<leftarrow> list_or_empty REPOS;
     let gone = filter (\<lambda>x. rr_namespace x = ns_id \<and> rr_resource x = r \<and> rr_forge_id x \<noteq> i) (map snd recs);
     _ \<leftarrow> for_each gone (\<lambda>x. detach br (host r) (rr_forge_id x));
     return (gone \<noteq> [])
   }"

section \<open>Reporting\<close>

definition report_event :: "'f bridge \<Rightarrow> string \<Rightarrow> json \<Rightarrow> ('f, unit) io" where
  "report_event br ns ev = do { _ \<leftarrow> send_event br ns ev None; return () }"

definition is_namespace_repo :: "resource \<Rightarrow> bool" where
  "is_namespace_repo r \<longleftrightarrow> unwrap_or (repo_name r) [] \<in> set NAMESPACE_REPOS"

definition created_unmanaged_json :: "u64 \<Rightarrow> resource \<Rightarrow> json" where
  "created_unmanaged_json i r =
     JObject [(''type'', JString ''repoCreatedUnmanaged''), (''forgeId'', JString (show_word i)),
              (''resource'', JString (as_str r))]"

definition report_unmanaged :: "'f bridge \<Rightarrow> namespace_record \<Rightarrow> resource \<Rightarrow> u64 \<Rightarrow> ('f, unit) io" where
  "report_unmanaged br ns r i = do {
     known \<leftarrow> (if is_namespace_repo r then return True
               else do { rec \<leftarrow> repo_in ns i; return (rec \<noteq> None) });
     if known then return ()
     else do {
       _ \<leftarrow> detach_reused_name br (nr_id ns) r i;
       report_event br (nr_id ns) (created_unmanaged_json i r)
     }
   }"

definition moved_json :: "string \<Rightarrow> u64 \<Rightarrow> resource \<Rightarrow> resource \<Rightarrow> json" where
  "moved_json ty i from to =
     JObject [(''type'', JString ty), (''forgeId'', JString (show_word i)),
              (''from'', JString (as_str from)), (''to'', JString (as_str to))]"

definition transferred_out ::
    "'f bridge \<Rightarrow> namespace_record \<Rightarrow> resource \<Rightarrow> resource \<Rightarrow> u64 \<Rightarrow> ('f, unit) io" where
  "transferred_out br from_ns from to i = do {
     ok \<leftarrow> detach_from br from_ns i;
     if \<not> ok \<or> is_namespace_repo from then return ()
     else do {
       _ \<leftarrow> report_event br (nr_id from_ns) (moved_json ''repoTransferred'' i from to);
       to_ns \<leftarrow> namespace_in \<lparr>sc_host = host (nr_resource from_ns),
                              sc_owner = Some (to_ascii_lowercase (owner (nr_resource from_ns)))\<rparr> to;
       case to_ns of
         None \<Rightarrow> return ()
       | Some to_ns \<Rightarrow>
           if nr_id to_ns \<noteq> nr_id from_ns then report_unmanaged br to_ns to i else return ()
     }
   }"

definition confirm_transfer_in :: "'f bridge \<Rightarrow> namespace_record \<Rightarrow> u64 \<Rightarrow> ('f, unit) io" where
  "confirm_transfer_in br to_ns i = do {
     rec \<leftarrow> the_repo_record (host (nr_resource to_ns)) i;
     case rec of
       None \<Rightarrow> return ()
     | Some rec \<Rightarrow>
         if rr_namespace rec = nr_id to_ns then return ()
         else do {
           old \<leftarrow> find_rec NAMESPACES (rr_namespace rec);
           case (old, Option.bind (for_resource br (nr_resource to_ns)) ad_github) of
             (Some old_ns, Some g) \<Rightarrow> do {
               answer \<leftarrow> on_forge (gh_repository_by_id g (nr_resource to_ns) i);
               case answer of
                 Inr (Some now) \<Rightarrow>
                   if contains_resource (nr_resource to_ns) now
                        \<and> \<not> contains_resource (nr_resource old_ns) now
                   then transferred_out br old_ns (rr_resource rec) now i
                   else return ()
               | _ \<Rightarrow> return ()
             }
           | _ \<Rightarrow> return ()
         }
   }"

end
