(* ===== verification/Bridge_Jobs.thy ===== *)
theory Bridge_Jobs
  imports Bridge_Detach
begin

text \<open>
  Running a job (\<open>vgi-bridge/src/jobs.rs\<close>): each kind mapped onto the adapter's methods, with its hooks
  around each operation, down to the report. A panic is the value \<open>None\<close>: an \<open>expect\<close> on a namespace
  that is no longer there, or a slice inside a character when text is clipped.
\<close>

section \<open>Closing a pull request\<close>

definition comment_marker :: "string \<Rightarrow> string" where
  "comment_marker job_id = ''<!-- vgi-bridge job:'' @ job_id @ '' -->''"

definition failed_step :: "string \<Rightarrow> forge_error \<Rightarrow> report \<Rightarrow> report" where
  "failed_step step e r = report_fail e (report_step step StFailed (Some (forge_error_display e)) r)"

definition forbidden_reprobe :: "'f bridge \<Rightarrow> 'f ctx \<Rightarrow> forge_error \<Rightarrow> ('f, unit) io" where
  "forbidden_reprobe br c e =
     (if err_code e = ''forbidden'' then probe_bridge_checks br (nr_id (cx_ns c)) else return ())"

text \<open>The comment step: the report, and whether to go on to the close.\<close>

definition comment_step ::
    "'f bridge \<Rightarrow> 'f ctx \<Rightarrow> resource \<Rightarrow> u64 \<Rightarrow> string \<Rightarrow> string \<Rightarrow> report \<Rightarrow> ('f, report \<times> bool) io" where
  "comment_step br c repo number message marker report = do {
     let not_commented = (\<lambda>e. do {
           _ \<leftarrow> forbidden_reprobe br c e;
           return (report_step ''close'' StSkipped (Some ''not commented'') (failed_step ''comment'' e report), False)
         });
     own \<leftarrow> on_forge (fo_has_own_comment (cx_ops c) repo number marker);
     case own of
       Inr True \<Rightarrow>
         return (report_step ''comment'' StUnchanged (Some ''already posted for this job'') report, True)
     | Inr False \<Rightarrow> do {
         r \<leftarrow> on_forge (fo_comment (cx_ops c) repo number (message @ [newline, newline] @ marker));
         case r of
           Inr _ \<Rightarrow> return (report_step ''comment'' StApplied None report, True)
         | Inl e \<Rightarrow> not_commented e
       }
     | Inl e \<Rightarrow> not_commented e
   }"

text \<open>Why an open pull request is left alone: it was reopened by someone else after the job.\<close>

definition reopened_since :: "pull_request \<Rightarrow> int option \<Rightarrow> reopen option" where
  "reopened_since p issued_at =
     (case (last_reopen_by_other p, issued_at) of
        (Some r, Some issued) \<Rightarrow> if reopened_at r > issued then Some r else None
      | _ \<Rightarrow> None)"

definition close_pull_request ::
    "'f bridge \<Rightarrow> 'f ctx \<Rightarrow> resource \<Rightarrow> job_payload \<Rightarrow> int option \<Rightarrow> report \<Rightarrow> ('f, report option) io" where
  "close_pull_request br c repo p issued_at report =
     (case (jp_number p, jp_message p) of
        (Some number, Some message) \<Rightarrow> do {
          rec \<leftarrow> repo_record_by_resource repo;
          let report = (case rec of None \<Rightarrow> report
            | Some rec \<Rightarrow> report\<lparr>rp_repo := Some (repo, rr_forge_id rec)\<rparr>);
          answer \<leftarrow> on_forge (fo_pull_request (cx_ops c) repo number);
          case answer of
            Inl e \<Rightarrow> do {
              _ \<leftarrow> forbidden_reprobe br c e;
              return (Some (report_step ''close'' StSkipped (Some ''the pull request could not be read'')
                (failed_step ''comment'' e report)))
            }
          | Inr pr \<Rightarrow>
              if \<not> pull_is_open pr then
                (let why = (if pull_state pr = Merged then ''already merged'' else ''already closed'')
                 in return (Some (report_step ''close'' StUnchanged (Some why)
                      (report_step ''comment'' StUnchanged (Some (why @ ''; nothing posted'')) report))))
              else (case reopened_since pr issued_at of
                Some r \<Rightarrow>
                  (let why = ''reopened by '' @ acc_login (reopened_by r)
                         @ '' after the job was issued; left open for the VTC to judge the reopen''
                   in return (Some (report_step ''close'' StUnchanged (Some why)
                        (report_step ''comment'' StUnchanged (Some why) report))))
              | None \<Rightarrow> do {
                  (report, go) \<leftarrow> comment_step br c repo number message (comment_marker (jp_job_id p)) report;
                  if \<not> go then return (Some report)
                  else do {
                    r \<leftarrow> on_forge (fo_close_pull (cx_ops c) repo number);
                    case r of
                      Inr _ \<Rightarrow> return (Some (report_step ''close'' StApplied None report))
                    | Inl e \<Rightarrow> do {
                        _ \<leftarrow> forbidden_reprobe br c e;
                        return (Some (failed_step ''close'' e report))
                      }
                  }
                })
        }
      | _ \<Rightarrow> return None)"

section \<open>Roles\<close>

text \<open>The roles a job asks for, and the owners among them.\<close>

fun desired_loop ::
    "string \<Rightarrow> (right \<Rightarrow> forge_role) \<Rightarrow> desired_role list \<Rightarrow> role_assignment list \<Rightarrow> forge_account list
       \<Rightarrow> string + role_assignment list \<times> forge_account list" where
  "desired_loop h role [] out owners = Inr (out, owners)"
| "desired_loop h role (r # rs) out owners =
     (if ja_forge (dr_account r) \<noteq> h
      then Inl (''`'' @ dr_subject r @ ''`'' @ [CHR 0x27] @ ''s account is on `'' @ ja_forge (dr_account r)
             @ ''`, not `'' @ h @ ''`'')
      else (case account_of (dr_account r) of
          Inl e \<Rightarrow> Inl e
        | Inr account \<Rightarrow>
            (case wire_right (dr_right r) of
               None \<Rightarrow> Inl (''unknown right `'' @ right_action (dr_right r) @ ''`'')
             | Some right \<Rightarrow>
                 desired_loop h role rs (out @ [\<lparr>ra_account = account, ra_role = role right\<rparr>])
                   (if right = RepoOwn then owners @ [account] else owners))))"

definition desired_roles ::
    "'f bridge \<Rightarrow> 'f ctx \<Rightarrow> resource \<Rightarrow> desired_role list \<Rightarrow> 'f
       \<Rightarrow> string + role_assignment list \<times> forge_account list" where
  "desired_roles br c repo roles f =
     desired_loop (cx_host c)
       (\<lambda>right. fo_map_role (cx_ops c) (cx_namespace c) (from_granted [right]) (cfg_role_map (br_cfg br) repo) f)
       roles [] []"

record removals =
  rm_remove :: "forge_account list"
  rm_refused :: "string list"

definition no_removals :: removals where
  "no_removals = \<lparr>rm_remove = [], rm_refused = []\<rparr>"

fun sort_removals :: "(u64 \<Rightarrow> bool) \<Rightarrow> job_account list \<Rightarrow> removals \<Rightarrow> string + removals" where
  "sort_removals protected [] out = Inr out"
| "sort_removals protected (a # rest) out =
     (case account_of a of
        Inl e \<Rightarrow> Inl e
      | Inr account \<Rightarrow>
          sort_removals protected rest
            (if protected (acc_id account)
             then out\<lparr>rm_refused := rm_refused out @ [acc_login account @ '' ('' @ show_word (acc_id account)
                    @ ''): the namespace'' @ [CHR 0x27] @ ''s owner and the bridge'' @ [CHR 0x27]
                    @ ''s own account are never removed'']\<rparr>
             else out\<lparr>rm_remove := rm_remove out @ [account]\<rparr>))"

definition listed :: "u64 \<Rightarrow> role_assignment list \<Rightarrow> bool" where
  "listed i want \<longleftrightarrow> list_ex (\<lambda>w. acc_id (ra_account w) = i) want"

text \<open>What was projected before and is no longer asked for goes.\<close>

definition with_previous :: "role_assignment list \<Rightarrow> role_assignment list \<Rightarrow> role_assignment list" where
  "with_previous previous want =
     fold (\<lambda>p want. if ra_role p \<noteq> RoleNone \<and> \<not> listed (acc_id (ra_account p)) want
                     then want @ [\<lparr>ra_account = ra_account p, ra_role = RoleNone\<rparr>] else want)
       previous want"

text \<open>\<open>find\<close> and set the role of the first, or push.\<close>

fun set_none :: "forge_account \<Rightarrow> role_assignment list \<Rightarrow> role_assignment list" where
  "set_none account [] = [\<lparr>ra_account = account, ra_role = RoleNone\<rparr>]"
| "set_none account (w # ws) =
     (if acc_id (ra_account w) = acc_id account then w\<lparr>ra_role := RoleNone\<rparr> # ws
      else w # set_none account ws)"

definition wanted_roles ::
    "role_assignment list \<Rightarrow> role_assignment list \<Rightarrow> forge_account list \<Rightarrow> role_assignment list" where
  "wanted_roles previous desired remove = fold set_none remove (with_previous previous desired)"

definition role_failed :: "u64 \<Rightarrow> apply_report \<Rightarrow> bool" where
  "role_failed i r \<longleftrightarrow> list_ex (\<lambda>ch. acc_id (rch_account ch) = i
      \<and> (case rch_outcome ch of Failed _ \<Rightarrow> True | _ \<Rightarrow> False)) (changes r)"

fun remaining_access ::
    "'f ctx \<Rightarrow> resource \<Rightarrow> forge_account list \<Rightarrow> apply_report \<Rightarrow> ('f, string list) io" where
  "remaining_access c repo [] applied = return []"
| "remaining_access c repo (account # rest) applied =
     (if role_failed (acc_id account) applied then remaining_access c repo rest applied
      else do {
        r \<leftarrow> on_forge (fo_indirect_access (cx_ops c) repo account);
        let who = acc_login account @ '' ('' @ show_word (acc_id account) @ '')'';
        let line = (case r of
            Inr None \<Rightarrow> []
          | Inr (Some access) \<Rightarrow>
              [who @ '': no direct role any more, but still '' @ indirect_access_display access
                @ ''; the bridge does not change teams or the organisation'']
          | Inl e \<Rightarrow>
              [who @ '': the direct role is gone, but whether access remains through a team or the organisation could not be read: ''
                @ forge_error_display e]);
        more \<leftarrow> remaining_access c repo rest applied;
        return (line @ more)
      })"

definition change_failures :: "apply_report \<Rightarrow> string list" where
  "change_failures r =
     List.map_filter (\<lambda>ch. case rch_outcome ch of
         Failed m \<Rightarrow> Some (acc_login (rch_account ch) @ '': '' @ m) | _ \<Rightarrow> None) (changes r)"

definition projected ::
    "role_assignment list \<Rightarrow> forge_account list \<Rightarrow> role_map option \<Rightarrow> repo_record \<Rightarrow> repo_record" where
  "projected desired owners applied_map rec =
     rec\<lparr>rr_roles := filter (\<lambda>d. ra_role d \<noteq> RoleNone) desired, rr_roles_known := True,
         rr_owners := owners,
         rr_role_map := (case applied_map of None \<Rightarrow> rr_role_map rec | m \<Rightarrow> m)\<rparr>"

definition upsert_repo ::
    "string \<Rightarrow> string \<Rightarrow> resource \<Rightarrow> u64 \<Rightarrow> (repo_record \<Rightarrow> repo_record) \<Rightarrow> ('f, unit) io" where
  "upsert_repo h ns repo i f = do {
     _ \<leftarrow> update_rec REPOS (repo_key h i)
            (\<lambda>rec. (Some (f (unwrap_or rec (repo_record_new ns repo i))), ()));
     return ()
   }"

definition apply_roles ::
    "'f bridge \<Rightarrow> 'f ctx \<Rightarrow> resource \<Rightarrow> u64 option \<Rightarrow> role_assignment list \<Rightarrow> forge_account list
       \<Rightarrow> removals \<Rightarrow> report \<Rightarrow> ('f, report) io" where
  "apply_roles br c repo forge_id desired owners removals report = do {
     rec \<leftarrow> (case forge_id of None \<Rightarrow> return None | Some i \<Rightarrow> the_repo_record (cx_host c) i);
     let previous = (case rec of None \<Rightarrow> [] | Some r \<Rightarrow> rr_roles r);
     let want = wanted_roles previous desired (rm_remove removals);
     case before_apply_roles (ad_hooks (cx_adapter c)) repo want of
       Abort why \<Rightarrow>
         return (fail_with ''forgeError'' why (report_step ''roles'' StFailed (Some why) report))
     | d \<Rightarrow> do {
         r \<leftarrow> on_forge (fo_apply_roles (cx_ops c) repo (modified want d) Keep);
         case r of
           Inl e \<Rightarrow> return (failed_step ''roles'' e report)
         | Inr r \<Rightarrow> do {
             remaining \<leftarrow> remaining_access c repo (rm_remove removals) r;
             let failures = rm_refused removals @ change_failures r @ remaining;
             let status = (if failures \<noteq> [] then StFailed
                  else if changes r = [] then StUnchanged else StApplied);
             applied_map \<leftarrow> (if failures = []
                then ask_forge (effective c (cfg_role_map (br_cfg br) repo)) else return None);
             _ \<leftarrow> (case forge_id of
                 None \<Rightarrow> return ()
               | Some i \<Rightarrow> upsert_repo (cx_host c) (nr_id (cx_ns c)) repo i
                     (projected desired owners applied_map));
             return (report_step ''roles'' status
               (if failures \<noteq> [] then Some (join ''; '' failures) else None) report)
           }
       }
   }"

definition forge_id_of :: "'f ctx \<Rightarrow> resource \<Rightarrow> ('f, forge_error + u64) io" where
  "forge_id_of c repo = do {
     rec \<leftarrow> repo_record_by_resource repo;
     case rec of
       Some r \<Rightarrow> return (Inr (rr_forge_id r))
     | None \<Rightarrow> ok_then (on_forge (fo_inspect (cx_ops c) repo)) (\<lambda>s. return (Inr (rs_forge_id s)))
   }"

definition project_roles ::
    "'f bridge \<Rightarrow> 'f ctx \<Rightarrow> resource \<Rightarrow> desired_role list \<Rightarrow> job_account list \<Rightarrow> report \<Rightarrow> ('f, report) io" where
  "project_roles br c repo roles remove report = do {
     d \<leftarrow> ask_forge (desired_roles br c repo roles);
     case d of
       Inl m \<Rightarrow> return (fail_with ''forgeError'' m report)
     | Inr (desired, owners) \<Rightarrow> do {
         s \<leftarrow> ask_forge (\<lambda>f. sort_removals (\<lambda>i. fo_is_protected (cx_ops c) (cx_namespace c) i f) remove no_removals);
         case s of
           Inl m \<Rightarrow> return (fail_with ''forgeError'' m report)
         | Inr removals \<Rightarrow> do {
             r \<leftarrow> forge_id_of c repo;
             case r of
               Inl e \<Rightarrow> return (report_fail e report)
             | Inr i \<Rightarrow>
                 apply_roles br c repo (Some i) desired owners removals (report\<lparr>rp_repo := Some (repo, i)\<rparr>)
           }
       }
   }"
section \<open>Records of a namespace that must be there\<close>

text \<open>
  \<open>update\<close> with \<open>ns.expect("bound namespace")\<close>: the new record, a store error, or a panic when the
  namespace is gone.
\<close>

definition update_expected ::
    "'v table_at \<Rightarrow> string \<Rightarrow> ('v \<Rightarrow> 'v) \<Rightarrow> ('f, (string + 'v) option) io" where
  "update_expected t k f = do {
     r \<leftarrow> update_rec t k (\<lambda>v. (map_option f v, map_option f v));
     return (case r of Inl e \<Rightarrow> Some (Inl e) | Inr None \<Rightarrow> None | Inr (Some v) \<Rightarrow> Some (Inr v))
   }"

definition managed_record :: "repo_state \<Rightarrow> forge_account list \<Rightarrow> repo_record \<Rightarrow> repo_record" where
  "managed_record st owners rec =
     rec\<lparr>rr_resource := rs_resource st, rr_owners := (if owners \<noteq> [] then owners else rr_owners rec),
         rr_archived := False\<rparr>"

definition manage :: "'f ctx \<Rightarrow> repo_state \<Rightarrow> forge_account list \<Rightarrow> ('f, unit option) io" where
  "manage c st owners = do {
     _ \<leftarrow> upsert_repo (cx_host c) (nr_id (cx_ns c)) (rs_resource st) (rs_forge_id st)
            (managed_record st owners);
     some_then (update_expected NAMESPACES (nr_id (cx_ns c))
                 (\<lambda>ns. ns\<lparr>nr_managed := insert (rs_forge_id st) (nr_managed ns)\<rparr>))
       (\<lambda>r. done_some (case (r, ad_github (cx_adapter c)) of
           (Inr ns, Some g) \<Rightarrow> on_forge (gh_set_managed g (nr_resource (cx_ns c)) (nr_managed ns))
         | _ \<Rightarrow> return ()))
   }"

definition persist_adapter_state :: "'f ctx \<Rightarrow> ('f, unit option) io" where
  "persist_adapter_state c =
     (case ad_github (cx_adapter c) of
        None \<Rightarrow> return (Some ())
      | Some g \<Rightarrow> do {
          pin \<leftarrow> ask_forge (gh_pin g (nr_resource (cx_ns c)));
          managed \<leftarrow> ask_forge (gh_managed g (nr_resource (cx_ns c)));
          some_then (update_expected NAMESPACES (nr_id (cx_ns c))
              (\<lambda>ns. ns\<lparr>nr_pin := (case pin of None \<Rightarrow> nr_pin ns | p \<Rightarrow> p),
                       nr_managed := (case managed of None \<Rightarrow> nr_managed ns | Some m \<Rightarrow> m)\<rparr>))
            (\<lambda>_. return (Some ()))
        })"

definition capability_changed :: "'f ctx \<Rightarrow> string \<Rightarrow> bool \<Rightarrow> ('f, unit option) io" where
  "capability_changed c capability available =
     some_then (update_expected NAMESPACES (nr_id (cx_ns c)) (\<lambda>ns.
         if capability = ''required_workflow''
         then ns\<lparr>nr_required_workflow := Some available,
                 nr_capabilities := map_option (\<lambda>x. x\<lparr>required_workflow := available\<rparr>) (nr_capabilities ns)\<rparr>
         else ns))
       (\<lambda>_. done_some (case ad_github (cx_adapter c) of
           Some g \<Rightarrow> if capability = ''required_workflow''
             then on_forge (gh_set_required_workflow g (nr_resource (cx_ns c)) available) else return ()
         | None \<Rightarrow> return ()))"

section \<open>Bootstrap\<close>

definition name_of_step :: "bootstrap_step \<Rightarrow> string" where
  "name_of_step s = step_name (step_id s) (step_component s)"

datatype plan_end = PlanRan | PlanFailed | PlanAgain

definition changed_capability :: "forge_error \<Rightarrow> (string \<times> bool) option" where
  "changed_capability e = (case e of CapabilityChanged _ capability available _ \<Rightarrow> Some (capability, available) | _ \<Rightarrow> None)"

text \<open>
  The steps of one plan: after a failure the rest is skipped; a capability that changed ends the
  first attempt at once.
\<close>

fun plan_steps ::
    "'f ctx \<Rightarrow> resource \<Rightarrow> bool \<Rightarrow> bootstrap_step list \<Rightarrow> (string \<times> step_outcome) list \<Rightarrow> bool \<Rightarrow> report
       \<Rightarrow> ('f, (plan_end \<times> (string \<times> step_outcome) list \<times> report) option) io" where
  "plan_steps c repo first [] did fail report =
     return (Some (if fail then PlanFailed else PlanRan, did, report))"
| "plan_steps c repo first (step # rest) did fail report =
     (if fail then plan_steps c repo first rest did fail (report_step (name_of_step step) StSkipped None report)
      else do {
        r \<leftarrow> on_forge (fo_run_step (cx_ops c) repo step);
        case r of
          Inr oc \<Rightarrow> plan_steps c repo first rest (did @ [(step_id step, oc)]) False
            (report_step (name_of_step step) (step_status_of oc) None report)
        | Inl e \<Rightarrow>
            (case if first then changed_capability e else None of
               Some (capability, available) \<Rightarrow>
                 some_then (capability_changed c capability available)
                   (\<lambda>_. return (Some (PlanAgain, did, report)))
             | None \<Rightarrow> plan_steps c repo first rest did True (failed_step (name_of_step step) e report))
      })"

text \<open>The further steps a hook asks for, up to the first failure.\<close>

fun hook_steps :: "'f ctx \<Rightarrow> resource \<Rightarrow> bootstrap_step list \<Rightarrow> report \<Rightarrow> ('f, bool \<times> report) io" where
  "hook_steps c repo [] report = return (True, report)"
| "hook_steps c repo (step # rest) report = do {
     r \<leftarrow> on_forge (fo_run_step (cx_ops c) repo step);
     case r of
       Inr oc \<Rightarrow> hook_steps c repo rest (report_step (name_of_step step) (step_status_of oc) None report)
     | Inl e \<Rightarrow> return (False, failed_step (name_of_step step) e report)
   }"

text \<open>What follows a plan that was not abandoned.\<close>

definition after_plan ::
    "'f ctx \<Rightarrow> vgi_config \<Rightarrow> resource \<Rightarrow> plan_end \<Rightarrow> (string \<times> step_outcome) list \<Rightarrow> report
       \<Rightarrow> ('f, (bool \<times> report) option) io" where
  "after_plan c vgi repo pe did report =
     some_then (persist_adapter_state c) (\<lambda>_.
       if pe = PlanFailed then return (Some (False, report))
       else do {
         (ok, report) \<leftarrow> (case after_bootstrap (ad_hooks (cx_adapter c)) repo did of
             Modify further \<Rightarrow> hook_steps c repo further report
           | _ \<Rightarrow> return (True, report));
         if \<not> ok then return (Some (False, report))
         else do {
           _ \<leftarrow> map_rec REPOS (repo_key (cx_host c) (case rp_repo report of None \<Rightarrow> 0 | Some r \<Rightarrow> snd r))
                  (\<lambda>r. r\<lparr>rr_required_check := Some (cfg_required_check vgi)\<rparr>);
           return (Some (True, report))
         }
       })"

definition wanted_step :: "string set option \<Rightarrow> bootstrap_step \<Rightarrow> bool" where
  "wanted_step only s \<longleftrightarrow> (case only of None \<Rightarrow> True | Some names \<Rightarrow> name_of_step s \<in> names)"

text \<open>One attempt; \<open>None\<close> inside: plan again.\<close>

definition bootstrap_attempt ::
    "'f ctx \<Rightarrow> vgi_config \<Rightarrow> repo_spec \<Rightarrow> bootstrap_step list \<Rightarrow> string set option \<Rightarrow> bool \<Rightarrow> nat \<Rightarrow> report
       \<Rightarrow> ('f, (bool option \<times> report) option) io" where
  "bootstrap_attempt c vgi spec extra only first before report = do {
     p \<leftarrow> ask_forge (fo_bootstrap_plan (cx_ops c) spec vgi);
     case p of
       Inl e \<Rightarrow> return (Some (Some False, report_fail e report))
     | Inr plan \<Rightarrow>
         some_then (plan_steps c (spec_resource spec) first (filter (wanted_step only) (extra @ plan)) [] False report)
           (\<lambda>(pe, did, report).
              if pe = PlanAgain
              then return (Some (None, report\<lparr>rp_steps := take before (rp_steps report)\<rparr>))
              else some_then (after_plan c vgi (spec_resource spec) pe did report)
                     (\<lambda>(ok, report). return (Some (Some ok, report))))
   }"

definition run_bootstrap ::
    "'f bridge \<Rightarrow> 'f ctx \<Rightarrow> repo_spec \<Rightarrow> bootstrap_step list \<Rightarrow> string set option \<Rightarrow> report
       \<Rightarrow> ('f, (bool \<times> report) option) io" where
  "run_bootstrap br c spec extra only report =
     (case vgi_for br (nr_resource (cx_ns c)) of
        None \<Rightarrow> return (Some (False,
          fail_with ''forgeError'' ''no bootstrap configuration for this forge'' report))
      | Some vgi \<Rightarrow>
          (let before = length (rp_steps report)
           in some_then (bootstrap_attempt c vgi spec extra only True before report) (\<lambda>(r, report).
                case r of
                  Some ok \<Rightarrow> return (Some (ok, report))
                | None \<Rightarrow>
                    some_then (bootstrap_attempt c vgi spec extra only False before report) (\<lambda>(r, report).
                      case r of
                        Some ok \<Rightarrow> return (Some (ok, report))
                      | None \<Rightarrow> return (Some (False,
                          fail_with ''forgeError'' ''the adapter kept changing its capabilities'' report))))))"

section \<open>The guard found in force\<close>

definition record_guard :: "string \<Rightarrow> string \<Rightarrow> ('f, unit) io" where
  "record_guard key guard = do {
     _ \<leftarrow> map_rec REPOS key (\<lambda>x. x\<lparr>rr_guard := Some guard\<rparr>);
     return ()
   }"

definition projection_of :: "'f bridge \<Rightarrow> 'f ctx \<Rightarrow> repo_state \<Rightarrow> repo_record option \<Rightarrow> projection" where
  "projection_of br c st rec =
     (case rec of
        None \<Rightarrow> projection_new (rs_resource st)
      | Some r \<Rightarrow>
          (let vgi = vgi_for br (nr_resource (cx_ns c))
           in (projection_new (rr_resource r))
             \<lparr>pr_forge_id := Some (rr_forge_id r), pr_roles := rr_roles r, pr_owners := rr_owners r,
              pr_archived := rr_archived r,
              pr_required_check := first_of (rr_required_check r) (map_option cfg_required_check vgi),
              pr_required_approvals := (case vgi of None \<Rightarrow> 0 | Some v \<Rightarrow> cfg_required_approvals v)\<rparr>))"

definition refresh_guard :: "'f bridge \<Rightarrow> 'f ctx \<Rightarrow> report \<Rightarrow> ('f, unit) io" where
  "refresh_guard br c report =
     (case rp_repo report of
        None \<Rightarrow> return ()
      | Some (r, i) \<Rightarrow> do {
          rec \<leftarrow> the_repo_record (cx_host c) i;
          case rec of
            None \<Rightarrow> return ()
          | Some rec \<Rightarrow> do {
              s \<leftarrow> on_forge (fo_inspect (cx_ops c) r);
              case s of
                Inl _ \<Rightarrow> return ()
              | Inr st \<Rightarrow>
                  (let proj = (projection_of br c st (Some rec))\<lparr>pr_resource := rs_resource st\<rparr>;
                       drift = fo_diff (cx_ops c) st proj
                   in record_guard (repo_record_key rec) (guard_str (in_force st drift)))
            }
        })"

section \<open>Creating, bootstrapping and archiving\<close>

definition spec_of :: "resource \<Rightarrow> job_repo_spec \<Rightarrow> forge_account list \<Rightarrow> repo_spec" where
  "spec_of repo js owners =
     (repo_spec_new repo)\<lparr>spec_visibility := wire_visibility (js_visibility js),
        spec_description := js_description js, spec_owners := owners\<rparr>"

text \<open>The repository as created, or as an earlier attempt of this bridge left it; \<open>None\<close>: give up.\<close>

definition create_step ::
    "'f ctx \<Rightarrow> resource \<Rightarrow> repo_spec \<Rightarrow> report \<Rightarrow> ('f, repo_state option \<times> report) io" where
  "create_step c repo spec report = do {
     r \<leftarrow> on_forge (fo_create_repo (cx_ops c) spec);
     case r of
       Inr st \<Rightarrow> return (Some st, report_step ''create'' StApplied None report)
     | Inl e \<Rightarrow> do {
         ours \<leftarrow> (case e of
             AlreadyExists _ (Some i) \<Rightarrow> do {
               rec \<leftarrow> the_repo_record (cx_host c) i;
               return (case rec of None \<Rightarrow> False | Some r \<Rightarrow> rr_namespace r = nr_id (cx_ns c))
             }
           | _ \<Rightarrow> return False);
         if \<not> ours then return (None, failed_step ''create'' e report)
         else do {
           s \<leftarrow> on_forge (fo_inspect (cx_ops c) repo);
           return (case s of
               Inr st \<Rightarrow> (Some st, report_step ''create'' StUnchanged None report)
             | Inl e \<Rightarrow> (None, failed_step ''create'' e report))
         }
       }
   }"

text \<open>What follows once the repository is there.\<close>

definition set_up_repo ::
    "'f bridge \<Rightarrow> 'f ctx \<Rightarrow> repo_spec \<Rightarrow> repo_state \<Rightarrow> role_assignment list \<Rightarrow> forge_account list \<Rightarrow> report
       \<Rightarrow> ('f, report option) io" where
  "set_up_repo br c spec st desired owners report =
     some_then (manage c st owners) (\<lambda>_.
       case after_create (ad_hooks (cx_adapter c)) st of
         Abort why \<Rightarrow> return (Some (fail_with ''forgeError'' why report))
       | d \<Rightarrow>
           some_then (run_bootstrap br c spec (modified [] d) None report) (\<lambda>(ok, report).
             if \<not> ok then
               (let report = report_step ''roles'' StSkipped None report
                in done_some (do { _ \<leftarrow> refresh_guard br c report; return report }))
             else done_some (do {
               report \<leftarrow> apply_roles br c (rs_resource st) (Some (rs_forge_id st)) desired owners
                 no_removals report;
               _ \<leftarrow> refresh_guard br c report;
               return report
             })))"

definition create_repo :: "'f bridge \<Rightarrow> 'f ctx \<Rightarrow> resource \<Rightarrow> job_payload \<Rightarrow> report \<Rightarrow> ('f, report option) io" where
  "create_repo br c repo p report =
     (case jp_spec p of
        None \<Rightarrow> return None
      | Some js \<Rightarrow> do {
          d \<leftarrow> ask_forge (desired_roles br c repo (unwrap_or (jp_desired_roles p) []));
          case d of
            Inl m \<Rightarrow> return (Some (fail_with ''forgeError'' m report))
          | Inr (desired, owners) \<Rightarrow>
              (let spec = spec_of repo js owners
               in case before_create (ad_hooks (cx_adapter c)) spec of
                    Abort why \<Rightarrow> return (Some (fail_with ''forgeError'' why
                      (report_step ''create'' StFailed (Some why) report)))
                  | h \<Rightarrow> do {
                      (st, report) \<leftarrow> create_step c repo (modified spec h) report;
                      case st of
                        None \<Rightarrow> return (Some report)
                      | Some st \<Rightarrow> set_up_repo br c (modified spec h) st desired owners
                          (report\<lparr>rp_repo := Some (rs_resource st, rs_forge_id st)\<rparr>)
                    })
        })"

definition bootstrap ::
    "'f bridge \<Rightarrow> 'f ctx \<Rightarrow> resource \<Rightarrow> string set option \<Rightarrow> report \<Rightarrow> ('f, report option) io" where
  "bootstrap br c repo only report = do {
     s \<leftarrow> on_forge (fo_inspect (cx_ops c) repo);
     case s of
       Inl e \<Rightarrow> return (Some (report_fail e report))
     | Inr st \<Rightarrow> do {
         let report = report\<lparr>rp_repo := Some (rs_resource st, rs_forge_id st)\<rparr>;
         rec \<leftarrow> the_repo_record (cx_host c) (rs_forge_id st);
         let owners = (case rec of None \<Rightarrow> [] | Some r \<Rightarrow> rr_owners r);
         some_then (manage c st owners) (\<lambda>_.
           some_then (run_bootstrap br c ((repo_spec_new (rs_resource st))
               \<lparr>spec_visibility := rs_visibility st, spec_owners := owners\<rparr>) [] only report)
             (\<lambda>(_, report). done_some (do { _ \<leftarrow> refresh_guard br c report; return report })))
       }
   }"

definition archive :: "'f ctx \<Rightarrow> resource \<Rightarrow> report \<Rightarrow> ('f, report option) io" where
  "archive c repo report = do {
     s \<leftarrow> on_forge (fo_inspect (cx_ops c) repo);
     case s of
       Inl e \<Rightarrow> return (Some (failed_step ''archive'' e report))
     | Inr st \<Rightarrow> do {
         let report = report\<lparr>rp_repo := Some (rs_resource st, rs_forge_id st)\<rparr>;
         r \<leftarrow> on_forge (fo_archive_repo (cx_ops c) repo);
         case r of
           Inl e \<Rightarrow> return (Some (failed_step ''archive'' e report))
         | Inr _ \<Rightarrow> do {
             let report = report_step ''archive'' (if rs_archived st then StUnchanged else StApplied) None report;
             _ \<leftarrow> map_rec REPOS (repo_key (cx_host c) (rs_forge_id st)) (\<lambda>r. r\<lparr>rr_archived := True\<rparr>);
             some_then (update_expected NAMESPACES (nr_id (cx_ns c))
                 (\<lambda>ns. ns\<lparr>nr_managed := nr_managed ns - {rs_forge_id st}\<rparr>))
               (\<lambda>_. some_then (persist_adapter_state c) (\<lambda>_. return (Some report)))
           }
       }
   }"

section \<open>Inspecting\<close>

text \<open>A repository found outside the namespace: it was transferred.\<close>

definition found_outside ::
    "'f bridge \<Rightarrow> 'f ctx \<Rightarrow> repo_state \<Rightarrow> repo_record option \<Rightarrow> ('f, unit) io" where
  "found_outside br c st rec =
     (case rec of
        None \<Rightarrow> return ()
      | Some r \<Rightarrow>
          if contains_resource (nr_resource (cx_ns c)) (rr_resource r)
          then transferred_out br (cx_ns c) (rr_resource r) (rs_resource st) (rs_forge_id st)
          else return ())"

text \<open>A name reused by another repository, or a rename found here.\<close>

definition settle_name :: "'f bridge \<Rightarrow> 'f ctx \<Rightarrow> repo_state \<Rightarrow> repo_record option \<Rightarrow> ('f, unit) io" where
  "settle_name br c st rec =
     (case rec of
        None \<Rightarrow> do {
          reused \<leftarrow> detach_reused_name br (nr_id (cx_ns c)) (rs_resource st) (rs_forge_id st);
          if reused then report_unmanaged br (cx_ns c) (rs_resource st) (rs_forge_id st) else return ()
        }
      | Some r \<Rightarrow>
          if rr_resource r = rs_resource st then return ()
          else do {
            _ \<leftarrow> detach_reused_name br (nr_id (cx_ns c)) (rs_resource st) (rs_forge_id st);
            _ \<leftarrow> send_event br (nr_id (cx_ns c))
                   (moved_json ''repoRenamed'' (rs_forge_id st) (rr_resource r) (rs_resource st)) None;
            _ \<leftarrow> map_rec REPOS (repo_record_key r) (\<lambda>x. x\<lparr>rr_resource := rs_resource st\<rparr>);
            return ()
          })"

definition is_role_drift :: "drift \<Rightarrow> bool" where
  "is_role_drift d \<longleftrightarrow>
     (case d of UnexpectedRole _ _ \<Rightarrow> True | MissingRole _ _ \<Rightarrow> True | RoleMismatch _ _ _ \<Rightarrow> True | _ \<Rightarrow> False)"

definition drift_found :: "'f bridge \<Rightarrow> 'f ctx \<Rightarrow> repo_state \<Rightarrow> repo_record option \<Rightarrow> drift list" where
  "drift_found br c st rec =
     (let proj = (projection_of br c st rec)\<lparr>pr_resource := rs_resource st\<rparr>;
          drift = fo_diff (cx_ops c) st proj;
          drift = (if (case rec of None \<Rightarrow> False | Some r \<Rightarrow> rr_roles_known r) then drift
                   else filter (Not \<circ> is_role_drift) drift)
      in modified drift (on_drift (ad_hooks (cx_adapter c)) (rs_resource st) drift))"

definition check_in_force :: "projection \<Rightarrow> drift list \<Rightarrow> bool" where
  "check_in_force proj drift \<longleftrightarrow>
     list_all (\<lambda>d. case d of ProtectionWeakened gaps \<Rightarrow> check_enforced gaps | _ \<Rightarrow> True) drift
     \<and> pr_required_check proj \<noteq> None"

definition protection_changed_json :: "repo_state \<Rightarrow> bool \<Rightarrow> json" where
  "protection_changed_json st enf =
     JObject [(''type'', JString ''protectionChanged''), (''forgeId'', JString (show_word (rs_forge_id st))),
              (''resource'', JString (as_str (rs_resource st))), (''requiredCheck'', JBool enf)]"

definition check_step :: "bool \<Rightarrow> report \<Rightarrow> report" where
  "check_step enf =
     report_step ''requiredCheck'' (if enf then StUnchanged else StFailed)
       (if enf then None else Some ''the forge does not require the verify-trust check'')"

text \<open>Report the drift when it is news (or when asked to), and remember what was reported.\<close>

definition report_drift ::
    "'f bridge \<Rightarrow> 'f ctx \<Rightarrow> repo_state \<Rightarrow> repo_record option \<Rightarrow> bool \<Rightarrow> report option
       \<Rightarrow> ('f, report option option) io" where
  "report_drift br c st rec always report = do {
     let drift = drift_found br c st rec;
     let enf = check_in_force (projection_of br c st rec) drift;
     case drift_items (cx_host c) (rs_resource st) drift of
       None \<Rightarrow> return None
     | Some items \<Rightarrow> do {
         let guard = guard_str (in_force st drift);
         _ \<leftarrow> (case rec of None \<Rightarrow> return () | Some r \<Rightarrow> record_guard (repo_record_key r) guard);
         let digest = gl_sha256_hex (br_gen br) (JArray [JArray items, JString guard]);
         let report = map_option (\<lambda>p. p\<lparr>rp_repo := Some (rs_resource st, rs_forge_id st)\<rparr>) report;
         case rec of
           None \<Rightarrow> return (Some report)
         | Some r \<Rightarrow> do {
             let report = map_option (check_step enf) report;
             if always \<or> rr_last_drift r \<noteq> Some digest then do {
               sent \<leftarrow> send_event br (nr_id (cx_ns c)) (protection_changed_json st enf) (Some items);
               _ \<leftarrow> (case sent of
                   Inl _ \<Rightarrow> return ()
                 | Inr _ \<Rightarrow> do {
                     _ \<leftarrow> map_rec REPOS (repo_record_key r) (\<lambda>x. x\<lparr>rr_last_drift := Some digest\<rparr>);
                     return ()
                   });
               return (Some report)
             }
             else return (Some report)
           }
       }
   }"

definition inspect_repo ::
    "'f bridge \<Rightarrow> 'f ctx \<Rightarrow> resource \<Rightarrow> bool \<Rightarrow> report option
       \<Rightarrow> ('f, ((forge_error + unit) \<times> report option) option) io" where
  "inspect_repo br c repo always report = do {
     s \<leftarrow> on_forge (fo_inspect (cx_ops c) repo);
     case s of
       Inl e \<Rightarrow> return (Some (Inl e, report))
     | Inr st \<Rightarrow> do {
         rec \<leftarrow> the_repo_record (cx_host c) (rs_forge_id st);
         if \<not> contains_resource (nr_resource (cx_ns c)) (rs_resource st)
         then do { _ \<leftarrow> found_outside br c st rec; return (Some (Inr (), report)) }
         else do {
           _ \<leftarrow> settle_name br c st rec;
           rec \<leftarrow> the_repo_record (cx_host c) (rs_forge_id st);
           some_then (report_drift br c st rec always report)
             (\<lambda>report. return (Some (Inr (), report)))
         }
       }
   }"

fun sweep_loop ::
    "'f bridge \<Rightarrow> 'f ctx \<Rightarrow> bool \<Rightarrow> repo_record list \<Rightarrow> string list \<Rightarrow> ('f, string list option) io" where
  "sweep_loop br c always [] failures = return (Some failures)"
| "sweep_loop br c always (r # rest) failures =
     some_then (inspect_repo br c (rr_resource r) always None) (\<lambda>(res, _).
       sweep_loop br c always rest (failures @ (case res of
           Inl e \<Rightarrow> [as_str (rr_resource r) @ '': '' @ forge_error_display e] | Inr _ \<Rightarrow> [])))"

definition sweep :: "'f bridge \<Rightarrow> 'f ctx \<Rightarrow> bool \<Rightarrow> report \<Rightarrow> ('f, report option) io" where
  "sweep br c always report = do {
     recs \<leftarrow> list_or_empty REPOS;
     some_then (sweep_loop br c always
         (filter (\<lambda>r. rr_namespace r = nr_id (cx_ns c) \<and> \<not> rr_archived r) (map snd recs)) [])
       (\<lambda>failures. return (Some (if failures \<noteq> []
          then fail_with ''forgeError'' (join ''; '' failures) report else report)))
   }"

definition sweep_namespace :: "'f bridge \<Rightarrow> string \<Rightarrow> ('f, unit option) io" where
  "sweep_namespace br i = do {
     c \<leftarrow> ctx_load br i;
     case c of
       Inl _ \<Rightarrow> return (Some ())
     | Inr c \<Rightarrow> do {
         hooks \<leftarrow> ask_forge (\<lambda>f. webhooks (fo_capabilities (cx_ops c) (cx_namespace c) f));
         if hooks then return (Some ())
         else some_then (sweep br c False report_default) (\<lambda>_. return (Some ()))
       }
   }"

fun each_some :: "'a list \<Rightarrow> ('a \<Rightarrow> ('s, unit option) state) \<Rightarrow> ('s, unit option) state" where
  "each_some [] body = return (Some ())"
| "each_some (x # xs) body = some_then (body x) (\<lambda>_. each_some xs body)"

definition sweep_without_webhooks :: "'f bridge \<Rightarrow> ('f, unit option) io" where
  "sweep_without_webhooks br = do {
     nss \<leftarrow> list_or_empty NAMESPACES;
     each_some nss (\<lambda>(i, _). sweep_namespace br i)
   }"

section \<open>A job\<close>

definition run_kind ::
    "'f bridge \<Rightarrow> 'f ctx \<Rightarrow> job_payload \<Rightarrow> resource option \<Rightarrow> int option \<Rightarrow> report \<Rightarrow> ('f, report option) io" where
  "run_kind br c p repo issued_at report =
     (case (jp_kind p, repo) of
        (ProjectRoles, Some repo) \<Rightarrow>
          done_some (project_roles br c repo (unwrap_or (jp_desired_roles p) [])
            (unwrap_or (jp_remove_accounts p) []) report)
      | (CreateRepo, Some repo) \<Rightarrow> create_repo br c repo p report
      | (BootstrapJob, Some repo) \<Rightarrow> bootstrap br c repo (map_option set (jp_steps p)) report
      | (ArchiveJob, Some repo) \<Rightarrow> archive c repo report
      | (InspectJob, Some repo) \<Rightarrow>
          some_then (inspect_repo br c repo True (Some report)) (\<lambda>(res, report').
            let report' = unwrap_or report' report
            in return (Some (case res of Inl e \<Rightarrow> report_fail e report' | Inr _ \<Rightarrow> report')))
      | (InspectJob, None) \<Rightarrow> sweep br c True report
      | (ClosePullRequest, Some repo) \<Rightarrow> close_pull_request br c repo p issued_at report
      | (kind, _) \<Rightarrow> return (Some (fail_with ''notCapable''
          (''`'' @ job_kind_str kind @ ''` is not run here'') report)))"

definition run_job_payload :: "'f bridge \<Rightarrow> job_payload \<Rightarrow> int option \<Rightarrow> ('f, report option) io" where
  "run_job_payload br p issued_at = do {
     c \<leftarrow> ctx_load br (jp_namespace p);
     case c of
       Inl msg \<Rightarrow> return (Some (fail_with ''notCapable'' msg report_default))
     | Inr c \<Rightarrow>
         (case jp_repo p of
            None \<Rightarrow> run_kind br c p None issued_at report_default
          | Some r \<Rightarrow>
              (case resource_parse r of
                 Inl e \<Rightarrow> return (Some (report_fail e report_default))
               | Inr repo \<Rightarrow> run_kind br c p (Some repo) issued_at report_default))
   }"

section \<open>What a job may change\<close>

text \<open>
  Running a job changes repository records, branch ledgers, namespace records (never which
  namespaces there are, nor their id, resource or state) and the events of the outbox. Every
  invariant those changes keep is kept by every operation above.
\<close>

locale job_inv = outbox_inv +
  assumes repo_put: "I d \<Longrightarrow> I (repos_update (tab_put k r) d)"
    and repo_del: "I d \<Longrightarrow> I (repos_update (tab_del k) d)"
    and branch_del: "I d \<Longrightarrow> I (branches_update (tab_del k) d)"
    and ns_put: "I d \<Longrightarrow> map_of (namespaces d) k = Some n \<Longrightarrow> nr_id n' = nr_id n \<Longrightarrow>
      nr_resource n' = nr_resource n \<Longrightarrow> nr_state n' = nr_state n \<Longrightarrow> I (namespaces_update (tab_put k n') d)"
    and ns_del: "I d \<Longrightarrow> map_of (namespaces d) k = None \<Longrightarrow> I (namespaces_update (tab_del k) d)"
begin

lemma keeps_repo_writes:
  "keeps (on_db I) (delete_rec REPOS k)" "keeps (on_db I) (map_rec REPOS k f)"
  "keeps (on_db I) (update_rec REPOS k g)" "keeps (on_db I) (delete_rec BRANCHES k)"
  unfolding delete_rec_def map_rec_def update_rec_def
  by (rule keeps_txn, auto simp: REPOS_def BRANCHES_def repo_put repo_del branch_del split: option.split prod.split)+

lemma keeps_ns_update:
  assumes "\<And>n. nr_id (f n) = nr_id n \<and> nr_resource (f n) = nr_resource n \<and> nr_state (f n) = nr_state n"
    and "\<And>n. fst (g (Some n)) = Some (f n)" "fst (g None) = None"
  shows "keeps (on_db I) (update_rec NAMESPACES k g)"
  unfolding update_rec_def
proof (rule keeps_txn)
  fix d
  assume d: "I d"
  show "I (snd (case g (map_of (fst NAMESPACES d) k) of
      (Some v, out) \<Rightarrow> (out, snd NAMESPACES (tab_put k v) d)
    | (None, out) \<Rightarrow> (out, snd NAMESPACES (tab_del k) d)))"
  proof (cases "map_of (namespaces d) k")
    case None
    then show ?thesis by (simp add: NAMESPACES_def split_beta assms(3) ns_del d)
  next
    case (Some n)
    then show ?thesis
      by (simp add: NAMESPACES_def assms(2) split_beta) (rule ns_put [OF d Some], simp_all add: assms(1))
  qed
qed

lemma keeps_ns_map:
  assumes "\<And>n. nr_id (f n) = nr_id n \<and> nr_resource (f n) = nr_resource n \<and> nr_state (f n) = nr_state n"
  shows "keeps (on_db I) (map_rec NAMESPACES k f)"
  unfolding map_rec_def by (rule keeps_ns_update [where f = f]) (simp_all add: assms)

lemma keeps_update_expected:
  assumes "\<And>n. nr_id (f n) = nr_id n \<and> nr_resource (f n) = nr_resource n \<and> nr_state (f n) = nr_state n"
  shows "keeps (on_db I) (update_expected NAMESPACES k f)"
  unfolding update_expected_def
  by (intro keeps_rules keeps_ns_update [where f = f]) (simp_all add: assms)

lemma keeps_detach: "keeps (on_db I) (detach br h i)"
proof -
  have "keeps (on_db I) (unmanage br i key ns)" for key ns
    unfolding unmanage_def tell_managed_def
    by (intro keeps_rules keeps_ns_update [where f = "\<lambda>n. n\<lparr>nr_managed := nr_managed n - {i}\<rparr>"])
      (simp_all add: drop_managed_def)
  then show ?thesis
    unfolding detach_def by (intro keeps_rules keeps_repo_writes)
qed

lemma keeps_detach_from: "keeps (on_db I) (detach_from br ns i)"
  unfolding detach_from_def claimed_elsewhere_def Let_def by (intro keeps_rules keeps_detach)

lemma keeps_detach_reused_name: "keeps (on_db I) (detach_reused_name br n r i)"
  unfolding detach_reused_name_def Let_def by (intro keeps_rules keeps_detach)

lemma keeps_send_event: "keeps (on_db I) (send_event br ns ev drift)"
  unfolding send_event_def by (rule keeps_send_event_keyed) simp

lemma keeps_report_event: "keeps (on_db I) (report_event br ns ev)"
  unfolding report_event_def by (intro keeps_rules keeps_send_event)

lemma keeps_report_unmanaged: "keeps (on_db I) (report_unmanaged br ns r i)"
  unfolding report_unmanaged_def repo_in_def
  by (intro keeps_rules keeps_detach_reused_name keeps_report_event)

lemma keeps_transferred_out: "keeps (on_db I) (transferred_out br ns a b i)"
  unfolding transferred_out_def namespace_in_def
  by (intro keeps_rules keeps_detach_from keeps_report_event keeps_report_unmanaged)

lemma keeps_confirm_transfer_in: "keeps (on_db I) (confirm_transfer_in br ns i)"
  unfolding confirm_transfer_in_def
  by (auto intro!: keeps_rules keeps_transferred_out split: option.split)

lemma keeps_probe: "keeps (on_db I) (probe_bridge_checks br i)"
  unfolding probe_bridge_checks_def by (intro keeps_rules keeps_ns_map) simp

lemma keeps_close_pull_request: "keeps (on_db I) (close_pull_request br c repo p at report)"
proof -
  have "keeps (on_db I) (forbidden_reprobe br c e)" for e
    unfolding forbidden_reprobe_def by (intro keeps_rules keeps_probe)
  then show ?thesis
    unfolding close_pull_request_def comment_step_def Let_def
    by (auto intro!: keeps_rules split: option.split sum.split bool.split)
qed

lemma keeps_upsert_repo: "keeps (on_db I) (upsert_repo h ns repo i f)"
  unfolding upsert_repo_def by (intro keeps_rules keeps_repo_writes)

lemma keeps_remaining_access: "keeps (on_db I) (remaining_access c repo accounts applied)"
  by (induction accounts) (auto simp: Let_def intro!: keeps_rules)

lemma keeps_apply_roles: "keeps (on_db I) (apply_roles br c repo i desired owners rem report)"
  unfolding apply_roles_def Let_def
  by (auto intro!: keeps_rules keeps_upsert_repo keeps_remaining_access split: hook_decision.split option.split sum.split)

lemma keeps_project_roles: "keeps (on_db I) (project_roles br c repo roles remove report)"
  unfolding project_roles_def forge_id_of_def
  by (intro keeps_rules keeps_apply_roles)

lemma keeps_manage: "keeps (on_db I) (manage c st owners)"
  unfolding manage_def
  by (auto intro!: keeps_rules keeps_upsert_repo keeps_update_expected split: option.split sum.split)

lemma keeps_persist: "keeps (on_db I) (persist_adapter_state c)"
  unfolding persist_adapter_state_def by (intro keeps_rules keeps_update_expected) simp

lemma keeps_capability_changed: "keeps (on_db I) (capability_changed c cap a)"
  unfolding capability_changed_def by (intro keeps_rules keeps_update_expected) simp

lemma keeps_hook_steps: "keeps (on_db I) (hook_steps c repo steps report)"
  by (induction steps arbitrary: report) (auto intro!: keeps_rules split: sum.split)

lemma keeps_plan_steps: "keeps (on_db I) (plan_steps c repo first steps did fail report)"
  by (induction steps arbitrary: did fail report) (auto intro!: keeps_rules keeps_capability_changed)

lemma keeps_run_bootstrap: "keeps (on_db I) (run_bootstrap br c spec extra only report)"
proof -
  have "keeps (on_db I) (after_plan c vgi repo pe did r)" for vgi repo pe did r
    unfolding after_plan_def
    by (auto intro!: keeps_rules keeps_persist keeps_hook_steps keeps_repo_writes split: hook_decision.split)
  then have "keeps (on_db I) (bootstrap_attempt c vgi spec extra only first before r)" for vgi first before r
    unfolding bootstrap_attempt_def by (intro keeps_rules keeps_plan_steps)
  then show ?thesis
    unfolding run_bootstrap_def Let_def by (intro keeps_rules)
qed

lemma keeps_refresh_guard: "keeps (on_db I) (refresh_guard br c report)"
  unfolding refresh_guard_def record_guard_def Let_def by (intro keeps_rules keeps_repo_writes)

lemma keeps_create_repo: "keeps (on_db I) (create_repo br c repo p report)"
proof -
  have "keeps (on_db I) (create_step c repo spec r)" for spec r
    unfolding create_step_def by (auto intro!: keeps_rules split: forge_error.split option.split sum.split)
  moreover have "keeps (on_db I) (set_up_repo br c spec st desired owners r)" for spec st desired owners r
    unfolding set_up_repo_def Let_def
    by (auto intro!: keeps_rules keeps_manage keeps_run_bootstrap keeps_refresh_guard keeps_apply_roles
        split: hook_decision.split)
  ultimately show ?thesis
    unfolding create_repo_def Let_def
    by (auto intro!: keeps_rules split: hook_decision.split option.split sum.split)
qed

lemma keeps_bootstrap: "keeps (on_db I) (bootstrap br c repo only report)"
  unfolding bootstrap_def Let_def
  by (intro keeps_rules keeps_manage keeps_run_bootstrap keeps_refresh_guard)

lemma keeps_archive: "keeps (on_db I) (archive c repo report)"
  unfolding archive_def Let_def
  by (intro keeps_rules keeps_repo_writes keeps_update_expected keeps_persist) simp

lemma keeps_inspect_repo: "keeps (on_db I) (inspect_repo br c repo always report)"
proof -
  have "keeps (on_db I) (settle_name br c st rec)" for st rec
    unfolding settle_name_def
    by (intro keeps_rules keeps_detach_reused_name keeps_report_unmanaged keeps_send_event keeps_repo_writes)
  moreover have "keeps (on_db I) (report_drift br c st rec always r)" for st rec r
    unfolding report_drift_def record_guard_def Let_def
    by (intro keeps_rules keeps_send_event keeps_repo_writes)
  ultimately show ?thesis
    unfolding inspect_repo_def found_outside_def
    by (intro keeps_rules keeps_transferred_out)
qed

lemma keeps_sweep: "keeps (on_db I) (sweep br c always report)"
proof -
  have "keeps (on_db I) (sweep_loop br c always recs failed)" for recs failed
    by (induction recs arbitrary: failed) (auto intro!: keeps_rules keeps_inspect_repo)
  then show ?thesis
    unfolding sweep_def by (intro keeps_rules)
qed

lemma keeps_sweep_without_webhooks: "keeps (on_db I) (sweep_without_webhooks br)"
proof -
  have body: "keeps (on_db I) (sweep_namespace br i)" for i
    unfolding sweep_namespace_def by (intro keeps_rules keeps_sweep)
  have "keeps (on_db I) (each_some nss (\<lambda>(i, _). sweep_namespace br i))" for nss :: "(string \<times> namespace_record) list"
    by (induction nss) (auto intro!: keeps_rules body)
  then show ?thesis
    unfolding sweep_without_webhooks_def by (intro keeps_rules)
qed

lemma keeps_run_job_payload: "keeps (on_db I) (run_job_payload br p at)"
proof -
  have "keeps (on_db I) (run_kind br c p repo at report)" for c repo report
    unfolding run_kind_def Let_def
    by (cases "jp_kind p"; cases repo)
      (auto intro!: keeps_rules keeps_project_roles keeps_create_repo keeps_bootstrap keeps_archive
        keeps_inspect_repo keeps_sweep keeps_close_pull_request)
  then show ?thesis
    unfolding run_job_payload_def by (intro keeps_rules)
qed

end

section \<open>The roles asked of the forge\<close>

definition role_of :: "u64 \<Rightarrow> role_assignment list \<Rightarrow> forge_role option" where
  "role_of i ws = map_of (map (\<lambda>w. (acc_id (ra_account w), ra_role w)) ws) i"

lemma role_of_simps [simp]:
  "role_of i [] = None"
  "role_of i (w # ws) = (if acc_id (ra_account w) = i then Some (ra_role w) else role_of i ws)"
  by (auto simp: role_of_def)

lemma listed_iff: "listed i ws \<longleftrightarrow> role_of i ws \<noteq> None"
  by (induction ws) (auto simp: listed_def)

lemma role_of_append: "role_of i (ws @ vs) = (case role_of i ws of None \<Rightarrow> role_of i vs | r \<Rightarrow> r)"
  by (induction ws) auto

lemma role_of_with_previous:
  "role_of i (with_previous previous want) =
     (case role_of i want of
        Some r \<Rightarrow> Some r
      | None \<Rightarrow> if list_ex (\<lambda>p. acc_id (ra_account p) = i \<and> ra_role p \<noteq> RoleNone) previous
                then Some RoleNone else None)"
proof (induction previous arbitrary: want)
  case (Cons p ps)
  then show ?case
    by (cases "ra_role p \<noteq> RoleNone \<and> \<not> listed (acc_id (ra_account p)) want")
      (auto simp: with_previous_def listed_iff role_of_append split: option.splits)
qed (auto simp: with_previous_def split: option.splits)

lemma role_of_set_none:
  "role_of i (set_none a ws) = (if acc_id a = i then Some RoleNone else role_of i ws)"
  by (induction ws) auto

text \<open>C23: The roles asked of the forge are exactly the job's, and what they replace. An account the job
  removes is asked to have no role, one it lists its role; one the bridge projected a role for
  before and the job no longer lists is asked to have none; and nobody else is mentioned, so that
  a role given on the forge to somebody the job does not know is left alone.\<close>

theorem wanted_roles_are_exact:
  "role_of i (wanted_roles previous desired remove) =
     (if i \<in> acc_id ` set remove then Some RoleNone
      else case role_of i desired of
        Some r \<Rightarrow> Some r
      | None \<Rightarrow> if list_ex (\<lambda>p. acc_id (ra_account p) = i \<and> ra_role p \<noteq> RoleNone) previous
                then Some RoleNone else None)"
proof -
  have "role_of i (fold set_none as ws) = (if i \<in> acc_id ` set as then Some RoleNone else role_of i ws)" for as ws
    by (induction as arbitrary: ws) (auto simp: role_of_set_none)
  then show ?thesis by (simp add: wanted_roles_def role_of_with_previous)
qed

section \<open>Closing is ordered and polite\<close>

lemma run_on_forge: "run_state (on_forge m) w = (case run_state m (forge_state w) of (a, f) \<Rightarrow> (a, w\<lparr>forge_state := f\<rparr>))"
  by (simp add: on_forge_def)

text \<open>The two steps, in order, with their outcomes.\<close>

definition two_steps :: "step_status \<Rightarrow> step_status \<Rightarrow> report \<Rightarrow> bool" where
  "two_steps a b r \<longleftrightarrow> map (\<lambda>(n, s, _). (n, s)) (rp_steps r) = [(''comment'', a), (''close'', b)]"

lemma steps_of_reports:
  "rp_steps (report_step n s d r) = merge_step n s d (rp_steps r)" "rp_steps (report_fail e r) = rp_steps r"
  "rp_error (report_step n s d r) = rp_error r" "rp_steps (failed_step n e r) = merge_step n StFailed (Some (forge_error_display e)) (rp_steps r)"
  "rp_error (failed_step n e r) = (case rp_error r of None \<Rightarrow> Some (err_code e, forge_error_display e) | x \<Rightarrow> x)"
  by (auto simp: report_step_def report_fail_def failed_step_def split: option.split)

lemma comment_step_cases:
  assumes "run_state (comment_step br c repo n m marker r0) w = ((r, go), w')" "rp_steps r0 = []" "rp_error r0 = None"
  shows "if go then (\<exists>s d. rp_steps r = [(''comment'', s, d)] \<and> (s = StApplied \<or> s = StUnchanged)) \<and> rp_error r = None
    else two_steps StFailed StSkipped r \<and> rp_error r \<noteq> None"
  using assms
  by (auto simp: comment_step_def Let_def steps_of_reports two_steps_def split: prod.splits sum.splits bool.splits)

text \<open>C22: Closing a pull request is ordered, and stands down for a newer reopen. The job always reports
  the two steps \<open>comment\<close> and \<open>close\<close>, in that order: when the pull request could not be read or
  commented on, the comment failed and the close was skipped; when the close failed after the
  comment, only the close failed; otherwise nothing failed. A pull request that is not open, or
  was reopened by someone else after the order, is left alone: both steps are unchanged and the
  forge is exactly as the reading left it. (The members the kind requires are there.)\<close>

theorem closing_is_ordered:
  assumes "jp_number p = Some n" "jp_message p = Some m"
    and run: "run_state (close_pull_request br c repo p issued report_default) w = (res, w')"
  shows "\<exists>r. res = Some r
    \<and> (two_steps StFailed StSkipped r \<and> outcome r = ''failed''
       \<or> (\<exists>a. a \<in> {StApplied, StUnchanged} \<and> two_steps a StFailed r) \<and> outcome r = ''partial''
       \<or> (\<exists>a b. a \<in> {StApplied, StUnchanged} \<and> b \<in> {StApplied, StUnchanged} \<and> two_steps a b r)
           \<and> outcome r = ''succeeded'')
    \<and> (case run_state (fo_pull_request (cx_ops c) repo n) (forge_state w) of
         (Inl e, _) \<Rightarrow> two_steps StFailed StSkipped r
       | (Inr pr, f) \<Rightarrow> if \<not> pull_is_open pr \<or> reopened_since pr issued \<noteq> None
           then two_steps StUnchanged StUnchanged r \<and> forge_state w' = f else True)"
proof -
  have outcomes: "outcome r = ''failed''" if "two_steps StFailed StSkipped r" for r
    using that by (auto simp: two_steps_def outcome_def Let_def map_eq_Cons_conv)
  have partial: "outcome r = ''partial''" if "two_steps a StFailed r" "a \<in> {StApplied, StUnchanged}" for r a
    using that by (auto simp: two_steps_def outcome_def Let_def map_eq_Cons_conv)
  have fine: "outcome r = ''succeeded''" if "two_steps a b r" "rp_error r = None" "a \<in> {StApplied, StUnchanged}"
      "b \<in> {StApplied, StUnchanged}" for r a b
    using that by (auto simp: two_steps_def outcome_def Let_def map_eq_Cons_conv)
  obtain rec w1 where 1: "run_state (repo_record_by_resource repo) w = (rec, w1)"
    by (cases "run_state (repo_record_by_resource repo) w")
  then have f1: "forge_state w1 = forge_state w"
    by (auto simp: repo_record_by_resource_def list_or_empty_def or_else_def list_rec_def txn_def
        split: list.splits bool.splits prod.splits)
  define r0 where "r0 = (case rec of None \<Rightarrow> report_default | Some x \<Rightarrow> report_default\<lparr>rp_repo := Some (repo, rr_forge_id x)\<rparr>)"
  have r0: "rp_steps r0 = []" "rp_error r0 = None"
    by (auto simp: r0_def report_default_def split: option.split)
  obtain answer f where 2: "run_state (fo_pull_request (cx_ops c) repo n) (forge_state w) = (answer, f)"
    by (cases "run_state (fo_pull_request (cx_ops c) repo n) (forge_state w)")
  note run' = run [unfolded close_pull_request_def assms option.case prod.case]
  show ?thesis
  proof (cases answer)
    case (Inl e)
    with run' 1 2 f1 r0 have "\<exists>r. res = Some r \<and> two_steps StFailed StSkipped r"
      by (auto simp: run_on_forge Let_def steps_of_reports two_steps_def r0_def split: prod.splits)
    with 2 Inl outcomes show ?thesis by auto
  next
    case (Inr pr)
    show ?thesis
    proof (cases "\<not> pull_is_open pr \<or> reopened_since pr issued \<noteq> None")
      case True
      with run' 1 2 f1 r0 Inr have "\<exists>r. res = Some r \<and> two_steps StUnchanged StUnchanged r \<and> rp_error r = None
          \<and> forge_state w' = f"
        by (auto simp: run_on_forge Let_def steps_of_reports two_steps_def r0_def split: prod.splits if_splits option.splits)
      with 2 Inr True fine show ?thesis by fastforce
    next
      case False
      let ?w2 = "w1\<lparr>forge_state := f\<rparr>"
      obtain r go w3 where 3: "run_state (comment_step br c repo n m (comment_marker (jp_job_id p)) r0) ?w2 = ((r, go), w3)"
        by (metis surj_pair)
      note cs = comment_step_cases [OF 3 r0]
      show ?thesis
      proof (cases go)
        case False
        with run' 1 2 3 f1 Inr \<open>\<not> (\<not> pull_is_open pr \<or> reopened_since pr issued \<noteq> None)\<close> have "res = Some r"
          by (simp add: run_on_forge Let_def r0_def split: prod.splits)
        with cs False 2 Inr outcomes \<open>\<not> (\<not> pull_is_open pr \<or> reopened_since pr issued \<noteq> None)\<close> show ?thesis by simp
      next
        case True
        with cs obtain s d where s: "rp_steps r = [(''comment'', s, d)]" "s = StApplied \<or> s = StUnchanged" "rp_error r = None"
          by auto
        have "\<exists>r'. res = Some r' \<and> (two_steps s StFailed r' \<or> two_steps s StApplied r' \<and> rp_error r' = None)"
          using run' 1 2 3 f1 Inr True s \<open>\<not> (\<not> pull_is_open pr \<or> reopened_since pr issued \<noteq> None)\<close>
          by (auto simp: run_on_forge Let_def r0_def two_steps_def steps_of_reports split: prod.splits sum.splits)
        with s 2 Inr partial fine \<open>\<not> (\<not> pull_is_open pr \<or> reopened_since pr issued \<noteq> None)\<close> show ?thesis
          by fastforce
      qed
    qed
  qed
qed

definition example_close :: job_payload where
  "example_close =
     \<lparr>jp_job_id = ''j1'', jp_namespace = ''ns1'', jp_kind = ClosePullRequest, jp_repo = Some ''code.example/acme/w'',
      jp_spec = None, jp_desired_roles = None, jp_remove_accounts = None, jp_steps = None, jp_target = None,
      jp_subject = None, jp_number = Some 7, jp_message = Some ''closed''\<rparr>"

definition example_ctx :: "unit ctx" where
  "example_ctx = \<lparr>cx_ns = example_namespace, cx_adapter = sample_adapter,
     cx_namespace = namespace_new (Resource ''code.example/acme'') Organization\<rparr>"

lemma closing_is_ordered_witness:
  "\<exists>r w'. run_state (close_pull_request sample_bridge example_ctx (Resource ''code.example/acme/w'')
       example_close None report_default) (example_world empty_store) = (Some r, w')
     \<and> two_steps StFailed StSkipped r"
proof -
  obtain res w' where r: "run_state (close_pull_request sample_bridge example_ctx (Resource ''code.example/acme/w'')
       example_close None report_default) (example_world empty_store) = (res, w')"
    by (metis surj_pair)
  have "jp_number example_close = Some 7" "jp_message example_close = Some ''closed''"
    by (simp_all add: example_close_def)
  from closing_is_ordered [OF this r] r show ?thesis
    by (auto simp: example_ctx_def cx_ops_def sample_adapter_def sample_ops_def with_default_methods_def
        split: prod.splits sum.splits)
qed

section \<open>A job changes nothing else, and always reports\<close>

text \<open>
  What no job touches: the ledger, the pending flows, the deliveries, the retired ids and the
  secrets, and which namespaces there are, with their id, resource and state.
\<close>

definition others :: "store \<Rightarrow> job_record table \<times> pending_flow table \<times> int table \<times> retired_namespace table \<times> string table" where
  "others d = (jobs d, pending d, deliveries d, retired d, secrets d)"

definition identity_of :: "namespace_record \<Rightarrow> string \<times> resource \<times> namespace_state" where
  "identity_of n = (nr_id n, nr_resource n, nr_state n)"

definition job_frame :: "store \<Rightarrow> store \<Rightarrow> bool" where
  "job_frame d0 d \<longleftrightarrow> others d = others d0
     \<and> (\<forall>k. map_option identity_of (map_of (namespaces d) k) = map_option identity_of (map_of (namespaces d0) k))"

lemma job_frame_ns:
  assumes "job_frame d0 d"
  shows "map_of (namespaces d) k = Some n \<Longrightarrow> identity_of n' = identity_of n \<Longrightarrow>
      job_frame d0 (namespaces_update (tab_put k n') d)"
    and "map_of (namespaces d) k = None \<Longrightarrow> job_frame d0 (namespaces_update (tab_del k) d)"
  using assms spec [OF conjunct2 [OF assms [unfolded job_frame_def]], of k]
  by (auto simp: job_frame_def others_def map_of_tab_put map_of_tab_del)

lemma job_frame_outbox: "job_frame d0 (outbox_update f d) = job_frame d0 d"
  by (simp add: job_frame_def others_def)

interpretation jobs: job_inv "keyed_and (job_frame d0)" for d0
proof unfold_locales
  fix d :: store and k n and n' :: namespace_record
  assume "keyed_and (job_frame d0) d" "map_of (namespaces d) k = Some n" "nr_id n' = nr_id n"
    "nr_resource n' = nr_resource n" "nr_state n' = nr_state n"
  then show "keyed_and (job_frame d0) (namespaces_update (tab_put k n') d)"
    using job_frame_ns(1) [of d0 d k n n'] job_frame_outbox [of d0 "\<lambda>_. []"]
    by (simp add: keyed_and_def outbox_keyed_def identity_of_def)
next
  fix d :: store and k
  assume "keyed_and (job_frame d0) d" "map_of (namespaces d) k = None"
  then show "keyed_and (job_frame d0) (namespaces_update (tab_del k) d)"
    using job_frame_ns(2) [of d0 d k] job_frame_outbox [of d0 "\<lambda>_. []"]
    by (simp add: keyed_and_def outbox_keyed_def)
qed (auto simp: keyed_and_def job_frame_def others_def outbox_keyed_def)

interpretation job_results: job_inv "result_waits j p" for j p
  by unfold_locales (simp_all add: result_waits_def outbox_keyed_def)

text \<open>C20: A job keeps to its own. Whatever the forge and the hooks answer and whatever transactions fail,
  running a job leaves the ledger of jobs, the pending flows, the deliveries, the retired ids and
  the secrets as they were; no namespace appears, disappears or changes its id, resource or state;
  and every result that waits in the outbox still waits there.\<close>

theorem job_keeps_to_its_own:
  assumes "outbox_keyed (db w)" "run_state (run_job_payload br p issued) w = (r, w')"
  shows "job_frame (db w) (db w') \<and> outbox_keyed (db w')
    \<and> (\<forall>j v. result_waits j v (db w) \<longrightarrow> result_waits j v (db w'))"
proof -
  have "keyed_and (job_frame (db w)) (db w')"
    using keeps_run [OF jobs.keeps_run_job_payload _ assms(2), of "db w"] assms(1)
    by (simp add: on_db_def keyed_and_def job_frame_def others_def)
  moreover have "result_waits j v (db w')" if "result_waits j v (db w)" for j v
    using keeps_run [OF job_results.keeps_run_job_payload _ assms(2)] that by (simp add: on_db_def)
  ultimately show ?thesis by (simp add: keyed_and_def job_frame_def others_def)
qed

lemma job_keeps_to_its_own_witness:
  "jobs (db (snd (run_state (run_job_payload sample_bridge example_close None) (example_world example_waiting))))
     = []
   \<and> result_waits ''j1'' (JString ''done'')
       (db (snd (run_state (run_job_payload sample_bridge example_close None) (example_world example_waiting))))"
proof -
  obtain r w' where r: "run_state (run_job_payload sample_bridge example_close None) (example_world example_waiting) = (r, w')"
    by (metis surj_pair)
  have w: "result_waits ''j1'' (JString ''done'') (db (example_world example_waiting))"
    by (simp add: result_waits_def example_world_def example_waiting_def empty_store_def outbox_keyed_def
        outbox_new_def result_key_def starts_with_def)
  then have k: "outbox_keyed (db (example_world example_waiting))" by (simp add: result_waits_def)
  from job_keeps_to_its_own [OF k r] w r show ?thesis
    by (simp add: job_frame_def others_def example_world_def example_waiting_def empty_store_def)
qed

text \<open>Operations that keep \<open>I\<close> and do not panic.\<close>

named_theorems safe_rules \<open>rules that show an operation does not panic\<close>

definition safe :: "('s \<Rightarrow> bool) \<Rightarrow> ('s, 'a option) state \<Rightarrow> bool" where
  "safe I m \<longleftrightarrow> triple I m (\<lambda>r w. I w \<and> r \<noteq> None)"

lemma safe_return [safe_rules]: "safe I (State_Monad.return (Some x))"
  by (simp add: safe_def triple_def)

lemma safe_bind [safe_rules]: "keeps I m \<Longrightarrow> (\<And>x. safe I (f x)) \<Longrightarrow> safe I (State_Monad.bind m f)"
  unfolding safe_def keeps_triple by (rule triple_bind)

lemma safe_some_then [safe_rules]:
  "safe I m \<Longrightarrow> (\<And>a. safe I (f a)) \<Longrightarrow> safe I (some_then m f)"
  unfolding safe_def triple_def some_then_def
  by (simp add: split_beta split: option.split) (metis option.collapse option.distinct(1) prod.collapse)

lemma safe_done_some [safe_rules]: "keeps I m \<Longrightarrow> safe I (done_some m)"
  unfolding done_some_def by (intro safe_rules)

lemma safe_if [safe_rules]: "safe I m \<Longrightarrow> safe I n \<Longrightarrow> safe I (if b then m else n)"
  by simp

lemma safe_option [safe_rules]:
  "safe I n \<Longrightarrow> (\<And>x. safe I (f x)) \<Longrightarrow> safe I (case v of None \<Rightarrow> n | Some x \<Rightarrow> f x)"
  by (cases v) auto

lemma safe_sum [safe_rules]:
  "(\<And>x. safe I (f x)) \<Longrightarrow> (\<And>x. safe I (g x)) \<Longrightarrow> safe I (case v of Inl x \<Rightarrow> f x | Inr x \<Rightarrow> g x)"
  by (cases v) auto

lemma safe_prod [safe_rules]:
  "(\<And>x y. safe I (f x y)) \<Longrightarrow> safe I (case v of (x, y) \<Rightarrow> f x y)"
  by (cases v) auto

definition job_state_inv :: "store \<Rightarrow> 'f world \<Rightarrow> bool" where
  "job_state_inv d0 = on_db (keyed_and (job_frame d0))"

lemmas job_keeps = jobs.keeps_upsert_repo [folded job_state_inv_def] jobs.keeps_refresh_guard [folded job_state_inv_def]
  jobs.keeps_apply_roles [folded job_state_inv_def] jobs.keeps_project_roles [folded job_state_inv_def]
  jobs.keeps_hook_steps [folded job_state_inv_def] jobs.keeps_repo_writes [folded job_state_inv_def]
  jobs.keeps_transferred_out [folded job_state_inv_def] jobs.keeps_detach_reused_name [folded job_state_inv_def]
  jobs.keeps_report_unmanaged [folded job_state_inv_def] jobs.keeps_send_event [folded job_state_inv_def]
  keeps_find(4) [where I = "keyed_and (job_frame d0)" for d0, folded job_state_inv_def]
  keeps_find(3) [where I = "keyed_and (job_frame d0)" for d0, folded job_state_inv_def]
  keeps_find(2) [where I = "keyed_and (job_frame d0)" for d0, folded job_state_inv_def]
  keeps_on_forge [where I = "keyed_and (job_frame d0)" for d0, folded job_state_inv_def]
  keeps_ask_forge [where I = "job_state_inv d0" for d0]

lemma safe_update_expected:
  assumes "map_of (namespaces d0) k \<noteq> None"
    and "\<And>n. nr_id (f n) = nr_id n \<and> nr_resource (f n) = nr_resource n \<and> nr_state (f n) = nr_state n"
  shows "safe (job_state_inv d0) (update_expected NAMESPACES k f)"
  unfolding safe_def
proof (rule tripleI)
  fix w a w'
  assume I: "job_state_inv d0 w" and run: "run_state (update_expected NAMESPACES k f) w = (a, w')"
  from keeps_run [OF jobs.keeps_update_expected [OF assms(2), folded job_state_inv_def] I run]
  have "job_state_inv d0 w'" .
  moreover obtain n where n: "map_of (namespaces (db w)) k = Some n"
    using I assms(1)
    by (force simp: job_state_inv_def on_db_def keyed_and_def job_frame_def dest: spec [of _ k])
  from run have "a \<noteq> None"
    by (auto simp: update_expected_def update_rec_def n NAMESPACES_def split: prod.splits dest!: run_txn_cases)
  ultimately show "job_state_inv d0 w' \<and> a \<noteq> None" by blast
qed

text \<open>The adapter, its hooks and the clipped text of its drift do not panic.\<close>

definition drift_clips :: "'f bridge \<Rightarrow> 'f ctx \<Rightarrow> bool" where
  "drift_clips br c \<longleftrightarrow> (\<forall>st rec. drift_items (cx_host c) (rs_resource st) (drift_found br c st rec) \<noteq> None)"

definition there :: "store \<Rightarrow> 'f ctx \<Rightarrow> bool" where
  "there d0 c \<longleftrightarrow> map_of (namespaces d0) (nr_id (cx_ns c)) \<noteq> None"

lemma safe_manage:
  assumes "there d0 c"
  shows "safe (job_state_inv d0) (manage c st owners)"
  unfolding manage_def
  by (intro safe_rules safe_update_expected [OF assms(1) [unfolded there_def]] job_keeps)
    (auto intro!: keeps_rules job_keeps split: sum.split option.split)

lemma safe_persist:
  assumes "there d0 c"
  shows "safe (job_state_inv d0) (persist_adapter_state c)"
  unfolding persist_adapter_state_def
  by (intro safe_rules safe_update_expected [OF assms(1) [unfolded there_def]] job_keeps) simp

lemma safe_capability_changed:
  assumes "there d0 c"
  shows "safe (job_state_inv d0) (capability_changed c cap a)"
  unfolding capability_changed_def
  by (intro safe_rules safe_update_expected [OF assms(1) [unfolded there_def]])
    (auto intro!: keeps_rules job_keeps split: option.split)

lemma safe_plan_steps:
  assumes "there d0 c"
  shows "safe (job_state_inv d0) (plan_steps c repo first steps did fail report)"
proof (induction steps arbitrary: did fail report)
  case Nil
  then show ?case by (simp add: safe_rules)
next
  case (Cons step steps)
  then show ?case
    by (auto intro!: safe_rules job_keeps safe_capability_changed [OF assms(1)])
qed

lemma safe_run_bootstrap:
  assumes "there d0 c"
  shows "safe (job_state_inv d0) (run_bootstrap br c spec extra only report)"
proof -
  have "safe (job_state_inv d0) (after_plan c vgi repo pe did r)" for vgi repo pe did r
    unfolding after_plan_def
    by (intro safe_rules safe_persist [OF assms(1)] job_keeps) (auto intro!: keeps_rules job_keeps split: hook_decision.split)
  then have "safe (job_state_inv d0) (bootstrap_attempt c vgi spec extra only first before r)" for vgi first before r
    unfolding bootstrap_attempt_def by (intro safe_rules job_keeps safe_plan_steps [OF assms(1)])
  then show ?thesis
    unfolding run_bootstrap_def Let_def by (intro safe_rules)
qed

lemma safe_create_repo:
  assumes "there d0 c" and "jp_spec p \<noteq> None"
  shows "safe (job_state_inv d0) (create_repo br c repo p report)"
proof -
  have k: "keeps (job_state_inv d0) (create_step c repo spec r)" for spec r
    unfolding create_step_def
    by (auto intro!: keeps_rules job_keeps split: forge_error.split option.split sum.split)
  have s: "safe (job_state_inv d0) (set_up_repo br c spec st desired owners r)" for spec st desired owners r
    unfolding set_up_repo_def Let_def
    by (auto intro!: safe_rules keeps_rules job_keeps safe_manage [OF assms(1)] safe_run_bootstrap [OF assms(1)] split: hook_decision.split)
  obtain js where "jp_spec p = Some js" using assms(2) by blast
  then show ?thesis
    unfolding create_repo_def Let_def
    by (auto intro!: safe_rules job_keeps k s split: hook_decision.split)
qed

lemma safe_bootstrap:
  assumes "there d0 c"
  shows "safe (job_state_inv d0) (bootstrap br c repo only report)"
  unfolding bootstrap_def Let_def
  by (intro safe_rules keeps_rules job_keeps safe_manage [OF assms(1)] safe_run_bootstrap [OF assms(1)])

lemma safe_archive:
  assumes "there d0 c"
  shows "safe (job_state_inv d0) (archive c repo report)"
  unfolding archive_def Let_def
  by (intro safe_rules job_keeps safe_update_expected [OF assms(1) [unfolded there_def]] safe_persist [OF assms(1)]) simp

lemma safe_inspect_repo:
  assumes "there d0 c" and "drift_clips br c"
  shows "safe (job_state_inv d0) (inspect_repo br c repo always report)"
proof -
  have k: "keeps (job_state_inv d0) (settle_name br c st rec)" "keeps (job_state_inv d0) (found_outside br c st rec)" for st rec
    unfolding settle_name_def found_outside_def by (intro keeps_rules job_keeps)+
  have "safe (job_state_inv d0) (report_drift br c st rec always r)" for st rec r
    using assms(2) [unfolded drift_clips_def, rule_format, of st rec]
    unfolding report_drift_def record_guard_def Let_def
    by (cases "drift_items (cx_host c) (rs_resource st) (drift_found br c st rec)")
      (auto intro!: safe_rules keeps_rules job_keeps)
  with k show ?thesis
    unfolding inspect_repo_def by (intro safe_rules job_keeps)
qed

lemma safe_run_kind:
  assumes "there d0 c" and "drift_clips br c" "well_formed_job p"
  shows "safe (job_state_inv d0) (run_kind br c p repo at report)"
proof -
  note m = assms(3)
  have "safe (job_state_inv d0) (sweep_loop br c always recs failed)" for always recs failed
    by (induction recs arbitrary: failed) (auto intro!: safe_rules safe_inspect_repo [OF assms(1) assms(2)])
  then have sw: "safe (job_state_inv d0) (sweep br c always r)" for always r
    unfolding sweep_def by (intro safe_rules job_keeps)
  have cl: "safe (job_state_inv d0) (close_pull_request br c r p at report)"
    if k: "jp_kind p = ClosePullRequest" for r
  proof -
    obtain n m where nm: "jp_number p = Some n" "jp_message p = Some m"
      using m k by (auto simp: well_formed_job_def)
    have "a \<noteq> None" if "run_state (close_pull_request br c r p at report) w = (a, w')" for w a w'
      using that
      by (auto simp: close_pull_request_def nm Let_def split: prod.splits sum.splits if_splits option.splits)
    with jobs.keeps_close_pull_request [folded job_state_inv_def] show ?thesis
      unfolding safe_def keeps_triple triple_def by fastforce
  qed
  show ?thesis
    using m
    unfolding run_kind_def Let_def
    by (cases "jp_kind p"; cases repo)
      (auto simp: well_formed_job_def intro!: safe_rules job_keeps safe_create_repo [OF assms(1)] safe_bootstrap [OF assms(1)] safe_archive [OF assms(1)]
        safe_inspect_repo [OF assms(1) assms(2)] sw cl)
qed


definition ns_keyed :: "store \<Rightarrow> bool" where
  "ns_keyed d \<longleftrightarrow> (\<forall>k n. map_of (namespaces d) k = Some n \<longrightarrow> nr_id n = k)"

lemma ctx_load_cases:
  assumes "run_state (ctx_load br i) w = (x, w')"
  shows "db w' = db w \<and> forge_state w' = forge_state w
    \<and> (\<forall>c. x = Inr c \<longrightarrow> map_of (namespaces (db w)) i = Some (cx_ns c) \<and> is_bound (cx_ns c) \<and> ctx_with br (cx_ns c) = Inr c)"
  using assms
  by (auto simp: ctx_load_def bound_namespace_def get_rec_def txn_def NAMESPACES_def ctx_with_def
      split: list.splits bool.splits option.splits if_splits)

lemma run_job_payload_reports:
  assumes "outbox_keyed (db w)" "ns_keyed (db w)" "well_formed_job p"
    and "\<forall>ns c. ctx_with br ns = Inr c \<longrightarrow> drift_clips br c"
    and run: "run_state (run_job_payload br p issued) w = (r, w')"
  shows "r \<noteq> None"
proof -
  obtain x w1 where 1: "run_state (ctx_load br (jp_namespace p)) w = (x, w1)"
    by (metis surj_pair)
  note l = ctx_load_cases [OF 1]
  show ?thesis
  proof (cases x)
    case (Inl m)
    with 1 run show ?thesis by (auto simp: run_job_payload_def)
  next
    case (Inr c)
    with l have c: "map_of (namespaces (db w)) (jp_namespace p) = Some (cx_ns c)" "ctx_with br (cx_ns c) = Inr c"
      by auto
    have "there (db w) c"
      using c(1) assms(2) by (simp add: there_def ns_keyed_def)
    moreover have "drift_clips br c" using assms(4) c(2) by blast
    ultimately have s: "safe (job_state_inv (db w)) (run_kind br c p repo issued rep)" for repo rep
      using assms(3) by (rule safe_run_kind)
    have "job_state_inv (db w) w1"
      using l assms(1) by (simp add: job_state_inv_def on_db_def keyed_and_def job_frame_def others_def)
    then have "fst (run_state (run_kind br c p repo issued rep) w1) \<noteq> None" for repo rep
      using s [of repo rep] by (simp add: safe_def triple_def split_beta)
    with run 1 Inr show ?thesis
      by (auto simp: run_job_payload_def split: option.splits sum.splits) (metis fst_conv)+
  qed
qed


definition quiet_bridge :: "unit bridge" where
  "quiet_bridge = sample_bridge\<lparr>br_adapters :=
     (\<lambda>k. if k = (''code.example'', None)
          then Some (sample_adapter\<lparr>ad_ops := sample_ops\<lparr>fo_diff := (\<lambda>_ _. [])\<rparr>\<rparr>) else None)\<rparr>"

lemma quiet_drift_clips: "ctx_with quiet_bridge ns = Inr c \<Longrightarrow> drift_clips quiet_bridge c"
  by (auto simp: ctx_with_def quiet_bridge_def for_resource_def key_of_def drift_clips_def drift_found_def
      cx_ops_def sample_adapter_def no_hooks_def modified_def Let_def drift_items_def
      split: option.splits if_splits bind_splits)


end
