(* ===== verification/Bridge_Flows.thy ===== *)
theory Bridge_Flows
  imports Bridge_Jobs
begin

text \<open>
  Closing a job with its one result (\<open>vgi-bridge/src/bridge.rs\<close>), and the flows that wait for a person
  (\<open>flows.rs\<close>): namespace binds and account links, each under a single-use \<open>state\<close> that is taken before
  the callback is acted on; and the rotation of Forgejo bot tokens. The registration of a GitHub App
  (the exchange with GitHub) is not modelled. A panic is the value \<open>None\<close>.
\<close>

section \<open>Closing a job\<close>

text \<open>The result of a job: its report, or a minimal one when that does not fit the schema.\<close>

definition result_of :: "gen_lib \<Rightarrow> string \<Rightarrow> report \<Rightarrow> json option" where
  "result_of gen job_id report =
     (case to_result (gl_fits_result gen) job_id report of
        None \<Rightarrow> None
      | Some (Inr v) \<Rightarrow> Some v
      | Some (Inl _) \<Rightarrow>
          (case to_result (gl_fits_result gen) job_id
                  (fail_with ''forgeError'' ''the bridge produced an invalid result'' report_default) of
             Some (Inr v) \<Rightarrow> Some v
           | _ \<Rightarrow> None))"

definition finish_job :: "'f bridge \<Rightarrow> string \<Rightarrow> report \<Rightarrow> ('f, unit option) io" where
  "finish_job br job_id report =
     (case result_of (br_gen br) job_id report of
        None \<Rightarrow> return None
      | Some result \<Rightarrow> do {
          job \<leftarrow> find_rec JOBS job_id;
          payload \<leftarrow> (case job of
              None \<Rightarrow> return result
            | Some j \<Rightarrow> do {
                e \<leftarrow> ext br (jr_namespace j) (map_option (\<lambda>(r, i). (host r, i)) (rp_repo report));
                return (attach (gl_fits_result (br_gen br)) result e)
              });
          at \<leftarrow> clock_now;
          r \<leftarrow> store_finish_job job_id payload at;
          case r of
            Inr True \<Rightarrow> done_some (send_outbox br (result_key job_id))
          | _ \<Rightarrow> return (Some ())
        })"

section \<open>Starting a flow\<close>

definition device_secret :: "string \<Rightarrow> string" where
  "device_secret st = ''pending/'' @ st @ ''/device''"

text \<open>The answer's \<open>next\<close>, or a report when the forge's link does not fit.\<close>

definition next_json :: "gen_lib \<Rightarrow> string \<Rightarrow> string option \<Rightarrow> int \<Rightarrow> report + json" where
  "next_json gen url code expires_at =
     (let v = JObject ([(''url'', JString url), (''expiresAt'', JString (gl_rfc3339 gen expires_at))]
            @ opt_member ''userCode'' JString code)
      in case gl_bad_next gen v of
           None \<Rightarrow> Inr v
         | Some e \<Rightarrow> Inl (fail_with ''forgeError''
             (''the forge'' @ [CHR 0x27] @ ''s link is not a valid `next` ('' @ e @ '')'') report_default))"

definition failed_report :: "forge_error \<Rightarrow> report" where
  "failed_report e = report_fail e report_default"

definition spawn :: "task \<Rightarrow> ('f, unit) io" where
  "spawn t = modify (\<lambda>w. w\<lparr>spawned := spawned w @ [t]\<rparr>)"

definition or_report :: "('s, 'e + 'a) state \<Rightarrow> ('e \<Rightarrow> report) \<Rightarrow> ('s, report + 'a) state" where
  "or_report m f = do { r \<leftarrow> m; return (case r of Inl e \<Rightarrow> Inl (f e) | Inr a \<Rightarrow> Inr a) }"

definition new_state :: "'f bridge \<Rightarrow> ('f, string) io" where
  "new_state br = draw (dl_state (br_doc br))"

definition begin_bind :: "'f bridge \<Rightarrow> string \<Rightarrow> string \<Rightarrow> bind_target \<Rightarrow> int \<Rightarrow> ('f, report + json) io" where
  "begin_bind br job_id ns_id target expires_at =
     (case resource_namespace_of (bt_forge target) (bt_owner target) of
        Inl e \<Rightarrow> return (Inl (failed_report e))
      | Inr r \<Rightarrow>
          (case for_resource br r of
             None \<Rightarrow> return (Inl (failed_report (NotBound (as_str r))))
           | Some a \<Rightarrow> do {
               _ \<leftarrow> put_new NAMESPACES ns_id (namespace_pending ns_id r);
               st \<leftarrow> new_state br;
               ok_then (or_report (on_forge (fo_begin_bind (ad_ops a) \<lparr>bq_namespace = r, bq_state = st\<rparr>)) failed_report)
                 (\<lambda>step. case step of BindRedirect url \<Rightarrow>
                   ok_then (or_report (put_rec PENDING st (FlowBind job_id ns_id r expires_at))
                       (\<lambda>e. failed_report (Unavailable e)))
                     (\<lambda>_. return (next_json (br_gen br) url None expires_at)))
             }))"

definition begin_link ::
    "'f bridge \<Rightarrow> string \<Rightarrow> string \<Rightarrow> string \<Rightarrow> int \<Rightarrow> ('f, report + json) io" where
  "begin_link br job_id ns_id member expires_at =
     ok_then (or_report (ctx_load br ns_id) (\<lambda>m. fail_with ''notCapable'' m report_default)) (\<lambda>c.
     ok_then (or_report (on_forge (fo_begin_link (cx_ops c) member)) failed_report) (\<lambda>step.
       case step of
         LinkDeviceCode device_code user_code uri expires_in interval \<Rightarrow> do {
           st \<leftarrow> new_state br;
           now \<leftarrow> clock_now;
           let expires_at = now + as_i64 expires_in;
           ok_then (return (next_json (br_gen br) uri (Some user_code) expires_at)) (\<lambda>n.
           ok_then (or_report (put_secret (device_secret st) device_code) (\<lambda>e. failed_report (Unavailable e))) (\<lambda>_.
           ok_then (or_report (put_rec PENDING st (FlowLink job_id ns_id (cx_host c) member expires_at
                   (Some \<lparr>dp_interval = interval, dp_expires_in = expires_in\<rparr>)))
               (\<lambda>e. failed_report (Unavailable e)))
             (\<lambda>_. do { _ \<leftarrow> spawn (PollDevice st); return (Inr n) })))
         }
       | LinkRedirect url \<Rightarrow>
           (case gl_link_state (br_gen br) url of
              None \<Rightarrow> return (Inl (failed_report (Protocol ''link URL carries no state'')))
            | Some st \<Rightarrow>
                ok_then (return (next_json (br_gen br) url None expires_at)) (\<lambda>n.
                ok_then (or_report (put_rec PENDING st (FlowLink job_id ns_id (cx_host c) member expires_at None))
                    (\<lambda>e. failed_report (Unavailable e)))
                  (\<lambda>_. return (Inr n))))))"

text \<open>\<open>None\<close>: the \<open>expect\<close>s and the \<open>unreachable!\<close>.\<close>

definition begin_flow :: "'f bridge \<Rightarrow> job_payload \<Rightarrow> ('f, (report + json) option) io" where
  "begin_flow br p = do {
     now \<leftarrow> clock_now;
     let expires_at = now + as_i64 (bc_flow_ttl_secs (br_cfg br));
     case (jp_kind p, jp_target p, jp_subject p) of
       (BeginBind, Some target, _) \<Rightarrow> done_some (begin_bind br (jp_job_id p) (jp_namespace p) target expires_at)
     | (BeginAccountLink, _, Some member) \<Rightarrow>
         done_some (begin_link br (jp_job_id p) (jp_namespace p) member expires_at)
     | _ \<Rightarrow> return None
   }"

section \<open>Taking a flow\<close>

definition take_flow :: "string \<Rightarrow> ('f, string + pending_flow) io" where
  "take_flow st =
     ok_then (update_rec PENDING st (\<lambda>f. (None, f))) (\<lambda>f. case f of
       None \<Rightarrow> return (Inl ''this link is unknown, used, or expired'')
     | Some f \<Rightarrow> do {
         now \<leftarrow> clock_now;
         return (if fl_expires f < now then Inl ''this link has expired; start again'' else Inr f)
       })"

definition state_param :: "(string \<times> string) list \<Rightarrow> string" where
  "state_param params = unwrap_or (map_of params ''state'') []"

text \<open>The route a bind came back on: a GitHub App's names its owner.\<close>

definition check_route :: "'f bridge \<Rightarrow> string \<Rightarrow> string option \<Rightarrow> resource \<Rightarrow> string + unit" where
  "check_route br h route_owner r =
     (if host r \<noteq> h then Inl ''this bind was started for another forge''
      else case route_owner of
        Some x \<Rightarrow>
          if (case github_for (br_cfg br) h (owner r) of
                None \<Rightarrow> False | Some g \<Rightarrow> eq_ignore_ascii_case (gc_app_owner g) x)
          then Inr () else Inl ''this bind was started for another organisation's App''
      | None \<Rightarrow>
          if list_ex (\<lambda>g. gc_host g = h) (bc_github (br_cfg br))
          then Inl ''a GitHub bind completes on its App's own route'' else Inr ())"

text \<open>The record of a namespace whose bind completed.\<close>

definition bound_record ::
    "'f adapter \<Rightarrow> namespace_binding \<Rightarrow> namespace_record \<Rightarrow> 'f \<Rightarrow> namespace_record" where
  "bound_record a b rec f =
     rec\<lparr>nr_state := NsBound,
         nr_required_workflow := map_option required_workflow (nb_capabilities b),
         nr_capabilities := Some (unwrap_or (nb_capabilities b) (fo_capabilities (ad_ops a) (nb_namespace b) f)),
         nr_binding := Some b,
         nr_bridge_checks := (case ad_github a of None \<Rightarrow> nr_bridge_checks rec
            | Some g \<Rightarrow> gh_checks_ready g (nr_resource rec) f)\<rparr>"

definition bind_completed_json :: "string \<Rightarrow> namespace \<Rightarrow> string list \<Rightarrow> json" where
  "bind_completed_json job_id ns superseded =
     JObject ([(''type'', JString ''bindCompleted''), (''jobId'', JString job_id),
        (''ownerId'', JString (case ns_owner_id ns of None \<Rightarrow> [] | Some i \<Rightarrow> show_word i)),
        (''kind'', JString (if ns_kind ns = User then ''user'' else ''organization''))]
      @ (if superseded = [] then [] else [(''supersedes'', JArray (map JString superseded))]))"

fun report_moved :: "'f bridge \<Rightarrow> string \<Rightarrow> repo_record list \<Rightarrow> ('f, string + unit) io" where
  "report_moved br ns [] = return (Inr ())"
| "report_moved br ns (r # rest) =
     (if rr_archived r \<or> is_namespace_repo (rr_resource r) then report_moved br ns rest
      else ok_then (send_event br ns (created_unmanaged_json (rr_forge_id r) (rr_resource r)) None)
             (\<lambda>_. report_moved br ns rest))"

definition permissions_report :: "namespace_binding \<Rightarrow> report" where
  "permissions_report b =
     (if nb_missing_permissions b = [] then report_default
      else report_step ''permissions'' StUnchanged
        (Some (''the installation lacks: '' @ join '', '' (nb_missing_permissions b))) report_default)"

definition error_text :: "forge_error + 'a \<Rightarrow> string + 'a" where
  "error_text r = (case r of Inl e \<Rightarrow> Inl (forge_error_display e) | Inr a \<Rightarrow> Inr a)"

text \<open>What follows a bind the forge completed; the inner result is the \<open>?\<close> of the code.\<close>

definition after_bind ::
    "'f bridge \<Rightarrow> 'f adapter \<Rightarrow> string \<Rightarrow> string \<Rightarrow> resource \<Rightarrow> namespace_binding \<Rightarrow> ('f, string + unit) io" where
  "after_bind br a job_id ns r b = do {
     existing \<leftarrow> find_rec NAMESPACES ns;
     record \<leftarrow> ask_forge (bound_record a b (unwrap_or existing (namespace_pending ns r)));
     ok_then (supersede record) (\<lambda>(record, superseded, moved).
     ok_then (put_rec NAMESPACES ns record) (\<lambda>_.
     ok_then (do { r \<leftarrow> adapter_restore a record; return (error_text r) }) (\<lambda>_.
     ok_then (send_event br ns (bind_completed_json job_id (nb_namespace b) superseded) None) (\<lambda>_. do {
       _ \<leftarrow> started_serving br ns;
       report_moved br ns moved
     }))))
   }"

definition bind_taken ::
    "'f bridge \<Rightarrow> (string \<times> string) list \<Rightarrow> string \<Rightarrow> string \<Rightarrow> string \<Rightarrow> resource
       \<Rightarrow> ('f, (string + string) option) io" where
  "bind_taken br params st job_id ns r =
     (case for_resource br r of
        None \<Rightarrow> return (Some (Inl ''that forge's adapter is not in service''))
      | Some a \<Rightarrow> do {
          answer \<leftarrow> on_forge (fo_complete_bind (ad_ops a)
            \<lparr>bb_params = params, bb_expected_state = st, bb_expected_namespace = r\<rparr>);
          case answer of
            Inr b \<Rightarrow> do {
              r \<leftarrow> after_bind br a job_id ns r b;
              case r of
                Inl e \<Rightarrow> return (Some (Inl e))
              | Inr _ \<Rightarrow> some_then (finish_job br job_id (permissions_report b))
                  (\<lambda>_. return (Some (Inr ''The namespace is bound. You can close this window.'')))
            }
          | Inl e \<Rightarrow> some_then (finish_job br job_id (failed_report e))
              (\<lambda>_. return (Some (Inl (''the bind did not complete: '' @ forge_error_display e))))
        })"

definition bind_callback_flow ::
    "'f bridge \<Rightarrow> string \<Rightarrow> string option \<Rightarrow> (string \<times> string) list \<Rightarrow> ('f, (string + string) option) io" where
  "bind_callback_flow br h route_owner params = do {
     let st = state_param params;
     flow \<leftarrow> take_flow st;
     case flow of
       Inl e \<Rightarrow> return (Some (Inl e))
     | Inr (FlowBind job_id ns r _) \<Rightarrow>
         (case check_route br h route_owner r of
            Inl e \<Rightarrow> return (Some (Inl e))
          | Inr _ \<Rightarrow> bind_taken br params st job_id ns r)
     | Inr _ \<Rightarrow> return (Some (Inl ''this link is not a namespace bind''))
   }"

section \<open>Completing an account link\<close>

definition link_failed_report :: "forge_error \<Rightarrow> report" where
  "link_failed_report e =
     (case e of
        LinkFailed m \<Rightarrow> if contains_sub ''expired'' m then fail_with ''expired'' m report_default else failed_report e
      | _ \<Rightarrow> failed_report e)"

definition complete_link ::
    "'f bridge \<Rightarrow> string \<Rightarrow> string \<Rightarrow> string \<Rightarrow> forge_error + forge_account \<Rightarrow> ('f, (string + unit) option) io" where
  "complete_link br job_id ns h answer =
     (case answer of
        Inr account \<Rightarrow>
          (case wire_account h account of
             None \<Rightarrow> return None
           | Some acc \<Rightarrow> do {
               r \<leftarrow> send_event br ns (JObject [(''type'', JString ''accountLinked''),
                      (''jobId'', JString job_id), (''account'', acc)]) None;
               case r of
                 Inl e \<Rightarrow> return (Some (Inl e))
               | Inr _ \<Rightarrow> some_then (finish_job br job_id report_default) (\<lambda>_. return (Some (Inr ())))
             })
      | Inl e \<Rightarrow> some_then (finish_job br job_id (link_failed_report e))
          (\<lambda>_. return (Some (Inl (''the link did not complete: '' @ forge_error_display e)))))"

definition link_adapter :: "'f bridge \<Rightarrow> string \<Rightarrow> string \<Rightarrow> ('f, string + 'f adapter) io" where
  "link_adapter br ns_id h =
     ok_then (get_rec NAMESPACES ns_id) (\<lambda>ns. return (case ns of
         None \<Rightarrow> Inl ''the link's namespace is not known to this bridge''
       | Some ns \<Rightarrow>
           if host (nr_resource ns) \<noteq> h then Inl ''the link's namespace is on another forge''
           else (case for_resource br (nr_resource ns) of
               None \<Rightarrow> Inl ''that forge's adapter is not in service'' | Some a \<Rightarrow> Inr a)))"

definition link_callback_flow ::
    "'f bridge \<Rightarrow> string \<Rightarrow> (string \<times> string) list \<Rightarrow> ('f, (string + string) option) io" where
  "link_callback_flow br h params = do {
     flow \<leftarrow> take_flow (state_param params);
     case flow of
       Inl e \<Rightarrow> return (Some (Inl e))
     | Inr (FlowLink job_id ns flow_host member _ None) \<Rightarrow>
         if flow_host \<noteq> h then return (Some (Inl ''this link was started for another forge''))
         else do {
           a \<leftarrow> link_adapter br ns h;
           case a of
             Inl e \<Rightarrow> return (Some (Inl e))
           | Inr a \<Rightarrow> do {
               answer \<leftarrow> on_forge (fo_complete_link (ad_ops a) (LinkCbRedirect params (Some member)));
               some_then (complete_link br job_id ns h answer) (\<lambda>r. return (Some (case r of
                   Inl e \<Rightarrow> Inl e | Inr _ \<Rightarrow> Inr ''Your account is linked. You can close this window.'')))
             }
         }
     | Inr _ \<Rightarrow> return (Some (Inl ''this link is not an account link''))
   }"

text \<open>One device flow polled to its end; the flow and its secret are used up whatever the outcome.\<close>

definition poll_link ::
    "'f bridge \<Rightarrow> string \<Rightarrow> string \<Rightarrow> string \<Rightarrow> string \<Rightarrow> int \<Rightarrow> device_poll \<Rightarrow> ('f, (string + unit) option) io" where
  "poll_link br st job_id ns h expires_at poll = do {
     s \<leftarrow> get_secret_string (device_secret st);
     case s of
       Inl e \<Rightarrow> return (Some (Inl e))
     | Inr None \<Rightarrow> return (Some (Inl ''the device code is gone''))
     | Inr (Some device_code) \<Rightarrow> do {
         a \<leftarrow> link_adapter br ns h;
         case a of
           Inl e \<Rightarrow> return (Some (Inl e))
         | Inr a \<Rightarrow> do {
             now \<leftarrow> clock_now;
             let remaining = (of_int (max 0 (expires_at - now)) :: u64);
             answer \<leftarrow> on_forge (fo_complete_link (ad_ops a)
               (LinkCbDeviceCode device_code (dp_interval poll) (min remaining (dp_expires_in poll))));
             cleared \<leftarrow> ok_then (delete_rec PENDING st) (\<lambda>_. delete_secret (device_secret st));
             case cleared of
               Inl e \<Rightarrow> return (Some (Inl e))
             | Inr _ \<Rightarrow> complete_link br job_id ns h answer
           }
       }
   }"

definition poll_device :: "'f bridge \<Rightarrow> string \<Rightarrow> ('f, (string + unit) option) io" where
  "poll_device br st = do {
     flow \<leftarrow> get_rec PENDING st;
     case flow of
       Inl e \<Rightarrow> return (Some (Inl e))
     | Inr (Some (FlowLink job_id ns h _ expires_at (Some poll))) \<Rightarrow> poll_link br st job_id ns h expires_at poll
     | Inr _ \<Rightarrow> return (Some (Inr ()))
   }"

definition is_device_link :: "pending_flow \<Rightarrow> bool" where
  "is_device_link f \<longleftrightarrow> (case f of FlowLink _ _ _ _ _ d \<Rightarrow> d \<noteq> None | _ \<Rightarrow> False)"

definition resume_device_polls :: "('f, string + unit) io" where
  "resume_device_polls = ok_then (list_rec PENDING) (\<lambda>flows. do {
     now \<leftarrow> clock_now;
     _ \<leftarrow> for_each flows (\<lambda>(st, f).
       if is_device_link f \<and> fl_expires f > now then spawn (PollDevice st) else return ());
     return (Inr ())
   })"

section \<open>Expiry\<close>

definition expire_one :: "'f bridge \<Rightarrow> string \<Rightarrow> pending_flow \<Rightarrow> ('f, unit option) io" where
  "expire_one br st f = do {
     _ \<leftarrow> delete_rec PENDING st;
     _ \<leftarrow> delete_secret (device_secret st);
     case flow_job_id f of
       None \<Rightarrow> return (Some ())
     | Some job_id \<Rightarrow> do {
         job \<leftarrow> find_rec JOBS job_id;
         if (case job of None \<Rightarrow> False | Some j \<Rightarrow> jr_state j = Waiting)
         then finish_job br job_id (fail_with ''expired'' ''nobody completed it in time'' report_default)
         else return (Some ())
       }
   }"

definition expire :: "'f bridge \<Rightarrow> ('f, unit option) io" where
  "expire br = do {
     flows \<leftarrow> list_or_empty PENDING;
     now \<leftarrow> clock_now;
     each_some flows (\<lambda>(st, f).
       if now \<le> fl_expires f + (if is_device_link f then 60 else 0) then return (Some ())
       else expire_one br st f)
   }"

section \<open>Pages\<close>

definition same_owner :: "string \<Rightarrow> string option \<Rightarrow> bool" where
  "same_owner route flow \<longleftrightarrow> (case flow of None \<Rightarrow> False | Some f \<Rightarrow> eq_ignore_ascii_case route f)"

definition registration_entry :: "'f bridge \<Rightarrow> string \<Rightarrow> string \<Rightarrow> string + github_config" where
  "registration_entry br h ow =
     (case github_for (br_cfg br) h ow of
        Some g \<Rightarrow> Inr g
      | None \<Rightarrow> Inl (''no `[[github]]` entry for `'' @ ow @ ''` on `'' @ h @ ''`''))"

definition html_escape :: "string \<Rightarrow> string" where
  "html_escape s = concat (map (\<lambda>c.
     if c = CHR ''&'' then ''&amp;'' else if c = CHR ''<'' then ''&lt;'' else if c = CHR ''>'' then ''&gt;''
     else if c = CHR 0x22 then ''&quot;'' else if c = CHR 0x27 then ''&#39;'' else [c]) s)"

definition app_registered_line :: "string \<Rightarrow> string \<Rightarrow> string \<Rightarrow> u64 \<Rightarrow> string \<Rightarrow> string" where
  "app_registered_line slug ow h app_id settings =
     ''the GitHub App `'' @ slug @ ''` is registered for `'' @ ow @ ''` on '' @ h @ '' and in service (app_id ''
     @ show_word app_id @ ''); enable Device Flow at '' @ settings"

section \<open>Rotating a Forgejo bot's token\<close>

definition forgejo_secret :: "string \<Rightarrow> string \<Rightarrow> string" where
  "forgejo_secret h what = ''forgejo/'' @ h @ ''/'' @ what"

text \<open>Once the new token is in use: store it, note the time, and only then retire the old one.\<close>

definition keep_minted ::
    "'f forgejo_ops \<Rightarrow> string \<Rightarrow> string \<Rightarrow> minted_token \<Rightarrow> ('f, unit) io" where
  "keep_minted fj h key m = do {
     stored \<leftarrow> put_secret (forgejo_secret h ''bot-token'') (mt_secret m);
     case stored of
       Inl _ \<Rightarrow> return ()
     | Inr _ \<Rightarrow> do {
         at \<leftarrow> clock_now;
         _ \<leftarrow> put_rec ROTATIONS key at;
         flushed \<leftarrow> store_flush;
         if \<not> flushed then return ()
         else (case mt_previous m of
             None \<Rightarrow> return ()
           | Some old \<Rightarrow> do { _ \<leftarrow> on_forge (fj_retire_token fj old); return () })
       }
   }"

text \<open>The first run starts the clock; the days of the configuration are multiplied in 64 bits.\<close>

definition rotate_host :: "'f bridge \<Rightarrow> u64 \<Rightarrow> string \<Rightarrow> ('f, unit) io" where
  "rotate_host br days h = do {
     let key = ''forgejo/'' @ h @ ''/rotated-at'';
     rotated \<leftarrow> find_rec ROTATIONS key;
     now \<leftarrow> clock_now;
     let since = unwrap_or rotated 0;
     if since = 0 then do { _ \<leftarrow> put_rec ROTATIONS key now; return () }
     else if now - since < as_i64 (days * 86400) then return ()
     else (case Option.bind (get_forgejo br h) ad_forgejo of
         None \<Rightarrow> return ()
       | Some fj \<Rightarrow> do {
           minted \<leftarrow> on_forge (fj_mint_token fj);
           case minted of
             Inl _ \<Rightarrow> return ()
           | Inr m \<Rightarrow> keep_minted fj h key m
         })
   }"

definition rotate_forgejo_tokens :: "'f bridge \<Rightarrow> ('f, unit) io" where
  "rotate_forgejo_tokens br = for_each (bc_forgejo (br_cfg br)) (\<lambda>f.
     case (fc_rotate_token_days f, forgejo_host f) of
       (Some days, Inr h) \<Rightarrow> rotate_host br days h
     | _ \<Rightarrow> return ())"

text \<open>
  The old token outlives the new one's arrival in the store: the last step of a rotation acts on
  the forge only when the new secret was stored and every change reached the mirror.
\<close>

lemma old_token_kept:
  assumes "run_state (keep_minted fj h key m) w = (u, w')" and "forge_state w' \<noteq> forge_state w"
  shows "\<exists>old. mt_previous m = Some old
    \<and> map_of (secrets (db w')) (forgejo_secret h ''bot-token'') = Some (mt_secret m)
    \<and> flush_faults w' = tl (flush_faults w) \<and> \<not> (\<exists>rest. flush_faults w = True # rest)"
  using assms
  by (auto simp: keep_minted_def put_secret_def put_rec_def txn_def SECRETS_def ROTATIONS_def store_flush_def
      clock_now_def run_on_forge map_of_tab_put split: list.splits bool.splits option.splits prod.splits)

end
