(* ===== verification/Bridge_Later.thy ===== *)
theory Bridge_Later
  imports Bridge_Jobs
begin

text \<open>
  Between the start and the end of a job the clock stands still, coming failures are only used up,
  what the link carried stays carried and nothing is spawned: the relation \<open>later\<close> of
  \<open>Bridge_Outbox\<close> for the operations of a job, so that a run with no failure to come meets none.
\<close>

lemma later_ask [keeps_rules]: "keeps (later w) (ask_forge q)"
  by (rule keeps_ask_forge)

lemma later_events [keeps_rules]:
  "keeps (later w) (send_event_keyed br i ev drift key)" "keeps (later w) (send_event br i ev drift)"
  "keeps (later w) (report_event br i ev)"
  unfolding send_event_keyed_def send_event_def report_event_def new_id_def by (intro keeps_rules)+

lemma later_ctx [keeps_rules]:
  "keeps (later w) (bound_namespace br i)" "keeps (later w) (ctx_load br i)"
  "keeps (later w) (repo_record_by_resource r)"
  unfolding bound_namespace_def ctx_load_def repo_record_by_resource_def by (intro keeps_rules)+

lemma later_answers [keeps_rules]:
  "keeps (later w) (send_error br req e)" "keeps (later w) (respond br req p)"
  unfolding send_error_def respond_def by (intro keeps_rules)+

lemma later_update_expected [keeps_rules]: "keeps (later w) (update_expected t k f)"
  unfolding update_expected_def by (intro keeps_rules)

lemma later_probe [keeps_rules]: "keeps (later w) (probe_bridge_checks br i)"
  unfolding probe_bridge_checks_def by (intro keeps_rules)

lemma later_detach [keeps_rules]:
  "keeps (later w) (detach br h i)" "keeps (later w) (detach_from br ns i)"
  "keeps (later w) (detach_reused_name br n r i)" "keeps (later w) (namespace_in s r)"
  "keeps (later w) (report_unmanaged br ns r i)" "keeps (later w) (transferred_out br ns a b i)"
proof -
  have "keeps (later w) (unmanage br i key ns)" for key ns i
    unfolding unmanage_def tell_managed_def by (intro keeps_rules)
  then show d: "keeps (later w) (detach br h i)" for h i
    unfolding detach_def by (intro keeps_rules)
  then show f: "keeps (later w) (detach_from br ns i)" for ns
    unfolding detach_from_def claimed_elsewhere_def Let_def by (intro keeps_rules)
  from d show n: "keeps (later w) (detach_reused_name br n r i)" for n r
    unfolding detach_reused_name_def Let_def by (intro keeps_rules)
  show "keeps (later w) (namespace_in s r)" for s r
    unfolding namespace_in_def by (intro keeps_rules)
  show "keeps (later w) (report_unmanaged br ns r i)" for ns r
    unfolding report_unmanaged_def repo_in_def by (intro keeps_rules n)
  then show "keeps (later w) (transferred_out br ns a b i)"
    unfolding transferred_out_def namespace_in_def by (intro keeps_rules f)
qed

lemma later_close [keeps_rules]: "keeps (later w) (close_pull_request br c repo p at report)"
  unfolding close_pull_request_def comment_step_def forbidden_reprobe_def Let_def
  by (auto intro!: keeps_rules split: option.split sum.split bool.split)

lemma later_roles [keeps_rules]:
  "keeps (later w) (upsert_repo h ns repo i f)" "keeps (later w) (apply_roles br c repo j desired owners rem report)"
  "keeps (later w) (project_roles br c repo roles remove report)"
proof -
  show u: "keeps (later w) (upsert_repo h ns repo i f)" for h ns repo i f
    unfolding upsert_repo_def by (intro keeps_rules)
  have "keeps (later w) (remaining_access c repo accounts applied)" for accounts applied
    by (induction accounts) (auto simp: Let_def intro!: keeps_rules)
  then show a: "keeps (later w) (apply_roles br c repo j desired owners rem report)" for j desired owners rem report
    unfolding apply_roles_def Let_def
    by (auto intro!: keeps_rules u split: hook_decision.split option.split sum.split)
  show "keeps (later w) (project_roles br c repo roles remove report)"
    unfolding project_roles_def forge_id_of_def by (intro keeps_rules a)
qed

lemma later_guard [keeps_rules]:
  "keeps (later w) (manage c st owners)" "keeps (later w) (persist_adapter_state c)"
  "keeps (later w) (capability_changed c cap a)" "keeps (later w) (refresh_guard br c report)"
  unfolding manage_def persist_adapter_state_def capability_changed_def refresh_guard_def record_guard_def Let_def
  by (auto intro!: keeps_rules split: option.split sum.split)

lemma later_bootstrap [keeps_rules]: "keeps (later w) (run_bootstrap br c spec extra only report)"
proof -
  have h: "keeps (later w) (hook_steps c repo steps r)" for repo steps r
    by (induction steps arbitrary: r) (auto intro!: keeps_rules split: sum.split)
  have p: "keeps (later w) (plan_steps c repo first steps did fail r)" for repo first steps did fail r
    by (induction steps arbitrary: did fail r) (auto intro!: keeps_rules)
  have "keeps (later w) (after_plan c vgi repo pe did r)" for vgi repo pe did r
    unfolding after_plan_def by (auto intro!: keeps_rules h split: hook_decision.split)
  then have "keeps (later w) (bootstrap_attempt c vgi spec extra only first before r)" for vgi first before r
    unfolding bootstrap_attempt_def by (intro keeps_rules p)
  then show ?thesis
    unfolding run_bootstrap_def Let_def by (intro keeps_rules)
qed

lemma later_repo_jobs [keeps_rules]:
  "keeps (later w) (create_repo br c repo p report)" "keeps (later w) (bootstrap br c repo only report)"
  "keeps (later w) (archive c repo report)"
proof -
  have "keeps (later w) (create_step c repo spec r)" for spec r
    unfolding create_step_def by (auto intro!: keeps_rules split: forge_error.split option.split sum.split)
  moreover have "keeps (later w) (set_up_repo br c spec st desired owners r)" for spec st desired owners r
    unfolding set_up_repo_def Let_def by (auto intro!: keeps_rules split: hook_decision.split)
  ultimately show "keeps (later w) (create_repo br c repo p report)"
    unfolding create_repo_def Let_def
    by (auto intro!: keeps_rules split: hook_decision.split option.split sum.split)
  show "keeps (later w) (bootstrap br c repo only report)" "keeps (later w) (archive c repo report)"
    unfolding bootstrap_def archive_def Let_def by (intro keeps_rules)+
qed

lemma later_inspect [keeps_rules]: "keeps (later w) (inspect_repo br c repo always report)"
proof -
  have "keeps (later w) (settle_name br c st rec)" for st rec
    unfolding settle_name_def by (intro keeps_rules)
  moreover have "keeps (later w) (report_drift br c st rec always r)" for st rec r
    unfolding report_drift_def record_guard_def Let_def by (intro keeps_rules)
  ultimately show ?thesis
    unfolding inspect_repo_def found_outside_def by (intro keeps_rules)
qed

lemma later_sweep [keeps_rules]: "keeps (later w) (sweep br c always report)"
proof -
  have "keeps (later w) (sweep_loop br c always recs failed)" for recs failed
    by (induction recs arbitrary: failed) (auto intro!: keeps_rules)
  then show ?thesis
    unfolding sweep_def by (intro keeps_rules)
qed

lemma later_run_job_payload [keeps_rules]: "keeps (later w) (run_job_payload br p at)"
proof -
  have "keeps (later w) (run_kind br c p repo at report)" for c repo report
    unfolding run_kind_def Let_def
    by (cases "jp_kind p"; cases repo) (auto intro!: keeps_rules)
  then show ?thesis
    unfolding run_job_payload_def by (intro keeps_rules)
qed

end
