(* ===== verification/Bridge_Ledger.thy ===== *)
theory Bridge_Ledger
  imports Bridge_Flows Bridge_Later
begin

text \<open>
  The ledger of jobs (\<open>vgi-bridge/src/bridge.rs\<close>): an inbound document from its check to its answer,
  the admission of a job, its run and its one result. A panic is the value \<open>None\<close>. A handler runs to
  its end before the next one starts: the code may interleave two handlers where one of them waits
  for the network, but never inside a transaction, and holds a lock per namespace while a job runs.
\<close>

section \<open>Answers of the registry\<close>

text \<open>
  The registry's answers to queries in flight (\<open>registry_channel.rs\<close>): each query's document id, and
  the transport it went out on.
\<close>

datatype via = ViaTsp | ViaDidcomm

record inbound_doc =
  in_doc :: json
  in_sender :: "string option"
  in_via :: via

definition route_reply ::
    "string \<Rightarrow> inbound_doc \<Rightarrow> (string \<times> via) list \<Rightarrow> bool \<times> (string \<times> via) list" where
  "route_reply registry_did d waiting =
     (case in_sender d of
        None \<Rightarrow> (False, waiting)
      | Some sender \<Rightarrow>
          if (case split_once ''#'' sender of None \<Rightarrow> sender | Some (did, _) \<Rightarrow> did) \<noteq> registry_did
          then (False, waiting)
          else (case Option.bind (jget ''threadId'' (in_doc d)) as_str_json of
              None \<Rightarrow> (False, waiting)
            | Some thread \<Rightarrow>
                if map_of waiting thread \<noteq> Some (in_via d) then (False, waiting)
                else (True, filter (\<lambda>(i, _). i \<noteq> thread) waiting)))"

section \<open>Admission\<close>

definition is_retired :: "string \<Rightarrow> ('f, bool) io" where
  "is_retired i = or_else (store_is_retired i) False"

definition admit_bind :: "'f bridge \<Rightarrow> string \<Rightarrow> bind_target \<Rightarrow> ('f, error_payload + unit) io" where
  "admit_bind br ns_id target =
     (case resource_namespace_of (bt_forge target) (bt_owner target) of
        Inl e \<Rightarrow> return (Inl (job_refusal br MalformedRequest (forge_error_display e)))
      | Inr r \<Rightarrow>
          if Option.is_none (for_resource br r)
          then return (Inl (not_capable br (''this bridge serves no forge at `'' @ host r @ ''`'')))
          else do {
            existing \<leftarrow> find_rec NAMESPACES ns_id;
            return (case existing of
                None \<Rightarrow> Inr ()
              | Some n \<Rightarrow>
                  if nr_resource n \<noteq> r
                  then Inl (job_refusal br MalformedRequest (''namespace `'' @ ns_id @ ''` is already `''
                    @ as_str (nr_resource n) @ ''`; a namespace id is never reused''))
                  else Inr ())
          })"

text \<open>The repository of the job lies in the namespace.\<close>

definition admit_repo :: "'f bridge \<Rightarrow> string \<Rightarrow> namespace_record \<Rightarrow> string option \<Rightarrow> error_payload + unit" where
  "admit_repo br ns_id ns r =
     (case r of
        None \<Rightarrow> Inr ()
      | Some r \<Rightarrow>
          (case resource_parse r of
             Inl e \<Rightarrow> Inl (job_refusal br MalformedRequest (forge_error_display e))
           | Inr repo \<Rightarrow>
               if \<not> contains_resource (nr_resource ns) repo \<or> is_namespace repo
               then Inl (unknown_namespace br (''`'' @ as_str repo @ ''` is not in namespace `'' @ ns_id
                 @ ''` (`'' @ as_str (nr_resource ns) @ ''`)''))
               else Inr ()))"

definition admit_removals ::
    "'f bridge \<Rightarrow> string \<Rightarrow> namespace_record \<Rightarrow> job_account list \<Rightarrow> error_payload + unit" where
  "admit_removals br ns_id ns accounts =
     (case find (\<lambda>a. ja_forge a \<noteq> host (nr_resource ns)) accounts of
        None \<Rightarrow> Inr ()
      | Some a \<Rightarrow> Inl (job_refusal br MalformedRequest (''`removeAccounts` names account '' @ ja_id a
          @ '' on `'' @ ja_forge a @ ''`; namespace `'' @ ns_id @ ''` is on `''
          @ host (nr_resource ns) @ ''`'')))"

definition admit_kind :: "'f bridge \<Rightarrow> capabilities \<Rightarrow> job_kind \<Rightarrow> error_payload + unit" where
  "admit_kind br caps kind =
     (if kind = BeginAccountLink
      then if account_link caps = NoLink then Inl (not_capable br ''this forge has no account link'')
           else Inr ()
      else if kind = CreateRepo \<and> \<not> bot_can_create_repos caps
      then Inl (not_capable br (''the bridge cannot create repositories in this namespace (a personal ''
             @ ''account, or manual mode); the account holder creates it and the VTC adopts it''))
      else if \<not> automation caps
      then Inl (not_capable br ''this namespace is in manual mode: nothing acts on the forge'')
      else Inr ())"

definition admit_in ::
    "'f bridge \<Rightarrow> job_payload \<Rightarrow> namespace_record \<Rightarrow> ('f, (error_payload + unit) option) io" where
  "admit_in br p ns =
     (case for_resource br (nr_resource ns) of
        None \<Rightarrow> return (Some (Inl (not_capable br (''the adapter for `'' @ host (nr_resource ns)
                  @ ''` is not in service''))))
      | Some a \<Rightarrow>
          (case admit_repo br (jp_namespace p) ns (jp_repo p) of
             Inl e \<Rightarrow> return (Some (Inl e))
           | Inr _ \<Rightarrow>
               (case admit_removals br (jp_namespace p) ns (unwrap_or (jp_remove_accounts p) []) of
                  Inl e \<Rightarrow> return (Some (Inl e))
                | Inr _ \<Rightarrow>
                    (case nr_binding ns of
                       None \<Rightarrow> return None
                     | Some b \<Rightarrow> do {
                         caps \<leftarrow> ask_forge (fo_capabilities (ad_ops a) (nb_namespace b));
                         return (Some (admit_kind br caps (jp_kind p)))
                       }))))"

definition admit :: "'f bridge \<Rightarrow> job_payload \<Rightarrow> ('f, (error_payload + unit) option) io" where
  "admit br p =
     (if jp_kind p = BeginBind
      then do {
        retired \<leftarrow> is_retired (jp_namespace p);
        if retired
        then return (Some (Inl (job_refusal br MalformedRequest (''namespace id `'' @ jp_namespace p
               @ ''` was retired when its owner was bound again; a namespace id is never reused''))))
        else (case jp_target p of None \<Rightarrow> return None | Some t \<Rightarrow> done_some (admit_bind br (jp_namespace p) t))
      }
      else do {
        r \<leftarrow> bound_namespace br (jp_namespace p);
        case r of Inl e \<Rightarrow> return (Some (Inl e)) | Inr ns \<Rightarrow> admit_in br p ns
      })"

section \<open>A job's run\<close>

definition set_running :: "job_record \<Rightarrow> job_record" where
  "set_running r = r\<lparr>jr_state := Running\<rparr>"

definition run_job :: "'f bridge \<Rightarrow> string \<Rightarrow> ('f, (string + unit) option) io" where
  "run_job br job_id = do {
     r \<leftarrow> get_rec JOBS job_id;
     case r of
       Inl e \<Rightarrow> return (Some (Inl e))
     | Inr None \<Rightarrow> return (Some (Inl ''the job is not in the ledger''))
     | Inr (Some rec) \<Rightarrow>
         if jr_state rec = Finished then return (Some (Inr ()))
         else (case jr_payload rec of
             None \<Rightarrow> return (Some (Inl ''the job's payload is gone''))
           | Some v \<Rightarrow>
               (case gl_parse_job (br_gen br) v of
                  Inl e \<Rightarrow> return (Some (Inl e))
                | Inr p \<Rightarrow> do {
                    r \<leftarrow> map_rec JOBS job_id set_running;
                    case r of
                      Inl e \<Rightarrow> return (Some (Inl e))
                    | Inr _ \<Rightarrow>
                        some_then (run_job_payload br p (jr_issued_at rec)) (\<lambda>report.
                        some_then (finish_job br job_id report) (\<lambda>_. return (Some (Inr ()))))
                  }))
   }"

text \<open>The spawned task: a job that could not be run is reported as failed.\<close>

definition run_spawned_job :: "'f bridge \<Rightarrow> string \<Rightarrow> ('f, unit option) io" where
  "run_spawned_job br job_id =
     some_then (run_job br job_id) (\<lambda>r. case r of
         Inr _ \<Rightarrow> return (Some ())
       | Inl e \<Rightarrow> finish_job br job_id
           (fail_with ''forgeError'' (''the bridge could not run the job: '' @ e) report_default))"

section \<open>An inbound job\<close>

definition accepted_json :: "string \<Rightarrow> bool \<Rightarrow> json option \<Rightarrow> json" where
  "accepted_json job_id accepted n =
     JObject ([(''jobId'', JString job_id), (''accepted'', JBool accepted)] @ opt_member ''next'' id n)"

definition malformed :: "'f bridge \<Rightarrow> string \<Rightarrow> error_payload" where
  "malformed br msg = job_refusal br MalformedRequest msg"

definition unavailable :: "'f bridge \<Rightarrow> string \<Rightarrow> error_payload" where
  "unavailable br msg = job_refusal br UnavailableCode msg"

text \<open>A job the ledger holds is answered from it, and never run again.\<close>

definition answer_known :: "'f bridge \<Rightarrow> trust_task \<Rightarrow> string \<Rightarrow> string \<Rightarrow> job_record \<Rightarrow> ('f, unit) io" where
  "answer_known br doc job_id digest existing =
     (if jr_digest existing \<noteq> digest
      then send_error br doc (with_message
             ''this bridge already holds a job with this jobId and other content''
             (declared_error (gl_job_id_reused (br_gen br))))
      else do {
        let finished = (jr_state existing = Finished);
        _ \<leftarrow> respond br doc (accepted_json job_id (\<not> finished) (if finished then None else jr_next existing));
        if finished then do {
          _ \<leftarrow> (case jr_result existing of
              None \<Rightarrow> return ()
            | Some result \<Rightarrow> do {
                _ \<leftarrow> put_new OUTBOX (result_key job_id) (outbox_new OkResult result);
                return ()
              });
          send_outbox br (result_key job_id)
        }
        else return ()
      })"

definition set_waiting :: "json \<Rightarrow> job_record \<Rightarrow> job_record" where
  "set_waiting n r = r\<lparr>jr_state := Waiting, jr_next := Some n\<rparr>"

text \<open>A recorded job: its flow begins, or its run is spawned.\<close>

definition start_job :: "'f bridge \<Rightarrow> trust_task \<Rightarrow> job_payload \<Rightarrow> ('f, unit option) io" where
  "start_job br doc p =
     (if jp_kind p = BeginBind \<or> jp_kind p = BeginAccountLink
      then some_then (begin_flow br p) (\<lambda>r. case r of
          Inr n \<Rightarrow> done_some (do {
            _ \<leftarrow> map_rec JOBS (jp_job_id p) (set_waiting n);
            respond br doc (accepted_json (jp_job_id p) True (Some n))
          })
        | Inl report \<Rightarrow> do {
            _ \<leftarrow> respond br doc (accepted_json (jp_job_id p) True None);
            finish_job br (jp_job_id p) report
          })
      else done_some (do {
        _ \<leftarrow> respond br doc (accepted_json (jp_job_id p) True None);
        spawn (RunJob (jp_job_id p))
      }))"

definition new_job :: "'f bridge \<Rightarrow> trust_task \<Rightarrow> job_payload \<Rightarrow> int \<Rightarrow> job_record" where
  "new_job br doc p now =
     (job_queued (jp_job_id p) (gl_digest (br_gen br) (tt_payload doc)) (jp_namespace p)
        (job_kind_str (jp_kind p)) (tt_payload doc) now)\<lparr>jr_issued_at := tt_issued_at doc\<rparr>"

definition serve_again :: "'f bridge \<Rightarrow> bool \<Rightarrow> string \<Rightarrow> ('f, unit) io" where
  "serve_again br revived ns_id = (if revived then started_serving br ns_id else return ())"

text \<open>A job the ledger does not hold: admitted, recorded, and only then accepted.\<close>

definition take_job :: "'f bridge \<Rightarrow> trust_task \<Rightarrow> job_payload \<Rightarrow> ('f, unit option) io" where
  "take_job br doc p = do {
     revived \<leftarrow> unorphan (jp_namespace p);
     some_then (admit br p) (\<lambda>r. case r of
         Inl err \<Rightarrow> done_some (do {
           _ \<leftarrow> send_error br doc err;
           serve_again br revived (jp_namespace p)
         })
       | Inr _ \<Rightarrow> do {
           at \<leftarrow> clock_now;
           recorded \<leftarrow> put_new JOBS (jp_job_id p) (new_job br doc p at);
           case recorded of
             Inl _ \<Rightarrow> done_some (send_error br doc (unavailable br ''the bridge could not record the job''))
           | Inr False \<Rightarrow> return (Some ())
           | Inr True \<Rightarrow> some_then (start_job br doc p) (\<lambda>_.
               done_some (serve_again br revived (jp_namespace p)))
         })
   }"

definition parse_job :: "'f bridge \<Rightarrow> json \<Rightarrow> string + job_payload" where
  "parse_job br v =
     (case gl_parse_job (br_gen br) v of Inl e \<Rightarrow> Inl (''job payload: '' @ e) | Inr p \<Rightarrow> Inr p)"

definition on_job :: "'f bridge \<Rightarrow> trust_task \<Rightarrow> ('f, unit option) io" where
  "on_job br doc =
     (case parse_job br (tt_payload doc) of
        Inl e \<Rightarrow> done_some (send_error br doc (malformed br e))
      | Inr p \<Rightarrow>
          (case check_kind_members p of
             Inl msg \<Rightarrow> done_some (send_error br doc (malformed br msg))
           | Inr _ \<Rightarrow> do {
               known \<leftarrow> get_rec JOBS (jp_job_id p);
               case known of
                 Inr (Some existing) \<Rightarrow>
                   done_some (answer_known br doc (jp_job_id p) (gl_digest (br_gen br) (tt_payload doc)) existing)
               | Inr None \<Rightarrow> take_job br doc p
               | Inl _ \<Rightarrow> done_some (send_error br doc (unavailable br ''the bridge's store is unavailable''))
             }))"

section \<open>An inbound document\<close>

definition discovery_patterns :: "json \<Rightarrow> string list" where
  "discovery_patterns payload = List.map_filter as_str_json (elements (jget ''patterns'' payload))"

definition on_verified :: "'f bridge \<Rightarrow> trust_task \<Rightarrow> ('f, unit option) io" where
  "on_verified br doc =
     (let ty = tt_type doc
      in if is_job_type ty then on_job br doc
         else done_some
           (if is_other_job_version ty
            then send_error br doc (job_refusal br UnsupportedVersion
                   ''this bridge takes git-ns/bridge/job 0.7 only'')
            else if is_discovery_type ty
            then respond br doc (discovery_answer (discovery_patterns (tt_payload doc)))
            else if is_result_response_type ty then on_result_ack br doc
            else if is_event_response_type ty then on_event_ack doc
            else if uri_slug (br_tt br) ty = ''trust-task-error'' then on_error_response br doc
            else if \<not> is_response (br_tt br) ty
            then send_error br doc (job_refusal br UnsupportedType
                   ''this bridge handles git-ns/bridge/job only'')
            else return ()))"

definition bridge_checker :: "'f bridge \<Rightarrow> doc_checker" where
  "bridge_checker br =
     \<lparr>ck_vtc_did = bc_vtc_did (br_cfg br), ck_bridge_did = br_did br,
      ck_max_age_secs = bc_max_job_age_secs (br_cfg br)\<rparr>"

text \<open>A refused document is answered only when it names the community as its issuer.\<close>

definition on_refused :: "'f bridge \<Rightarrow> refusal \<Rightarrow> ('f, unit) io" where
  "on_refused br ref =
     (case rf_doc ref of
        Some doc \<Rightarrow>
          if tt_issuer doc = Some (bc_vtc_did (br_cfg br)) \<and> \<not> is_response (br_tt br) (tt_type doc)
          then send_error br doc (rf_payload ref) else return ()
      | None \<Rightarrow> return ())"

definition handle_inbound ::
    "'f bridge \<Rightarrow> (json \<Rightarrow> 'c \<Rightarrow> (string + unit) \<times> 'c) \<Rightarrow> inbound_doc \<Rightarrow> (string \<times> via) list \<Rightarrow> 'c
       \<Rightarrow> ('f, ((string \<times> via) list \<times> 'c) option) io" where
  "handle_inbound br verify_raw d waiting c =
     (case route_reply (bc_trust_registry_did (br_cfg br)) d waiting of
        (True, waiting) \<Rightarrow> return (Some (waiting, c))
      | (False, waiting) \<Rightarrow> do {
          now \<leftarrow> clock_now;
          case check_doc (br_tt br) verify_raw (bridge_checker br) now (in_doc d) (in_sender d) c of
            (Inl ref, c) \<Rightarrow> do { _ \<leftarrow> on_refused br ref; return (Some (waiting, c)) }
          | (Inr doc, c) \<Rightarrow> some_then (on_verified br doc) (\<lambda>_. return (Some (waiting, c)))
        })"

section \<open>What every operation keeps of the ledger\<close>

text \<open>A property of the table of jobs, with the keying of the outbox.\<close>

definition jobs_inv :: "(job_record table \<Rightarrow> bool) \<Rightarrow> 'f world \<Rightarrow> bool" where
  "jobs_inv P = on_db (keyed_and (\<lambda>d. P (jobs d)))"

lemma jobs_inv_iff: "jobs_inv P w \<longleftrightarrow> outbox_keyed (db w) \<and> P (jobs (db w))"
  by (simp add: jobs_inv_def on_db_def keyed_and_def)

interpretation on_jobs: job_inv "keyed_and (\<lambda>d. P (jobs d))" for P
  by unfold_locales (simp_all add: keyed_and_def outbox_keyed_def)

definition other_table :: "'v table_at \<Rightarrow> bool" where
  "other_table t \<longleftrightarrow> (\<forall>f d. jobs (snd t f d) = jobs d \<and> outbox (snd t f d) = outbox d)"

lemma other_tables [simp]:
  "other_table NAMESPACES" "other_table REPOS" "other_table PENDING" "other_table DELIVERIES"
  "other_table RETIRED" "other_table BRANCHES" "other_table SECRETS" "other_table ROTATIONS"
  by (simp_all add: other_table_def table_defs ROTATIONS_def)

lemma jobs_inv_other [simp]:
  "other_table t \<Longrightarrow> keyed_and (\<lambda>d. P (jobs d)) (snd t f d) = keyed_and (\<lambda>d. P (jobs d)) d"
  by (simp add: other_table_def keyed_and_def outbox_keyed_def)

lemma keeps_other_table:
  assumes "other_table t"
  shows "keeps (jobs_inv P) (put_rec t k v)" "keeps (jobs_inv P) (put_new t k v)"
    "keeps (jobs_inv P) (update_rec t k f)" "keeps (jobs_inv P) (map_rec t k g)"
    "keeps (jobs_inv P) (delete_rec t k)"
  unfolding jobs_inv_def op_defs using assms
  by (auto intro!: keeps_txn split: option.split prod.split)

lemmas ledger_rules = keeps_rules
  keeps_other_table [OF other_tables(1)] keeps_other_table [OF other_tables(2)]
  keeps_other_table [OF other_tables(3)] keeps_other_table [OF other_tables(4)]
  keeps_other_table [OF other_tables(5)] keeps_other_table [OF other_tables(6)]
  keeps_other_table [OF other_tables(7)] keeps_other_table [OF other_tables(8)]
  keeps_reads [where I = "keyed_and (\<lambda>d. P (jobs d))" for P, folded jobs_inv_def]
  keeps_is_retired [where I = "keyed_and (\<lambda>d. P (jobs d))" for P, folded jobs_inv_def]
  keeps_find [where I = "keyed_and (\<lambda>d. P (jobs d))" for P, folded jobs_inv_def]
  keeps_ctx [where I = "keyed_and (\<lambda>d. P (jobs d))" for P, folded jobs_inv_def]
  keeps_outside [where I = "keyed_and (\<lambda>d. P (jobs d))" for P, folded jobs_inv_def]
  keeps_new_id [where I = "keyed_and (\<lambda>d. P (jobs d))" for P, folded jobs_inv_def]
  keeps_answers [where I = "keyed_and (\<lambda>d. P (jobs d))" for P, folded jobs_inv_def]
  keeps_on_forge [where I = "keyed_and (\<lambda>d. P (jobs d))" for P, folded jobs_inv_def]
  keeps_flush [where I = "keyed_and (\<lambda>d. P (jobs d))" for P, folded jobs_inv_def]
  keeps_adapter_restore [where I = "keyed_and (\<lambda>d. P (jobs d))" for P, folded jobs_inv_def]
  on_jobs.keeps_run_job_payload [folded jobs_inv_def] on_jobs.keeps_send_event [folded jobs_inv_def]
  on_jobs.keeps_sweep_without_webhooks [folded jobs_inv_def] on_jobs.keeps_probe [folded jobs_inv_def]
  frame.keeps_send_outbox [where P = "\<lambda>d. P (jobs d)" for P, folded jobs_inv_def]
  frame.keeps_started_serving [where P = "\<lambda>d. P (jobs d)" for P, folded jobs_inv_def]
  frame.keeps_drop_events [where P = "\<lambda>d. P (jobs d)" for P, folded jobs_inv_def]
  frame.keeps_is_orphaned [where P = "\<lambda>d. P (jobs d)" for P, folded jobs_inv_def]
  frame.keeps_resend [where P = "\<lambda>d. P (jobs d)" for P, folded jobs_inv_def]
  frame.keeps_link_up [where P = "\<lambda>d. P (jobs d)" for P, folded jobs_inv_def]
  keeps_ext [where I = "keyed_and (\<lambda>d. P (jobs d))" for P, folded jobs_inv_def]

text \<open>The operations on namespaces and flows that never touch a job.\<close>

lemma keeps_supersede: "keeps (jobs_inv P) (supersede new)"
proof -
  have rehome: "keeps (jobs_inv P) (rehome_repos a b recs moved)" for a b recs moved
    by (induction a b recs moved rule: rehome_repos.induct) (auto intro!: ledger_rules)
  have each: "keeps (jobs_inv P) (supersede_each at olds n gone moved)" for at olds n gone moved
    by (induction at olds n gone moved rule: supersede_each.induct) (auto intro!: ledger_rules rehome)
  show ?thesis
    unfolding supersede_def by (intro ledger_rules each)
qed

lemma keeps_forget_sweep: "keeps (jobs_inv P) (sweep_orphaned days)"
proof -
  have repos: "keeps (jobs_inv P) (delete_repos_of i es n)" for i es n
    by (induction i es n rule: delete_repos_of.induct) (auto intro!: ledger_rules)
  have "keeps (jobs_inv P) (forget i)" for i
    unfolding forget_def forget_records_def by (intro ledger_rules repos)
  then have "keeps (jobs_inv P) (sweep_one days now i ns)" for now i ns
    unfolding sweep_one_def Let_def by (intro ledger_rules)
  then show ?thesis
    unfolding sweep_orphaned_def by (intro ledger_rules)
qed

lemma keeps_orphaning:
  "keeps (jobs_inv P) (orphan i)" "keeps (jobs_inv P) (unorphan i)" "keeps (jobs_inv P) (is_retired i)"
  "keeps (jobs_inv P) (serve_again br revived i)"
  unfolding orphan_def unorphan_def is_retired_def serve_again_def by (intro ledger_rules)+

lemma keeps_acks:
  "keeps (jobs_inv P) (on_result_ack br doc)" "keeps (jobs_inv P) (on_event_ack doc)"
    "keeps (jobs_inv P) (on_error_response br doc)"
proof -
  have del: "keeps (jobs_inv P) (delete_rec OUTBOX k)" for k
    unfolding jobs_inv_def delete_rec_def
    by (rule keeps_txn) (simp add: table_defs keyed_and_def outbox_keyed_del comp_def)
  have thread: "keeps (jobs_inv P) (clear_outbox_thread t)" for t
    unfolding clear_outbox_thread_def by (intro ledger_rules del)
  show "keeps (jobs_inv P) (on_result_ack br doc)" "keeps (jobs_inv P) (on_event_ack doc)"
    "keeps (jobs_inv P) (on_error_response br doc)"
    unfolding on_result_ack_def on_event_ack_def on_error_response_def Let_def
    by (auto intro!: ledger_rules del thread keeps_orphaning split: option.split outbox_kind.split)
qed

lemma keeps_admit: "keeps (jobs_inv P) (admit br p)"
proof -
  have "keeps (jobs_inv P) (admit_bind br i target)" for i target
    unfolding admit_bind_def by (intro ledger_rules)
  moreover have "keeps (jobs_inv P) (admit_in br p ns)" for ns
    unfolding admit_in_def ask_forge_def by (intro ledger_rules)
  ultimately show ?thesis
    unfolding admit_def by (intro ledger_rules keeps_orphaning)
qed

lemma keeps_spawn: "keeps (jobs_inv P) (spawn t)"
  unfolding spawn_def by (rule keeps_modify) (simp add: jobs_inv_iff)

lemma keeps_begin_flow: "keeps (jobs_inv P) (begin_flow br p)"
proof -
  have report: "keeps (jobs_inv P) m \<Longrightarrow> keeps (jobs_inv P) (or_report m f)" for m :: "('a, 'e + 'b) io" and f
    unfolding or_report_def by (intro ledger_rules)
  have "keeps (jobs_inv P) (begin_bind br j i target at)" for j i target at
    unfolding begin_bind_def new_state_def
    by (auto intro!: ledger_rules report split: bind_step.split)
  moreover have "keeps (jobs_inv P) (begin_link br j i member at)" for j i member at
    unfolding begin_link_def new_state_def put_secret_def Let_def
    by (auto intro!: ledger_rules report keeps_spawn split: link_step.split)
  ultimately show ?thesis
    unfolding begin_flow_def Let_def
    by (auto intro!: ledger_rules split: job_kind.split)
qed

lemma keeps_answer_known: "keeps (jobs_inv P) (answer_known br doc k digest existing)"
proof -
  have "keeps (jobs_inv P) (put_new OUTBOX (result_key k) (outbox_new OkResult result))" for result
    unfolding jobs_inv_def put_new_def
    by (rule keeps_txn) (auto simp: table_defs keyed_and_def outbox_keyed_put outbox_new_def result_key_def
        starts_with_def comp_def)
  then show ?thesis
    unfolding answer_known_def Let_def by (intro ledger_rules)
qed

section \<open>What the ledger relies on\<close>

text \<open>
  A property of the ledger that the changes the code makes to a job it holds keep: the two changes
  of an open job's state, its result, and nothing where there is no record; and one that a new
  record keeps as well.
\<close>

definition open_job :: "string \<Rightarrow> job_record table \<Rightarrow> bool" where
  "open_job k t \<longleftrightarrow> (\<exists>r. map_of t k = Some r \<and> jr_state r \<noteq> Finished)"

definition fresh_job :: "string \<Rightarrow> job_record \<Rightarrow> bool" where
  "fresh_job k r \<longleftrightarrow> jr_job_id r = k \<and> jr_state r = Queued \<and> jr_payload r \<noteq> None \<and> jr_result r = None
     \<and> jr_finished_at r = None"

locale ledger_runs =
  fixes P :: "job_record table \<Rightarrow> bool"
  assumes runs: "P t \<Longrightarrow> map_of t k = Some r \<Longrightarrow> jr_state r \<noteq> Finished \<Longrightarrow> P (tab_put k (set_running r) t)"
    and waits: "P t \<Longrightarrow> map_of t k = Some r \<Longrightarrow> jr_state r \<noteq> Finished \<Longrightarrow> P (tab_put k (set_waiting n r) t)"
    and finishes: "P t \<Longrightarrow> map_of t k = Some r \<Longrightarrow> jr_state r \<noteq> Finished
      \<Longrightarrow> P (tab_put k (finish_record res at r) t)"
    and none: "P t \<Longrightarrow> map_of t k = None \<Longrightarrow> P (tab_del k t)"
begin

lemma triple_state:
  assumes "\<And>r t. P t \<Longrightarrow> map_of t k = Some r \<Longrightarrow> jr_state r \<noteq> Finished \<Longrightarrow> P (tab_put k (f r) t)"
  shows "triple (jobs_inv (\<lambda>t. P t \<and> open_job k t)) (map_rec JOBS k f) (\<lambda>_. jobs_inv P)"
proof (rule tripleI)
  fix w a w'
  assume "jobs_inv (\<lambda>t. P t \<and> open_job k t) w" "run_state (map_rec JOBS k f) w = (a, w')"
  with assms show "jobs_inv P w'"
    by (auto simp: map_rec_def update_rec_def table_defs jobs_inv_iff open_job_def outbox_keyed_def
        split: option.splits dest!: run_txn_cases)
qed

lemma keeps_store_finish: "keeps (jobs_inv P) (store_finish_job k res at)"
  unfolding jobs_inv_def store_finish_job_def
proof (rule keeps_txn)
  fix d
  assume d: "keyed_and (\<lambda>d. P (jobs d)) d"
  then have "outbox_keyed (outbox_update (tab_put (result_key k) (outbox_new OkResult res)) d)"
    by (intro outbox_keyed_put) (simp_all add: keyed_and_def outbox_new_def result_key_def starts_with_def)
  with d show "keyed_and (\<lambda>d. P (jobs d)) (snd (case map_of (jobs d) k of
       None \<Rightarrow> (False, d)
     | Some r \<Rightarrow>
         if jr_state r = Finished then (False, d)
         else (True, d\<lparr>jobs := tab_put k (finish_record res at r) (jobs d),
                       outbox := tab_put (result_key k) (outbox_new OkResult res) (outbox d)\<rparr>)))"
    by (auto simp: keyed_and_def outbox_keyed_def finishes split: option.split)
qed

lemma keeps_finish_job: "keeps (jobs_inv P) (finish_job br k report)"
  unfolding finish_job_def
  by (auto intro!: ledger_rules keeps_store_finish split: option.split sum.split bool.split)

lemma keeps_run_job: "keeps (jobs_inv P) (run_job br k)"
  unfolding run_job_def keeps_triple
proof (rule triple_bind)
  show "triple (jobs_inv P) (get_rec JOBS k)
      (\<lambda>r w. jobs_inv P w \<and> (\<forall>v. r = Inr v \<longrightarrow> v = map_of (jobs (db w)) k))"
    using triple_get [of "keyed_and (\<lambda>d. P (jobs d))" JOBS k] by (simp add: jobs_inv_def JOBS_def)
  fix r :: "string + job_record option"
  have after: "triple (jobs_inv P) (case s of Inl e \<Rightarrow> return (Some (Inl e))
      | Inr _ \<Rightarrow> some_then (run_job_payload br p at) (\<lambda>report.
          some_then (finish_job br k report) (\<lambda>_. return (Some (Inr ()))))) (\<lambda>_. jobs_inv P)"
    for s :: "string + unit" and p at
    unfolding keeps_triple [symmetric] by (intro ledger_rules keeps_finish_job)
  have body: "triple (jobs_inv (\<lambda>t. P t \<and> open_job k t))
      (do { r \<leftarrow> map_rec JOBS k set_running;
            case r of Inl e \<Rightarrow> return (Some (Inl e))
            | Inr _ \<Rightarrow> some_then (run_job_payload br p at) (\<lambda>report.
                some_then (finish_job br k report) (\<lambda>_. return (Some (Inr ())))) }) (\<lambda>_. jobs_inv P)" for p at
    by (rule triple_bind [OF triple_state after]) (rule runs)
  show "triple (\<lambda>w. jobs_inv P w \<and> (\<forall>v. r = Inr v \<longrightarrow> v = map_of (jobs (db w)) k))
     (case r of
       Inl e \<Rightarrow> return (Some (Inl e))
     | Inr None \<Rightarrow> return (Some (Inl ''the job is not in the ledger''))
     | Inr (Some rec) \<Rightarrow>
         if jr_state rec = Finished then return (Some (Inr ()))
         else (case jr_payload rec of
             None \<Rightarrow> return (Some (Inl ''the job's payload is gone''))
           | Some v \<Rightarrow>
               (case gl_parse_job (br_gen br) v of
                  Inl e \<Rightarrow> return (Some (Inl e))
                | Inr p \<Rightarrow> do {
                    r \<leftarrow> map_rec JOBS k set_running;
                    case r of
                      Inl e \<Rightarrow> return (Some (Inl e))
                    | Inr _ \<Rightarrow>
                        some_then (run_job_payload br p (jr_issued_at rec)) (\<lambda>report.
                        some_then (finish_job br k report) (\<lambda>_. return (Some (Inr ()))))
                  }))) (\<lambda>_. jobs_inv P)"
    by (auto split: sum.split option.split simp: jobs_inv_iff open_job_def
        intro!: triple_return triple_conseq [OF body] dest!: sym [of "Some _"])
qed

lemma keeps_run_spawned_job: "keeps (jobs_inv P) (run_spawned_job br k)"
  unfolding run_spawned_job_def by (intro ledger_rules keeps_run_job keeps_finish_job)

lemma start_job_ok: "triple (jobs_inv (\<lambda>t. P t \<and> open_job (jp_job_id p) t)) (start_job br doc p) (\<lambda>_. jobs_inv P)"
proof -
  let ?Q = "\<lambda>t. P t \<and> open_job (jp_job_id p) t"
  have weak: "triple (jobs_inv ?Q) m (\<lambda>_. jobs_inv P)" if "keeps (jobs_inv P) m" for m :: "('f, 'x) io"
    using that unfolding keeps_triple by (rule triple_conseq) (auto simp: jobs_inv_iff)
  have wait: "triple (jobs_inv ?Q) (done_some (do {
        _ \<leftarrow> map_rec JOBS (jp_job_id p) (set_waiting n);
        respond br doc (accepted_json (jp_job_id p) True (Some n)) })) (\<lambda>_. jobs_inv P)" for n
    unfolding done_some_def bind_assoc
    by (rule triple_bind [OF triple_state]) (auto simp: keeps_triple [symmetric] waits intro!: ledger_rules)
  have fail: "triple (jobs_inv ?Q) (do {
        _ \<leftarrow> respond br doc (accepted_json (jp_job_id p) True None);
        finish_job br (jp_job_id p) report }) (\<lambda>_. jobs_inv P)" for report
    by (rule weak) (intro ledger_rules keeps_finish_job)
  have "triple (jobs_inv ?Q) (some_then (begin_flow br p) (\<lambda>r. case r of
          Inr n \<Rightarrow> done_some (do {
            _ \<leftarrow> map_rec JOBS (jp_job_id p) (set_waiting n);
            respond br doc (accepted_json (jp_job_id p) True (Some n))
          })
        | Inl report \<Rightarrow> do {
            _ \<leftarrow> respond br doc (accepted_json (jp_job_id p) True None);
            finish_job br (jp_job_id p) report
          })) (\<lambda>_. jobs_inv P)"
    unfolding some_then_def
    by (rule triple_bind [OF keeps_begin_flow [of ?Q, unfolded keeps_triple]])
      (auto split: option.split sum.split intro!: wait fail weak ledger_rules)
  then show ?thesis
    unfolding start_job_def by (auto intro!: weak ledger_rules keeps_spawn)
qed

lemma keeps_bind_callback: "keeps (jobs_inv P) (bind_callback_flow br h ro params)"
proof -
  have moved: "keeps (jobs_inv P) (report_moved br i rs)" for i rs
    by (induction rs) (auto intro!: ledger_rules)
  have "keeps (jobs_inv P) (after_bind br a j i r b)" for a j i r b
    unfolding after_bind_def ask_forge_def by (intro ledger_rules moved keeps_supersede)
  then have "keeps (jobs_inv P) (bind_taken br params st j i r)" for st j i r
    unfolding bind_taken_def by (intro ledger_rules keeps_finish_job)
  then show ?thesis
    unfolding bind_callback_flow_def take_flow_def Let_def
    by (auto intro!: ledger_rules split: sum.split pending_flow.split)
qed

lemma keeps_complete_link: "keeps (jobs_inv P) (complete_link br j i h answer)"
  unfolding complete_link_def by (intro ledger_rules keeps_finish_job)

lemma keeps_link_callback: "keeps (jobs_inv P) (link_callback_flow br h params)"
proof -
  have "keeps (jobs_inv P) (link_adapter br i h)" for i
    unfolding link_adapter_def by (intro ledger_rules)
  then show ?thesis
    unfolding link_callback_flow_def take_flow_def
    by (auto intro!: ledger_rules keeps_complete_link split: sum.split pending_flow.split option.split)
qed

lemma keeps_poll_device: "keeps (jobs_inv P) (poll_device br st)"
proof -
  have "keeps (jobs_inv P) (link_adapter br i h)" for i h
    unfolding link_adapter_def by (intro ledger_rules)
  then have "keeps (jobs_inv P) (poll_link br st j i h at poll)" for j i h at poll
    unfolding poll_link_def get_secret_string_def delete_secret_def Let_def
    by (intro ledger_rules keeps_complete_link)
  then show ?thesis
    unfolding poll_device_def
    by (auto intro!: ledger_rules split: sum.split pending_flow.split option.split)
qed

lemma keeps_expire: "keeps (jobs_inv P) (expire br)"
proof -
  have "keeps (jobs_inv P) (expire_one br st f)" for st f
    unfolding expire_one_def delete_secret_def by (intro ledger_rules keeps_finish_job)
  then have "keeps (jobs_inv P) (each_some flows (\<lambda>(st, f).
      if now \<le> fl_expires f + (if is_device_link f then 60 else 0) then return (Some ()) else expire_one br st f))"
    for flows now
    by (induction flows) (auto intro!: ledger_rules)
  then show ?thesis unfolding expire_def by (intro ledger_rules)
qed

end

locale ledger_inv = ledger_runs +
  assumes new: "P t \<Longrightarrow> map_of t k = None \<Longrightarrow> fresh_job k r \<Longrightarrow> P (tab_put k r t)"
begin

lemma keeps_take_job: "keeps (jobs_inv P) (take_job br doc p)"
proof -
  have put: "triple (jobs_inv P) (put_new JOBS (jp_job_id p) (new_job br doc p at))
      (\<lambda>r. if r = Inr True then jobs_inv (\<lambda>t. P t \<and> open_job (jp_job_id p) t) else jobs_inv P)" for at
    by (rule tripleI)
      (auto simp: put_new_def table_defs jobs_inv_iff open_job_def outbox_keyed_def new_job_def job_queued_def
        fresh_job_def map_of_tab_put intro!: new split: if_splits dest!: run_txn_cases)
  have rest: "triple (jobs_inv (\<lambda>t. P t \<and> open_job (jp_job_id p) t))
      (some_then (start_job br doc p) (\<lambda>_. done_some (serve_again br revived (jp_namespace p)))) (\<lambda>_. jobs_inv P)" for revived
    unfolding some_then_def
    by (rule triple_bind [OF start_job_ok])
      (auto simp: keeps_triple [symmetric] intro!: ledger_rules keeps_orphaning)
  have recorded: "keeps (jobs_inv P) (do {
           recorded \<leftarrow> put_new JOBS (jp_job_id p) (new_job br doc p at);
           case recorded of
             Inl _ \<Rightarrow> done_some (send_error br doc (unavailable br ''the bridge could not record the job''))
           | Inr False \<Rightarrow> return (Some ())
           | Inr True \<Rightarrow> some_then (start_job br doc p) (\<lambda>_.
               done_some (serve_again br revived (jp_namespace p))) })" for at revived
    unfolding keeps_triple
    by (rule triple_bind [OF put])
      (auto simp: keeps_triple [symmetric] split: sum.split bool.split intro!: ledger_rules rest)
  show ?thesis
    unfolding take_job_def by (intro ledger_rules keeps_orphaning keeps_admit recorded)
qed

lemma keeps_on_job: "keeps (jobs_inv P) (on_job br doc)"
  unfolding on_job_def by (intro ledger_rules keeps_answer_known keeps_take_job)

lemma keeps_handle_inbound: "keeps (jobs_inv P) (handle_inbound br verify_raw d waiting c)"
proof -
  have "keeps (jobs_inv P) (on_verified br doc)" for doc
    unfolding on_verified_def Let_def by (intro ledger_rules keeps_on_job keeps_acks)
  moreover have "keeps (jobs_inv P) (on_refused br ref)" for ref
    unfolding on_refused_def by (intro ledger_rules)
  ultimately show ?thesis
    unfolding handle_inbound_def by (auto intro!: ledger_rules split: prod.split bool.split sum.split)
qed

end

section \<open>The ledger's invariants\<close>

definition same_job :: "job_record \<Rightarrow> job_record \<Rightarrow> bool" where
  "same_job r r' \<longleftrightarrow> jr_job_id r' = jr_job_id r \<and> jr_digest r' = jr_digest r \<and> jr_namespace r' = jr_namespace r
     \<and> jr_kind r' = jr_kind r \<and> jr_received_at r' = jr_received_at r \<and> jr_issued_at r' = jr_issued_at r"

text \<open>No job is lost or becomes another, and a finished one does not change.\<close>

definition ledger_grows :: "job_record table \<Rightarrow> job_record table \<Rightarrow> bool" where
  "ledger_grows t0 t \<longleftrightarrow> (\<forall>k r. map_of t0 k = Some r \<longrightarrow>
     (\<exists>r'. map_of t k = Some r' \<and> same_job r r' \<and> (jr_state r = Finished \<longrightarrow> r' = r)))"

lemma same_job_changes [simp]:
  "same_job r0 (set_running r) = same_job r0 r" "same_job r0 (set_waiting n r) = same_job r0 r"
  "same_job r0 (finish_record res at r) = same_job r0 r" "same_job r r"
  by (simp_all add: same_job_def set_running_def set_waiting_def finish_record_def)

lemma ledger_grows_put:
  assumes "ledger_grows t0 t" "map_of t k = Some r" "jr_state r \<noteq> Finished" "\<And>r0. same_job r0 r' = same_job r0 r"
  shows "ledger_grows t0 (tab_put k r' t)"
  unfolding ledger_grows_def
proof (intro allI impI)
  fix j r0
  assume "map_of t0 j = Some r0"
  with assms(1) obtain r1 where "map_of t j = Some r1" "same_job r0 r1" "jr_state r0 = Finished \<longrightarrow> r1 = r0"
    unfolding ledger_grows_def by blast
  with assms(2,3) assms(4) [of r0]
  show "\<exists>r1. map_of (tab_put k r' t) j = Some r1 \<and> same_job r0 r1 \<and> (jr_state r0 = Finished \<longrightarrow> r1 = r0)"
    by (cases "j = k") (auto simp: map_of_tab_put)
qed

interpretation grows: ledger_inv "ledger_grows t0" for t0
proof unfold_locales
  fix t k and r :: job_record
  assume "ledger_grows t0 t" "map_of t k = None" "fresh_job k r"
  then show "ledger_grows t0 (tab_put k r t)"
    unfolding ledger_grows_def map_of_tab_put by (metis option.distinct(1))
next
  fix t k
  assume "ledger_grows t0 t" "map_of t k = None"
  then show "ledger_grows t0 (tab_del k t)"
    unfolding ledger_grows_def map_of_tab_del by (metis option.distinct(1))
qed (rule ledger_grows_put; simp)+

text \<open>A record is open with its payload, or finished with its one result.\<close>

definition wf_job :: "string \<Rightarrow> job_record \<Rightarrow> bool" where
  "wf_job k r \<longleftrightarrow> jr_job_id r = k
     \<and> (if jr_state r = Finished then jr_payload r = None \<and> jr_result r \<noteq> None \<and> jr_finished_at r \<noteq> None
        else jr_payload r \<noteq> None \<and> jr_result r = None \<and> jr_finished_at r = None)"

definition wf_ledger :: "job_record table \<Rightarrow> bool" where
  "wf_ledger t \<longleftrightarrow> (\<forall>k r. map_of t k = Some r \<longrightarrow> wf_job k r)"

interpretation wf: ledger_inv wf_ledger
  by unfold_locales
    (auto simp: wf_ledger_def map_of_tab_put map_of_tab_del wf_job_def set_running_def set_waiting_def
      finish_record_def fresh_job_def split: if_splits)

interpretation same_ids: ledger_runs "\<lambda>t. dom (map_of t) = D" for D
  by unfold_locales (auto simp: map_of_tab_put map_of_tab_del split: if_splits)

section \<open>A job the ledger holds\<close>

lemma run_put_new_result:
  assumes "run_state (put_new OUTBOX k e) w = (r, w')" "coming_failures w = 0"
  shows "r = Inr (map_of (outbox (db w)) k = None) \<and> coming_failures w' = 0
    \<and> db w' = (if map_of (outbox (db w)) k = None then outbox_update (tab_put k e) (db w) else db w)"
  using assms by (auto simp: put_new_def table_defs run_txn_ok coming_failures_def split: if_splits)

lemma result_waits_sent:
  assumes "result_waits j p (db w)" "run_state (send_outbox br k) w = (u, w')"
  shows "result_waits j p (db w')"
  using keeps_run [OF waits.keeps_send_outbox _ assms(2)] assms(1) by (simp add: on_db_def)

lemma later_answer_known [keeps_rules]: "keeps (later w) (answer_known br doc k digest existing)"
  unfolding answer_known_def Let_def by (intro keeps_rules)

lemma answer_known_sends_again:
  assumes "outbox_keyed (db w)" "coming_failures w = 0"
    and "jr_digest existing = digest" "jr_state existing = Finished" "jr_result existing = Some res"
    and run: "run_state (answer_known br doc k digest existing) w = (u, w')"
  shows "\<exists>p. result_waits k p (db w') \<and> (map_of (outbox (db w)) (result_key k) = None \<longrightarrow> p = res)"
proof -
  obtain u1 w1 where 1: "run_state (respond br doc (accepted_json k False None)) w = (u1, w1)"
    by (metis surj_pair)
  obtain r w2 where 2: "run_state (put_new OUTBOX (result_key k) (outbox_new OkResult res)) w1 = (r, w2)"
    by (metis surj_pair)
  have "later w w1" by (rule later_run [OF later_answers(2) 1])
  then have c: "coming_failures w1 = 0" using assms(2) by (simp add: later_def)
  have d: "db w1 = db w"
    using keeps_run [OF keeps_answers(2) [where I = "\<lambda>d. d = db w"] _ 1] by (simp add: on_db_def)
  note put = run_put_new_result [OF 2 c]
  have "\<exists>p. result_waits k p (db w2) \<and> (map_of (outbox (db w)) (result_key k) = None \<longrightarrow> p = res)"
  proof (cases "map_of (outbox (db w)) (result_key k)")
    case None
    with put d assms(1) show ?thesis
      by (auto simp: result_waits_def outbox_new_def map_of_tab_put result_key_def starts_with_def
          intro!: outbox_keyed_put)
  next
    case (Some e)
    have "ob_kind e = OkResult"
      using outbox_keyedD(1) [OF assms(1) map_of_SomeD [OF Some]] result_key_not_event [of k] by (cases "ob_kind e") auto
    with Some put d assms(1) show ?thesis by (auto simp: result_waits_def)
  qed
  moreover have "run_state (send_outbox br (result_key k)) w2 = (u, w')"
    using run 1 2 assms(3-5) by (simp add: answer_known_def Let_def)
  ultimately show ?thesis using result_waits_sent [of k _ w2] by metis
qed

lemma run_done_some: "run_state (done_some m) w = (r, w') \<longleftrightarrow> (\<exists>a. run_state m w = (a, w') \<and> r = Some a)"
  by (auto simp: done_some_def split: prod.splits)

lemma quiet_answer:
  assumes "\<And>P. keeps (jobs_inv P) m" "keeps (later w) m" "outbox_keyed (db w)"
    and "run_state (done_some m) w = (r, w')"
  shows "r = Some () \<and> jobs (db w') = jobs (db w) \<and> spawned w' = spawned w"
proof -
  from assms(4) have m: "run_state m w = ((), w')" "r = Some ()" by (auto simp: run_done_some)
  have "jobs_inv (\<lambda>t. t = jobs (db w)) w" using assms(3) by (simp add: jobs_inv_iff)
  from keeps_run [OF assms(1) this m(1)] keeps_run [OF assms(2) later_refl m(1)] m(2) show ?thesis
    by (simp add: jobs_inv_iff later_def)
qed

text \<open>C17: A job the ledger holds is answered from it. Whatever transactions and sends fail, a document that
  names a job already in the ledger never runs or changes a job: the ledger stays exactly as it
  is and no task is spawned. When it is the finished job again (the same content), and nothing
  fails, a result of the job waits in the outbox again, even if an earlier copy was acknowledged:
  the ledger's own, unless one was still waiting.\<close>

theorem known_job_never_runs_again:
  assumes "outbox_keyed (db w)" "gl_parse_job (br_gen br) (tt_payload doc) = Inr p"
    and "map_of (jobs (db w)) (jp_job_id p) = Some existing"
    and run: "run_state (on_job br doc) w = (r, w')"
  shows "r = Some () \<and> jobs (db w') = jobs (db w) \<and> spawned w' = spawned w
    \<and> (coming_failures w = 0 \<longrightarrow> check_kind_members p = Inr () \<longrightarrow> jr_state existing = Finished
         \<longrightarrow> jr_digest existing = gl_digest (br_gen br) (tt_payload doc) \<longrightarrow>
       (\<forall>res. jr_result existing = Some res \<longrightarrow> (\<exists>q. result_waits (jp_job_id p) q (db w')
          \<and> (map_of (outbox (db w)) (result_key (jp_job_id p)) = None \<longrightarrow> q = res))))"
proof -
  let ?k = "jp_job_id p" and ?dg = "gl_digest (br_gen br) (tt_payload doc)"
  have error: "r = Some () \<and> jobs (db w') = jobs (db w1) \<and> spawned w' = spawned w1"
    if "run_state (done_some (send_error br doc e)) w1 = (r, w')" "outbox_keyed (db w1)" for e w1
    by (rule quiet_answer [OF _ _ that(2,1)]) (intro ledger_rules)+
  show ?thesis
  proof (cases "check_kind_members p")
    case (Inl e)
    with run assms(2) have "run_state (done_some (send_error br doc (malformed br e))) w = (r, w')"
      by (simp add: on_job_def parse_job_def)
    with error [OF _ assms(1)] Inl show ?thesis by simp
  next
    case (Inr u)
    obtain known w1 where 1: "run_state (get_rec JOBS ?k) w = (known, w1)" by (metis surj_pair)
    have w1: "db w1 = db w" "spawned w1 = spawned w" "coming_failures w1 \<le> coming_failures w"
      using run_txn_cases [OF 1 [unfolded get_rec_def]] later_run [OF later_store(1) 1]
      by (auto simp: later_def)
    consider "known = Inr (Some existing)" | "known = Inl ''store''" "coming_failures w \<noteq> 0"
      using 1 assms(3) by (auto simp: get_rec_def txn_def table_defs coming_failures_def split: list.splits bool.splits)
    then show ?thesis
    proof cases
      case 1
      then have run1: "run_state (done_some (answer_known br doc ?k ?dg existing)) w1 = (r, w')"
        using run assms(2) Inr \<open>run_state (get_rec JOBS ?k) w = (known, w1)\<close> by (simp add: on_job_def parse_job_def)
      have "r = Some () \<and> jobs (db w') = jobs (db w1) \<and> spawned w' = spawned w1"
        by (rule quiet_answer [OF _ _ _ run1]) (use w1 assms(1) in \<open>auto intro!: keeps_answer_known keeps_rules\<close>)
      moreover have "\<exists>q. result_waits ?k q (db w') \<and> (map_of (outbox (db w)) (result_key ?k) = None \<longrightarrow> q = res)"
        if "coming_failures w = 0" "jr_state existing = Finished" "jr_digest existing = ?dg" "jr_result existing = Some res" for res
        using answer_known_sends_again [of w1 existing ?dg res br doc ?k] run1 w1 assms(1) that
        by (auto simp: run_done_some)
      ultimately show ?thesis using w1 by auto
    next
      case 2
      then have "run_state (done_some (send_error br doc (unavailable br ''the bridge's store is unavailable''))) w1 = (r, w')"
        using run assms(2) Inr \<open>run_state (get_rec JOBS ?k) w = (known, w1)\<close> by (simp add: on_job_def parse_job_def)
      with error [of _ w1] w1 assms(1) 2 show ?thesis by simp
    qed
  qed
qed

definition example_inspect :: job_payload where
  "example_inspect =
     \<lparr>jp_job_id = ''j1'', jp_namespace = ''ns1'', jp_kind = InspectJob, jp_repo = None,
      jp_spec = None, jp_desired_roles = None, jp_remove_accounts = None, jp_steps = None, jp_target = None,
      jp_subject = None, jp_number = None, jp_message = None\<rparr>"

text \<open>The bridge of the examples, for documents that all carry this job.\<close>

definition job_bridge :: "unit bridge" where
  "job_bridge = quiet_bridge\<lparr>br_gen := (br_gen quiet_bridge)\<lparr>gl_parse_job := (\<lambda>_. Inr example_inspect)\<rparr>,
     br_tt := (br_tt quiet_bridge)\<lparr>read_envelope := (\<lambda>raw. Inr
       \<lparr>tt_id = ''d1'', tt_type = JOB_TYPE, tt_thread_id = None, tt_issuer = Some ''did:x:vtc'',
        tt_recipient = Some ''did:x:bridge'', tt_issued_at = Some 990, tt_payload = raw\<rparr>)\<rparr>\<rparr>"

definition job_doc :: trust_task where
  "job_doc = \<lparr>tt_id = ''d1'', tt_type = JOB_TYPE, tt_thread_id = None, tt_issuer = Some ''did:x:vtc'',
     tt_recipient = Some ''did:x:bridge'', tt_issued_at = Some 990, tt_payload = JObject []\<rparr>"

definition done_job :: job_record where
  "done_job = finish_record (JString ''done'') 990 (job_queued ''j1'' [] ''ns1'' ''inspect'' (JObject []) 980)"

definition done_ledger :: store where
  "done_ledger = empty_store\<lparr>jobs := [(''j1'', done_job)]\<rparr>"

lemma example_inspect_ok: "check_kind_members example_inspect = Inr ()"
  by code_simp

lemma known_job_never_runs_again_witness:
  "\<exists>w'. run_state (on_job job_bridge job_doc) (example_world done_ledger) = (Some (), w')
     \<and> jobs (db w') = [(''j1'', done_job)] \<and> spawned w' = [] \<and> result_waits ''j1'' (JString ''done'') (db w')"
proof -
  obtain r w' where r: "run_state (on_job job_bridge job_doc) (example_world done_ledger) = (r, w')"
    by (metis surj_pair)
  have w: "outbox_keyed (db (example_world done_ledger))" "jobs (db (example_world done_ledger)) = [(''j1'', done_job)]"
    "outbox (db (example_world done_ledger)) = []" "spawned (example_world done_ledger) = []"
    "coming_failures (example_world done_ledger) = 0"
    by (simp_all add: outbox_keyed_def example_world_def done_ledger_def empty_store_def coming_failures_def)
  have p: "gl_parse_job (br_gen job_bridge) (tt_payload job_doc) = Inr example_inspect"
    "gl_digest (br_gen job_bridge) (tt_payload job_doc) = []" "jp_job_id example_inspect = ''j1''"
    by (simp_all add: job_bridge_def quiet_bridge_def sample_bridge_def example_inspect_def)
  have j: "jr_state done_job = Finished" "jr_digest done_job = []" "jr_result done_job = Some (JString ''done'')"
    by (simp_all add: done_job_def finish_record_def job_queued_def)
  have "map_of (jobs (db (example_world done_ledger))) (jp_job_id example_inspect) = Some done_job"
    by (simp add: w p)
  from known_job_never_runs_again [OF w(1) p(1) this r] show ?thesis
    using r example_inspect_ok j by (simp add: w p)
qed

section \<open>A job the ledger takes\<close>

definition in_namespace :: "resource \<Rightarrow> string option \<Rightarrow> bool" where
  "in_namespace ns r \<longleftrightarrow> (case r of None \<Rightarrow> True | Some x \<Rightarrow>
     (case resource_parse x of Inl _ \<Rightarrow> False
      | Inr repo \<Rightarrow> contains_resource ns repo \<and> \<not> is_namespace repo))"

text \<open>
  What admission asks of a job: a bind names an owner of a forge this bridge serves; any other job
  names a namespace the bridge serves (bound, or orphaned until this job), and stays inside it.
\<close>

definition admissible :: "'f bridge \<Rightarrow> job_payload \<Rightarrow> 'f world \<Rightarrow> bool" where
  "admissible br p w \<longleftrightarrow>
     (if jp_kind p = BeginBind
      then \<exists>t r. jp_target p = Some t \<and> resource_namespace_of (bt_forge t) (bt_owner t) = Inr r
             \<and> for_resource br r \<noteq> None
      else \<exists>n b a. map_of (namespaces (db w)) (jp_namespace p) = Some n \<and> nr_state n \<in> {NsBound, NsOrphaned}
             \<and> nr_binding n = Some b \<and> for_resource br (nr_resource n) = Some a \<and> in_namespace (nr_resource n) (jp_repo p)
             \<and> (\<forall>x\<in>set (unwrap_or (jp_remove_accounts p) []). ja_forge x = host (nr_resource n))
             \<and> admit_kind br (fo_capabilities (ad_ops a) (nb_namespace b) (forge_state w)) (jp_kind p) = Inr ())"

lemma run_unorphan:
  assumes "run_state (unorphan i) w = (b, w')"
  shows "forge_state w' = forge_state w \<and> jobs (db w') = jobs (db w) \<and> outbox (db w') = outbox (db w)
    \<and> (\<forall>n. map_of (namespaces (db w')) i = Some n \<longrightarrow> is_bound n \<longrightarrow>
        (\<exists>n0. map_of (namespaces (db w)) i = Some n0 \<and> nr_state n0 \<in> {NsBound, NsOrphaned}
          \<and> nr_binding n = nr_binding n0 \<and> nr_resource n = nr_resource n0))"
  using assms
  by (auto simp: unorphan_def or_else_def update_rec_def txn_def table_defs unorphan_record_def map_of_tab_put
      map_of_tab_del is_bound_def nr_is_orphaned_def split: list.splits bool.splits option.splits if_splits)

lemma admit_in_Inr:
  assumes "run_state (admit_in br p ns) w = (Some (Inr u), w')"
  shows "w' = w \<and> (\<exists>a b. for_resource br (nr_resource ns) = Some a \<and> nr_binding ns = Some b
    \<and> in_namespace (nr_resource ns) (jp_repo p) \<and> (\<forall>x\<in>set (unwrap_or (jp_remove_accounts p) []). ja_forge x = host (nr_resource ns))
    \<and> admit_kind br (fo_capabilities (ad_ops a) (nb_namespace b) (forge_state w)) (jp_kind p) = Inr ())"
  using assms
  by (auto simp: admit_in_def admit_repo_def admit_removals_def in_namespace_def ask_forge_def find_None_iff
      split: option.splits sum.splits if_splits)

lemma run_bound_namespace:
  assumes "run_state (bound_namespace br i) w = (Inr ns, w')"
  shows "db w' = db w \<and> forge_state w' = forge_state w \<and> map_of (namespaces (db w)) i = Some ns \<and> is_bound ns"
  using assms
  by (auto simp: bound_namespace_def get_rec_def txn_def table_defs split: list.splits bool.splits option.splits if_splits)

lemma admitted:
  assumes "run_state (unorphan (jp_namespace p)) w = (revived, w1)"
    and run: "run_state (admit br p) w1 = (Some (Inr u), w2)"
  shows "admissible br p w"
proof (cases "jp_kind p = BeginBind")
  case True
  with run show ?thesis
    by (auto simp: admit_def admissible_def admit_bind_def done_some_def Option.is_none_def split: prod.splits if_splits option.splits sum.splits)
next
  case False
  with run obtain ns w3 where b: "run_state (bound_namespace br (jp_namespace p)) w1 = (Inr ns, w3)"
    and i: "run_state (admit_in br p ns) w3 = (Some (Inr u), w2)"
    by (auto simp: admit_def split: prod.splits sum.splits)
  note n = run_bound_namespace [OF b] and u = run_unorphan [OF assms(1)]
  from n u obtain n0 where n0: "map_of (namespaces (db w)) (jp_namespace p) = Some n0"
    "nr_state n0 \<in> {NsBound, NsOrphaned}" "nr_binding ns = nr_binding n0" "nr_resource ns = nr_resource n0"
    by metis
  from admit_in_Inr [OF i] n0 n u False show ?thesis
    unfolding admissible_def by auto
qed

lemma run_some_then: "run_state (some_then m f) w =
    (let (a, w1) = run_state m w in case a of None \<Rightarrow> (None, w1) | Some x \<Rightarrow> run_state (f x) w1)"
  by (auto simp: some_then_def split: prod.splits option.splits)

lemma same_jobs:
  assumes "\<And>P. keeps (jobs_inv P) m" "outbox_keyed (db w)" "run_state m w = (a, w')"
  shows "jobs (db w') = jobs (db w) \<and> outbox_keyed (db w')"
  using keeps_run [OF assms(1) [of "\<lambda>t. t = jobs (db w)"] _ assms(3)] assms(2) by (simp add: jobs_inv_iff)

lemma recorded_job:
  assumes "outbox_keyed (db w)" "map_of (jobs (db w)) (jp_job_id p) = None"
    and put: "run_state (put_new JOBS (jp_job_id p) (new_job br doc p at)) w = (Inr True, w1)"
    and start: "run_state (some_then (start_job br doc p) (\<lambda>_. done_some (serve_again br revived i))) w1 = (r, w')"
  shows "dom (map_of (jobs (db w'))) = insert (jp_job_id p) (dom (map_of (jobs (db w))))
    \<and> (\<exists>rec. map_of (jobs (db w')) (jp_job_id p) = Some rec \<and> same_job (new_job br doc p at) rec)"
proof -
  let ?k = "jp_job_id p" and ?new = "new_job br doc p at"
  have w1: "jobs (db w1) = tab_put ?k ?new (jobs (db w))" "outbox_keyed (db w1)"
    using run_txn_cases [OF put [unfolded put_new_def]] assms(1,2) by (auto simp: table_defs outbox_keyed_def)
  let ?P = "\<lambda>t. dom (map_of t) = dom (map_of (jobs (db w1)))" and ?G = "ledger_grows (jobs (db w1))"
  have "open_job ?k (jobs (db w1))"
    by (simp add: w1 open_job_def map_of_tab_put new_job_def job_queued_def)
  then have s: "jobs_inv (\<lambda>t. ?P t \<and> open_job ?k t) w1" "jobs_inv (\<lambda>t. ?G t \<and> open_job ?k t) w1"
    using w1(2) by (auto simp: jobs_inv_iff ledger_grows_def)
  have "triple (jobs_inv (\<lambda>t. ?P t \<and> open_job ?k t))
      (some_then (start_job br doc p) (\<lambda>_. done_some (serve_again br revived i))) (\<lambda>_. jobs_inv ?P)"
    and "triple (jobs_inv (\<lambda>t. ?G t \<and> open_job ?k t))
      (some_then (start_job br doc p) (\<lambda>_. done_some (serve_again br revived i))) (\<lambda>_. jobs_inv ?G)"
    unfolding some_then_def
    by (rule triple_bind [OF same_ids.start_job_ok] triple_bind [OF grows.start_job_ok],
        auto simp: keeps_triple [symmetric] intro!: ledger_rules keeps_orphaning)+
  from tripleD [OF this(1) s(1) start] tripleD [OF this(2) s(2) start]
  have "dom (map_of (jobs (db w'))) = dom (map_of (jobs (db w1)))" "ledger_grows (jobs (db w1)) (jobs (db w'))"
    by (simp_all add: jobs_inv_iff)
  moreover have "dom (map_of (jobs (db w1))) = insert ?k (dom (map_of (jobs (db w))))"
    "map_of (jobs (db w1)) ?k = Some ?new"
    by (auto simp: w1 map_of_tab_put)
  ultimately have "dom (map_of (jobs (db w'))) = insert ?k (dom (map_of (jobs (db w))))"
    and "\<exists>rec. map_of (jobs (db w')) ?k = Some rec \<and> same_job ?new rec"
    unfolding ledger_grows_def by (simp, metis)
  then show ?thesis by simp
qed

lemma taken_job:
  assumes "outbox_keyed (db w)" "map_of (jobs (db w)) k = None"
    and run: "run_state (take_job br doc p) w = (r, w')" and k: "map_of (jobs (db w')) k = Some rec"
  shows "k = jp_job_id p \<and> admissible br p w \<and> (\<exists>at. same_job (new_job br doc p at) rec)"
proof -
  obtain revived w1 where 1: "run_state (unorphan (jp_namespace p)) w = (revived, w1)" by (metis surj_pair)
  obtain a w2 where 2: "run_state (admit br p) w1 = (a, w2)" by (metis surj_pair)
  have o1: "outbox_keyed (db w1)" "jobs (db w1) = jobs (db w)"
    using same_jobs [OF keeps_orphaning(2) assms(1) 1] by auto
  have o2: "outbox_keyed (db w2)" "jobs (db w2) = jobs (db w)"
    using same_jobs [OF keeps_admit o1(1) 2] o1 by auto
  have quiet: False if "\<And>P. keeps (jobs_inv P) m" "run_state m w2 = (r, w')" for m
    using same_jobs [OF that(1) o2(1) that(2)] o2 assms(2) k by simp
  note run1 = run [unfolded take_job_def, simplified, unfolded 1, simplified, unfolded run_some_then 2, simplified]
  show ?thesis
  proof (cases a)
    case None
    with run1 o2 assms(2) k show ?thesis by simp
  next
    case (Some b)
    show ?thesis
    proof (cases b)
      case (Inl err)
      have "run_state (done_some (do { _ \<leftarrow> send_error br doc err; serve_again br revived (jp_namespace p) })) w2 = (r, w')"
        using run1 Some Inl by simp
      moreover have "keeps (jobs_inv P) (done_some (do { _ \<leftarrow> send_error br doc err; serve_again br revived (jp_namespace p) }))" for P
        by (intro ledger_rules keeps_orphaning)
      ultimately show ?thesis using quiet by blast
    next
      case (Inr u)
      obtain at w3 where 3: "run_state clock_now w2 = (at, w3)" by (metis surj_pair)
      have w3: "w3 = w2" using 3 by (simp add: clock_now_def)
      obtain q w4 where 4: "run_state (put_new JOBS (jp_job_id p) (new_job br doc p at)) w2 = (q, w4)" by (metis surj_pair)
      have same: "q \<noteq> Inr True \<Longrightarrow> db w4 = db w2"
        using run_txn_cases [OF 4 [unfolded put_new_def]] by (auto simp: table_defs split: if_splits)
      have fresh: "q = Inr True \<Longrightarrow> map_of (jobs (db w2)) (jp_job_id p) = None"
        using run_txn_cases [OF 4 [unfolded put_new_def]] by (auto simp: table_defs split: if_splits)
      have rest: "run_state (case q of
             Inl _ \<Rightarrow> done_some (send_error br doc (unavailable br ''the bridge could not record the job''))
           | Inr False \<Rightarrow> return (Some ())
           | Inr True \<Rightarrow> some_then (start_job br doc p) (\<lambda>_.
               done_some (serve_again br revived (jp_namespace p)))) w4 = (r, w')"
        using run1 Some Inr 3 4 w3 by simp
      show ?thesis
      proof (cases "q = Inr True")
        case True
        with rest have "run_state (some_then (start_job br doc p) (\<lambda>_. done_some (serve_again br revived (jp_namespace p)))) w4 = (r, w')"
          by simp
        note in_ledger = recorded_job [OF o2(1) fresh [OF True] 4 [unfolded True] this, unfolded o2]
        have "k \<in> dom (map_of (jobs (db w')))" using k by blast
        then have "k = jp_job_id p" using in_ledger assms(2) by blast
        then have "k = jp_job_id p \<and> same_job (new_job br doc p at) rec" using in_ledger k by simp
        moreover have "admissible br p w" by (rule admitted [OF 1]) (use 2 Some Inr in simp)
        ultimately show ?thesis by blast
      next
        case False
        have "keeps (jobs_inv P) (case q of
             Inl _ \<Rightarrow> done_some (send_error br doc (unavailable br ''the bridge could not record the job''))
           | Inr False \<Rightarrow> return (Some ())
           | Inr True \<Rightarrow> return (Some ()))" for P
          by (auto split: bool.split intro!: ledger_rules)
        from same_jobs [OF this, of w4 r w'] rest False same [OF False] o2 assms(2) k show ?thesis
          by (cases q) (auto split: bool.splits)
      qed
    qed
  qed
qed

lemma check_doc_Inr:
  assumes "check_doc lib verify_raw ck now raw sender c = (Inr doc, c')"
  shows "read_envelope lib raw = Inr doc \<and> tt_issuer doc = Some (ck_vtc_did ck) \<and> sender \<in> {None, Some (ck_vtc_did ck)}
    \<and> tt_recipient doc = Some (ck_bridge_did ck) \<and> validate_freshness lib now (ck_max_age_secs ck) doc = Inr ()
    \<and> proof_purpose raw = Some ''authentication'' \<and> (\<exists>u. fst (verify_raw raw c) = Inr u)"
  using assms
  by (auto simp: check_doc_def split: sum.splits prod.splits if_splits option.splits)

lemma entered_job:
  fixes w :: "'f world"
  assumes k: "outbox_keyed (db w)" "map_of (jobs (db w)) k = None" "map_of (jobs (db w')) k = Some rec"
    and run: "run_state (on_job br doc) w = (r, w')"
  shows "\<exists>p at. gl_parse_job (br_gen br) (tt_payload doc) = Inr p \<and> check_kind_members p = Inr () \<and> k = jp_job_id p
    \<and> admissible br p w \<and> same_job (new_job br doc p at) rec"
proof -
  have quiet: False if "run_state m w0 = (r, w')" "db w0 = db w" "\<And>P. keeps (jobs_inv P) m" for m :: "('f, unit option) io" and w0
    using same_jobs [OF that(3) _ that(1)] that(2) k by simp
  have error: "keeps (jobs_inv P) (done_some (send_error br doc e))" for P e
    by (intro ledger_rules)
  show ?thesis
  proof (cases "parse_job br (tt_payload doc)")
    case (Inl e)
    with run have "run_state (done_some (send_error br doc (malformed br e))) w = (r, w')" by (simp add: on_job_def)
    from quiet [OF this refl error] show ?thesis by blast
  next
    case (Inr p)
    then have p: "gl_parse_job (br_gen br) (tt_payload doc) = Inr p" by (simp add: parse_job_def split: sum.splits)
    show ?thesis
    proof (cases "check_kind_members p")
      case (Inl msg)
      with Inr run have "run_state (done_some (send_error br doc (malformed br msg))) w = (r, w')" by (simp add: on_job_def)
      from quiet [OF this refl error] show ?thesis by blast
    next
      case members: (Inr u)
      obtain known w1 where 1: "run_state (get_rec JOBS (jp_job_id p)) w = (known, w1)" by (metis surj_pair)
      have w1: "db w1 = db w" "forge_state w1 = forge_state w"
        using 1 by (auto simp: get_rec_def txn_def split: list.splits bool.splits)
      consider existing where "known = Inr (Some existing)" | e where "known = Inl e" | "known = Inr None"
        by (metis old.sum.exhaust option.exhaust)
      then show ?thesis
      proof cases
        case 1
        with run Inr members \<open>run_state (get_rec JOBS (jp_job_id p)) w = (known, w1)\<close>
        have "run_state (done_some (answer_known br doc (jp_job_id p) (gl_digest (br_gen br) (tt_payload doc)) existing)) w1 = (r, w')"
          by (simp add: on_job_def)
        from quiet [OF this w1(1)] show ?thesis by (auto intro!: ledger_rules keeps_answer_known)
      next
        case 2
        with run Inr members \<open>run_state (get_rec JOBS (jp_job_id p)) w = (known, w1)\<close>
        have "run_state (done_some (send_error br doc (unavailable br ''the bridge's store is unavailable''))) w1 = (r, w')"
          by (simp add: on_job_def)
        from quiet [OF this w1(1) error] show ?thesis by blast
      next
        case 3
        with run Inr members \<open>run_state (get_rec JOBS (jp_job_id p)) w = (known, w1)\<close>
        have "run_state (take_job br doc p) w1 = (r, w')" by (simp add: on_job_def)
        from taken_job [OF _ _ this k(3)] k w1
        have "k = jp_job_id p" "admissible br p w" "\<exists>at. same_job (new_job br doc p at) rec"
          by (auto simp: admissible_def)
        with p members show ?thesis by auto
      qed
    qed
  qed
qed

text \<open>C15: Cn. A job enters the ledger in one way only. When handling whatever document arrives leaves a
  job in the ledger that was not there, then that document reads as one issued by the community and
  addressed to this bridge, came from no other sender, is fresh at the time it arrived, carries an
  authentication proof that verified, is of the job type, parses, has exactly the members its kind
  takes, and was admissible for a namespace of this bridge at that moment; and the job recorded is
  the document's: its id, the digest of the payload as received, its namespace and its kind. Any other
  document (a reply, a refused one, an acknowledgement, a job refused or known) leaves the ledger's
  jobs as they are.\<close>

theorem only_admitted_jobs_enter:
  fixes w :: "'f world"
  assumes "outbox_keyed (db w)" "map_of (jobs (db w)) k = None" "map_of (jobs (db w')) k = Some rec"
    and "run_state (handle_inbound br verify_raw d waiting c) w = (r, w')"
  shows "\<exists>doc p. read_envelope (br_tt br) (in_doc d) = Inr doc
    \<and> tt_issuer doc = Some (bc_vtc_did (br_cfg br)) \<and> tt_recipient doc = Some (br_did br)
    \<and> in_sender d \<in> {None, Some (bc_vtc_did (br_cfg br))}
    \<and> validate_freshness (br_tt br) (clock w) (bc_max_job_age_secs (br_cfg br)) doc = Inr ()
    \<and> proof_purpose (in_doc d) = Some ''authentication'' \<and> fst (verify_raw (in_doc d) c) = Inr ()
    \<and> tt_type doc = JOB_TYPE \<and> gl_parse_job (br_gen br) (tt_payload doc) = Inr p \<and> check_kind_members p = Inr ()
    \<and> admissible br p w \<and> k = jp_job_id p \<and> jr_job_id rec = k \<and> jr_namespace rec = jp_namespace p
    \<and> jr_kind rec = job_kind_str (jp_kind p) \<and> jr_digest rec = gl_digest (br_gen br) (tt_payload doc)"
proof -
  have quiet: False if "run_state m w = (a, w')" "\<And>P. keeps (jobs_inv P) m" for m :: "('f, 'x) io" and a
    using same_jobs [OF that(2) assms(1) that(1)] assms(2,3) by simp
  have refused: "keeps (jobs_inv P) (on_refused br ref)" for P ref
    unfolding on_refused_def by (intro ledger_rules)
  obtain taken waiting' where t: "route_reply (bc_trust_registry_did (br_cfg br)) d waiting = (taken, waiting')"
    by (metis surj_pair)
  obtain chk c' where c: "check_doc (br_tt br) verify_raw (bridge_checker br) (clock w) (in_doc d) (in_sender d) c = (chk, c')"
    by (metis surj_pair)
  note run = assms(4) [unfolded handle_inbound_def t]
  have "\<not> taken" using run assms(2,3) by (auto split: bool.splits)
  then have run1: "run_state (case chk of Inl ref \<Rightarrow> do { _ \<leftarrow> on_refused br ref; return (Some (waiting', c')) }
      | Inr doc \<Rightarrow> some_then (on_verified br doc) (\<lambda>_. return (Some (waiting', c')))) w = (r, w')"
    using run c by (simp add: clock_now_def split: sum.splits)
  show ?thesis
  proof (cases chk)
    case (Inl ref)
    with run1 obtain a where "run_state (on_refused br ref) w = (a, w')" by (auto split: prod.splits)
    from quiet [OF this refused] show ?thesis by blast
  next
    case (Inr doc)
    with run1 obtain a where v: "run_state (on_verified br doc) w = (a, w')"
      by (auto simp: run_some_then split: prod.splits option.splits)
    have job: "is_job_type (tt_type doc)"
    proof (rule ccontr)
      assume "\<not> is_job_type (tt_type doc)"
      then have "keeps (jobs_inv P) (on_verified br doc)" for P
        unfolding on_verified_def Let_def by (simp only: if_False) (intro ledger_rules keeps_acks)
      from quiet [OF v this] show False .
    qed
    then have "run_state (on_job br doc) w = (a, w')" using v by (simp add: on_verified_def)
    from entered_job [OF assms(1-3) this] check_doc_Inr [OF c [unfolded Inr]] job show ?thesis
      by (auto simp: bridge_checker_def is_job_type_def JOB_TYPES_def same_job_def new_job_def job_queued_def)
  qed
qed

definition job_inbound :: inbound_doc where
  "job_inbound = \<lparr>in_doc = JObject [(''proof'', JObject [(''proofPurpose'', JString ''authentication'')])],
     in_sender = Some ''did:x:vtc'', in_via = ViaDidcomm\<rparr>"

definition served_ledger :: store where
  "served_ledger = empty_store\<lparr>namespaces := [(''ns1'', example_namespace)]\<rparr>"

definition handled_job :: "unit world" where
  "handled_job = snd (run_state (handle_inbound job_bridge (\<lambda>_ c. (Inr (), c)) job_inbound [] ()) (example_world served_ledger))"

lemma handled_job_enters: "map (\<lambda>(k, r). (k, jr_namespace r, jr_kind r)) (jobs (db handled_job)) = [(''j1'', ''ns1'', ''inspect'')]"
  by code_simp

lemma only_admitted_jobs_enter_witness:
  "\<exists>doc p rec. map_of (jobs (db handled_job)) ''j1'' = Some rec \<and> read_envelope (br_tt job_bridge) (in_doc job_inbound) = Inr doc
     \<and> gl_parse_job (br_gen job_bridge) (tt_payload doc) = Inr p
     \<and> admissible job_bridge p (example_world served_ledger) \<and> jr_namespace rec = ''ns1''"
proof -
  let ?w = "example_world served_ledger"
  obtain r where r: "run_state (handle_inbound job_bridge (\<lambda>_ c. (Inr (), c)) job_inbound [] ()) ?w = (r, handled_job)"
    unfolding handled_job_def by (metis prod.exhaust_sel)
  obtain rec where k: "map_of (jobs (db handled_job)) ''j1'' = Some rec" "jr_namespace rec = ''ns1''"
    using handled_job_enters by (auto simp: map_eq_Cons_conv)
  have "outbox_keyed (db ?w)" "map_of (jobs (db ?w)) ''j1'' = None"
    by (simp_all add: outbox_keyed_def example_world_def served_ledger_def empty_store_def)
  from only_admitted_jobs_enter [OF this k(1) r] k show ?thesis by blast
qed

end
