(* ===== verification/Bridge_Finish.thy ===== *)
theory Bridge_Finish
  imports Bridge_Ledger
begin

text \<open>
  The end of a job (\<open>src/crates/vgi-bridge/src/bridge.rs\<close>, \<open>finish_job\<close>, \<open>run_job\<close> and
  \<open>run_spawned_job\<close>): a job takes one result, and a job that is open when its task runs, with no
  failure to come, is finished and its result reaches the community.
\<close>

lemma no_failure_txn:
  assumes "coming_failures w = 0" "run_state (txn f) w = (r, w')"
  shows "r = Inr (fst (f (db w))) \<and> w' = w\<lparr>db := snd (f (db w))\<rparr>"
  using assms by (simp add: coming_failures_def run_txn_ok)

lemma no_failure_find:
  assumes "coming_failures w = 0" "run_state (find_rec t k) w = (r, w')"
  shows "r = map_of (fst t (db w)) k \<and> w' = w"
  using assms by (auto simp: find_rec_def get_rec_def or_else_def coming_failures_def run_txn_ok)

lemma finish_job_panics_iff:
  "fst (run_state (finish_job br k report) w) = None \<longleftrightarrow> result_of (br_gen br) k report = None"
  by (auto simp: finish_job_def done_some_def split: option.splits sum.splits bool.splits prod.splits)

text \<open>With no failure to come, an open job is finished and its result delivered.\<close>

lemma finish_job_finishes:
  assumes quiet: "coming_failures w = 0" and signer: "signer_works br" and keyed: "outbox_keyed (db w)"
    and open_job: "map_of (jobs (db w)) k = Some rec" "jr_state rec \<noteq> Finished"
    and result: "result_of (br_gen br) k report = Some base"
    and run: "run_state (finish_job br k report) w = (r, w')"
  shows "r = Some () \<and> (\<exists>res e at. res = attach (gl_fits_result (br_gen br)) base e
    \<and> jobs (db w') = tab_put k (finish_record res at rec) (jobs (db w))
    \<and> result_waits k res (db w') \<and> delivered br OkResult res w')"
proof -
  obtain e w1 where 1: "run_state (ext br (jr_namespace rec) (map_option (\<lambda>(r, i). (host r, i)) (rp_repo report))) w = (e, w1)"
    by (metis surj_pair)
  let ?res = "attach (gl_fits_result (br_gen br)) base e"
  have w1: "jobs (db w1) = jobs (db w)" "outbox_keyed (db w1)"
    using same_jobs [OF _ keyed 1] by (auto intro: ledger_rules)
  have q1: "coming_failures w1 = 0" using later_run [OF later_status 1] quiet by (simp add: later_def)
  obtain f w2 where 2: "run_state (store_finish_job k ?res (clock w1)) w1 = (f, w2)" by (metis surj_pair)
  then have f: "f = Inr True"
    "jobs (db w2) = tab_put k (finish_record ?res (clock w1) rec) (jobs (db w))"
    "outbox (db w2) = tab_put (result_key k) (outbox_new OkResult ?res) (outbox (db w1))" "coming_failures w2 = 0"
    using no_failure_txn [OF q1 2 [unfolded store_finish_job_def]] open_job w1 q1 by (auto simp: coming_failures_def)
  obtain u w3 where 3: "run_state (send_outbox br (result_key k)) w2 = (u, w3)" by (metis surj_pair)
  have find: "run_state (find_rec JOBS k) w = (Some rec, w)"
    using quiet open_job by (simp add: find_rec_def get_rec_def or_else_def coming_failures_def run_txn_ok table_defs)
  have "r = Some () \<and> w' = w3"
    using run find result 1 2 3 f(1) by (simp add: finish_job_def clock_now_def done_some_def)
  moreover have waits: "result_waits k ?res (db w2)"
    using w1(2) f(3) outbox_keyed_put [OF w1(2), of "outbox_new OkResult ?res" "result_key k"]
    by (simp add: result_waits_def outbox_new_def outbox_keyed_def result_key_def starts_with_prefix map_of_tab_put)
  moreover have "jobs (db w3) = jobs (db w2)"
    using same_jobs [OF _ _ 3] waits by (auto simp: result_waits_def intro: ledger_rules)
  moreover have "result_waits k ?res (db w3)" by (rule result_waits_sent [OF waits 3])
  moreover have "delivered br OkResult ?res w3"
    using send_outbox_delivers [OF signer waits 3] f(4) by simp
  ultimately show ?thesis
    using f(2) by (intro conjI exI [of _ ?res] exI [of _ e] exI [of _ "clock w1"]) simp_all
qed

section \<open>An open job, run without failures\<close>

text \<open>The world a job's payload runs in: its record is marked as running.\<close>

definition running_world :: "string \<Rightarrow> job_record \<Rightarrow> 'f world \<Rightarrow> 'f world" where
  "running_world k rec w = w\<lparr>db := (db w)\<lparr>jobs := tab_put k (set_running rec) (jobs (db w))\<rparr>\<rparr>"

lemma run_job_quiet:
  fixes w :: "'f world"
  assumes quiet: "coming_failures w = 0" and keyed: "outbox_keyed (db w)" "ns_keyed (db w)"
    and job: "map_of (jobs (db w)) k = Some rec" "jr_state rec \<noteq> Finished" "jr_payload rec = Some v"
      "gl_parse_job (br_gen br) v = Inr p" "well_formed_job p"
    and clips: "\<forall>ns c. ctx_with br ns = Inr c \<longrightarrow> drift_clips br c"
    and run: "run_state (run_spawned_job br k) w = (r, w')"
  shows "\<exists>report w1. run_state (finish_job br k report) w1 = (r, w')
    \<and> fst (run_state (run_job_payload br p (jr_issued_at rec)) (running_world k rec w)) = Some report \<and> coming_failures w1 = 0
    \<and> outbox_keyed (db w1) \<and> jobs (db w1) = tab_put k (set_running rec) (jobs (db w))"
proof -
  let ?w = "running_world k rec w"
  have get: "run_state (get_rec JOBS k) w = (Inr (Some rec), w)"
    using quiet job(1) by (simp add: get_rec_def coming_failures_def run_txn_ok table_defs)
  have set: "run_state (map_rec JOBS k set_running) w = (Inr (), ?w)"
    using quiet job(1) by (simp add: map_rec_def update_rec_def coming_failures_def run_txn_ok table_defs running_world_def)
  obtain a w1 where body: "run_state (run_job_payload br p (jr_issued_at rec)) ?w = (a, w1)" by (metis surj_pair)
  have keyed': "outbox_keyed (db ?w)" "ns_keyed (db ?w)" using keyed by (simp_all add: outbox_keyed_def ns_keyed_def running_world_def)
  obtain report where a: "a = Some report"
    using run_job_payload_reports [OF keyed' job(5) clips body] by blast
  have w1: "jobs (db w1) = tab_put k (set_running rec) (jobs (db w))" "outbox_keyed (db w1)"
    using same_jobs [OF _ keyed'(1) body] by (auto intro: ledger_rules simp: running_world_def)
  have q: "coming_failures w1 = 0"
    using later_run [OF later_run_job_payload body] quiet by (simp add: later_def coming_failures_def running_world_def)
  obtain f w2 where fin: "run_state (finish_job br k report) w1 = (f, w2)" by (metis surj_pair)
  have "r = f \<and> w' = w2"
    using run get set job body a fin
    by (cases f) (simp_all add: run_spawned_job_def run_job_def run_some_then)
  with fin w1 q body a show ?thesis by (intro exI [of _ report] exI [of _ w1]) simp
qed


definition open_ledger :: store where
  "open_ledger = empty_store\<lparr>jobs := [(''j1'', job_queued ''j1'' [] ''ns1'' ''inspect'' (JObject []) 980)]\<rparr>"

lemma open_ledger_report:
  "\<exists>report. fst (run_state (run_job_payload job_bridge example_inspect
      (jr_issued_at (job_queued ''j1'' [] ''ns1'' ''inspect'' (JObject []) 980)))
      (running_world ''j1'' (job_queued ''j1'' [] ''ns1'' ''inspect'' (JObject []) 980) (example_world open_ledger))) = Some report
    \<and> result_of (br_gen job_bridge) ''j1'' report \<noteq> None"
proof -
  let ?report = "fst (run_state (run_job_payload job_bridge example_inspect
      (jr_issued_at (job_queued ''j1'' [] ''ns1'' ''inspect'' (JObject []) 980)))
      (running_world ''j1'' (job_queued ''j1'' [] ''ns1'' ''inspect'' (JObject []) 980) (example_world open_ledger)))"
  have "case ?report of None \<Rightarrow> False | Some report \<Rightarrow> \<not> Option.is_none (result_of (br_gen job_bridge) ''j1'' report)"
    by code_simp
  then show ?thesis by (auto simp: Option.is_none_def split: option.splits)
qed


section \<open>A link used too late\<close>

lemma keeps_other_finish:
  assumes "j \<noteq> k"
  shows "keeps (jobs_inv (\<lambda>t. map_of t k = r)) (finish_job br j report)"
proof -
  have "keeps (jobs_inv (\<lambda>t. map_of t k = r)) (store_finish_job j res at)" for res at
    unfolding jobs_inv_def store_finish_job_def
  proof (rule keeps_txn)
    fix d
    assume d: "keyed_and (\<lambda>d. map_of (jobs d) k = r) d"
    then have "outbox_keyed (outbox_update (tab_put (result_key j) (outbox_new OkResult res)) d)"
      by (intro outbox_keyed_put) (simp_all add: keyed_and_def outbox_new_def result_key_def starts_with_def)
    with d assms show "keyed_and (\<lambda>d. map_of (jobs d) k = r) (snd (case map_of (jobs d) j of
         None \<Rightarrow> (False, d)
       | Some rec \<Rightarrow>
           if jr_state rec = Finished then (False, d)
           else (True, d\<lparr>jobs := tab_put j (finish_record res at rec) (jobs d),
                         outbox := tab_put (result_key j) (outbox_new OkResult res) (outbox d)\<rparr>)))"
      by (auto simp: keyed_and_def outbox_keyed_def map_of_tab_put split: option.split)
  qed
  then show ?thesis
    unfolding finish_job_def by (auto intro!: ledger_rules split: option.split sum.split bool.split)
qed

lemma keeps_other_expire:
  assumes "\<forall>(st, f) \<in> set flows. flow_job_id f \<noteq> Some k"
  shows "keeps (jobs_inv (\<lambda>t. map_of t k = r)) (each_some flows (\<lambda>(st, f). if late f then return (Some ()) else expire_one br st f))"
  using assms
proof (induction flows)
  case (Cons x xs)
  have "keeps (jobs_inv (\<lambda>t. map_of t k = r)) (expire_one br (fst x) (snd x))"
    using Cons.prems unfolding expire_one_def delete_secret_def
    by (auto simp: case_prod_beta intro!: ledger_rules keeps_other_finish split: option.split)
  with Cons show ?case
    by (auto simp: case_prod_beta intro!: ledger_rules)
qed (simp add: keeps_rules)

text \<open>The flows wait for no job \<open>k\<close>: its state never changes by their running out.\<close>

definition no_flow_for :: "string \<Rightarrow> store \<Rightarrow> bool" where
  "no_flow_for k d \<longleftrightarrow> (\<forall>(st, f) \<in> set (pending d). flow_job_id f \<noteq> Some k)"

lemma expire_passes_over:
  assumes "outbox_keyed (db w)" "no_flow_for k (db w)" "run_state (expire br) w = (r, w')"
  shows "map_of (jobs (db w')) k = map_of (jobs (db w)) k"
proof -
  obtain flows w1 where 1: "run_state (list_or_empty PENDING) w = (flows, w1)" by (metis surj_pair)
  have f: "flows = pending (db w) \<or> flows = []" "db w1 = db w"
    using 1 by (auto simp: list_or_empty_def or_else_def list_rec_def txn_def table_defs split: list.splits bool.splits)
  then have "\<forall>(st, f) \<in> set flows. flow_job_id f \<noteq> Some k" using assms(2) by (auto simp: no_flow_for_def)
  note keep = keeps_other_expire [OF this, where br = br]
  from assms(3) 1 have "run_state (each_some flows (\<lambda>(st, f).
       if clock w1 \<le> fl_expires f + (if is_device_link f then 60 else 0) then return (Some ())
       else expire_one br st f)) w1 = (r, w')"
    by (simp add: expire_def clock_now_def)
  from keeps_run [OF keep _ this] f assms(1) show ?thesis by (simp add: jobs_inv_iff)
qed

text \<open>C18: Cn. A link used too late strands its job. The callback of a bind takes its flow out of the store
  before it looks whether the flow has run out: when it comes after that time and before the
  bridge's next expiry, it is refused, the flow is gone, and the job stays as it was, waiting, without a
  result. Once no other flow waits for the job, expiry passes over it, however late: the failed
  result of code \<open>expired\<close> that is due to the community is never made.\<close>

theorem late_callback_strands_its_job:
  assumes "faults w = []"
    and "map_of (pending (db w)) (state_param params) = Some flow" "flow_job_id flow = Some k" "fl_expires flow < clock w"
    and "\<forall>(st, f) \<in> set (pending (db w)). flow_job_id f = Some k \<longrightarrow> st = state_param params"
    and "run_state (bind_callback_flow br h route_owner params) w = (r, w')"
  shows "r = Some (Inl ''this link has expired; start again'')
    \<and> jobs (db w') = jobs (db w) \<and> outbox (db w') = outbox (db w)
    \<and> (\<forall>w1 q w2. outbox_keyed (db w1) \<longrightarrow> pending (db w1) = pending (db w') \<longrightarrow> run_state (expire br) w1 = (q, w2)
        \<longrightarrow> map_of (jobs (db w2)) k = map_of (jobs (db w1)) k)"
proof -
  have "pending (db w') = tab_del (state_param params) (pending (db w)) \<and> jobs (db w') = jobs (db w)
      \<and> outbox (db w') = outbox (db w) \<and> r = Some (Inl ''this link has expired; start again'')"
    using assms(1,2,4,6)
    by (auto simp: bind_callback_flow_def Let_def take_flow_def ok_then_def update_rec_def run_txn_ok table_defs clock_now_def)
  moreover from this have none: "no_flow_for k (db w')"
    using assms(5) by (auto simp: no_flow_for_def tab_del_def)
  have "map_of (jobs (db w2)) k = map_of (jobs (db w1)) k"
    if "outbox_keyed (db w1)" "pending (db w1) = pending (db w')" "run_state (expire br) w1 = (q, w2)" for w1 q w2
    by (rule expire_passes_over [OF that(1) _ that(3)]) (use none that(2) in \<open>simp add: no_flow_for_def\<close>)
  ultimately show ?thesis by blast
qed

definition late_ledger :: store where
  "late_ledger = empty_store\<lparr>
     jobs := [(''j1'', (job_queued ''j1'' [] ''ns1'' ''beginBind'' (JObject []) 80)\<lparr>jr_state := Waiting\<rparr>)],
     pending := [(''s1'', FlowBind ''j1'' ''ns1'' (Resource ''code.example/acme'') 990)]\<rparr>"

lemma late_callback_strands_its_job_witness:
  "\<exists>w'. run_state (bind_callback_flow quiet_bridge ''code.example'' None [(''state'', ''s1'')]) (example_world late_ledger)
       = (Some (Inl ''this link has expired; start again''), w')
     \<and> map_option jr_state (map_of (jobs (db w')) ''j1'') = Some Waiting"
proof -
  obtain r w' where run: "run_state (bind_callback_flow quiet_bridge ''code.example'' None [(''state'', ''s1'')])
    (example_world late_ledger) = (r, w')" by (metis surj_pair)
  have w: "faults (example_world late_ledger) = []"
    "map_of (pending (db (example_world late_ledger))) (state_param [(''state'', ''s1'')])
      = Some (FlowBind ''j1'' ''ns1'' (Resource ''code.example/acme'') 990)"
    "\<forall>(st, f) \<in> set (pending (db (example_world late_ledger))). flow_job_id f = Some ''j1'' \<longrightarrow> st = state_param [(''state'', ''s1'')]"
    "map_option jr_state (map_of (jobs (db (example_world late_ledger))) ''j1'') = Some Waiting"
    by (simp_all add: example_world_def late_ledger_def state_param_def unwrap_or_def flow_job_id_def empty_store_def)
  have "fl_expires (FlowBind ''j1'' ''ns1'' (Resource ''code.example/acme'') 990) < clock (example_world late_ledger)"
    by (simp add: example_world_def)
  from late_callback_strands_its_job [OF w(1,2) _ this w(3) run] run w(4) show ?thesis
    by (simp add: flow_job_id_def)
qed

end
