(* ===== verification/Resign_Ledger.thy ===== *)
theory Resign_Ledger
  imports Bridge_Flows "HOL-Library.List_Lexorder" "HOL-Library.Product_Lexorder" "HOL-Library.Char_ord"
begin

text \<open>
  The provenance ledger of the Dependabot re-sign (\<open>vgi-bridge/src/resign.rs\<close>): which pushes made a
  branch what it is, by webhook deliveries that may come late, twice or never, and when a branch is
  Dependabot's alone. Object ids are hexadecimal, so that the code's slice of one is a prefix.
\<close>

section \<open>Names and bounds\<close>

definition MAX_PUSHES :: nat where "MAX_PUSHES = 256"

definition MAX_OWN :: nat where "MAX_OWN = 64"

definition MAX_BRANCHES_PER_REPO :: nat where "MAX_BRANCHES_PER_REPO = 64"

definition REPLAY_WINDOW_SECS :: int where "REPLAY_WINDOW_SECS = 6 * 86400"

definition WORKFLOWS :: string where "WORKFLOWS = ''.github/workflows''"

definition LEDGER_TTL_SECS :: int where "LEDGER_TTL_SECS = 90 * 86400"

definition DEPENDABOT_PREFIX :: string where "DEPENDABOT_PREFIX = ''dependabot/''"

definition ledger_key :: "string \<Rightarrow> u64 \<Rightarrow> string \<Rightarrow> string" where
  "ledger_key h i branch = h @ ''#'' @ show_word i @ ''#'' @ branch"

definition branch_component_ok :: "string \<Rightarrow> bool" where
  "branch_component_ok c \<longleftrightarrow> c \<noteq> [] \<and> \<not> starts_with ''.'' c \<and> \<not> ends_with ''.lock'' c"

definition check_branch_name :: "string \<Rightarrow> string + unit" where
  "check_branch_name branch =
     (if starts_with DEPENDABOT_PREFIX branch \<and> length branch \<le> 255
         \<and> list_all (\<lambda>b. is_ascii_alnum b \<or> b \<in> set ''._-/@+'') branch
         \<and> \<not> contains_sub ''..'' branch \<and> \<not> contains_sub [CHR ''@'', CHR 0x7B] branch \<and> \<not> contains_sub ''//'' branch
         \<and> \<not> ends_with ''/'' branch
         \<and> list_all branch_component_ok (split_on CHR ''/'' branch)
      then Inr ()
      else Inl (CHR 0x60 # branch @ ''` is not a Dependabot branch name this bridge pushes to''))"

section \<open>Room for one more ledger\<close>

text \<open>A loop whose body may fail with \<open>?\<close>.\<close>

fun each_ok :: "'a list \<Rightarrow> ('a \<Rightarrow> ('s, 'e + unit) state) \<Rightarrow> ('s, 'e + unit) state" where
  "each_ok [] body = return (Inr ())"
| "each_ok (x # xs) body = ok_then (body x) (\<lambda>_. each_ok xs body)"

text \<open>Host and repository id of a key, the first two parts of \<open>splitn(3, '#')\<close>.\<close>

definition ledger_prefix :: "string \<Rightarrow> string" where
  "ledger_prefix key =
     (case split_once ''#'' key of
        None \<Rightarrow> key @ ''##''
      | Some (h, rest) \<Rightarrow>
          h @ ''#'' @ (case split_once ''#'' rest of None \<Rightarrow> rest | Some (i, _) \<Rightarrow> i) @ ''#'')"

definition oldest_ledgers :: "string \<Rightarrow> branch_ledger table \<Rightarrow> string list" where
  "oldest_ledgers key all =
     (let same = sort (map (\<lambda>(k, l). (bl_touched l, k)) (filter (\<lambda>(k, _). starts_with (ledger_prefix key) k) all));
          excess = length same + 1 - MAX_BRANCHES_PER_REPO
      in map snd (take excess same))"

definition make_room :: "string \<Rightarrow> ('f, string + unit) io" where
  "make_room key = ok_then (get_rec BRANCHES key) (\<lambda>l.
     if l \<noteq> None then return (Inr ())
     else ok_then (list_rec BRANCHES) (\<lambda>all.
       each_ok (oldest_ledgers key all) (\<lambda>k. ok_then (delete_rec BRANCHES k) (\<lambda>_. return (Inr ())))))"

section \<open>Recording\<close>

text \<open>Whether a delivery is at least as new as every one recorded.\<close>

definition newest_push :: "push_event \<Rightarrow> branch_ledger option \<Rightarrow> bool" where
  "newest_push push current =
     (case (pe_pushed_at push, bl_last_pushed_at (unwrap_or current branch_ledger_default)) of
        (Some t, Some recent) \<Rightarrow> t \<ge> recent
      | (Some _, None) \<Rightarrow> True
      | (None, _) \<Rightarrow> current = None)"

definition push_record_of :: "push_event \<Rightarrow> int \<Rightarrow> push_record" where
  "push_record_of push now =
     \<lparr>pu_before = pe_before push, pu_after = pe_after push, pu_sender_login = pe_sender_login push,
      pu_sender_id = pe_sender_id push, pu_created = pe_created push, pu_delivery_id = pe_delivery_id push,
      pu_at = now\<rparr>"

definition add_push :: "push_record \<Rightarrow> branch_ledger \<Rightarrow> branch_ledger" where
  "add_push rec l =
     (if list_ex (\<lambda>p. pu_before p = pu_before rec \<and> pu_after p = pu_after rec \<and> pu_sender_id p = pu_sender_id rec)
           (bl_pushes l)
      then l
      else if length (bl_pushes l) \<ge> MAX_PUSHES then l\<lparr>bl_overflow := True\<rparr>
      else l\<lparr>bl_pushes := bl_pushes l @ [rec]\<rparr>)"

definition push_ledger ::
    "push_event \<Rightarrow> string \<Rightarrow> int \<Rightarrow> branch_ledger option \<Rightarrow> branch_ledger option \<times> u64 option" where
  "push_ledger push branch now current =
     (let l = unwrap_or current branch_ledger_default;
          pr = bl_pull_request l;
          newest = newest_push push current
      in if pe_deleted push
         then (if newest then (None, None) else (current, None))
         else
           (let l = (if pe_created push \<and> newest
                  then branch_ledger_default\<lparr>bl_pull_request := pr, bl_last_pushed_at := bl_last_pushed_at l\<rparr>
                  else l);
                l = l\<lparr>bl_repo := Some (pe_repo push), bl_branch := branch, bl_touched := now,
                      bl_last_pushed_at := (case pe_pushed_at push of
                          None \<Rightarrow> bl_last_pushed_at l
                        | Some t \<Rightarrow> Some (case bl_last_pushed_at l of None \<Rightarrow> t | Some recent \<Rightarrow> max recent t))\<rparr>
            in (Some (add_push (push_record_of push now) l), pr)))"

definition record_push :: "string \<Rightarrow> push_event \<Rightarrow> ('f, string + u64 option) io" where
  "record_push h push =
     (case push_branch push of
        None \<Rightarrow> return (Inl ''not a branch'')
      | Some branch \<Rightarrow> do {
          let key = ledger_key h (pe_repo_id push) branch;
          now \<leftarrow> clock_now;
          if (case pe_pushed_at push of None \<Rightarrow> False | Some t \<Rightarrow> t < now - REPLAY_WINDOW_SECS)
          then return (Inr None)
          else ok_then (if pe_deleted push then return (Inr ()) else make_room key) (\<lambda>_.
            update_rec BRANCHES key (push_ledger push branch now))
        })"

definition remember_pull_request :: "string \<Rightarrow> u64 \<Rightarrow> ('f, string + unit) io" where
  "remember_pull_request key number = ok_then (make_room key) (\<lambda>_. do {
     now \<leftarrow> clock_now;
     update_rec BRANCHES key (\<lambda>l.
       (Some ((unwrap_or l branch_ledger_default)\<lparr>bl_pull_request := Some number, bl_touched := now\<rparr>), ()))
   })"

definition add_own :: "string \<Rightarrow> string \<Rightarrow> int \<Rightarrow> branch_ledger \<Rightarrow> branch_ledger" where
  "add_own bef aft now l =
     l\<lparr>bl_own := (if length (bl_own l) \<ge> MAX_OWN then tl (bl_own l) else bl_own l)
         @ [\<lparr>op_before = bef, op_after = aft, op_at = now\<rparr>],
       bl_touched := now\<rparr>"

definition record_own :: "string \<Rightarrow> string \<Rightarrow> string \<Rightarrow> ('f, string + unit) io" where
  "record_own key bef aft = do {
     now \<leftarrow> clock_now;
     ok_then (update_rec BRANCHES key (\<lambda>l. case l of
         None \<Rightarrow> (None, Inl ''the branch's ledger disappeared'')
       | Some l \<Rightarrow> (Some (add_own bef aft now l), Inr ()))) return
   }"

definition note_skip :: "string \<Rightarrow> string \<Rightarrow> string \<Rightarrow> ('f, unit) io" where
  "note_skip key head why = do {
     now \<leftarrow> clock_now;
     _ \<leftarrow> map_rec BRANCHES key (\<lambda>l. l\<lparr>bl_last_skip := Some (head, why), bl_touched := now\<rparr>);
     return ()
   }"

section \<open>Whether a branch is clean\<close>

definition short :: "string \<Rightarrow> string" where
  "short sha = take 12 sha"

definition arrow :: string where
  "arrow = [CHR 0xE2, CHR 0x86, CHR 0x92]"

definition by_dependabot :: "string \<Rightarrow> u64 \<Rightarrow> push_record \<Rightarrow> bool" where
  "by_dependabot login i p \<longleftrightarrow> pu_sender_login p = login \<and> pu_sender_id p = i"

definition is_own :: "branch_ledger \<Rightarrow> push_record \<Rightarrow> bool" where
  "is_own l p \<longleftrightarrow> list_ex (\<lambda>x. op_before x = pu_before p \<and> op_after x = pu_after p) (bl_own l)"

text \<open>The walk from the head back to the branch's creation.\<close>

fun leads_to_creation :: "branch_ledger \<Rightarrow> string \<Rightarrow> u64 \<Rightarrow> nat \<Rightarrow> string \<Rightarrow> string + unit" where
  "leads_to_creation l login i 0 cur =
     Inl ''the recorded pushes do not lead back to the branch's creation''"
| "leads_to_creation l login i (Suc n) cur =
     (case find (\<lambda>p. pu_after p = cur) (bl_pushes l) of
        None \<Rightarrow>
          (case find (\<lambda>x. op_after x = cur) (bl_own l) of
             Some x \<Rightarrow> leads_to_creation l login i n (op_before x)
           | None \<Rightarrow> Inl (''the bridge has no record of the push that made '' @ short cur
               @ '' the head (it may have been down when it happened)''))
      | Some p \<Rightarrow>
          if pu_created p
          then (if by_dependabot login i p then Inr ()
                else Inl ''the branch was not created by Dependabot'')
          else if pu_before p = ZERO_SHA
          then Inl ''a push with no previous head is not marked as the creation''
          else leads_to_creation l login i n (pu_before p))"

definition is_clean :: "branch_ledger \<Rightarrow> string \<Rightarrow> string \<Rightarrow> u64 \<Rightarrow> string + unit" where
  "is_clean l head login i =
     (if bl_overflow l
      then Inl (''more than '' @ show_nat MAX_PUSHES @ '' pushes were made to the branch'')
      else (case find (\<lambda>p. \<not> by_dependabot login i p \<and> \<not> is_own l p) (bl_pushes l) of
          Some p \<Rightarrow> Inl (CHR 0x60 # pu_sender_login p @ ''` (id '' @ show_word (pu_sender_id p)
            @ '') pushed to the branch ('' @ short (pu_before p) @ '' '' @ arrow @ '' '' @ short (pu_after p) @ '')'')
        | None \<Rightarrow> leads_to_creation l login i (length (bl_pushes l) + length (bl_own l) + 1) head))"

section \<open>Deliveries\<close>

text \<open>The bound namespace of a repository on GitHub.\<close>

definition github_ctx :: "'f bridge \<Rightarrow> resource \<Rightarrow> ('f, 'f ctx option) io" where
  "github_ctx br repo = do {
     all \<leftarrow> list_rec NAMESPACES;
     case all of
       Inl _ \<Rightarrow> return None
     | Inr all \<Rightarrow>
         (case find (\<lambda>n. nr_state n = NsBound \<and> contains_resource (nr_resource n) repo) (map snd all) of
            None \<Rightarrow> return None
          | Some ns \<Rightarrow> do {
              c \<leftarrow> ctx_load br (nr_id ns);
              return (case c of
                  Inl _ \<Rightarrow> None
                | Inr c \<Rightarrow> if ad_github (cx_adapter c) = None then None else Some c)
            })
   }"

definition github_config_of :: "'f bridge \<Rightarrow> resource \<Rightarrow> github_config option" where
  "github_config_of br r = github_for (br_cfg br) (host r) (owner r)"

datatype status_code = OK_200 | ACCEPTED_202 | NO_CONTENT_204 | UNAUTHORIZED_401 | NOT_FOUND_404 | INTERNAL_500

text \<open>A verified push: recorded once, and the re-sign of its branch's pull request resumed.\<close>

definition record_delivered :: "string \<Rightarrow> string option \<Rightarrow> push_event \<Rightarrow> ('f, status_code) io" where
  "record_delivered h seen_key push = do {
     pr \<leftarrow> record_push h push;
     case pr of
       Inl _ \<Rightarrow> return INTERNAL_500
     | Inr pr \<Rightarrow> do {
         _ \<leftarrow> (case seen_key of
             None \<Rightarrow> return ()
           | Some k \<Rightarrow> do { now \<leftarrow> clock_now; _ \<leftarrow> put_rec DELIVERIES k now; return () });
         _ \<leftarrow> (case pr of
             Some number \<Rightarrow> if pe_deleted push then return ()
               else spawn (ResignPull (pe_repo push) (pe_repo_id push) number)
           | None \<Rightarrow> return ());
         return ACCEPTED_202
       }
   }"

definition on_push :: "'f bridge \<Rightarrow> string \<Rightarrow> push_event \<Rightarrow> ('f, status_code) io" where
  "on_push br h push =
     (case push_branch push of
        None \<Rightarrow> return NO_CONTENT_204
      | Some branch \<Rightarrow>
          if \<not> starts_with DEPENDABOT_PREFIX branch then return NO_CONTENT_204
          else if check_branch_name branch \<noteq> Inr () then return NO_CONTENT_204
          else do {
            c \<leftarrow> github_ctx br (pe_repo push);
            if Option.is_none c then return NO_CONTENT_204
            else do {
              let seen_key = map_option (\<lambda>d. h @ ''#'' @ d) (pe_delivery_id push);
              known \<leftarrow> (case seen_key of None \<Rightarrow> return False | Some k \<Rightarrow> already_seen k);
              if known then return OK_200 else record_delivered h seen_key push
            }
          })"

definition on_pull_request_triggers :: "'f bridge \<Rightarrow> check_trigger list \<Rightarrow> ('f, unit) io" where
  "on_pull_request_triggers br triggers = for_each triggers (\<lambda>t.
     case (ct_kind t, github_config_of br (ct_repo t)) of
       (CheckPullRequest number, Some gh) \<Rightarrow>
         if starts_with DEPENDABOT_PREFIX (unwrap_or (ct_head_ref t) [])
            \<and> ct_author_login t = Some (gc_dependabot_login gh)
         then spawn (ResignPull (ct_repo t) (ct_repo_id t) number) else return ()
     | _ \<Rightarrow> return ())"

text \<open>Ledgers nothing has touched for 90 days are dropped.\<close>

definition last_touched :: "branch_ledger \<Rightarrow> int" where
  "last_touched l = Max (set (map pu_at (bl_pushes l) @ map op_at (bl_own l) @ [bl_touched l]))"

definition prune_ledgers :: "('f, unit) io" where
  "prune_ledgers = do {
     ledgers \<leftarrow> list_or_empty BRANCHES;
     now \<leftarrow> clock_now;
     for_each ledgers (\<lambda>(key, l).
       if now - last_touched l > LEDGER_TTL_SECS then do { _ \<leftarrow> delete_rec BRANCHES key; return () } else return ())
   }"

section \<open>A clean branch\<close>

text \<open>
  What the walk is to decide: from the head, the recorded pushes (or, where one is missing, the
  bridge's own) lead back to a creation by Dependabot.
\<close>

inductive from_creation :: "branch_ledger \<Rightarrow> string \<Rightarrow> u64 \<Rightarrow> string \<Rightarrow> bool" for l login i where
  created: "find (\<lambda>p. pu_after p = cur) (bl_pushes l) = Some p \<Longrightarrow> pu_created p \<Longrightarrow> by_dependabot login i p
    \<Longrightarrow> from_creation l login i cur"
| pushed: "find (\<lambda>p. pu_after p = cur) (bl_pushes l) = Some p \<Longrightarrow> \<not> pu_created p \<Longrightarrow> pu_before p \<noteq> ZERO_SHA
    \<Longrightarrow> from_creation l login i (pu_before p) \<Longrightarrow> from_creation l login i cur"
| own: "find (\<lambda>p. pu_after p = cur) (bl_pushes l) = None \<Longrightarrow> find (\<lambda>x. op_after x = cur) (bl_own l) = Some x
    \<Longrightarrow> from_creation l login i (op_before x) \<Longrightarrow> from_creation l login i cur"

lemma walk_sound: "leads_to_creation l login i n cur = Inr u \<Longrightarrow> from_creation l login i cur"
  by (induction l login i n cur rule: leads_to_creation.induct)
    (auto intro: from_creation.intros split: option.splits if_splits)

lemma walk_complete: "from_creation l login i cur \<Longrightarrow> \<exists>n. leads_to_creation l login i n cur = Inr ()"
proof (induction rule: from_creation.induct)
  case (created cur p)
  then have "leads_to_creation l login i 1 cur = Inr ()" by simp
  then show ?case by blast
next
  case (pushed cur p)
  then obtain n where "leads_to_creation l login i n (pu_before p) = Inr ()" by blast
  with pushed have "leads_to_creation l login i (Suc n) cur = Inr ()" by simp
  then show ?case by blast
next
  case (own cur x)
  then obtain n where "leads_to_creation l login i n (op_before x) = Inr ()" by blast
  with own have "leads_to_creation l login i (Suc n) cur = Inr ()" by simp
  then show ?case by blast
qed

lemma walk_more: "leads_to_creation l login i n cur = Inr u \<Longrightarrow> leads_to_creation l login i (n + k) cur = Inr u"
  by (induction l login i n cur rule: leads_to_creation.induct) (auto split: option.splits if_splits)

text \<open>
  The walk never visits a commit twice on its way to a creation, so as many steps as there are
  records are enough: the least number of steps from the commits it visits takes every smaller
  value.
\<close>

definition walk_length :: "branch_ledger \<Rightarrow> string \<Rightarrow> u64 \<Rightarrow> string \<Rightarrow> nat" where
  "walk_length l login i cur = (LEAST n. leads_to_creation l login i n cur = Inr ())"

definition recorded_heads :: "branch_ledger \<Rightarrow> string set" where
  "recorded_heads l = pu_after ` set (bl_pushes l) \<union> op_after ` set (bl_own l)"

lemma walk_length_step:
  assumes "walk_length l login i cur = Suc k" "leads_to_creation l login i (Suc k) cur = Inr ()"
  shows "cur \<in> recorded_heads l
    \<and> (0 < k \<longrightarrow> (\<exists>c. leads_to_creation l login i k c = Inr () \<and> walk_length l login i c = k))"
proof -
  have least: "\<not> leads_to_creation l login i j cur = Inr ()" if "j \<le> k" for j
    using assms(1) not_less_Least [of j "\<lambda>n. leads_to_creation l login i n cur = Inr ()"] that
    by (simp add: walk_length_def)
  have known: "cur \<in> recorded_heads l"
    using assms(2) by (auto simp: recorded_heads_def find_Some_iff split: option.splits)
  moreover have "\<exists>c. leads_to_creation l login i k c = Inr () \<and> walk_length l login i c = k" if k: "0 < k"
  proof -
    have goes: "\<exists>c. leads_to_creation l login i k c = Inr ()
      \<and> (\<forall>j. leads_to_creation l login i j c = Inr () \<longrightarrow> leads_to_creation l login i (Suc j) cur = Inr ())"
      using assms(2) least [of "Suc 0"] k by (auto split: option.splits if_splits)
    then obtain c where c: "leads_to_creation l login i k c = Inr ()"
      "\<forall>j. leads_to_creation l login i j c = Inr () \<longrightarrow> leads_to_creation l login i (Suc j) cur = Inr ()" by blast
    have "walk_length l login i c = k"
      unfolding walk_length_def
    proof (rule Least_equality)
      show "leads_to_creation l login i k c = Inr ()" by (rule c(1))
      fix j assume "leads_to_creation l login i j c = Inr ()"
      with c(2) have "leads_to_creation l login i (Suc j) cur = Inr ()" by blast
      with least [of "Suc j"] show "k \<le> j" by (cases "Suc j \<le> k") auto
    qed
    with c(1) show ?thesis by blast
  qed
  ultimately show ?thesis by blast
qed

lemma walk_lengths:
  assumes "leads_to_creation l login i k cur = Inr ()" "walk_length l login i cur = k" "0 < m" "m \<le> k"
  shows "m \<in> walk_length l login i ` recorded_heads l"
  using assms
proof (induction k arbitrary: cur)
  case (Suc k)
  note step = walk_length_step [OF Suc.prems(2,1)]
  show ?case
  proof (cases "m = Suc k")
    case True
    with Suc.prems(2) have "m = walk_length l login i cur" by simp
    with step show ?thesis by (intro image_eqI [of _ _ cur]) simp_all
  next
    case False
    with Suc.prems(3,4) have "0 < k" "m \<le> k" by simp_all
    with step Suc.IH Suc.prems(3) show ?thesis by blast
  qed
qed simp

lemma enough_steps:
  "leads_to_creation l login i n cur = Inr () \<Longrightarrow>
     leads_to_creation l login i (length (bl_pushes l) + length (bl_own l) + 1) cur = Inr ()"
proof -
  let ?k = "walk_length l login i cur"
  assume "leads_to_creation l login i n cur = Inr ()"
  then have k: "leads_to_creation l login i ?k cur = Inr ()"
    unfolding walk_length_def by (rule LeastI)
  have "{1..?k} \<subseteq> walk_length l login i ` recorded_heads l"
    using walk_lengths [OF k refl] by auto
  then have "card {1..?k} \<le> card (recorded_heads l)"
    by (rule surj_card_le [rotated]) (simp add: recorded_heads_def)
  also have "card (recorded_heads l) \<le> length (bl_pushes l) + length (bl_own l)"
    unfolding recorded_heads_def
    by (rule order_trans [OF card_Un_le]) (auto intro!: add_mono order_trans [OF card_image_le] simp: card_length)
  finally have "?k \<le> length (bl_pushes l) + length (bl_own l)" by simp
  then show ?thesis
    using walk_more [OF k, of "length (bl_pushes l) + length (bl_own l) + 1 - ?k"] by simp
qed

text \<open>C8: Cn. A branch is clean exactly when Dependabot made it what it is. The check accepts a head exactly
  when no push was left out, every recorded push was made by the configured Dependabot account (by
  login and id) or is one the bridge made itself, and the records lead from the head back to a
  creation by Dependabot; the bound on the walk never cuts off one that would arrive.\<close>

theorem clean_iff_dependabots:
  "is_clean l head login i = Inr () \<longleftrightarrow>
     \<not> bl_overflow l
     \<and> list_all (\<lambda>p. by_dependabot login i p \<or> is_own l p) (bl_pushes l)
     \<and> from_creation l login i head"
proof -
  let ?n = "length (bl_pushes l) + length (bl_own l) + 1"
  have "leads_to_creation l login i ?n head = Inr () \<longleftrightarrow> from_creation l login i head"
    using walk_sound [of l login i ?n head] walk_complete [of l login i head] enough_steps [of l login i _ head] by blast
  then show ?thesis
    by (auto simp: is_clean_def list_all_iff find_None_iff find_Some_iff simp del: leads_to_creation.simps split: option.split)
qed

section \<open>Late deliveries\<close>

text \<open>A push that is neither Dependabot's nor the bridge's, on record.\<close>

definition stranger_pushed :: "branch_ledger \<Rightarrow> string \<Rightarrow> u64 \<Rightarrow> bool" where
  "stranger_pushed l login i \<longleftrightarrow> (\<exists>p \<in> set (bl_pushes l). \<not> by_dependabot login i p \<and> \<not> is_own l p)"

lemma stranger_never_clean: "stranger_pushed l login i \<Longrightarrow> is_clean l head login i \<noteq> Inr ()"
  by (auto simp: is_clean_def stranger_pushed_def find_None_iff split: option.splits)

lemma add_push_keeps: "set (bl_pushes l) \<subseteq> set (bl_pushes (add_push rec l)) \<and> bl_own (add_push rec l) = bl_own l"
  by (auto simp: add_push_def)

lemma old_push_ledger:
  assumes "\<not> newest_push push (Some l)" "stranger_pushed l login i"
  shows "\<exists>l'. fst (push_ledger push branch now (Some l)) = Some l' \<and> stranger_pushed l' login i"
proof -
  have more: "stranger_pushed (add_push rec m) login i" if "bl_pushes m = bl_pushes l" "bl_own m = bl_own l" for rec m
    using assms(2) add_push_keeps [of m rec] that by (auto simp: stranger_pushed_def is_own_def)
  with assms show ?thesis
    by (auto simp: push_ledger_def Let_def unwrap_or_def intro!: more)
qed

text \<open>C9: Cn. A late delivery forgives nothing. While the ledger of a branch holds a push by anyone but
  Dependabot and the bridge, a delivery that is older than the newest one recorded (or carries no
  time) leaves the ledger there and the branch unclean at every head, whatever it says of a creation
  or a deletion, whether it is recorded, ignored for its age or its transaction fails; and it touches
  no other branch's ledger.\<close>

theorem late_delivery_forgives_nothing:
  assumes "push_branch push = Some branch"
    and "map_of (branches (db w)) (ledger_key h (pe_repo_id push) branch) = Some l"
    and "stranger_pushed l login i" "\<not> newest_push push (Some l)"
    and "run_state (record_push h push) w = (r, w')"
  shows "(\<exists>l'. map_of (branches (db w')) (ledger_key h (pe_repo_id push) branch) = Some l'
      \<and> (\<forall>head. is_clean l' head login i \<noteq> Inr ()))
    \<and> (\<forall>k. k \<noteq> ledger_key h (pe_repo_id push) branch \<longrightarrow> map_of (branches (db w')) k = map_of (branches (db w)) k)"
proof -
  let ?key = "ledger_key h (pe_repo_id push) branch"
  obtain l' where l': "fst (push_ledger push branch (clock w) (Some l)) = Some l'" "stranger_pushed l' login i"
    using old_push_ledger [OF assms(4,3)] by blast
  have "branches (db w') = branches (db w) \<or> branches (db w') = tab_put ?key l' (branches (db w))"
    using assms(1,2,5) l'(1)
    by (auto simp: record_push_def Let_def ok_then_def make_room_def get_rec_def update_rec_def clock_now_def txn_def table_defs
        split: if_splits list.splits bool.splits option.splits prod.splits sum.splits)
  with assms(2,3) l'(2) stranger_never_clean show ?thesis
    by (auto simp: map_of_tab_put)
qed

text \<open>A branch Dependabot created and someone else pushed to, and an older delivery of its re-creation.\<close>

definition mixed_ledger :: branch_ledger where
  "mixed_ledger = branch_ledger_default\<lparr>bl_branch := ''dependabot/x'', bl_last_pushed_at := Some 900,
     bl_pushes := [
       \<lparr>pu_before = ZERO_SHA, pu_after = ''a1'', pu_sender_login = ''dependabot[bot]'', pu_sender_id = 49699333,
        pu_created = True, pu_delivery_id = None, pu_at = 890\<rparr>,
       \<lparr>pu_before = ''a1'', pu_after = ''b2'', pu_sender_login = ''mallory'', pu_sender_id = 7,
        pu_created = False, pu_delivery_id = None, pu_at = 900\<rparr>]\<rparr>"

definition old_creation :: push_event where
  "old_creation = \<lparr>pe_repo = Resource ''code.example/acme/w'', pe_repo_id = 5, pe_git_ref = ''refs/heads/dependabot/x'',
     pe_before = ZERO_SHA, pe_after = ''b2'', pe_created = True, pe_deleted = False, pe_forced = False,
     pe_sender_login = ''dependabot[bot]'', pe_sender_id = 49699333, pe_delivery_id = None, pe_pushed_at = Some 880\<rparr>"

definition mixed_store :: store where
  "mixed_store = empty_store\<lparr>branches := [(ledger_key ''code.example'' 5 ''dependabot/x'', mixed_ledger)]\<rparr>"

lemma late_delivery_forgives_nothing_witness:
  "\<exists>l'. map_of (branches (db (snd (run_state (record_push ''code.example'' old_creation) (example_world mixed_store)))))
       (ledger_key ''code.example'' 5 ''dependabot/x'') = Some l'
     \<and> is_clean l' ''b2'' ''dependabot[bot]'' 49699333 \<noteq> Inr ()"
proof -
  obtain r w' where run: "run_state (record_push ''code.example'' old_creation) (example_world mixed_store) = (r, w')"
    by (metis surj_pair)
  have "push_branch old_creation = Some ''dependabot/x''" by code_simp
  moreover have "map_of (branches (db (example_world mixed_store))) (ledger_key ''code.example'' (pe_repo_id old_creation) ''dependabot/x'') = Some mixed_ledger"
    by (simp add: example_world_def mixed_store_def old_creation_def)
  moreover have "stranger_pushed mixed_ledger ''dependabot[bot]'' 49699333" "\<not> newest_push old_creation (Some mixed_ledger)"
    by (simp_all add: stranger_pushed_def mixed_ledger_def by_dependabot_def is_own_def branch_ledger_default_def
        newest_push_def old_creation_def unwrap_or_def)
  ultimately show ?thesis
    using late_delivery_forgives_nothing [OF _ _ _ _ run] run by (simp add: old_creation_def) blast
qed

text \<open>
  The comment on \<open>record_push\<close> says that a late delivery can make a branch unclean but never clean.
  It can: one that fills a gap does.
\<close>

definition gap_ledger :: branch_ledger where
  "gap_ledger = mixed_ledger\<lparr>bl_pushes :=
     [(hd (bl_pushes mixed_ledger)),
      (hd (bl_pushes mixed_ledger))\<lparr>pu_before := ''b2'', pu_after := ''c3'', pu_created := False\<rparr>]\<rparr>"

lemma late_delivery_fills_gap:
  "\<not> newest_push (old_creation\<lparr>pe_before := ''a1'', pe_created := False\<rparr>) (Some gap_ledger)
   \<and> is_clean gap_ledger ''c3'' ''dependabot[bot]'' 49699333 \<noteq> Inr ()
   \<and> map_option (\<lambda>l. is_clean l ''c3'' ''dependabot[bot]'' 49699333)
       (fst (push_ledger (old_creation\<lparr>pe_before := ''a1'', pe_created := False\<rparr>) ''dependabot/x'' 1000 (Some gap_ledger)))
     = Some (Inr ())"
  by code_simp

end
