(* ===== verification/Bridge_Events.thy ===== *)
theory Bridge_Events
  imports Resign_Ledger Bridge_Finish
begin

text \<open>
  Webhooks (\<open>vgi-bridge/src/events.rs\<close>): whose delivery it is, that each is acted on once, and what the
  bridge reports after it. The headers and the body of a delivery are one value, which the adapter's
  own methods verify and read. What the code spawns is a task of the world; the pause before a new
  repository is called unmanaged is time in which other steps may come first.
\<close>

section \<open>What a delivery leads to\<close>

definition inspect_in :: "'f bridge \<Rightarrow> namespace_record \<Rightarrow> resource \<Rightarrow> ('f, unit option) io" where
  "inspect_in br ns repo = do {
     c \<leftarrow> ctx_load br (nr_id ns);
     case c of
       Inl _ \<Rightarrow> return (Some ())
     | Inr c \<Rightarrow> some_then (inspect_repo br c repo True None) (\<lambda>_. return (Some ()))
   }"

definition pull_opened_json :: "pull_opened \<Rightarrow> json option" where
  "pull_opened_json p = do {
     let h = host (po_repo p);
     author \<leftarrow> wire_account h (po_author p);
     actor \<leftarrow> wire_account h (po_actor p);
     Some (JObject ([(''type'', JString ''pullRequestOpened''), (''forgeId'', JString (show_word (po_forge_id p))),
       (''resource'', JString (as_str (po_repo p))), (''number'', JNumber (show_word (po_number p))),
       (''action'', JString (if po_reopened p then ''reopened'' else ''opened'')),
       (''author'', author), (''actor'', actor)]
       @ opt_member ''draft'' JBool (po_draft p) @ opt_member ''fromFork'' JBool (po_from_fork p)))
   }"

text \<open>Each delivery is reported once, under a key of its own.\<close>

definition first_pull_report :: "string \<Rightarrow> string option \<Rightarrow> ('f, bool) io" where
  "first_pull_report h delivery =
     (case delivery of
        None \<Rightarrow> return True
      | Some d \<Rightarrow> do {
          now \<leftarrow> clock_now;
          or_else (put_new DELIVERIES (h @ ''#'' @ d @ ''#pullRequestOpened'') now) False
        })"

definition pull_request_opened ::
    "'f bridge \<Rightarrow> scope \<Rightarrow> string option \<Rightarrow> pull_opened \<Rightarrow> ('f, bool option) io" where
  "pull_request_opened br s delivery p = do {
     admitted \<leftarrow> admits_repo s (po_repo p) (po_forge_id p) True;
     if \<not> admitted then return (Some False)
     else do {
       ns \<leftarrow> namespace_in s (po_repo p);
       case ns of
         None \<Rightarrow> return (Some False)
       | Some ns \<Rightarrow>
           if is_namespace_repo (po_repo p) \<or> po_forge_id p \<notin> nr_managed ns then return (Some False)
           else do {
             rec \<leftarrow> repo_in ns (po_forge_id p);
             if rec = None then return (Some False)
             else do {
               fresh \<leftarrow> first_pull_report (host (po_repo p)) delivery;
               if \<not> fresh then return (Some False)
               else (case pull_opened_json p of
                   None \<Rightarrow> return None
                 | Some ev \<Rightarrow> do { _ \<leftarrow> spawn (ReportEvent (nr_id ns) ev); return (Some True) })
             }
           }
     }
   }"

definition deleted_json :: "u64 \<Rightarrow> resource \<Rightarrow> json" where
  "deleted_json i r = JObject [(''type'', JString ''repoDeleted''), (''forgeId'', JString (show_word i)),
     (''resource'', JString (as_str r))]"

definition repo_created :: "'f bridge \<Rightarrow> scope \<Rightarrow> resource \<Rightarrow> u64 \<Rightarrow> ('f, unit) io" where
  "repo_created br s repo i = do {
     ns \<leftarrow> namespace_in s repo;
     case ns of
       None \<Rightarrow> return ()
     | Some ns \<Rightarrow> do {
         known \<leftarrow> (if is_namespace_repo repo then return True
                   else do { rec \<leftarrow> repo_in ns i; return (rec \<noteq> None) });
         if known then return () else report_unmanaged br ns repo i
       }
   }"

definition repo_deleted :: "'f bridge \<Rightarrow> scope \<Rightarrow> resource \<Rightarrow> u64 \<Rightarrow> ('f, unit) io" where
  "repo_deleted br s repo i = do {
     ns \<leftarrow> namespace_in s repo;
     case ns of
       None \<Rightarrow> return ()
     | Some ns \<Rightarrow>
         if is_namespace_repo repo then return ()
         else do {
           gone \<leftarrow> detach_from br ns i;
           if gone then report_event br (nr_id ns) (deleted_json i repo) else return ()
         }
   }"

definition repo_renamed :: "'f bridge \<Rightarrow> scope \<Rightarrow> u64 \<Rightarrow> resource \<Rightarrow> resource \<Rightarrow> ('f, unit) io" where
  "repo_renamed br s i from to = do {
     ns \<leftarrow> namespace_in s to;
     case ns of
       None \<Rightarrow> return ()
     | Some ns \<Rightarrow>
         if \<not> contains_resource (nr_resource ns) from then return ()
         else do {
           other \<leftarrow> claimed_elsewhere ns i;
           if other then return ()
           else do {
             _ \<leftarrow> detach_reused_name br (nr_id ns) to i;
             _ \<leftarrow> map_rec REPOS (repo_key (host to) i) (\<lambda>r.
               if rr_namespace r = nr_id ns then r\<lparr>rr_resource := to\<rparr> else r);
             report_event br (nr_id ns) (moved_json ''repoRenamed'' i from to)
           }
         }
   }"

text \<open>Where a transferred repository came from, in the scope of the delivery.\<close>

definition transferred_from ::
    "scope \<Rightarrow> u64 \<Rightarrow> resource option \<Rightarrow> resource \<Rightarrow> ('f, resource option) io" where
  "transferred_from s i from_ns to = do {
     rec \<leftarrow> the_repo_record (host to) i;
     known \<leftarrow> (case rec of
         None \<Rightarrow> return None
       | Some r \<Rightarrow>
           if \<not> covers s (rr_resource r) then return None
           else do {
             n \<leftarrow> find_rec NAMESPACES (rr_namespace r);
             return (case n of
                 None \<Rightarrow> None
               | Some n \<Rightarrow> if covers s (nr_resource n) then Some (rr_resource r) else None)
           });
     return (case known of
         Some r \<Rightarrow> Some r
       | None \<Rightarrow>
           (case from_ns of
              None \<Rightarrow> None
            | Some n \<Rightarrow>
                if covers s n
                then (case resource_join n (unwrap_or (repo_name to) []) of Inl _ \<Rightarrow> None | Inr r \<Rightarrow> Some r)
                else None))
   }"

definition repo_transferred ::
    "'f bridge \<Rightarrow> scope \<Rightarrow> u64 \<Rightarrow> resource option \<Rightarrow> resource \<Rightarrow> ('f, unit) io" where
  "repo_transferred br s i from_ns to = do {
     from \<leftarrow> transferred_from s i from_ns to;
     left \<leftarrow> (case from of None \<Rightarrow> return None | Some f \<Rightarrow> namespace_in s f);
     case (case (left, from) of
         (Some n, Some f) \<Rightarrow> if contains_resource (nr_resource n) f then Some (n, f) else None
       | _ \<Rightarrow> None) of
       Some (n, f) \<Rightarrow> transferred_out br n f to i
     | None \<Rightarrow> do {
         t \<leftarrow> namespace_in s to;
         case t of
           None \<Rightarrow> return ()
         | Some t \<Rightarrow> do { _ \<leftarrow> confirm_transfer_in br t i; report_unmanaged br t to i }
       }
   }"

text \<open>A collaborator changed: the role the account holds now, then the complete drift.\<close>

definition role_changed_json :: "u64 \<Rightarrow> resource \<Rightarrow> forge_account \<Rightarrow> forge_role option \<Rightarrow> json option" where
  "role_changed_json i repo account role = do {
     a \<leftarrow> wire_account (host repo) account;
     Some (JObject ([(''type'', JString ''roleChanged''), (''forgeId'', JString (show_word i)),
       (''resource'', JString (as_str repo)), (''account'', a)]
       @ opt_member ''role'' (\<lambda>r. JString (role_display r)) role))
   }"

definition collaborator_changed ::
    "'f bridge \<Rightarrow> scope \<Rightarrow> resource \<Rightarrow> u64 \<Rightarrow> forge_account \<Rightarrow> ('f, unit option) io" where
  "collaborator_changed br s repo i account = do {
     ns \<leftarrow> namespace_in s repo;
     case ns of
       None \<Rightarrow> return (Some ())
     | Some ns \<Rightarrow> do {
         c \<leftarrow> ctx_load br (nr_id ns);
         case c of
           Inl _ \<Rightarrow> return (Some ())
         | Inr c \<Rightarrow> do {
             st \<leftarrow> on_forge (fo_inspect (cx_ops c) repo);
             case st of
               Inl _ \<Rightarrow> return (Some ())
             | Inr st \<Rightarrow>
                 let role = map_option co_role
                       (find (\<lambda>x. acc_id (co_account x) = acc_id account) (rs_collaborators st))
                 in (case role_changed_json i repo account role of
                     None \<Rightarrow> return None
                   | Some ev \<Rightarrow> do {
                       _ \<leftarrow> report_event br (nr_id ns) ev;
                       rec \<leftarrow> repo_in ns i;
                       if rec \<noteq> None then inspect_in br ns repo else return (Some ())
                     })
           }
       }
   }"

definition protection_changed ::
    "'f bridge \<Rightarrow> scope \<Rightarrow> resource option \<Rightarrow> resource \<Rightarrow> ('f, unit option) io" where
  "protection_changed br s repo namespace = do {
     ns \<leftarrow> namespace_in s (unwrap_or repo namespace);
     case (ns, repo) of
       (None, _) \<Rightarrow> return (Some ())
     | (Some ns, Some repo) \<Rightarrow> inspect_in br ns repo
     | (Some ns, None) \<Rightarrow> do {
         c \<leftarrow> ctx_load br (nr_id ns);
         case c of
           Inl _ \<Rightarrow> return (Some ())
         | Inr c \<Rightarrow> some_then (sweep br c False report_default) (\<lambda>_. return (Some ()))
       }
   }"

text \<open>A change of the App's installation: only that of the namespace's own, as recorded at the bind.\<close>

definition installation_changed ::
    "'f bridge \<Rightarrow> scope \<Rightarrow> resource \<Rightarrow> u64 \<Rightarrow> installation_change \<Rightarrow> ('f, unit) io" where
  "installation_changed br s namespace installation change = do {
     ns \<leftarrow> namespace_in s namespace;
     case ns of
       None \<Rightarrow> return ()
     | Some ns \<Rightarrow>
         if Option.bind (nr_binding ns) (\<lambda>b. ns_installation_id (nb_namespace b)) \<noteq> Some installation
         then return ()
         else if change = InstallDeleted \<or> change = InstallSuspended
         then report_event br (nr_id ns) (JObject [(''type'', JString ''installationRemoved'')])
         else probe_bridge_checks br (nr_id ns)
   }"

fun handle_event :: "'f bridge \<Rightarrow> scope \<Rightarrow> forge_event_kind \<Rightarrow> ('f, unit option) io" where
  "handle_event br s (RepoCreated repo i) = done_some (repo_created br s repo i)"
| "handle_event br s (RepoDeleted repo i) = done_some (repo_deleted br s repo i)"
| "handle_event br s (RepoRenamed i from to) = done_some (repo_renamed br s i from to)"
| "handle_event br s (RepoTransferred i from_ns to) = done_some (repo_transferred br s i from_ns to)"
| "handle_event br s (CollaboratorChanged repo i account _) = collaborator_changed br s repo i account"
| "handle_event br s (ProtectionChanged repo namespace _) = protection_changed br s repo namespace"
| "handle_event br s (InstallationChanged namespace i change) =
     done_some (installation_changed br s namespace i change)"
| "handle_event br s (RepoArchived _ _ _) = return (Some ())"
| "handle_event br s (RepoVisibilityChanged _ _ _) = return (Some ())"
| "handle_event br s (OrgMembershipChanged _ _ _) = return (Some ())"
| "handle_event br s (TeamMembershipChanged _ _ _ _) = return (Some ())"
| "handle_event br s (PullRequestOpened _) = return (Some ())"

section \<open>A delivery\<close>

definition owner_scope :: "string \<Rightarrow> string option \<Rightarrow> scope" where
  "owner_scope h ow = \<lparr>sc_host = h, sc_owner = map_option to_ascii_lowercase ow\<rparr>"

fun filter_admitted :: "scope \<Rightarrow> check_trigger list \<Rightarrow> ('f, check_trigger list) io" where
  "filter_admitted s [] = return []"
| "filter_admitted s (t # ts) = do {
     admitted \<leftarrow> admits_repo s (ct_repo t) (ct_repo_id t) False;
     rest \<leftarrow> filter_admitted s ts;
     return (if admitted then t # rest else rest)
   }"

text \<open>Checks called for: not recorded as handled here, but once every one of them was posted.\<close>

definition on_triggers :: "'f bridge \<Rightarrow> scope \<Rightarrow> check_trigger list \<Rightarrow> ('f, status_code) io" where
  "on_triggers br s triggers = do {
     admitted \<leftarrow> filter_admitted s triggers;
     case admitted of
       [] \<Rightarrow> return NO_CONTENT_204
     | t # _ \<Rightarrow> do {
         let key = map_option (\<lambda>d. sc_host s @ ''#'' @ d) (ct_delivery_id t);
         known \<leftarrow> (case key of None \<Rightarrow> return False | Some k \<Rightarrow> already_seen k);
         if known then return OK_200
         else do {
           _ \<leftarrow> on_pull_request_triggers br admitted;
           _ \<leftarrow> spawn (RunChecks admitted key);
           return ACCEPTED_202
         }
       }
   }"

definition on_event_delivery :: "'f bridge \<Rightarrow> 'f adapter \<Rightarrow> scope \<Rightarrow> string \<Rightarrow> ('f, status_code option) io" where
  "on_event_delivery br a s body =
     (case fo_parse_event (ad_ops a) body of
        Inl _ \<Rightarrow> return (Some UNAUTHORIZED_401)
      | Inr None \<Rightarrow> return (Some NO_CONTENT_204)
      | Inr (Some ev) \<Rightarrow>
          if \<not> admits s (ev_kind ev) then return (Some NO_CONTENT_204)
          else (case ev_kind ev of
              PullRequestOpened p \<Rightarrow>
                some_then (pull_request_opened br s (ev_delivery_id ev) p) (\<lambda>_. return (Some ACCEPTED_202))
            | _ \<Rightarrow> do {
                known \<leftarrow> seen (sc_host s) (ev_delivery_id ev);
                if known then return (Some OK_200)
                else (case on_event (ad_hooks a) ev of
                    Abort _ \<Rightarrow> return (Some NO_CONTENT_204)
                  | d \<Rightarrow> do {
                      _ \<leftarrow> spawn (ActOnEvent (sc_host s) (sc_owner s) (ev_kind (modified ev d)));
                      return (Some ACCEPTED_202)
                    })
              }))"

definition report_pull_opened :: "'f bridge \<Rightarrow> 'f adapter \<Rightarrow> scope \<Rightarrow> string \<Rightarrow> ('f, unit option) io" where
  "report_pull_opened br a s body =
     (case fo_parse_event (ad_ops a) body of
        Inr (Some ev) \<Rightarrow>
          (case ev_kind ev of
             PullRequestOpened p \<Rightarrow>
               some_then (pull_request_opened br s (ev_delivery_id ev) p) (\<lambda>_. return (Some ()))
           | _ \<Rightarrow> return (Some ()))
      | _ \<Rightarrow> return (Some ()))"

definition on_webhook :: "'f bridge \<Rightarrow> string \<Rightarrow> string option \<Rightarrow> string \<Rightarrow> ('f, status_code option) io" where
  "on_webhook br h ow body =
     (case webhook_adapter br h ow of
        None \<Rightarrow> return (Some NOT_FOUND_404)
      | Some a \<Rightarrow>
          let s = owner_scope h ow
          in (case ad_github a of
               None \<Rightarrow> on_event_delivery br a s body
             | Some g \<Rightarrow>
                 (case gh_parse_push g body of
                    Inl _ \<Rightarrow> return (Some UNAUTHORIZED_401)
                  | Inr (Some push) \<Rightarrow> do {
                      admitted \<leftarrow> admits_repo s (pe_repo push) (pe_repo_id push) True;
                      if \<not> admitted then return (Some NO_CONTENT_204) else done_some (on_push br h push)
                    }
                  | Inr None \<Rightarrow>
                      some_then (report_pull_opened br a s body) (\<lambda>_.
                        case gh_parse_check_trigger g body of
                          Inl _ \<Rightarrow> return (Some UNAUTHORIZED_401)
                        | Inr [] \<Rightarrow> on_event_delivery br a s body
                        | Inr (t # ts) \<Rightarrow> done_some (on_triggers br s (t # ts))))))"

section \<open>A delivery speaks for its owner\<close>

fun task_in_scope :: "scope \<Rightarrow> task \<Rightarrow> bool" where
  "task_in_scope s (ResignPull repo _ _) = covers s repo"
| "task_in_scope s (RunChecks ts _) = list_all (\<lambda>t. covers s (ct_repo t)) ts"
| "task_in_scope s (ActOnEvent h ow _) = (h = sc_host s \<and> ow = sc_owner s)"
| "task_in_scope s (ReportEvent _ ev) = (\<exists>p. covers s (po_repo p) \<and> pull_opened_json p = Some ev)"
| "task_in_scope s _ = False"

text \<open>All of the database but the delivery ids, and the branch ledgers when \<open>pushed\<close>.\<close>

definition only_deliveries :: "bool \<Rightarrow> store \<Rightarrow> store \<Rightarrow> bool" where
  "only_deliveries pushed d d' \<longleftrightarrow>
     deliveries_update (\<lambda>_. []) (branches_update (\<lambda>_. []) d') = deliveries_update (\<lambda>_. []) (branches_update (\<lambda>_. []) d)
     \<and> (pushed \<or> branches d' = branches d)"

definition delivery_frame :: "bool \<Rightarrow> scope \<Rightarrow> 'f world \<Rightarrow> 'f world \<Rightarrow> bool" where
  "delivery_frame pushed s w0 w \<longleftrightarrow>
     only_deliveries pushed (db w0) (db w) \<and> forge_state w = forge_state w0 \<and> carried w = carried w0
     \<and> clock w = clock w0
     \<and> (\<exists>new. spawned w = spawned w0 @ new \<and> list_all (task_in_scope s) new)"

lemma frame_refl: "delivery_frame b s w w"
  by (simp add: delivery_frame_def only_deliveries_def)

lemma only_deliveries_trans: "only_deliveries b d0 d1 \<Longrightarrow> only_deliveries b d1 d2 \<Longrightarrow> only_deliveries b d0 d2"
  by (auto simp: only_deliveries_def)

lemma frame_txn:
  assumes "\<And>d. only_deliveries b d (snd (f d))"
  shows "keeps (delivery_frame b s w0) (txn f)"
proof -
  have step: "delivery_frame b s w0 (w\<lparr>db := snd (f (db w)), faults := x\<rparr>)" if "delivery_frame b s w0 w" for w x
    using that only_deliveries_trans [OF _ assms [of "db w"], of "db w0"] by (auto simp: delivery_frame_def)
  have fault: "delivery_frame b s w0 (w\<lparr>faults := x\<rparr>)" if "delivery_frame b s w0 w" for w x
    using that by (auto simp: delivery_frame_def)
  show ?thesis
    unfolding keeps_def txn_def using step fault by (auto split: list.split bool.split prod.split) (metis snd_conv)+
qed

lemma frame_ops:
  "keeps (delivery_frame b s w0) (get_rec t k)" "keeps (delivery_frame b s w0) (list_rec t)"
  "keeps (delivery_frame b s w0) (put_new DELIVERIES k v)" "keeps (delivery_frame b s w0) (put_rec DELIVERIES k v)"
  "keeps (delivery_frame True s w0) (update_rec BRANCHES k g)" "keeps (delivery_frame True s w0) (delete_rec BRANCHES k)"
  unfolding get_rec_def list_rec_def op_defs table_defs
  by (auto intro!: frame_txn simp: only_deliveries_def split: prod.split option.split)

lemma frame_spawn: "task_in_scope s t \<Longrightarrow> keeps (delivery_frame b s w0) (spawn t)"
  by (fastforce simp: keeps_def spawn_def delivery_frame_def)

lemma frame_reads [keeps_rules]:
  "keeps (delivery_frame b s w0) (find_rec t k)" "keeps (delivery_frame b s w0) (list_or_empty t)"
  "keeps (delivery_frame b s w0) (the_repo_record h i)" "keeps (delivery_frame b s w0) (namespace_in s' r)"
  "keeps (delivery_frame b s w0) (repo_in ns i)" "keeps (delivery_frame b s w0) (admits_repo s' r i need)"
  "keeps (delivery_frame b s w0) (already_seen k)" "keeps (delivery_frame b s w0) (seen h d)"
  "keeps (delivery_frame b s w0) (ctx_load br n)" "keeps (delivery_frame b s w0) (github_ctx br r)"
  unfolding find_rec_def list_or_empty_def the_repo_record_def namespace_in_def repo_in_def admits_repo_def
    already_seen_def seen_def github_ctx_def ctx_load_def bound_namespace_def
  by (intro keeps_rules frame_ops)+

lemma frame_record_push: "keeps (delivery_frame True s w0) (record_push h push)"
proof -
  have "keeps (delivery_frame True s w0) (each_ok xs (\<lambda>k. ok_then (delete_rec BRANCHES k) (\<lambda>_. return (Inr ()))))" for xs
    by (induction xs) (auto intro!: keeps_rules frame_ops)
  then show ?thesis
    unfolding record_push_def make_room_def Let_def by (intro keeps_rules frame_ops)
qed

lemma frame_on_push:
  assumes "covers s (pe_repo push)"
  shows "keeps (delivery_frame True s w0) (on_push br h push)"
  using assms unfolding on_push_def record_delivered_def Let_def
  by (intro keeps_rules frame_ops frame_record_push frame_spawn) simp

lemma frame_pull_opened: "keeps (delivery_frame b s w0) (pull_request_opened br s d p)"
proof (cases "covers s (po_repo p)")
  case True
  show ?thesis
  proof (cases "pull_opened_json p")
    case None
    show ?thesis
      unfolding pull_request_opened_def first_pull_report_def None option.case
      by (auto intro!: keeps_rules frame_ops split: option.split)
  next
    case (Some ev)
    with True have "keeps (delivery_frame b s w0) (spawn (ReportEvent i ev))" for i by (intro frame_spawn) auto
    then show ?thesis
      unfolding pull_request_opened_def first_pull_report_def Some option.case
      by (auto intro!: keeps_rules frame_ops split: option.split)
  qed
next
  case False
  then show ?thesis by (simp add: pull_request_opened_def admits_repo_def keeps_rules)
qed

lemma admitted_triggers:
  "triple (delivery_frame b s w0) (filter_admitted s ts)
     (\<lambda>ts' w. delivery_frame b s w0 w \<and> list_all (\<lambda>t. covers s (ct_repo t)) ts')"
proof (induction ts)
  case (Cons t ts)
  have "triple (delivery_frame b s w0) (admits_repo s (ct_repo t) (ct_repo_id t) False)
      (\<lambda>ok w. delivery_frame b s w0 w \<and> (ok \<longrightarrow> covers s (ct_repo t)))"
  proof (cases "covers s (ct_repo t)")
    case True
    then show ?thesis
      using frame_reads(6) [of b s w0 s "ct_repo t" "ct_repo_id t" False] by (simp add: keeps_triple)
  next
    case False
    then show ?thesis by (simp add: admits_repo_def triple_def)
  qed
  moreover have "triple (\<lambda>w. delivery_frame b s w0 w \<and> (ok \<longrightarrow> covers s (ct_repo t)))
     (do { rest \<leftarrow> filter_admitted s ts; return (if ok then t # rest else rest) })
     (\<lambda>ts' w. delivery_frame b s w0 w \<and> list_all (\<lambda>t. covers s (ct_repo t)) ts')" for ok
    using Cons.IH by (auto simp: triple_def split: prod.splits)
  ultimately show ?case
    unfolding filter_admitted.simps by (rule triple_bind)
qed (simp add: triple_def)

lemma frame_on_triggers: "keeps (delivery_frame b s w0) (on_triggers br s ts)"
  unfolding on_triggers_def keeps_triple
proof (rule triple_bind [OF admitted_triggers])
  fix ts' :: "check_trigger list"
  have resign: "keeps (delivery_frame b s w0) (for_each us (\<lambda>t. case (ct_kind t, github_config_of br (ct_repo t)) of
       (CheckPullRequest number, Some gh) \<Rightarrow>
         if starts_with DEPENDABOT_PREFIX (unwrap_or (ct_head_ref t) []) \<and> ct_author_login t = Some (gc_dependabot_login gh)
         then spawn (ResignPull (ct_repo t) (ct_repo_id t) number) else return ()
     | _ \<Rightarrow> return ()))" if "list_all (\<lambda>t. covers s (ct_repo t)) us" for us
    using that
    by (induction us) (auto intro!: keeps_rules frame_spawn split: check_trigger_kind.split option.split)
  have go: "keeps (delivery_frame b s w0) (case ts' of
       [] \<Rightarrow> return NO_CONTENT_204
     | t # _ \<Rightarrow> do {
         let key = map_option (\<lambda>d. sc_host s @ ''#'' @ d) (ct_delivery_id t);
         known \<leftarrow> (case key of None \<Rightarrow> return False | Some k \<Rightarrow> already_seen k);
         if known then return OK_200
         else do {
           _ \<leftarrow> on_pull_request_triggers br ts';
           _ \<leftarrow> spawn (RunChecks ts' key);
           return ACCEPTED_202
         }
       })" if "list_all (\<lambda>t. covers s (ct_repo t)) ts'"
    unfolding on_pull_request_triggers_def Let_def using resign [OF that] that
    by (auto intro!: keeps_rules frame_spawn split: list.split option.split)
  show "triple (\<lambda>w. delivery_frame b s w0 w \<and> list_all (\<lambda>t. covers s (ct_repo t)) ts') (case ts' of
       [] \<Rightarrow> return NO_CONTENT_204
     | t # _ \<Rightarrow> do {
         let key = map_option (\<lambda>d. sc_host s @ ''#'' @ d) (ct_delivery_id t);
         known \<leftarrow> (case key of None \<Rightarrow> return False | Some k \<Rightarrow> already_seen k);
         if known then return OK_200
         else do {
           _ \<leftarrow> on_pull_request_triggers br ts';
           _ \<leftarrow> spawn (RunChecks ts' key);
           return ACCEPTED_202
         }
       }) (\<lambda>_. delivery_frame b s w0)"
    using go unfolding keeps_triple by (cases "list_all (\<lambda>t. covers s (ct_repo t)) ts'") (simp_all add: triple_def)
qed

lemma frame_on_event: "keeps (delivery_frame b s w0) (on_event_delivery br a s body)"
  unfolding on_event_delivery_def
  by (auto intro!: keeps_rules frame_pull_opened frame_spawn split: sum.split option.split forge_event_kind.split hook_decision.split)

lemma frame_report_pull: "keeps (delivery_frame b s w0) (report_pull_opened br a s body)"
  unfolding report_pull_opened_def
  by (auto intro!: keeps_rules frame_pull_opened split: sum.split option.split forge_event_kind.split)

text \<open>The push that a delivery to this route is, if it is one its scope covers.\<close>

definition delivers_push :: "'f bridge \<Rightarrow> string \<Rightarrow> string option \<Rightarrow> string \<Rightarrow> bool" where
  "delivers_push br h ow body \<longleftrightarrow> (\<exists>a g push. webhook_adapter br h ow = Some a \<and> ad_github a = Some g
     \<and> gh_parse_push g body = Inr (Some push) \<and> covers (owner_scope h ow) (pe_repo push))"

definition refused_delivery :: "'f bridge \<Rightarrow> string \<Rightarrow> string option \<Rightarrow> string \<Rightarrow> bool" where
  "refused_delivery br h ow body \<longleftrightarrow> (\<exists>a. webhook_adapter br h ow = Some a
     \<and> (case ad_github a of
          Some g \<Rightarrow> (case gh_parse_push g body of Inl _ \<Rightarrow> True | Inr _ \<Rightarrow> False)
        | None \<Rightarrow> (case fo_parse_event (ad_ops a) body of Inl _ \<Rightarrow> True | Inr _ \<Rightarrow> False)))"

text \<open>C4: Cn. A delivery speaks for its App's owner only. Whatever a webhook says, whatever transactions
  fail, taking it changes nothing in the database but the ids of deliveries and, for a push to a
  repository of the owner it came for, the ledgers of branches; it does not touch the forge, sends nothing,
  and every task it leaves is about a repository of that owner (a re-sign, checks, a pull request to
  report) or acts in that owner's scope. One whose signature or form the adapter refuses is answered
  with 401 and changes nothing at all.\<close>

theorem delivery_speaks_for_its_owner:
  assumes "run_state (on_webhook br h ow body) w = (r, w')"
  shows "delivery_frame (delivers_push br h ow body) (owner_scope h ow) w w'
    \<and> (refused_delivery br h ow body \<longrightarrow> r = Some UNAUTHORIZED_401 \<and> w' = w)"
proof -
  let ?s = "owner_scope h ow" and ?b = "delivers_push br h ow body"
  have push: "keeps (delivery_frame ?b ?s w) (do {
      admitted \<leftarrow> admits_repo ?s (pe_repo push) (pe_repo_id push) True;
      if \<not> admitted then return (Some NO_CONTENT_204) else done_some (on_push br h push) })"
    if "webhook_adapter br h ow = Some a" "ad_github a = Some g" "gh_parse_push g body = Inr (Some push)" for a g push
  proof (cases "covers ?s (pe_repo push)")
    case True
    with that have "?b" unfolding delivers_push_def by blast
    then show ?thesis using frame_on_push [OF True] by (auto intro!: keeps_rules)
  next
    case False
    then show ?thesis by (simp add: admits_repo_def keeps_rules)
  qed
  have "keeps (delivery_frame ?b ?s w) (on_webhook br h ow body)"
  proof (cases "webhook_adapter br h ow")
    case (Some a)
    note event = frame_on_event [of ?b ?s w br a body]
    show ?thesis
    proof (cases "ad_github a")
      case g: (Some g)
      show ?thesis
      proof (cases "gh_parse_push g body")
        case read: (Inr push_of)
        show ?thesis
        proof (cases push_of)
          case None
          with read Some g event show ?thesis
            by (auto simp: on_webhook_def Let_def intro!: keeps_rules frame_on_triggers frame_report_pull split: sum.split list.split)
        next
          case push_is: (Some x)
          from push [OF Some g read [unfolded push_is]] show ?thesis
            by (simp add: on_webhook_def Let_def Some g read push_is)
        qed
      qed (simp add: on_webhook_def Let_def Some g keeps_rules)
    qed (simp add: on_webhook_def Let_def Some event)
  qed (simp add: on_webhook_def keeps_rules)
  from keeps_run [OF this frame_refl assms] have "delivery_frame ?b ?s w w'" .
  moreover have "r = Some UNAUTHORIZED_401 \<and> w' = w" if refused: "refused_delivery br h ow body"
  proof -
    from refused obtain a where a: "webhook_adapter br h ow = Some a" and no: "case ad_github a of
        Some g \<Rightarrow> (case gh_parse_push g body of Inl _ \<Rightarrow> True | Inr _ \<Rightarrow> False)
      | None \<Rightarrow> (case fo_parse_event (ad_ops a) body of Inl _ \<Rightarrow> True | Inr _ \<Rightarrow> False)"
      unfolding refused_delivery_def by blast
    show ?thesis
    proof (cases "ad_github a")
      case None
      with no obtain e where "fo_parse_event (ad_ops a) body = Inl e" by (auto split: sum.splits)
      with assms a None show ?thesis by (simp add: on_webhook_def on_event_delivery_def Let_def)
    next
      case (Some g)
      with no obtain e where "gh_parse_push g body = Inl e" by (auto split: sum.splits)
      with assms a Some show ?thesis by (simp add: on_webhook_def Let_def)
    qed
  qed
  ultimately show ?thesis by blast
qed

text \<open>A bridge with one forge, whose deliveries all say that a repository was deleted.\<close>

definition webhook_bridge :: "unit bridge" where
  "webhook_bridge = quiet_bridge\<lparr>br_adapters := (\<lambda>k. if k = (''code.example'', None)
     then Some (sample_adapter\<lparr>ad_ops := sample_ops\<lparr>fo_parse_event := (\<lambda>_. Inr (Some
       \<lparr>ev_delivery_id = Some ''d1'', ev_kind = RepoDeleted (Resource ''code.example/acme/w'') 5\<rparr>))\<rparr>\<rparr>) else None)\<rparr>"

lemma delivery_speaks_for_its_owner_witness:
  "\<exists>w'. run_state (on_webhook webhook_bridge ''code.example'' None []) (example_world empty_store) = (Some ACCEPTED_202, w')
     \<and> spawned w' = [ActOnEvent ''code.example'' None (RepoDeleted (Resource ''code.example/acme/w'') 5)]
     \<and> delivery_frame False (owner_scope ''code.example'' None) (example_world empty_store) w'"
proof -
  let ?run = "run_state (on_webhook webhook_bridge ''code.example'' None []) (example_world empty_store)"
  obtain r w' where run: "?run = (r, w')" by (metis surj_pair)
  have "\<not> delivers_push webhook_bridge ''code.example'' None []"
    by (auto simp: delivers_push_def webhook_adapter_def get_forgejo_def webhook_bridge_def sample_adapter_def split: if_splits)
  moreover have "fst ?run = Some ACCEPTED_202"
    "spawned (snd ?run) = [ActOnEvent ''code.example'' None (RepoDeleted (Resource ''code.example/acme/w'') 5)]"
    by code_simp+
  ultimately show ?thesis
    using delivery_speaks_for_its_owner [OF run] run by auto
qed

end
