(* ===== verification/Git_Fetcher.thy ===== *)
theory Git_Fetcher
  imports Resign_Ledger Merge_Policy
begin

text \<open>
  The hardened git of the bridge (\<open>vgi-bridge/src/checks.rs\<close>, \<open>GitFetcher\<close>): every command line it runs,
  with its environment, and what is made of the answer. Running a process is outside the program: it
  is the argument \<open>gf_run\<close>, an operation on the outside that ends with an exit (or a kill) and the
  bytes then in the repository. Errors are chains of contexts, outermost first.
\<close>

section \<open>Commands\<close>

record git_command =
  gi_args :: "string list"
  gi_env :: "(string \<times> string) list"
  gi_input :: "string option"

datatype git_end =
    GitNotStarted string
  | GitLost string
  | GitTimedOut
  | GitExited "int option" string string

record 'f git_fetcher =
  gf_run :: "git_command \<Rightarrow> ('f, git_end \<times> u64) state"
  gf_path :: string
  gf_max_bytes :: u64
  gf_base64 :: "string \<Rightarrow> string"
  gf_tempdir :: "('f, anyhow + string) state"

definition git_hardening :: "string list" where
  "git_hardening =
     [''core.hooksPath=/dev/null'', ''http.followRedirects=false'', ''protocol.allow=never'',
      ''core.fsmonitor=false'', ''submodule.recurse=false'', ''fetch.recurseSubmodules=false'',
      ''transfer.fsckObjects=true'', ''protocol.https.allow=always'']"

definition git_token_env :: "'f git_fetcher \<Rightarrow> string option \<Rightarrow> (string \<times> string) list" where
  "git_token_env gf token =
     (case token of
        None \<Rightarrow> []
      | Some t \<Rightarrow> [(''GIT_CONFIG_COUNT'', ''1''), (''GIT_CONFIG_KEY_0'', ''http.extraHeader''),
          (''GIT_CONFIG_VALUE_0'', ''Authorization: Basic '' @ gf_base64 gf (''x-access-token:'' @ t))])"

definition git_command_of ::
    "'f git_fetcher \<Rightarrow> string \<Rightarrow> string list \<Rightarrow> string option \<Rightarrow> bool \<Rightarrow> string option \<Rightarrow> git_command" where
  "git_command_of gf dir args token lazy input =
     \<lparr>gi_args = [''-C'', dir] @ concat (map (\<lambda>c. [''-c'', c]) git_hardening) @ args,
      gi_env = [(''PATH'', gf_path gf), (''HOME'', dir), (''GIT_CONFIG_NOSYSTEM'', ''1''),
          (''GIT_CONFIG_GLOBAL'', ''/dev/null''), (''GIT_TERMINAL_PROMPT'', ''0''),
          (''GIT_ASKPASS'', ''/bin/false''), (''GIT_PROTOCOL_FROM_USER'', ''0'')]
        @ (if lazy then [] else [(''GIT_NO_LAZY_FETCH'', ''1'')]) @ git_token_env gf token,
      gi_input = input\<rparr>"

text \<open>A run under the byte bound when it is watched; its exit is not judged.\<close>

definition git_run ::
    "'f git_fetcher \<Rightarrow> string \<Rightarrow> string list \<Rightarrow> string option \<Rightarrow> bool \<Rightarrow> bool
       \<Rightarrow> ('f, anyhow + int option \<times> string \<times> string) io" where
  "git_run gf dir args token watch lazy = do {
     (e, written) \<leftarrow> on_forge (gf_run gf (git_command_of gf dir args token lazy None));
     return (case e of
         GitNotStarted m \<Rightarrow> Inl [''running git'', m]
       | GitLost m \<Rightarrow> Inl [''waiting for git'', m]
       | GitTimedOut \<Rightarrow> Inl [''git '' @ hd args @ '' timed out'']
       | GitExited code out err \<Rightarrow>
           if watch \<and> written > gf_max_bytes gf
           then Inl [''the fetch passed '' @ show_word (gf_max_bytes gf) @ '' bytes; refusing a change this large'']
           else Inr (code, out, err))
   }"

definition git_error_line :: "string \<Rightarrow> string" where
  "git_error_line err =
     (let ls = lines (utf8_lossy err)
      in trim (case find (contains_sub ''rejected]'') ls of
           Some l \<Rightarrow> l
         | None \<Rightarrow> if ls = [] then ''failed'' else last ls))"

definition git_ok ::
    "'f git_fetcher \<Rightarrow> string \<Rightarrow> string list \<Rightarrow> string option \<Rightarrow> bool \<Rightarrow> ('f, anyhow + string) io" where
  "git_ok gf dir args token watch = ok_then (git_run gf dir args token watch False) (\<lambda>(code, out, err).
     return (if code = Some 0 then Inr out
             else Inl [''git '' @ hd args @ '': '' @ git_error_line err]))"

definition git_with_input ::
    "'f git_fetcher \<Rightarrow> string \<Rightarrow> string list \<Rightarrow> string \<Rightarrow> ('f, anyhow + string) io" where
  "git_with_input gf dir args input = do {
     (e, _) \<leftarrow> on_forge (gf_run gf (git_command_of gf dir args None False (Some input)));
     return (case e of
         GitNotStarted m \<Rightarrow> Inl [''running git'', m]
       | GitLost m \<Rightarrow> Inl [''waiting for git'', m]
       | GitTimedOut \<Rightarrow> Inl [''git '' @ hd args @ '' timed out'']
       | GitExited code out err \<Rightarrow>
           if code = Some 0 then Inr out
           else (let ls = lines (utf8_lossy err)
             in Inl [''git '' @ hd args @ '': '' @ (if ls = [] then ''failed'' else last ls)]))
   }"

section \<open>Object ids\<close>

definition is_sha :: "string \<Rightarrow> bool" where
  "is_sha s \<longleftrightarrow> (length s = 40 \<or> length s = 64)
     \<and> list_all (\<lambda>b. is_ascii_digit b \<or> b \<in> set ''abcdef'') s"

definition check_sha :: "string \<Rightarrow> forge_error + unit" where
  "check_sha s = (if is_sha s then Inr () else Inl (Protocol (CHR 0x60 # s @ ''` is not a commit id'')))"

text \<open>\<open>check_sha(..).map_err(|e| anyhow!(..))?\<close>\<close>

definition sha_ok :: "string \<Rightarrow> ('f, anyhow + 'a) io \<Rightarrow> ('f, anyhow + 'a) io" where
  "sha_ok s m = (case check_sha s of Inl e \<Rightarrow> return (Inl [forge_error_display e]) | Inr _ \<Rightarrow> m)"

definition branch_ok :: "string \<Rightarrow> ('f, anyhow + 'a) io \<Rightarrow> ('f, anyhow + 'a) io" where
  "branch_ok b m = (case check_branch_name b of Inl e \<Rightarrow> return (Inl [e]) | Inr _ \<Rightarrow> m)"

section \<open>Fetching\<close>

record fetched =
  ft_commits :: "range_commit list"
  ft_dir :: string

definition url_scheme :: "string \<Rightarrow> string" where
  "url_scheme u = (case split_once '':'' u of None \<Rightarrow> u | Some (s, _) \<Rightarrow> s)"

fun each_config :: "'f git_fetcher \<Rightarrow> string \<Rightarrow> (string \<times> string) list \<Rightarrow> ('f, anyhow + unit) io" where
  "each_config gf d [] = return (Inr ())"
| "each_config gf d ((k, v) # kvs) =
     ok_then (git_ok gf d [''config'', k, v] None False) (\<lambda>_. each_config gf d kvs)"

text \<open>The filters in turn, until a fetch succeeds; passing the byte bound ends them.\<close>

fun fetch_filters ::
    "'f git_fetcher \<Rightarrow> string \<Rightarrow> string \<Rightarrow> string option \<Rightarrow> string \<Rightarrow> string list \<Rightarrow> anyhow option
       \<Rightarrow> ('f, anyhow + unit) io" where
  "fetch_filters gf d depth token head [] prior =
     return (case prior of None \<Rightarrow> Inr () | Some e \<Rightarrow> Inl e)"
| "fetch_filters gf d depth token head (f # fs) prior =
     ok_then (git_ok gf d [''config'', ''remote.origin.partialclonefilter'', f] None False) (\<lambda>_. do {
       r \<leftarrow> git_ok gf d [''fetch'', ''--quiet'', ''--no-tags'', ''--no-write-fetch-head'',
              ''--no-recurse-submodules'', ''--filter='' @ f, depth, ''origin'', head] token True;
       case r of
         Inr _ \<Rightarrow> return (Inr ())
       | Inl e \<Rightarrow>
           if contains_sub ''bytes'' (hd e) then return (Inl e)
           else fetch_filters gf d depth token head fs (Some e)
     })"

fun read_commits :: "'f git_fetcher \<Rightarrow> string \<Rightarrow> string list \<Rightarrow> ('f, anyhow + range_commit list) io" where
  "read_commits gf d [] = return (Inr [])"
| "read_commits gf d (sha # shas) = do {
     r \<leftarrow> git_ok gf d [''cat-file'', ''commit'', sha] None False;
     case r of
       Inl e \<Rightarrow> return (Inl ((''commit '' @ sha @ '' did not arrive'') # e))
     | Inr raw \<Rightarrow> ok_then (read_commits gf d shas) (\<lambda>cs. return (Inr (\<lparr>rc_sha = sha, rc_raw = raw\<rparr> # cs)))
   }"

fun each_sha :: "string list \<Rightarrow> ('f, anyhow + 'a) io \<Rightarrow> ('f, anyhow + 'a) io" where
  "each_sha [] m = m"
| "each_sha (s # ss) m = sha_ok s (each_sha ss m)"

definition fetch_with ::
    "'f git_fetcher \<Rightarrow> string \<Rightarrow> string option \<Rightarrow> string \<Rightarrow> string list \<Rightarrow> string list \<Rightarrow> nat
       \<Rightarrow> ('f, anyhow + fetched) io" where
  "fetch_with gf remote token head commits filters extra_depth =
     sha_ok head (each_sha commits (
       if url_scheme remote \<noteq> ''https''
       then return (Inl [''refusing to fetch over `'' @ url_scheme remote @ ''`''])
       else ok_then (on_forge (gf_tempdir gf)) (\<lambda>d.
         ok_then (git_ok gf d [''init'', ''--quiet'', ''--bare''] None False) (\<lambda>_.
         ok_then (each_config gf d [(''core.repositoryformatversion'', ''1''),
             (''extensions.partialClone'', ''origin''), (''remote.origin.url'', remote),
             (''remote.origin.promisor'', ''true'')]) (\<lambda>_.
         ok_then (fetch_filters gf d (''--depth='' @ show_nat (max (length commits) 1 + extra_depth))
             token head filters None) (\<lambda>_.
         ok_then (read_commits gf d commits) (\<lambda>cs.
           return (Inr \<lparr>ft_commits = cs, ft_dir = d\<rparr>))))))))"

definition fetch ::
    "'f git_fetcher \<Rightarrow> string \<Rightarrow> string option \<Rightarrow> string \<Rightarrow> string list \<Rightarrow> ('f, anyhow + fetched) io" where
  "fetch gf remote token head commits =
     fetch_with gf remote token head commits [''tree:0'', ''blob:none''] 0"

definition fetch_for_rewrite ::
    "'f git_fetcher \<Rightarrow> string \<Rightarrow> string option \<Rightarrow> string \<Rightarrow> string list \<Rightarrow> ('f, anyhow + fetched) io" where
  "fetch_for_rewrite gf remote token head commits =
     fetch_with gf remote token head commits [''blob:none''] 1"

section \<open>Recomputing a merge\<close>

definition try_recompute_merge ::
    "'f git_fetcher \<Rightarrow> string \<Rightarrow> string option \<Rightarrow> string \<Rightarrow> string \<Rightarrow> string
       \<Rightarrow> ('f, anyhow + merge_outcome) io" where
  "try_recompute_merge gf dir token ours theirs base =
     each_sha [ours, theirs, base] (
       ok_then (git_ok gf dir [''config'', ''remote.origin.partialclonefilter'', ''blob:none''] None False) (\<lambda>_. do {
         r \<leftarrow> git_ok gf dir [''fetch'', ''--quiet'', ''--no-tags'', ''--no-write-fetch-head'',
                ''--no-recurse-submodules'', ''--filter=blob:none'', ''--depth=1'', ''origin'', ours, theirs, base]
                token True;
         case r of
           Inl e \<Rightarrow> return (Inl (''fetching the merge's parents'' # e))
         | Inr _ \<Rightarrow> ok_then (git_run gf dir (merge_tree_args ours theirs (Some base)) token True True)
             (\<lambda>(code, out, err). return (Inr (merge_outcome_of code out err)))
       }))"

definition fetcher_recompute ::
    "'f git_fetcher \<Rightarrow> string \<Rightarrow> string option \<Rightarrow> string \<Rightarrow> string \<Rightarrow> string \<Rightarrow> ('f, merge_outcome) io" where
  "fetcher_recompute gf dir token ours theirs base = do {
     r \<leftarrow> try_recompute_merge gf dir token ours theirs base;
     return (case r of Inr m \<Rightarrow> m | Inl e \<Rightarrow> Unavailable (join '': '' e))
   }"

section \<open>The branch, and pushing to it\<close>

definition MAX_MISSING_OBJECTS :: nat where
  "MAX_MISSING_OBJECTS = 2000"

definition missing_objects :: "string \<Rightarrow> string list" where
  "missing_objects listing = map trim (List.map_filter (strip_prefix ''?'') (lines (utf8_lossy listing)))"

definition complete_for_push ::
    "'f git_fetcher \<Rightarrow> string \<Rightarrow> string option \<Rightarrow> string \<Rightarrow> string \<Rightarrow> ('f, anyhow + unit) io" where
  "complete_for_push gf dir token new_head old_head =
     each_sha [new_head, old_head] (
       ok_then (git_ok gf dir [''rev-list'', ''--objects'', ''--missing=print'', new_head, ''^'' @ old_head] None False)
         (\<lambda>listing.
           let missing = missing_objects listing
           in if missing = [] then return (Inr ())
              else if length missing > MAX_MISSING_OBJECTS
              then return (Inl [''the change touches '' @ show_nat (length missing)
                @ '' files; more than the bridge re-signs ('' @ show_nat MAX_MISSING_OBJECTS @ '')''])
              else each_sha missing (
                ok_then (git_ok gf dir ([''fetch'', ''--quiet'', ''--no-tags'', ''--no-write-fetch-head'',
                    ''--no-recurse-submodules'', ''--filter=blob:none'', ''origin''] @ missing) token True)
                  (\<lambda>_. return (Inr ())))))"

fun head_line :: "string \<Rightarrow> string list \<Rightarrow> string option" where
  "head_line refname [] = None"
| "head_line refname (l # ls) =
     (case split_once [CHR 0x09] l of
        Some (sha, name) \<Rightarrow> if trim name = refname then Some sha else head_line refname ls
      | None \<Rightarrow> head_line refname ls)"

definition branch_head ::
    "'f git_fetcher \<Rightarrow> string \<Rightarrow> string option \<Rightarrow> string \<Rightarrow> ('f, anyhow + string option) io" where
  "branch_head gf dir token branch =
     branch_ok branch (
       let refname = ''refs/heads/'' @ branch
       in ok_then (git_ok gf dir [''ls-remote'', ''origin'', refname] token False) (\<lambda>out.
            case head_line refname (lines (utf8_lossy out)) of
              None \<Rightarrow> return (Inr None)
            | Some sha \<Rightarrow> sha_ok sha (return (Inr (Some sha)))))"

definition push_commits ::
    "'f git_fetcher \<Rightarrow> string \<Rightarrow> string option \<Rightarrow> string \<Rightarrow> string \<Rightarrow> string \<Rightarrow> ('f, anyhow + unit) io" where
  "push_commits gf dir token new_head branch lease =
     each_sha [new_head, lease] (branch_ok branch (
       ok_then (git_ok gf dir [''push'', ''--quiet'', ''--no-verify'', ''--no-thin'', ''--no-recurse-submodules'',
           ''--force-with-lease=refs/heads/'' @ branch @ '':'' @ lease, ''origin'',
           new_head @ '':refs/heads/'' @ branch] token False) (\<lambda>_. return (Inr ()))))"

end
