(* ===== verification/Bridge_Check.thy ===== *)
theory Bridge_Check
  imports Bridge_Events Git_Fetcher Verify_Run
begin

text \<open>
  The check the bridge posts itself (\<open>vgi-bridge/src/checks.rs\<close>): verify-trust run as a library over
  commits fetched by id, what of the repository it is told, the verdict, and when it is posted. A
  check run belongs to a commit, so that nothing is posted but against the protected branch. The
  locks that keep one check of a head from running twice at once are the model's whole steps. Outside
  the program are the git process, the DID resolver and the registry's answers: within one
  verification they are functions of the state of the outside. The outer option is \<open>None\<close> where the
  code would panic or not come back.
\<close>

section \<open>The verifier\<close>

record 'f check_tools =
  tl_fetcher :: "'f git_fetcher"
  tl_lib :: sig_lib
  tl_trql :: trql_lib
  tl_decode :: "string \<Rightarrow> bytes option"
  tl_selector :: transport_selector
  tl_channels :: "transport_kind list"
  tl_ready :: "'f \<Rightarrow> anyhow + unit"
  tl_resolve :: "'f \<Rightarrow> string \<Rightarrow> string + resolution"
  tl_services :: "'f \<Rightarrow> string \<Rightarrow> anyhow + Registry_Route.capabilities"
  tl_https :: "'f \<Rightarrow> string \<Rightarrow> anyhow + registry_client"
  tl_over_channel :: "'f \<Rightarrow> transport_kind \<Rightarrow> registry_client"
  tl_forget_did :: "string \<Rightarrow> ('f, unit) state"
  tl_read_file :: "'f \<Rightarrow> string \<Rightarrow> string option"

text \<open>Per GitHub host, the configured keyring; of two entries for a host the later one counts.\<close>

definition platform_keyrings :: "bridge_config \<Rightarrow> string \<Rightarrow> string option" where
  "platform_keyrings cfg =
     map_of (rev (List.map_filter (\<lambda>g. map_option (\<lambda>k. (gc_host g, k)) (gc_platform_keyring_file g)) (bc_github cfg)))"

definition exempts_platform_merges :: "'f bridge \<Rightarrow> string \<Rightarrow> bool" where
  "exempts_platform_merges br h \<longleftrightarrow> platform_keyrings (br_cfg br) h \<noteq> None"

definition discover_registry_route ::
    "'f check_tools \<Rightarrow> string \<Rightarrow> transport_kind list \<Rightarrow> 'f \<Rightarrow> (anyhow + transport_choice) option" where
  "discover_registry_route tk did ours f =
     (case tl_services tk f did of
        Inl e \<Rightarrow> Some (Inl e)
      | Inr caps \<Rightarrow> map_option (\<lambda>r. case r of
            Inl e \<Rightarrow> Inl [''no usable Trust Registry transport on '' @ did, e]
          | Inr choice \<Rightarrow> Inr choice)
          (choose_route (tl_trql tk) caps (tl_selector tk) ours))"

text \<open>The binding, from memory while it is fresh, or discovered and remembered.\<close>

definition registry_binding :: "'f bridge \<Rightarrow> 'f check_tools \<Rightarrow> ('f, (anyhow + transport_choice) option) io" where
  "registry_binding br tk = do {
     cached \<leftarrow> gets route_cache;
     now \<leftarrow> clock_now;
     case (case cached of
         Some (r, at) \<Rightarrow> if now - at < uint (bc_did_cache_ttl_secs (br_cfg br)) then Some r else None
       | None \<Rightarrow> None) of
       Some r \<Rightarrow> return (Some (Inr r))
     | None \<Rightarrow> do {
         found \<leftarrow> ask_forge (discover_registry_route tk (bc_trust_registry_did (br_cfg br)) (tl_channels tk @ [KindHttps]));
         case found of
           Some (Inr r) \<Rightarrow> do {
             _ \<leftarrow> modify (\<lambda>w. w\<lparr>route_cache := Some (r, now)\<rparr>);
             return (Some (Inr r))
           }
         | other \<Rightarrow> return other
       }
   }"

definition registry_of :: "'f bridge \<Rightarrow> 'f check_tools \<Rightarrow> ('f, (anyhow + registry_client) option) io" where
  "registry_of br tk = some_then (registry_binding br tk) (\<lambda>r. case r of
       Inl e \<Rightarrow> return (Some (Inl e))
     | Inr r \<Rightarrow>
         if choice_kind r = KindHttps
         then done_some (ask_forge (\<lambda>f. tl_https tk f (choice_endpoint r)))
         else if choice_kind r \<in> set (tl_channels tk)
         then done_some (ask_forge (\<lambda>f. Inr (tl_over_channel tk f (choice_kind r))))
         else return (Some (Inl [''the bridge cannot query the registry over '' @ show_kind (tl_trql tk) (choice_kind r)])))"

definition forget_endpoint :: "('f, unit) io" where
  "forget_endpoint = modify (\<lambda>w. w\<lparr>route_cache := None\<rparr>)"

record commit_line =
  cl_sha :: string
  cl_passes :: bool
  cl_verdict :: string

fun status_word :: "commit_status \<Rightarrow> string" where
  "status_word Unsigned = ''unsigned''"
| "status_word (Malformed _) = ''malformed''"
| "status_word (NoSignerDid _) = ''noSignerDid''"
| "status_word (ConflictingSignerDids _ _) = ''conflictingSignerDids''"
| "status_word (UnresolvedSigner _ _) = ''unresolvedSigner''"
| "status_word (UnknownKey _ _) = ''unknownKey''"
| "status_word (BadSignature _) = ''badSignature''"
| "status_word (Unauthorized _) = ''unauthorized''"
| "status_word (RegistryUnavailable _ _) = ''registryUnavailable''"
| "status_word (PgpRejected _) = ''pgpRejected''"
| "status_word (PlatformSignedEdit _) = ''platformSignedEdit''"
| "status_word (PlatformMergeUnverifiedParent _ _) = ''platformMergeUnverifiedParent''"
| "status_word (PlatformMergeAltered _ _) = ''platformMergeAltered''"
| "status_word (Exempt _) = ''exempt''"
| "status_word (Trusted _ _) = ''trusted''"

definition line_of :: "commit_verdict \<Rightarrow> commit_line" where
  "line_of v = \<lparr>cl_sha = cv_sha v, cl_passes = passes (cv_status v), cl_verdict = status_word (cv_status v)\<rparr>"

text \<open>The arguments of a run with no checkout and no range: what git would say is given as facts.\<close>

definition check_args :: "'f bridge \<Rightarrow> 'f check_tools \<Rightarrow> string \<Rightarrow> string \<Rightarrow> verify_trust_args" where
  "check_args br tk res fallback =
     \<lparr>repo_dir = [], revision_range = [], max_signers = bc_max_signers (br_cfg br), registry_url = None,
      transport = tl_selector tk, registry_did = bc_trust_registry_did (br_cfg br),
      vtc_did = bc_vtc_did (br_cfg br), action = ''git.commit.sign'', primary_resource = res,
      fallback_resource = Some fallback, exempt_keyring = None, resolve_agent_names = False,
      json_output = False\<rparr>"

definition load_keyring :: "'f check_tools \<Rightarrow> string \<Rightarrow> 'f \<Rightarrow> anyhow + pgp_key list" where
  "load_keyring tk path f =
     (case tl_read_file tk f path of
        None \<Rightarrow> Inl [''cannot read exempt keyring '' @ path]
      | Some txt \<Rightarrow>
          (case keyring_from_armored (tl_lib tk) txt of Inl e \<Rightarrow> Inl [e] | Inr ks \<Rightarrow> Inr ks))"

definition keyring_for :: "'f bridge \<Rightarrow> 'f check_tools \<Rightarrow> string \<Rightarrow> 'f \<Rightarrow> anyhow + pgp_key list option" where
  "keyring_for br tk h f =
     (case platform_keyrings (br_cfg br) h of
        None \<Rightarrow> Inr None
      | Some path \<Rightarrow> (case load_keyring tk path f of Inl e \<Rightarrow> Inl e | Inr ks \<Rightarrow> Inr (Some ks)))"

definition is_unavailable :: "commit_status \<Rightarrow> bool" where
  "is_unavailable s \<longleftrightarrow> (case s of RegistryUnavailable _ _ \<Rightarrow> True | _ \<Rightarrow> False)"

text \<open>One verification; a registry that could not be asked is discovered again the next time.\<close>

definition judge_range ::
    "'f bridge \<Rightarrow> 'f check_tools \<Rightarrow> range_commit list \<Rightarrow> merge_facts \<Rightarrow> string \<Rightarrow> string \<Rightarrow> resolved_signers
       \<Rightarrow> pgp_key list option \<Rightarrow> registry_client \<Rightarrow> ('f, anyhow + commit_verdict list) io" where
  "judge_range br tk rng facts res fallback signers exempt ask =
     (case verify_prepared_with_facts (tl_lib tk) (tl_trql tk) (check_args br tk res fallback) rng signers exempt ask facts of
        Inl e \<Rightarrow> do { _ \<leftarrow> forget_endpoint; return (Inl [e]) }
      | Inr report \<Rightarrow> do {
          _ \<leftarrow> (if list_ex (\<lambda>v. is_unavailable (cv_status v)) (report_commits report) then forget_endpoint
               else return ());
          return (Inr (report_commits report))
        })"

definition verify_once ::
    "'f bridge \<Rightarrow> 'f check_tools \<Rightarrow> range_commit list \<Rightarrow> merge_facts \<Rightarrow> string \<Rightarrow> string \<Rightarrow> string list
       \<Rightarrow> ('f, (anyhow + commit_verdict list) option) io" where
  "verify_once br tk rng facts res fallback claimed =
     some_then (registry_of br tk) (\<lambda>r. case r of
         Inl e \<Rightarrow> return (Some (Inl e))
       | Inr ask \<Rightarrow> do {
           signers \<leftarrow> ask_forge (\<lambda>f. resolve_signer_keys (tl_decode tk) (tl_resolve tk f) claimed);
           exempt \<leftarrow> ask_forge (keyring_for br tk (hd (split_on CHR ''/'' res)));
           case (signers, exempt) of
             (Inl e, _) \<Rightarrow> return (Some (Inl [e]))
           | (Inr _, Inl e) \<Rightarrow> return (Some (Inl e))
           | (Inr signers, Inr exempt) \<Rightarrow>
               done_some (judge_range br tk rng facts res fallback signers exempt ask)
         })"

text \<open>The signers whose keys may have changed since their documents were read.\<close>

definition stale_signers :: "commit_verdict list \<Rightarrow> string list" where
  "stale_signers vs = List.map_filter (\<lambda>v. case cv_status v of
       UnknownKey did _ \<Rightarrow> Some did | UnresolvedSigner did _ \<Rightarrow> Some did | _ \<Rightarrow> None) vs"

text \<open>Those that may be resolved again now. Each one asked about is noted, also when it may not.\<close>

fun take_stale :: "int \<Rightarrow> string list \<Rightarrow> (string \<times> int) list \<Rightarrow> string list \<times> (string \<times> int) list" where
  "take_stale now [] noted = ([], noted)"
| "take_stale now (d # ds) noted =
     (let (rest, noted') = take_stale now ds (AList.update d now noted)
      in (if map_of noted d = None then d # rest else rest, noted'))"

definition forget_old :: "int \<Rightarrow> (string \<times> int) list \<Rightarrow> (string \<times> int) list" where
  "forget_old now noted = filter (\<lambda>(_, t). now - t < RE_RESOLVE_EVERY) noted"

definition take_re_resolutions :: "string list \<Rightarrow> ('f, string list) io" where
  "take_re_resolutions ds = do {
     now \<leftarrow> clock_now;
     noted \<leftarrow> gets re_resolved;
     let (again, noted) = take_stale now ds (forget_old now noted);
     _ \<leftarrow> modify (\<lambda>w. w\<lparr>re_resolved := noted\<rparr>);
     return again
   }"

definition verify_with_facts ::
    "'f bridge \<Rightarrow> 'f check_tools \<Rightarrow> range_commit list \<Rightarrow> merge_facts \<Rightarrow> string \<Rightarrow> string
       \<Rightarrow> ('f, (anyhow + commit_verdict list) option) io" where
  "verify_with_facts br tk rng facts res fallback =
     (case claimed_signer_dids (scid (tl_lib tk)) rng (bc_max_signers (br_cfg br)) of
        Inl e \<Rightarrow> return (Some (Inl [e]))
      | Inr claimed \<Rightarrow> do {
          ready \<leftarrow> ask_forge (tl_ready tk);
          case ready of
            Inl e \<Rightarrow> return (Some (Inl e))
          | Inr _ \<Rightarrow> some_then (verify_once br tk rng facts res fallback claimed) (\<lambda>r. case r of
                Inl e \<Rightarrow> return (Some (Inl e))
              | Inr vs \<Rightarrow>
                  if stale_signers vs = [] then return (Some (Inr vs))
                  else do {
                    again \<leftarrow> take_re_resolutions (stale_signers vs);
                    if again = [] then return (Some (Inr vs))
                    else do {
                      _ \<leftarrow> for_each again (\<lambda>d. on_forge (tl_forget_did tk d));
                      verify_once br tk rng facts res fallback claimed
                    }
                  })
        })"

section \<open>What the policy is told of the repository\<close>

definition MAX_PLATFORM_MERGES :: nat where
  "MAX_PLATFORM_MERGES = 8"

text \<open>The parents of the listed commits that are not listed: on the protected branch already.\<close>

definition boundary_of_listing :: "range_commit list \<Rightarrow> string set" where
  "boundary_of_listing commits =
     set (concat (map (\<lambda>c. commit_parents (rc_raw c)) commits)) - set (map rc_sha commits)"

definition platform_merge_candidates :: "range_commit list \<Rightarrow> (string \<times> string \<times> string) list" where
  "platform_merge_candidates commits =
     List.map_filter (\<lambda>c. case commit_parents (rc_raw c) of
         [ours, theirs] \<Rightarrow> Some (rc_sha c, ours, theirs) | _ \<Rightarrow> None)
       (filter (\<lambda>c. case split_signed_commit (rc_raw c) of
           Inr (Some (_, pem)) \<Rightarrow> starts_with PGP_BEGIN pem | _ \<Rightarrow> False) commits)"

text \<open>Each candidate recomputed over the merge base the forge names, up to the bound.\<close>

fun merge_each ::
    "'f git_fetcher \<Rightarrow> string \<Rightarrow> string option \<Rightarrow> (string \<Rightarrow> string \<Rightarrow> ('f, anyhow + string) io)
       \<Rightarrow> nat \<Rightarrow> (string \<times> string \<times> string) list \<Rightarrow> (string \<Rightarrow> merge_outcome option)
       \<Rightarrow> ('f, string \<Rightarrow> merge_outcome option) io" where
  "merge_each gf dir token base_of n [] acc = return acc"
| "merge_each gf dir token base_of n ((merge, ours, theirs) # cs) acc = do {
     out \<leftarrow> (if n \<ge> MAX_PLATFORM_MERGES
       then return (Unavailable (''more than '' @ show_nat MAX_PLATFORM_MERGES @ '' platform-signed merges in one check''))
       else do {
         base \<leftarrow> base_of ours theirs;
         case base of
           Inr base \<Rightarrow> fetcher_recompute gf dir token ours theirs base
         | Inl e \<Rightarrow> return (Unavailable (''no merge base from the forge: '' @ join '': '' e))
       });
     merge_each gf dir token base_of (Suc n) cs (acc(merge \<mapsto> out))
   }"

definition gather_facts ::
    "'f git_fetcher \<Rightarrow> string \<Rightarrow> string option \<Rightarrow> range_commit list \<Rightarrow> bool
       \<Rightarrow> (string \<Rightarrow> string \<Rightarrow> ('f, anyhow + string) io) \<Rightarrow> ('f, merge_facts) io" where
  "gather_facts gf dir token commits recompute base_of =
     (if \<not> recompute then return \<lparr>boundary = boundary_of_listing commits, merges = Map.empty\<rparr>
      else do {
        ms \<leftarrow> merge_each gf dir token base_of 0 (platform_merge_candidates commits) Map.empty;
        return \<lparr>boundary = boundary_of_listing commits, merges = ms\<rparr>
      })"

section \<open>The verdict\<close>

type_synonym check_verdict = "check_conclusion \<times> string \<times> string"

definition check_mark :: "bool \<Rightarrow> string" where
  "check_mark b = (if b then [CHR 0xE2, CHR 0x9C, CHR 0x85] else [CHR 0xE2, CHR 0x9D, CHR 0x8C])"

definition replace_char :: "char \<Rightarrow> string \<Rightarrow> string \<Rightarrow> string" where
  "replace_char c by_text s = concat (map (\<lambda>x. if x = c then by_text else [x]) s)"

definition summary_row :: "commit_line \<Rightarrow> string" where
  "summary_row l = ''| `'' @ short (cl_sha l) @ ''` | '' @ check_mark (cl_passes l) @ '' ''
     @ replace_char CHR ''|'' ''/'' (cl_verdict l) @ '' |'' @ [newline]"

definition summarise :: "commit_line list \<Rightarrow> string \<Rightarrow> check_verdict" where
  "summarise ls base_ref =
     (let bad = length (filter (\<lambda>l. \<not> cl_passes l) ls);
          conclusion = (if bad = 0 \<and> ls \<noteq> [] then CheckSuccess else CheckFailure);
          title = (if ls = [] then ''No commits were verified''
            else if bad = 0 then ''All '' @ show_nat (length ls) @ '' commits are signed by trusted DIDs''
            else show_nat bad @ '' of '' @ show_nat (length ls) @ '' commits are not trusted'')
      in (conclusion, title,
          ''Checked by the community's bridge against its Trust Registry, for merging into `'' @ base_ref
          @ ''`.'' @ [newline, newline] @ ''| Commit | Verdict |'' @ [newline] @ ''|---|---|'' @ [newline]
          @ concat (map summary_row ls)))"

definition forge_err :: "forge_error + 'a \<Rightarrow> anyhow + 'a" where
  "forge_err r = (case r of Inl e \<Rightarrow> Inl [forge_error_display e] | Inr a \<Rightarrow> Inr a)"

definition ask_github :: "('f, forge_error + 'a) state \<Rightarrow> ('f, anyhow + 'a) io" where
  "ask_github m = do { r \<leftarrow> on_forge m; return (forge_err r) }"

definition empty_verdict :: "bool \<Rightarrow> string \<Rightarrow> check_verdict" where
  "empty_verdict tip base_ref =
     (if tip
      then (CheckSuccess, ''The head is the tip of `'' @ base_ref @ ''`; nothing to verify'',
            ''Every commit here is already part of the protected branch.'')
      else (CheckFailure, ''The head is already part of `'' @ base_ref @ ''`'',
            ''There is nothing to merge: the head commit is already contained in the protected branch.''))"

text \<open>The listing must be complete and within the bound.\<close>

definition listing_refused :: "nat \<Rightarrow> comparison \<Rightarrow> anyhow option" where
  "listing_refused most cmp =
     (if unat (cm_total cmp) > most
      then Some [show_word (cm_total cmp) @ '' commits are more than this bridge checks at once (''
             @ show_nat most @ ''); split the change'']
      else if of_nat (length (cm_commits cmp)) < cm_total cmp
      then Some [''GitHub listed '' @ show_nat (length (cm_commits cmp)) @ '' of the '' @ show_word (cm_total cmp)
             @ '' commits; the range cannot be checked from a partial list'']
      else None)"

text \<open>The fetched commits, their facts and their verdicts.\<close>

definition fetch_and_verify ::
    "'f bridge \<Rightarrow> 'f check_tools \<Rightarrow> 'f github_ops \<Rightarrow> 'f ctx \<Rightarrow> check_trigger \<Rightarrow> string list
       \<Rightarrow> ('f, (anyhow + commit_verdict list) option) io" where
  "fetch_and_verify br tk g c t commits = do {
     token \<leftarrow> ask_github (gh_contents_read_token g (ct_repo t));
     case (token, forge_err (gh_clone_url g (ct_repo t))) of
       (Inl e, _) \<Rightarrow> return (Some (Inl e))
     | (Inr _, Inl e) \<Rightarrow> return (Some (Inl e))
     | (Inr token, Inr remote) \<Rightarrow> do {
         got \<leftarrow> fetch (tl_fetcher tk) remote (Some token) (ct_head_sha t) commits;
         case got of
           Inl e \<Rightarrow> return (Some (Inl e))
         | Inr got \<Rightarrow> do {
             facts \<leftarrow> gather_facts (tl_fetcher tk) (ft_dir got) (Some token) (ft_commits got)
               (exempts_platform_merges br (host (ct_repo t)))
               (\<lambda>ours theirs. ask_github (gh_merge_base g (ct_repo t) ours theirs));
             verify_with_facts br tk (ft_commits got) facts (as_str (ct_repo t)) (as_str (nr_resource (cx_ns c)))
           }
       }
   }"

definition verify_trigger ::
    "'f bridge \<Rightarrow> 'f check_tools \<Rightarrow> 'f github_ops \<Rightarrow> 'f ctx \<Rightarrow> check_trigger \<Rightarrow> string \<Rightarrow> string
       \<Rightarrow> ('f, (anyhow + check_verdict) option) io" where
  "verify_trigger br tk g c t base_ref base_sha = do {
     cmp \<leftarrow> ask_github (gh_compare_commits g (ct_repo t) base_sha (ct_head_sha t));
     case cmp of
       Inl e \<Rightarrow> return (Some (Inl e))
     | Inr cmp \<Rightarrow>
         (case listing_refused (bc_max_commits (br_cfg br)) cmp of
            Some e \<Rightarrow> return (Some (Inl e))
          | None \<Rightarrow>
              if cm_commits cmp = []
              then return (Some (Inr (empty_verdict (ct_head_sha t = base_sha) base_ref)))
              else some_then (fetch_and_verify br tk g c t (cm_commits cmp)) (\<lambda>r.
                return (Some (case r of
                    Inl e \<Rightarrow> Inl e
                  | Inr vs \<Rightarrow> Inr (summarise (map line_of vs) base_ref)))))
   }"

section \<open>Whether a pull request is re-signed\<close>

definition opened_by_dependabot :: "github_config \<Rightarrow> pull_request_info \<Rightarrow> bool" where
  "opened_by_dependabot gh pr \<longleftrightarrow>
     pi_author_login pr = Some (gc_dependabot_login gh) \<and> pi_author_id pr = Some (gc_dependabot_id gh)"

text \<open>The branch's own condition: its ledger is there and clean up to the head.\<close>

definition branch_is_clean ::
    "resource \<Rightarrow> u64 \<Rightarrow> pull_request_info \<Rightarrow> github_config \<Rightarrow> ('f, string + unit) io" where
  "branch_is_clean repo repo_id pr gh = do {
     l \<leftarrow> get_rec BRANCHES (ledger_key (host repo) repo_id (pi_head_ref pr));
     return (case l of
         Inl e \<Rightarrow> Inl (''the ledger is unavailable: '' @ e)
       | Inr None \<Rightarrow> Inl ''the bridge recorded no push to the branch (it may have been down)''
       | Inr (Some l) \<Rightarrow> is_clean l (pi_head_sha pr) (gc_dependabot_login gh) (gc_dependabot_id gh))
   }"

definition wrong_base :: "pull_request_info \<Rightarrow> string option \<Rightarrow> string option" where
  "wrong_base pr protected = (case protected of None \<Rightarrow> None | Some p \<Rightarrow> if pi_base_ref pr \<noteq> p then Some p else None)"

text \<open>Everything that is not in the ledger: the keyring, or why not.\<close>

definition resign_rules ::
    "github_config \<Rightarrow> bool \<Rightarrow> string \<Rightarrow> u64 \<Rightarrow> pull_request_info \<Rightarrow> string option \<Rightarrow> string + string" where
  "resign_rules gh auto ns_owner repo_id pr protected =
     (if \<not> auto then Inl ''the namespace is in manual mode''
      else if \<not> resign_dependabot gh ns_owner then Inl ''the re-sign is turned off for this namespace''
      else (case gc_platform_keyring_file gh of
          None \<Rightarrow> Inl ''no platform (web-flow) keyring is configured, so GitHub's signatures cannot be checked''
        | Some keyring \<Rightarrow>
            if \<not> pi_open pr then Inl ''the pull request is closed''
            else if \<not> opened_by_dependabot gh pr then Inl ''the pull request was not opened by Dependabot''
            else if pi_head_repo_id pr \<noteq> Some repo_id \<or> pi_base_repo_id pr \<noteq> Some repo_id
            then Inl ''the pull request's head is not a branch of this repository''
            else (case (check_branch_name (pi_head_ref pr), wrong_base pr protected) of
                (Inl e, _) \<Rightarrow> Inl e
              | (Inr _, Some p) \<Rightarrow> Inl (''it does not target the protected branch `'' @ p @ ''`'')
              | (Inr _, None) \<Rightarrow> Inr keyring)))"

definition eligibility ::
    "'f bridge \<Rightarrow> 'f ctx \<Rightarrow> resource \<Rightarrow> u64 \<Rightarrow> pull_request_info \<Rightarrow> string option \<Rightarrow> ('f, string + string) io" where
  "eligibility br c repo repo_id pr protected =
     (case github_config_of br repo of
        None \<Rightarrow> return (Inl ''no GitHub is configured for this host'')
      | Some gh \<Rightarrow> do {
          caps \<leftarrow> ask_forge (fo_capabilities (cx_ops c) (cx_namespace c));
          case resign_rules gh (automation caps) (owner (nr_resource (cx_ns c))) repo_id pr protected of
            Inl e \<Rightarrow> return (Inl e)
          | Inr keyring \<Rightarrow> ok_then (branch_is_clean repo repo_id pr gh) (\<lambda>_. return (Inr keyring))
        })"

definition BY_HAND :: string where
  "BY_HAND = ''A maintainer who is an enrolled signer must re-sign the commits by hand (runbook ''
     @ [CHR 0xC2, CHR 0xA7] @ ''5: `gh pr checkout <number>`, then `git rebase --exec 'git commit ''
     @ ''--amend --no-edit -S' origin/main` and `git push --force-with-lease`)''"

text \<open>What a failing check on a Dependabot pull request says about the re-sign.\<close>

definition hint_text :: "string \<Rightarrow> string + unit \<Rightarrow> string" where
  "hint_text did verdict =
     [newline, newline] @ (case verdict of
        Inr _ \<Rightarrow> ''**Dependabot.** Only Dependabot has pushed to this branch, so the community's bridge re-signs ''
          @ ''these commits with its own DID (`'' @ did @ ''`) and the check runs again on the re-signed head ''
          @ em_dash @ '' unless they change `'' @ WORKFLOWS @ ''/`, which the bridge never re-signs. If the re-signed ''
          @ ''commits fail too, the VTC has not granted the bridge `git.commit.sign` on this namespace.''
      | Inl why \<Rightarrow>
          if contains_sub WORKFLOWS why
          then ''**Dependabot.** This pull request changes `'' @ WORKFLOWS @ ''/`, and the bridge never re-signs ''
            @ ''workflow changes. '' @ BY_HAND @ ''.''
          else ''**Dependabot.** The bridge will not re-sign this pull request: '' @ why @ ''. '' @ BY_HAND
            @ '', or Dependabot must start the branch over: close the pull request and delete the branch, ''
            @ ''or comment `@dependabot recreate` (which is re-signed only if Dependabot re-creates the ''
            @ ''branch rather than force-pushing it).'')"

definition noted_skip :: "string \<Rightarrow> branch_ledger option \<Rightarrow> string option" where
  "noted_skip head l =
     (case Option.bind l bl_last_skip of
        None \<Rightarrow> None
      | Some (h, why) \<Rightarrow> if h = head then Some why else None)"

definition check_hint ::
    "'f bridge \<Rightarrow> 'f ctx \<Rightarrow> check_trigger \<Rightarrow> pull_request_info \<Rightarrow> string \<Rightarrow> ('f, string option) io" where
  "check_hint br c t pr protected =
     (case github_config_of br (ct_repo t) of
        None \<Rightarrow> return None
      | Some gh \<Rightarrow>
          if \<not> opened_by_dependabot gh pr then return None
          else do {
            l \<leftarrow> find_rec BRANCHES (ledger_key (host (ct_repo t)) (ct_repo_id t) (pi_head_ref pr));
            may \<leftarrow> eligibility br c (ct_repo t) (ct_repo_id t) pr (Some protected);
            return (Some (hint_text (br_did br) (case may of
                Inl why \<Rightarrow> Inl why
              | Inr _ \<Rightarrow> (case noted_skip (pi_head_sha pr) l of None \<Rightarrow> Inr () | Some why \<Rightarrow> Inl why))))
          })"

section \<open>Posting\<close>

datatype check_outcome = CheckPosted check_conclusion | CheckSkipped string

definition check_namespace_of :: "'f bridge \<Rightarrow> resource \<Rightarrow> ('f, 'f ctx option) io" where
  "check_namespace_of br repo = do {
     all \<leftarrow> list_rec NAMESPACES;
     case all of
       Inl _ \<Rightarrow> return None
     | Inr all \<Rightarrow>
         (case find (\<lambda>n. (nr_state n = NsBound \<or> nr_state n = NsOrphaned) \<and> contains_resource (nr_resource n) repo)
             (map snd all) of
            None \<Rightarrow> return None
          | Some ns \<Rightarrow> do {
              c \<leftarrow> ctx_load_posting_checks br (nr_id ns);
              case c of
                Inl _ \<Rightarrow> return None
              | Inr c \<Rightarrow> do {
                  caps \<leftarrow> ask_forge (fo_capabilities (cx_ops c) (cx_namespace c));
                  return (if bridge_posted_check caps then Some c else None)
                }
            })
   }"

text \<open>The base a trigger is checked against: from GitHub where it can say, or why nothing is checked.\<close>

definition trigger_base ::
    "'f github_ops \<Rightarrow> check_trigger \<Rightarrow> ('f, anyhow + (string + string \<times> string \<times> pull_request_info option)) io" where
  "trigger_base g t =
     (case (case ct_kind t of CheckPullRequest n \<Rightarrow> Some n | CheckRerequested n \<Rightarrow> Some n | CheckMergeGroup \<Rightarrow> None) of
        None \<Rightarrow> return (Inr (Inr (ct_base_ref t, ct_base_sha t, None)))
      | Some n \<Rightarrow> ok_then (ask_github (gh_pull_request g (ct_repo t) n)) (\<lambda>pr. return (Inr (
          if \<not> pi_open pr then Inl ''the pull request is closed''
          else if pi_head_sha pr \<noteq> ct_head_sha t then Inl ''the pull request has moved on''
          else Inr (pi_base_ref pr, pi_base_sha pr, Some pr)))))"

definition orphaned_check :: "string \<Rightarrow> resource \<Rightarrow> check_verdict" where
  "orphaned_check vtc ns =
     (CheckFailure, ''The namespace is not governed by this VTC'',
      ''`'' @ as_str ns @ ''` is not governed by the VTC `'' @ vtc @ ''`: it answered that it does not have ''
      @ ''this namespace, so the bridge verifies nothing here and passes nothing. A namespace admin binds ''
      @ ''it again at the VTC; until then nothing can pass this check.'')"

definition failed_check :: "anyhow \<Rightarrow> check_verdict" where
  "failed_check e =
     (CheckFailure, ''The commits could not be verified'',
      ''The bridge could not complete the check, so it fails closed.'' @ [newline, newline]
      @ ''`'' @ replace_char CHR 0x60 [CHR 0x27] (hd e) @ ''`'')"

definition check_verdict_of ::
    "'f bridge \<Rightarrow> 'f check_tools \<Rightarrow> 'f github_ops \<Rightarrow> 'f ctx \<Rightarrow> check_trigger \<Rightarrow> string \<Rightarrow> string
       \<Rightarrow> ('f, check_verdict option) io" where
  "check_verdict_of br tk g c t base_ref base_sha =
     (if nr_is_orphaned (cx_ns c) then return (Some (orphaned_check (bc_vtc_did (br_cfg br)) (nr_resource (cx_ns c))))
      else some_then (verify_trigger br tk g c t base_ref base_sha) (\<lambda>r.
        return (Some (case r of Inr v \<Rightarrow> v | Inl e \<Rightarrow> failed_check e))))"

definition with_hint ::
    "'f bridge \<Rightarrow> 'f ctx \<Rightarrow> check_trigger \<Rightarrow> pull_request_info option \<Rightarrow> string \<Rightarrow> check_verdict \<Rightarrow> ('f, check_verdict) io" where
  "with_hint br c t pr protected v =
     (case (v, pr) of
        ((CheckFailure, title, summary), Some pr) \<Rightarrow>
          if nr_is_orphaned (cx_ns c) then return v
          else do {
            hint \<leftarrow> check_hint br c t pr protected;
            return (CheckFailure, title, summary @ unwrap_or hint [])
          }
      | _ \<Rightarrow> return v)"

text \<open>The check run started, judged and completed, and the last check noted on the repository.\<close>

definition post_check ::
    "'f bridge \<Rightarrow> 'f check_tools \<Rightarrow> 'f github_ops \<Rightarrow> 'f ctx \<Rightarrow> check_trigger \<Rightarrow> string \<Rightarrow> string
       \<Rightarrow> pull_request_info option \<Rightarrow> ('f, (anyhow + check_outcome) option) io" where
  "post_check br tk g c t base_ref base_sha pr = do {
     let check_name = (case vgi_for br (nr_resource (cx_ns c)) of
           None \<Rightarrow> DEFAULT_REQUIRED_CHECK | Some v \<Rightarrow> cfg_required_check v);
     started \<leftarrow> ask_github (gh_start_check_run g (ct_repo t) (ct_head_sha t) check_name (base_ref @ ''@'' @ ct_head_sha t));
     case started of
       Inl e \<Rightarrow> return (Some (Inl e))
     | Inr run_id \<Rightarrow> some_then (check_verdict_of br tk g c t base_ref base_sha) (\<lambda>v. do {
         v \<leftarrow> with_hint br c t pr base_ref v;
         finished \<leftarrow> ask_github (gh_finish_check_run g (ct_repo t) run_id (fst v) (fst (snd v)) (snd (snd v)));
         case finished of
           Inl e \<Rightarrow> return (Some (Inl e))
         | Inr _ \<Rightarrow> do {
             at \<leftarrow> clock_now;
             _ \<leftarrow> map_rec REPOS (repo_key (host (ct_repo t)) (ct_repo_id t)) (\<lambda>r.
               r\<lparr>rr_last_check := Some \<lparr>lc_sha = ct_head_sha t, lc_conclusion = check_conclusion_str (fst v), lc_at = at\<rparr>\<rparr>);
             return (Some (Inr (CheckPosted (fst v))))
           }
       })
   }"

text \<open>The check in its namespace: nothing is posted unless the base is the default branch.\<close>

definition check_in ::
    "'f bridge \<Rightarrow> 'f check_tools \<Rightarrow> 'f github_ops \<Rightarrow> 'f ctx \<Rightarrow> check_trigger \<Rightarrow> ('f, (anyhow + check_outcome) option) io" where
  "check_in br tk g c t = do {
     base \<leftarrow> trigger_base g t;
     case base of
       Inl e \<Rightarrow> return (Some (Inl e))
     | Inr (Inl why) \<Rightarrow> return (Some (Inr (CheckSkipped why)))
     | Inr (Inr (base_ref, base_sha, pr)) \<Rightarrow>
         if \<not> is_sha base_sha
         then return (Some (Inl [forge_error_display (Protocol (CHR 0x60 # base_sha @ ''` is not a commit id''))]))
         else do {
           protected \<leftarrow> ask_github (gh_default_branch g (ct_repo t));
           case protected of
             Inl e \<Rightarrow> return (Some (Inl e))
           | Inr protected \<Rightarrow>
               if base_ref \<noteq> protected
               then return (Some (Inr (CheckSkipped ''the base branch is not protected'')))
               else post_check br tk g c t base_ref base_sha pr
         }
   }"

definition check_run :: "'f bridge \<Rightarrow> 'f check_tools \<Rightarrow> check_trigger \<Rightarrow> ('f, (anyhow + check_outcome) option) io" where
  "check_run br tk t = do {
     c \<leftarrow> check_namespace_of br (ct_repo t);
     case c of
       None \<Rightarrow> return (Some (Inr (CheckSkipped ''not a bridge-check namespace'')))
     | Some c \<Rightarrow>
         (case ad_github (cx_adapter c) of
            None \<Rightarrow> return (Some (Inl [''bridge checks are GitHub's'']))
          | Some g \<Rightarrow> check_in br tk g c t)
   }"

end
