(* ===== verification/Bridge_Check_Run.thy ===== *)
theory Bridge_Check_Run
  imports Bridge_Check
begin

text \<open>
  The checks of a delivery and the report of a posted one (\<open>vgi-bridge/src/checks.rs\<close>), and what a
  green check rests on: \<open>green\<close> collects the answers that must have been given, and the rules of
  \<open>yields\<close> walk the code from its result back to them.
\<close>

section \<open>The checks of a delivery\<close>

text \<open>A report that waits: how long its task sleeps first; \<open>None\<close> where there is nothing to send.\<close>

definition REPORT_INTERVAL :: int where
  "REPORT_INTERVAL = 60"

definition report_delay :: "int \<Rightarrow> int option \<Rightarrow> int" where
  "report_delay now last_at = (case last_at of None \<Rightarrow> 0 | Some t \<Rightarrow> max 0 (t + REPORT_INTERVAL - now))"

definition report_slot :: "(string \<times> int option \<times> bool) list \<Rightarrow> string \<Rightarrow> int option \<times> bool" where
  "report_slot slots k = (case map_of slots k of None \<Rightarrow> (None, False) | Some s \<Rightarrow> s)"

definition report_check :: "check_trigger \<Rightarrow> ('f, int option) io" where
  "report_check t = do {
     let k = repo_key (host (ct_repo t)) (ct_repo_id t);
     rec \<leftarrow> get_rec REPOS k;
     case rec of
       Inl _ \<Rightarrow> return None
     | Inr None \<Rightarrow> return None
     | Inr (Some _) \<Rightarrow> do {
         slots \<leftarrow> gets report_slots;
         let (last_at, waiting) = report_slot slots k;
         if waiting then return None
         else do {
           _ \<leftarrow> modify (\<lambda>w. w\<lparr>report_slots := AList.update k (last_at, True) slots\<rparr>);
           now \<leftarrow> clock_now;
           _ \<leftarrow> spawn (ReportCheck k);
           return (Some (report_delay now last_at))
         }
       }
   }"

text \<open>The task, once its delay has passed: the slot is free again and the repository is inspected.\<close>

definition run_report_check :: "'f bridge \<Rightarrow> string \<Rightarrow> ('f, unit option) io" where
  "run_report_check br k = do {
     now \<leftarrow> clock_now;
     _ \<leftarrow> modify (\<lambda>w. w\<lparr>report_slots := AList.update k (Some now, False) (report_slots w)\<rparr>);
     rec \<leftarrow> find_rec REPOS k;
     case rec of
       None \<Rightarrow> return (Some ())
     | Some rec \<Rightarrow> do {
         c \<leftarrow> ctx_load br (rr_namespace rec);
         case c of
           Inl _ \<Rightarrow> return (Some ())
         | Inr c \<Rightarrow> some_then (inspect_repo br c (rr_resource rec) True None) (\<lambda>_. return (Some ()))
       }
   }"

fun run_triggers :: "'f bridge \<Rightarrow> 'f check_tools \<Rightarrow> check_trigger list \<Rightarrow> ('f, bool option) io" where
  "run_triggers br tk [] = return (Some True)"
| "run_triggers br tk (t # ts) = some_then (check_run br tk t) (\<lambda>r. do {
     _ \<leftarrow> (case r of
         Inr (CheckPosted _) \<Rightarrow> do { _ \<leftarrow> report_check t; return () }
       | _ \<Rightarrow> return ());
     some_then (run_triggers br tk ts) (\<lambda>all_ok. return (Some (all_ok \<and> (case r of Inl _ \<Rightarrow> False | Inr _ \<Rightarrow> True))))
   })"

text \<open>The spawned task: the delivery is recorded as handled only when every check completed.\<close>

definition run_checks ::
    "'f bridge \<Rightarrow> 'f check_tools \<Rightarrow> check_trigger list \<Rightarrow> string option \<Rightarrow> ('f, unit option) io" where
  "run_checks br tk ts key = some_then (run_triggers br tk ts) (\<lambda>all_ok. done_some (
     case (all_ok, key) of
       (True, Some k) \<Rightarrow> do { at \<leftarrow> clock_now; _ \<leftarrow> put_rec DELIVERIES k at; return () }
     | _ \<Rightarrow> return ()))"

section \<open>What a result rests on\<close>

lemma yields_some_then:
  "yields m (\<lambda>r. case r of None \<Rightarrow> True | Some a \<Rightarrow> R a) \<Longrightarrow> Q None
     \<Longrightarrow> (\<And>a. R a \<Longrightarrow> yields (f a) Q) \<Longrightarrow> yields (some_then m f) Q"
  unfolding some_then_def by (rule yields_bind, assumption) (auto intro: yields_rules split: option.splits)

lemma yields_some_any: "Q None \<Longrightarrow> (\<And>a. yields (f a) Q) \<Longrightarrow> yields (some_then m f) Q"
  by (rule yields_some_then [where R = "\<lambda>_. True"]) (auto intro: yields_conseq [OF yields_any] split: option.splits)

text \<open>What the outside can answer: some state of it in which the question has this answer.\<close>

definition answered :: "('f, forge_error + 'a) state \<Rightarrow> 'a \<Rightarrow> bool" where
  "answered m a \<longleftrightarrow> (\<exists>f. fst (run_state m f) = Inr a)"

lemma yields_ask_github:
  "yields (ask_github m) (\<lambda>r. case r of Inl _ \<Rightarrow> True | Inr a \<Rightarrow> answered m a)"
  by (rule yieldsI)
    (auto simp: ask_github_def on_forge_def forge_err_def answered_def split: prod.splits sum.splits, metis fst_conv)

lemma yields_ask_forge: "(\<And>f. Q (q f)) \<Longrightarrow> yields (ask_forge q) Q"
  by (rule yieldsI) (auto simp: ask_forge_def)

lemma yields_done_some: "yields m (\<lambda>a. Q (Some a)) \<Longrightarrow> yields (done_some m) Q"
  unfolding done_some_def by (rule yields_bind, assumption) (rule yields_return)

section \<open>A green check\<close>

text \<open>The clients a verification may have asked: over HTTPS, or over a channel of the bridge.\<close>

definition registry_client_of :: "'f check_tools \<Rightarrow> registry_client \<Rightarrow> bool" where
  "registry_client_of tk ask \<longleftrightarrow>
     (\<exists>f e. tl_https tk f e = Inr ask) \<or> (\<exists>f k. k \<in> set (tl_channels tk) \<and> ask = tl_over_channel tk f k)"

text \<open>
  A range each commit of which is vouched for, at the resource and the fallback asked about, with
  keys published by the signers' own documents and the keyring of the configuration, merges being
  recomputed and their parents on the boundary of the listing.
\<close>

definition vouched_range ::
    "'f bridge \<Rightarrow> 'f check_tools \<Rightarrow> string \<Rightarrow> string \<Rightarrow> range_commit list \<Rightarrow> merge_facts \<Rightarrow> bool" where
  "vouched_range br tk res fallback rng facts \<longleftrightarrow>
     (\<exists>claimed signers exempt ask f1 f2.
        claimed_signer_dids (scid (tl_lib tk)) rng (bc_max_signers (br_cfg br)) = Inr claimed
      \<and> resolve_signer_keys (tl_decode tk) (tl_resolve tk f1) claimed = Inr signers
      \<and> keyring_for br tk (hd (split_on CHR ''/'' res)) f2 = Inr exempt
      \<and> registry_client_of tk ask
      \<and> (\<forall>i<length rng. vouched (tl_lib tk) (check_args br tk res fallback) rng signers exempt ask
            (Facts facts) i))"

definition all_pass :: "commit_verdict list \<Rightarrow> bool" where
  "all_pass vs \<longleftrightarrow> (\<forall>v\<in>set vs. passes (cv_status v))"

lemma yields_registry_of:
  "yields (registry_of br tk) (\<lambda>r. case r of None \<Rightarrow> True | Some a \<Rightarrow>
     (case a of Inl _ \<Rightarrow> True | Inr ask \<Rightarrow> registry_client_of tk ask))"
  unfolding registry_of_def
  by (intro yields_some_any yields_sum yields_if yields_return yields_done_some yields_ask_forge)
    (auto simp: registry_client_of_def split: sum.splits)

lemma yields_judge_range:
  assumes "claimed_signer_dids (scid (tl_lib tk)) rng (bc_max_signers (br_cfg br)) = Inr claimed"
    and "resolve_signer_keys (tl_decode tk) (tl_resolve tk f1) claimed = Inr signers"
    and "keyring_for br tk (hd (split_on CHR ''/'' res)) f2 = Inr exempt" "registry_client_of tk ask"
  shows "yields (judge_range br tk rng facts res fallback signers exempt ask)
     (\<lambda>r. case r of Inr vs \<Rightarrow> all_pass vs \<longrightarrow> vouched_range br tk res fallback rng facts | Inl _ \<Rightarrow> True)"
proof -
  have "vouched_range br tk res fallback rng facts"
    if "verify_prepared_with_facts (tl_lib tk) (tl_trql tk) (check_args br tk res fallback) rng signers exempt ask facts
          = Inr report" "all_pass (report_commits report)" for report
  proof -
    from that have "verify_prepared_inner (tl_lib tk) (tl_trql tk) (check_args br tk res fallback) rng signers exempt
        ask (Facts facts) = Inr report"
      by (simp add: verify_prepared_with_facts_def)
    note pass = passing_vouched [OF this]
    then have "length (report_commits report) = length rng" using map_eq_imp_length_eq by blast
    with pass(2) that(2) have "vouched (tl_lib tk) (check_args br tk res fallback) rng signers exempt ask (Facts facts) i"
      if "i < length rng" for i
      using that by (simp add: all_pass_def all_set_conv_all_nth)
    with assms show ?thesis unfolding vouched_range_def by blast
  qed
  then show ?thesis
    unfolding judge_range_def by (auto intro!: yields_rules yields_after split: sum.splits)
qed

lemma yields_verify_once:
  assumes "claimed_signer_dids (scid (tl_lib tk)) rng (bc_max_signers (br_cfg br)) = Inr claimed"
  shows "yields (verify_once br tk rng facts res fallback claimed)
     (\<lambda>r. case r of None \<Rightarrow> True | Some a \<Rightarrow>
        (case a of Inr vs \<Rightarrow> all_pass vs \<longrightarrow> vouched_range br tk res fallback rng facts | Inl _ \<Rightarrow> True))"
  unfolding verify_once_def
proof (rule yields_some_then [OF yields_registry_of])
  let ?keys = "\<lambda>r. \<exists>f. r = resolve_signer_keys (tl_decode tk) (tl_resolve tk f) claimed"
  let ?ring = "\<lambda>r. \<exists>f. r = keyring_for br tk (hd (split_on CHR ''/'' res)) f"
  fix r :: "anyhow + registry_client"
  assume "case r of Inl _ \<Rightarrow> True | Inr ask \<Rightarrow> registry_client_of tk ask"
  then show "yields (case r of Inl e \<Rightarrow> return (Some (Inl e)) | Inr ask \<Rightarrow> do {
        signers \<leftarrow> ask_forge (\<lambda>f. resolve_signer_keys (tl_decode tk) (tl_resolve tk f) claimed);
        exempt \<leftarrow> ask_forge (keyring_for br tk (hd (split_on CHR ''/'' res)));
        case (signers, exempt) of
          (Inl e, _) \<Rightarrow> return (Some (Inl [e]))
        | (Inr _, Inl e) \<Rightarrow> return (Some (Inl e))
        | (Inr signers, Inr exempt) \<Rightarrow>
            done_some (judge_range br tk rng facts res fallback signers exempt ask)
      }) (\<lambda>r. case r of None \<Rightarrow> True | Some a \<Rightarrow>
        (case a of Inr vs \<Rightarrow> all_pass vs \<longrightarrow> vouched_range br tk res fallback rng facts | Inl _ \<Rightarrow> True))"
    by (auto intro!: yields_rules yields_bind [where R = ?keys] yields_bind [where R = ?ring] yields_ask_forge
        yields_done_some split: sum.splits prod.splits)
      (auto intro!: yields_conseq [OF yields_judge_range [OF assms]])
qed simp

lemma yields_verify_with_facts:
  "yields (verify_with_facts br tk rng facts res fallback)
     (\<lambda>r. case r of None \<Rightarrow> True | Some a \<Rightarrow>
        (case a of Inr vs \<Rightarrow> all_pass vs \<longrightarrow> vouched_range br tk res fallback rng facts | Inl _ \<Rightarrow> True))"
proof (cases "claimed_signer_dids (scid (tl_lib tk)) rng (bc_max_signers (br_cfg br))")
  case (Inr claimed)
  note once = yields_verify_once [OF Inr]
  show ?thesis
    unfolding verify_with_facts_def Inr sum.case
    by (intro yields_after yields_sum yields_some_then [OF once] yields_if yields_return once) auto
qed (simp add: verify_with_facts_def yields_return)

section \<open>The fetched commits are the listed ones\<close>

lemma yields_read_commits:
  "yields (read_commits gf d shas) (\<lambda>r. case r of Inr cs \<Rightarrow> map rc_sha cs = shas | Inl _ \<Rightarrow> True)"
proof (induction shas)
  case (Cons sha shas)
  show ?case
    by (auto intro!: yields_rules yields_after yields_ok_then [OF Cons])
qed (simp add: yields_return)

lemma yields_each_sha: "yields m Q \<Longrightarrow> (\<And>e. Q (Inl e)) \<Longrightarrow> yields (each_sha shas m) Q"
  by (induction shas) (auto simp: sha_ok_def intro!: yields_rules)

lemma yields_fetch_with:
  "yields (fetch_with gf remote token head shas filters extra) (\<lambda>r. case r of Inr got \<Rightarrow> map rc_sha (ft_commits got) = shas | Inl _ \<Rightarrow> True)"
  unfolding fetch_with_def sha_ok_def
  by (intro yields_sum yields_each_sha yields_if yields_return yields_ok_then [OF yields_read_commits]
      yields_ok_any) auto

lemmas yields_fetch = yields_fetch_with [of _ _ _ _ _ "[''tree:0'', ''blob:none'']" 0, folded fetch_def]

lemmas yields_fetch_for_rewrite = yields_fetch_with [of _ _ _ _ _ "[''blob:none'']" 1, folded fetch_for_rewrite_def]

lemma yields_gather_facts:
  "yields (gather_facts gf d token cs recompute base_of) (\<lambda>facts. boundary facts = boundary_of_listing cs)"
  unfolding gather_facts_def by (auto intro!: yields_rules yields_after)

section \<open>From a green check back to its ground\<close>

text \<open>What must have been answered for the check of a trigger to be green, for a namespace and its base.\<close>

definition green :: "'f bridge \<Rightarrow> 'f check_tools \<Rightarrow> 'f github_ops \<Rightarrow> resource \<Rightarrow> check_trigger \<Rightarrow> string \<Rightarrow> bool" where
  "green br tk g ns t base_sha \<longleftrightarrow>
     (\<exists>cmp. answered (gh_compare_commits g (ct_repo t) base_sha (ct_head_sha t)) cmp
        \<and> listing_refused (bc_max_commits (br_cfg br)) cmp = None
        \<and> (if cm_commits cmp = [] then ct_head_sha t = base_sha
            else \<exists>rng facts. map rc_sha rng = cm_commits cmp \<and> boundary facts = boundary_of_listing rng
                 \<and> vouched_range br tk (as_str (ct_repo t)) (as_str ns) rng facts))"

lemma summarise_green: "summarise (map line_of vs) b = (CheckSuccess, rest) \<Longrightarrow> all_pass vs"
  by (auto simp: summarise_def Let_def all_pass_def line_of_def filter_empty_conv split: if_splits)

lemma yields_fetch_and_verify:
  "yields (fetch_and_verify br tk g c t shas) (\<lambda>r. case r of None \<Rightarrow> True | Some a \<Rightarrow> (case a of Inl _ \<Rightarrow> True
     | Inr vs \<Rightarrow> all_pass vs \<longrightarrow> (\<exists>rng facts. map rc_sha rng = shas \<and> boundary facts = boundary_of_listing rng
         \<and> vouched_range br tk (as_str (ct_repo t)) (as_str (nr_resource (cx_ns c))) rng facts)))"
  unfolding fetch_and_verify_def
  by (intro yields_after yields_prod yields_sum yields_return yields_bind [OF yields_fetch]
      yields_bind [OF yields_gather_facts] yields_conseq [OF yields_verify_with_facts])
    (auto split: option.splits sum.splits prod.splits)

lemma yields_verify_trigger:
  "yields (verify_trigger br tk g c t base_ref base_sha) (\<lambda>r. case r of None \<Rightarrow> True | Some a \<Rightarrow> (case a of Inl _ \<Rightarrow> True
     | Inr v \<Rightarrow> fst v = CheckSuccess \<longrightarrow> green br tk g (nr_resource (cx_ns c)) t base_sha))"
  unfolding verify_trigger_def
  apply (rule yields_bind [OF yields_ask_github])
  apply (intro yields_sum yields_option yields_if yields_return yields_some_then [OF yields_fetch_and_verify])
      apply (auto simp: empty_verdict_def green_def split: sum.splits dest: summarise_green)
  done

lemma yields_check_verdict_of:
  "yields (check_verdict_of br tk g c t base_ref base_sha) (\<lambda>r. case r of None \<Rightarrow> True | Some v \<Rightarrow>
     fst v = CheckSuccess \<longrightarrow> \<not> nr_is_orphaned (cx_ns c) \<and> green br tk g (nr_resource (cx_ns c)) t base_sha)"
  unfolding check_verdict_of_def
  by (intro yields_if yields_return yields_some_then [OF yields_verify_trigger])
    (auto simp: orphaned_check_def failed_check_def split: sum.splits)

text \<open>A hint is added to a failing check only, and leaves it failing.\<close>

lemma yields_with_hint: "yields (with_hint br c t pr protected v) (\<lambda>v'. fst v' = fst v)"
  unfolding with_hint_def
  by (auto simp: yields_return intro!: yields_after yields_return split: option.splits check_conclusion.splits prod.splits)

lemma yields_post_check:
  "yields (post_check br tk g c t base_ref base_sha pr) (\<lambda>r. r = Some (Inr (CheckPosted CheckSuccess)) \<longrightarrow>
     \<not> nr_is_orphaned (cx_ns c) \<and> green br tk g (nr_resource (cx_ns c)) t base_sha)"
  unfolding post_check_def Let_def
  by (intro yields_after yields_sum yields_return yields_some_then [OF yields_check_verdict_of]
      yields_bind [OF yields_with_hint]) auto

lemma run_read:
  "run_state (txn (\<lambda>d. (f d, d))) w = (r, w') \<Longrightarrow> db w' = db w \<and> (r = Inl ''store'' \<or> r = Inr (f (db w)))"
  by (drule run_txn_cases) auto

text \<open>The namespace of a check contains the repository, and it is bound or orphaned.\<close>

lemma check_namespace_contains:
  assumes "run_state (check_namespace_of br repo) w = (Some c, w1)"
    and "ns_keyed (db w)" "distinct (map fst (namespaces (db w)))"
  shows "contains_resource (nr_resource (cx_ns c)) repo" "nr_is_orphaned (cx_ns c) \<or> is_bound (cx_ns c)"
    "for_resource br (nr_resource (cx_ns c)) = Some (cx_adapter c)"
proof -
  let ?P = "\<lambda>n. (nr_state n = NsBound \<or> nr_state n = NsOrphaned) \<and> contains_resource (nr_resource n) repo"
  from assms(1) obtain n w2 where n: "find ?P (map snd (namespaces (db w))) = Some n" "db w2 = db w"
    and load: "\<exists>w3. run_state (ctx_load_posting_checks br (nr_id n)) w2 = (Inr c, w3)"
    by (fastforce simp: check_namespace_of_def list_rec_def NAMESPACES_def ask_forge_def
        split: sum.splits option.splits prod.splits if_splits dest: run_txn_InrD)
  from n(1) have "n \<in> set (map snd (namespaces (db w)))" and p: "?P n"
    by (auto simp: find_Some_iff)
  then obtain k where "(k, n) \<in> set (namespaces (db w))" by auto
  with assms(3) have "map_of (namespaces (db w)) k = Some n" by simp
  with assms(2) have at: "map_of (namespaces (db w)) (nr_id n) = Some n" by (metis ns_keyed_def)
  have "cx_ns c = n \<and> (nr_is_orphaned n \<or> is_bound n) \<and> for_resource br (nr_resource n) = Some (cx_adapter c)"
    using load n(2) at
    by (auto simp: ctx_load_posting_checks_def ctx_load_def bound_namespace_def get_rec_def NAMESPACES_def ctx_with_def
        split: prod.splits sum.splits option.splits if_splits dest!: run_read)
  with p show "contains_resource (nr_resource (cx_ns c)) repo" "nr_is_orphaned (cx_ns c) \<or> is_bound (cx_ns c)"
    "for_resource br (nr_resource (cx_ns c)) = Some (cx_adapter c)" by auto
qed

text \<open>The base a check was made against, as the forge or the delivery gave it.\<close>

definition of_pull :: "'f github_ops \<Rightarrow> check_trigger \<Rightarrow> u64 \<Rightarrow> string \<Rightarrow> string \<Rightarrow> bool" where
  "of_pull g t n base_ref base_sha \<longleftrightarrow> (\<exists>pr. answered (gh_pull_request g (ct_repo t) n) pr \<and> pi_open pr
     \<and> pi_head_sha pr = ct_head_sha t \<and> pi_base_ref pr = base_ref \<and> pi_base_sha pr = base_sha)"

definition checked_base :: "'f github_ops \<Rightarrow> check_trigger \<Rightarrow> string \<Rightarrow> string \<Rightarrow> bool" where
  "checked_base g t base_ref base_sha \<longleftrightarrow>
     (case ct_kind t of
        CheckMergeGroup \<Rightarrow> ct_base_ref t = base_ref \<and> ct_base_sha t = base_sha
      | CheckPullRequest n \<Rightarrow> of_pull g t n base_ref base_sha
      | CheckRerequested n \<Rightarrow> of_pull g t n base_ref base_sha)"

lemma yields_trigger_base:
  "yields (trigger_base g t) (\<lambda>r. case r of Inr (Inr (base_ref, base_sha, _)) \<Rightarrow> checked_base g t base_ref base_sha | _ \<Rightarrow> True)"
  unfolding trigger_base_def
  by (cases "ct_kind t"; simp) (intro yields_return yields_ok_then [OF yields_ask_github]; simp add: checked_base_def of_pull_def; blast)+

lemma yields_check_in:
  "yields (check_in br tk g c t) (\<lambda>r. r = Some (Inr (CheckPosted CheckSuccess)) \<longrightarrow>
     (\<exists>protected base_sha. answered (gh_default_branch g (ct_repo t)) protected
        \<and> checked_base g t protected base_sha \<and> \<not> nr_is_orphaned (cx_ns c)
        \<and> green br tk g (nr_resource (cx_ns c)) t base_sha))"
  unfolding check_in_def
  apply (rule yields_bind [OF yields_trigger_base])
  apply (intro yields_sum yields_prod yields_if yields_return yields_bind [OF yields_ask_github]
      yields_conseq [OF yields_post_check])
       apply auto
  done


section \<open>A bridge on GitHub for examples\<close>

text \<open>
  A GitHub that lists one commit between the default branch and a head, a git that has it, and a
  registry over HTTPS that grants \<open>did:x\<close> on the organisation.
\<close>

definition sample_head :: string where
  "sample_head = replicate 40 CHR ''a''"

definition sample_github :: "unit github_ops" where
  "sample_github =
     \<lparr>gh_app_slug = ''app'', gh_set_required_workflow = (\<lambda>_ _. return ()), gh_set_managed = (\<lambda>_ _. return ()),
      gh_managed = (\<lambda>_ _. None), gh_set_checks_ready = (\<lambda>_ _. return ()), gh_checks_ready = (\<lambda>_ _. None),
      gh_set_pin = (\<lambda>_ _. return ()), gh_pin = (\<lambda>_ _. None), gh_detect_installation = (\<lambda>_. absent),
      gh_repository_by_id = (\<lambda>_ _. absent), gh_parse_push = (\<lambda>_. Inr None),
      gh_parse_check_trigger = (\<lambda>_. Inr []), gh_pull_request = (\<lambda>_ _. absent),
      gh_default_branch = (\<lambda>_. return (Inr ''main'')),
      gh_compare_commits = (\<lambda>_ _ head. return (Inr \<lparr>cm_commits = [head], cm_total = 1, cm_merge_base = []\<rparr>)),
      gh_merge_base = (\<lambda>_ _ _. absent), gh_contents_read_token = (\<lambda>_. return (Inr ''t'')),
      gh_contents_write_token = (\<lambda>_. return (Inr ''t'')),
      gh_clone_url = (\<lambda>_. Inr ''https://github.com/o/r.git''),
      gh_start_check_run = (\<lambda>_ _ _ _. return (Inr 1)), gh_finish_check_run = (\<lambda>_ _ _ _ _. return (Inr ()))\<rparr>"

definition github_adapter :: "unit adapter" where
  "github_adapter = sample_adapter\<lparr>ad_ops := sample_ops\<lparr>fo_host := ''github.com'',
       fo_capabilities := (\<lambda>_ _. full_caps\<lparr>bridge_posted_check := True\<rparr>)\<rparr>, ad_github := Some sample_github\<rparr>"

definition github_bridge :: "unit bridge" where
  "github_bridge = sample_bridge\<lparr>
     br_adapters := (\<lambda>k. if k = (''github.com'', Some ''o'') then Some github_adapter else None)\<rparr>"

definition github_namespace :: namespace_record where
  "github_namespace = example_namespace\<lparr>nr_resource := Resource ''github.com/o'',
     nr_binding := Some \<lparr>nb_namespace = namespace_new (Resource ''github.com/o'') Organization,
       nb_capabilities = None, nb_missing_permissions = []\<rparr>\<rparr>"

definition github_world :: "unit world" where
  "github_world = (example_world (empty_store\<lparr>namespaces := [(''ns1'', github_namespace)]\<rparr>))
     \<lparr>route_cache := Some (\<lparr>choice_kind = KindHttps, choice_endpoint = ''https://r''\<rparr>, 1000)\<rparr>"

definition sample_fetcher :: "unit git_fetcher" where
  "sample_fetcher =
     \<lparr>gf_run = (\<lambda>c. return (GitExited (Some 0) (if ''cat-file'' \<in> set (gi_args c) then rc_raw sample_commit else []) [], 0)),
      gf_path = [], gf_max_bytes = 1000, gf_base64 = (\<lambda>_. []), gf_tempdir = return (Inr ''/t'')\<rparr>"

definition sample_tools :: "unit check_tools" where
  "sample_tools =
     \<lparr>tl_fetcher = sample_fetcher, tl_lib = sample_lib, tl_trql = sample_trql, tl_decode = sample_decode,
      tl_selector = Auto, tl_channels = [], tl_ready = (\<lambda>_. Inr ()), tl_resolve = (\<lambda>_. sample_resolve),
      tl_services = (\<lambda>_ _. Inl []), tl_https = (\<lambda>_ _. Inr (\<lambda>q. Inr (query_resource q = ''github.com/o''))),
      tl_over_channel = (\<lambda>_ _ _. Inr False), tl_forget_did = (\<lambda>_. return ()), tl_read_file = (\<lambda>_ _. None)\<rparr>"

definition sample_trigger :: check_trigger where
  "sample_trigger =
     \<lparr>ct_repo = Resource ''github.com/o/r'', ct_repo_id = 5, ct_head_sha = sample_head,
      ct_base_sha = replicate 40 CHR ''b'', ct_base_ref = ''main'', ct_kind = CheckMergeGroup,
      ct_delivery_id = None, ct_head_ref = None, ct_author_login = None\<rparr>"



definition github_ctx_sample :: "unit ctx" where
  "github_ctx_sample = \<lparr>cx_ns = github_namespace, cx_adapter = github_adapter,
     cx_namespace = namespace_new (Resource ''github.com/o'') Organization\<rparr>"


lemma sample_check_posted:
  "\<exists>w'. run_state (check_in github_bridge sample_tools sample_github github_ctx_sample sample_trigger) github_world
     = (Some (Inr (CheckPosted CheckSuccess)), w')"
proof -
  let ?v = "run_state (verify_trigger github_bridge sample_tools sample_github github_ctx_sample sample_trigger
     ''main'' (replicate 40 CHR ''b'')) github_world"
  have "map_option (map_sum id fst) (fst ?v) = Some (Inr CheckSuccess)" by code_simp
  then obtain a b w1 where v: "?v = (Some (Inr (CheckSuccess, a, b)), w1)"
    by (cases ?v; cases "fst ?v"; cases "the (fst ?v)") auto
  have gw: "github_world\<lparr>forge_state := f\<rparr> = github_world" for f
    by (simp add: github_world_def example_world_def)
  have "is_sha (replicate 40 CHR ''b'')" by code_simp
  moreover have "\<not> nr_is_orphaned (cx_ns github_ctx_sample)" by code_simp
  ultimately show ?thesis
    by (simp add: check_in_def trigger_base_def post_check_def Let_def sample_trigger_def [THEN arg_cong, of ct_kind]
        sample_trigger_def [THEN arg_cong, of ct_base_ref] sample_trigger_def [THEN arg_cong, of ct_base_sha]
        sample_github_def [THEN arg_cong, of gh_default_branch] check_verdict_of_def
        sample_github_def [THEN arg_cong, of gh_start_check_run] sample_github_def [THEN arg_cong, of gh_finish_check_run]
        ask_github_def on_forge_def forge_err_def run_some_then v gw with_hint_def split: prod.split)
qed

lemma sample_check_namespace:
  "run_state (check_namespace_of github_bridge (ct_repo sample_trigger)) github_world = (Some github_ctx_sample, github_world)"
proof -
  have c: "contains_resource (Resource ''github.com/o'') (ct_repo sample_trigger)" by code_simp
  have st: "nr_state github_namespace = NsBound" "nr_id github_namespace = ''ns1''" "is_bound github_namespace"
    "\<not> nr_is_orphaned github_namespace"
    "nr_binding github_namespace = Some \<lparr>nb_namespace = namespace_new (Resource ''github.com/o'') Organization,
       nb_capabilities = None, nb_missing_permissions = []\<rparr>"
    "nr_resource github_namespace = Resource ''github.com/o''"
    by (simp_all add: github_namespace_def example_namespace_def namespace_pending_def is_bound_def nr_is_orphaned_def)
  have "host (Resource ''github.com/o'') = ''github.com''" "to_ascii_lowercase (owner (Resource ''github.com/o'')) = ''o''"
    by code_simp+
  then have f: "for_resource github_bridge (Resource ''github.com/o'') = Some github_adapter"
    by (simp add: for_resource_def key_of_def github_bridge_def)
  have w: "github_world\<lparr>db := db github_world, faults := tl (faults github_world)\<rparr> = github_world"
    "faults github_world = []" "namespaces (db github_world) = [(''ns1'', github_namespace)]"
    by (simp_all add: github_world_def example_world_def)
  have "bridge_posted_check (fo_capabilities (cx_ops github_ctx_sample) n f)" for n f
    by (simp add: github_ctx_sample_def cx_ops_def github_adapter_def)
  moreover have "cx_adapter github_ctx_sample = github_adapter" by (simp add: github_ctx_sample_def)
  ultimately show ?thesis
    by (simp add: check_namespace_of_def list_rec_def get_rec_def run_txn_ok NAMESPACES_def w c st f ctx_load_posting_checks_def
        ctx_load_def bound_namespace_def ctx_with_def ask_forge_def github_ctx_sample_def [symmetric])
qed


end
