(* ===== verification/Sshsig.thy ===== *)
theory Sshsig
  imports Commit_Object
begin

text \<open>
  The sshsig encoding of Ed25519 signatures, \<^verbatim>\<open>crates/vgi-core/src/sshsig.rs\<close>: the bytes a signature is
  made over, the blob, its armor, and a signature made elsewhere. Ed25519, SHA-512 and base64 are
  crates outside the repository: they are the fields of \<open>ed_lib\<close>. The reader of a blob is the
  reference the encoder is proved against.
\<close>

section \<open>The encoder\<close>

record ed_lib =
  ed_verifying_key :: "bytes \<Rightarrow> bytes"
  ed_sign :: "bytes \<Rightarrow> bytes \<Rightarrow> bytes"
  ed_verify :: "bytes \<Rightarrow> bytes \<Rightarrow> bytes \<Rightarrow> bool"
  sha512 :: "bytes \<Rightarrow> bytes"
  base64_encode :: "bytes \<Rightarrow> string"

definition as_bytes :: "string \<Rightarrow> bytes" where
  "as_bytes s = map (\<lambda>c. word_of_nat (byte_of c)) s"

definition SSHSIG_MAGIC :: bytes where
  "SSHSIG_MAGIC = as_bytes ''SSHSIG''"

text \<open>\<open>to_be_bytes\<close>; a length is cast to 32 bits first.\<close>

definition write_u32 :: "32 word \<Rightarrow> bytes" where
  "write_u32 v = [ucast (drop_bit 24 v), ucast (drop_bit 16 v), ucast (drop_bit 8 v), ucast v]"

definition write_ssh_string :: "bytes \<Rightarrow> bytes" where
  "write_ssh_string d = write_u32 (word_of_nat (length d)) @ d"

definition sshsig_message_hash :: "ed_lib \<Rightarrow> bytes \<Rightarrow> bytes" where
  "sshsig_message_hash lib message = sha512 lib message"

definition sshsig_signed_data :: "string \<Rightarrow> bytes \<Rightarrow> bytes" where
  "sshsig_signed_data ns h =
     SSHSIG_MAGIC @ write_ssh_string (as_bytes ns) @ write_ssh_string []
     @ write_ssh_string (as_bytes ''sha512'') @ write_ssh_string h"

definition encode_ssh_ed25519_pubkey :: "bytes \<Rightarrow> bytes" where
  "encode_ssh_ed25519_pubkey k = write_ssh_string (as_bytes ''ssh-ed25519'') @ write_ssh_string k"

definition encode_ssh_ed25519_signature :: "bytes \<Rightarrow> bytes" where
  "encode_ssh_ed25519_signature s = write_ssh_string (as_bytes ''ssh-ed25519'') @ write_ssh_string s"

definition sshsig_blob :: "bytes \<Rightarrow> string \<Rightarrow> bytes \<Rightarrow> bytes" where
  "sshsig_blob k ns s =
     SSHSIG_MAGIC @ write_u32 1 @ write_ssh_string (encode_ssh_ed25519_pubkey k)
     @ write_ssh_string (as_bytes ns) @ write_ssh_string [] @ write_ssh_string (as_bytes ''sha512'')
     @ write_ssh_string (encode_ssh_ed25519_signature s)"

definition armor_ssh_signature :: "ed_lib \<Rightarrow> bytes \<Rightarrow> string \<Rightarrow> bytes \<Rightarrow> string" where
  "armor_ssh_signature lib k ns s =
     ARMOR_BEGIN
     @ concat (map (\<lambda>chunk. chunk @ [newline]) (chunks 70 (base64_encode lib (sshsig_blob k ns s))))
     @ ARMOR_END"

definition create_ssh_signature :: "ed_lib \<Rightarrow> bytes \<Rightarrow> bytes \<Rightarrow> string \<Rightarrow> bytes \<Rightarrow> string" where
  "create_ssh_signature lib signing_key verifying_key ns message =
     armor_ssh_signature lib verifying_key ns
       (ed_sign lib signing_key (sshsig_signed_data ns (sshsig_message_hash lib message)))"

text \<open>A signature made elsewhere: 64 bytes that verify over the signed data, or refused.\<close>

definition assemble_ssh_signature ::
    "ed_lib \<Rightarrow> bytes \<Rightarrow> string \<Rightarrow> bytes \<Rightarrow> bytes \<Rightarrow> string + string" where
  "assemble_ssh_signature lib verifying_key ns message signature =
     (if length signature \<noteq> 64 then Inl ''remote signature is not an Ed25519 signature: ''
      else if \<not> ed_verify lib verifying_key (sshsig_signed_data ns (sshsig_message_hash lib message)) signature
      then Inl (''remote signature does not verify as an SSHSIG signature by this key in namespace ''
        @ show_debug ns)
      else Inr (armor_ssh_signature lib verifying_key ns signature))"

section \<open>The reference reader\<close>

fun read_u32 :: "bytes \<Rightarrow> (nat \<times> bytes) option" where
  "read_u32 (a # b # c # d # rest) =
     Some (unat a * 2 ^ 24 + unat b * 2 ^ 16 + unat c * 2 ^ 8 + unat d, rest)"
| "read_u32 _ = None"

definition read_ssh_string :: "bytes \<Rightarrow> (bytes \<times> bytes) option" where
  "read_ssh_string bs =
     (case read_u32 bs of
        None \<Rightarrow> None
      | Some (n, rest) \<Rightarrow> if length rest < n then None else Some (take n rest, drop n rest))"

fun read_strings :: "nat \<Rightarrow> bytes \<Rightarrow> (bytes list \<times> bytes) option" where
  "read_strings 0 bs = Some ([], bs)"
| "read_strings (Suc n) bs =
     (case read_ssh_string bs of
        None \<Rightarrow> None
      | Some (s, rest) \<Rightarrow> map_option (\<lambda>(ss, rest). (s # ss, rest)) (read_strings n rest))"

definition read_magic :: "bytes \<Rightarrow> bytes option" where
  "read_magic bs = (if take 6 bs = SSHSIG_MAGIC then Some (drop 6 bs) else None)"

text \<open>A key or a signature: the algorithm's name and the value.\<close>

definition read_ed25519 :: "bytes \<Rightarrow> bytes option" where
  "read_ed25519 bs =
     (case read_strings 2 bs of
        Some ([a, v], []) \<Rightarrow> if a = as_bytes ''ssh-ed25519'' then Some v else None
      | _ \<Rightarrow> None)"

text \<open>A blob: key, namespace and signature of an Ed25519 signature over SHA-512, nothing after it.\<close>

definition read_sshsig_blob :: "bytes \<Rightarrow> (bytes \<times> bytes \<times> bytes) option" where
  "read_sshsig_blob bs =
     (case Option.bind (read_magic bs) read_u32 of
        Some (version, rest) \<Rightarrow>
          (case read_strings 5 rest of
             Some ([k, ns, reserved, alg, s], []) \<Rightarrow>
               (case (version = 1 \<and> alg = as_bytes ''sha512'', read_ed25519 k, read_ed25519 s) of
                  (True, Some k, Some s) \<Rightarrow> Some (k, ns, s)
                | _ \<Rightarrow> None)
           | _ \<Rightarrow> None)
      | None \<Rightarrow> None)"

section \<open>The encoder against the reader\<close>

lemma length_as_bytes [simp]: "length (as_bytes s) = length s"
  by (simp add: as_bytes_def)

lemma byte_of_bounded: "byte_of c < 256"
  by (simp add: byte_of_def nat_of_char_less_256)

lemma inj_as_bytes: "as_bytes s = as_bytes t \<longleftrightarrow> s = t"
proof
  assume "as_bytes s = as_bytes t"
  then have "map (\<lambda>c. word_of_nat (byte_of c) :: 8 word) s = map (\<lambda>c. word_of_nat (byte_of c)) t"
    by (simp add: as_bytes_def)
  moreover have "inj (\<lambda>c. word_of_nat (byte_of c) :: 8 word)"
  proof (rule injI)
    fix c d :: char
    assume "(word_of_nat (byte_of c) :: 8 word) = word_of_nat (byte_of d)"
    then have "unat (word_of_nat (byte_of c) :: 8 word) = unat (word_of_nat (byte_of d) :: 8 word)" by simp
    then have "byte_of c = byte_of d"
      using byte_of_bounded [of c] byte_of_bounded [of d] by (simp add: unat_of_nat)
    then show "c = d" by (simp add: byte_of_def)
  qed
  ultimately show "s = t" using map_injective by blast
qed simp

text \<open>A number below \<open>2 ^ 32\<close> is the value of its four digits to the base 256.\<close>

lemma four_digits:
  assumes "n < 256 * (256 * (256 * 256))"
  shows "n div 2 ^ 24 mod 256 * 2 ^ 24 + n div 2 ^ 16 mod 256 * 2 ^ 16 + n div 2 ^ 8 mod 256 * 2 ^ 8 + n mod 256 = (n :: nat)"
proof -
  obtain a b c where a_def: "a = n div 256" and b_def: "b = a div 256" and c_def: "c = b div 256" by simp
  have "c < 256" using assms unfolding a_def b_def c_def by (simp add: less_mult_imp_div_less mult.commute)
  moreover have "n div 16777216 = c" "n div 65536 = b"
    by (simp_all add: a_def b_def c_def div_mult2_eq [symmetric])
  moreover have "n = a * 256 + n mod 256" "a = b * 256 + a mod 256" "b = c * 256 + b mod 256"
    by (simp_all add: a_def b_def c_def)
  ultimately show ?thesis by (simp add: a_def [symmetric])
qed

lemma read_write_u32: "read_u32 (write_u32 v @ rest) = Some (unat v, rest)"
proof -
  have "unat v < 256 * (256 * (256 * 256))" using unsigned_less [of v] by simp
  note digits = four_digits [OF this]
  have d: "unat (ucast (drop_bit n v) :: 8 word) = unat v div 2 ^ n mod 256" for n
    by (simp only: unsigned_ucast_eq unat_drop_bit_eq) (simp add: drop_bit_eq_div take_bit_eq_mod)
  have z: "unat (ucast v :: 8 word) = unat v mod 256"
    by (simp only: unsigned_ucast_eq) (simp add: take_bit_eq_mod)
  show ?thesis
    unfolding write_u32_def append.simps read_u32.simps d z
    by (simp only: digits)
qed

lemma read_write_string:
  "length d < 2 ^ 32 \<Longrightarrow> read_ssh_string (write_ssh_string d @ rest) = Some (d, rest)"
  by (simp add: read_ssh_string_def write_ssh_string_def read_write_u32 unat_of_nat)

text \<open>Strings written one after another are read back one after another.\<close>

lemma read_write_strings:
  "list_all (\<lambda>d. length d < 2 ^ 32) ds \<Longrightarrow>
     read_strings (length ds) (concat (map write_ssh_string ds) @ rest) = Some (ds, rest)"
  by (induction ds) (simp_all add: read_write_string)

lemma read_strings_of:
  "n = length ds \<Longrightarrow> bs = concat (map write_ssh_string ds) @ rest \<Longrightarrow> list_all (\<lambda>d. length d < 2 ^ 32) ds
     \<Longrightarrow> read_strings n bs = Some (ds, rest)"
  by (simp add: read_write_strings)

lemma length_write_ssh_string [simp]: "length (write_ssh_string d) = 4 + length d"
  by (simp add: write_ssh_string_def write_u32_def)

lemma read_encoded_ed25519:
  "length v < 2 ^ 32 \<Longrightarrow> read_ed25519 (write_ssh_string (as_bytes ''ssh-ed25519'') @ write_ssh_string v) = Some v"
  unfolding read_ed25519_def
  by (subst read_strings_of [of _ "[as_bytes ''ssh-ed25519'', v]" _ "[]"]) simp_all

text \<open>C32: The blob of a signature can be read back: whatever the namespace, a key of 32 and a signature of
  64 bytes, the reader finds exactly the key, the namespace and the signature that were written, over
  SHA-512 and with nothing after them, so that no two of them share a blob.\<close>

theorem sshsig_blob_roundtrip:
  assumes "length k = 32" "length s = 64" "length ns < 2 ^ 32"
  shows "read_sshsig_blob (sshsig_blob k ns s) = Some (k, as_bytes ns, s)"
proof -
  let ?ds = "[encode_ssh_ed25519_pubkey k, as_bytes ns, [], as_bytes ''sha512'', encode_ssh_ed25519_signature s]"
  have "read_strings 5 (concat (map write_ssh_string ?ds)) = Some (?ds, [])"
    by (rule read_strings_of [of _ ?ds]) (use assms in \<open>simp_all add: encode_ssh_ed25519_pubkey_def encode_ssh_ed25519_signature_def\<close>)
  moreover have "Option.bind (read_magic (sshsig_blob k ns s)) read_u32 = Some (1, concat (map write_ssh_string ?ds))"
    by (simp add: sshsig_blob_def read_magic_def SSHSIG_MAGIC_def read_write_u32)
  ultimately show ?thesis
    using assms by (simp add: read_sshsig_blob_def encode_ssh_ed25519_pubkey_def encode_ssh_ed25519_signature_def
        read_encoded_ed25519)
qed

lemma sshsig_blob_roundtrip_witness:
  "read_sshsig_blob (sshsig_blob (replicate 32 1) ''git'' (replicate 64 2)) = Some (replicate 32 1, as_bytes ''git'', replicate 64 2)"
  by (rule sshsig_blob_roundtrip) simp_all

text \<open>A signature is over one namespace and one hash: the signed data determine both.\<close>

theorem signed_data_is_unambiguous:
  assumes "sshsig_signed_data ns h = sshsig_signed_data ns' h'"
    and "length ns < 2 ^ 32" "length ns' < 2 ^ 32" "length h < 2 ^ 32" "length h' < 2 ^ 32"
  shows "ns = ns' \<and> h = h'"
proof -
  have "read_strings 4 (drop 6 (sshsig_signed_data ns h)) = Some ([as_bytes ns, [], as_bytes ''sha512'', h], [])"
    if "length ns < 2 ^ 32" "length h < 2 ^ 32" for ns h
    using that by (intro read_strings_of) (simp_all add: sshsig_signed_data_def SSHSIG_MAGIC_def)
  from this [OF assms(2,4)] this [OF assms(3,5)]
  have "Some ([as_bytes ns, [], as_bytes ''sha512'', h], [] :: bytes) = Some ([as_bytes ns', [], as_bytes ''sha512'', h'], [])"
    unfolding assms(1) by (rule box_equals [rotated]) (rule refl)
  then show ?thesis by (simp only: option.inject prod.inject list.inject inj_as_bytes simp_thms)
qed

lemma signed_data_is_unambiguous_witness: "sshsig_signed_data ''git'' [1] \<noteq> sshsig_signed_data ''file'' [1]"
  using signed_data_is_unambiguous [of "''git''" "[1]" "''file''" "[1]"] by auto

text \<open>
  What the encoder writes is in the form the verifier compares: with the base64 alphabet, the armor
  is its own normal form.
\<close>

lemma armor_is_normal:
  assumes "\<forall>c\<in>set (base64_encode lib (sshsig_blob k ns s)). base64_char c"
  shows "normalize_sshsig_armor (armor_ssh_signature lib k ns s) = armor_ssh_signature lib k ns s"
proof -
  let ?b = "base64_encode lib (sshsig_blob k ns s)"
  have "armor_ssh_signature lib k ns s = armored (chunks 70 ?b)"
    by (simp add: armor_ssh_signature_def armored_def)
  moreover have "\<forall>w\<in>set (chunks 70 ?b). \<forall>c\<in>set w. base64_char c"
    using assms chunks_subset by blast
  ultimately show ?thesis
    using armor_rewrap [of "chunks 70 ?b"] by simp
qed

text \<open>
  What a signer elsewhere returns is taken only when it verifies over this message, in this namespace,
  under this key; the bytes this key would make are then armored exactly as signing here does.
\<close>

lemma assemble_InrD:
  "assemble_ssh_signature lib k ns message s = Inr pem \<Longrightarrow>
     length s = 64 \<and> ed_verify lib k (sshsig_signed_data ns (sha512 lib message)) s \<and> pem = armor_ssh_signature lib k ns s"
  by (auto simp: assemble_ssh_signature_def sshsig_message_hash_def split: if_splits)

lemma assembled_is_local:
  "assemble_ssh_signature lib k ns message (ed_sign lib sk (sshsig_signed_data ns (sha512 lib message))) = Inr pem
     \<Longrightarrow> pem = create_ssh_signature lib sk k ns message"
  by (auto simp: create_ssh_signature_def sshsig_message_hash_def dest!: assemble_InrD)

end
