(* ===== verification/Resign_Run.thy ===== *)
theory Resign_Run
  imports Bridge_Check_Run Sshsig
begin

text \<open>
  The re-sign of Dependabot's pull requests (\<open>vgi-bridge/src/resign.rs\<close>): what of a commit is kept, the
  conditions each one must meet, the signed object that replaces it, and the run from the pull
  request to the push. The identity's key comes from \<open>identity.rs\<close>; the did:scid helpers, the
  cryptography and git are parameters. A run holds its branch until it ends: the
  branches other runs hold when it starts are the argument \<open>rz_in_flight\<close>. The permit it waits for is
  not modelled.
\<close>

section \<open>The key the bridge signs commits with\<close>

record bridge_identity =
  bi_did :: string
  bi_key_id :: string
  bi_private :: bytes
  bi_public :: bytes

record identity_lib =
  il_identity :: "string \<Rightarrow> string"
  il_src :: "string \<Rightarrow> string option"
  il_with_src :: "string \<Rightarrow> string \<Rightarrow> string"

record git_signing_key =
  gk_method :: string
  gk_seed :: bytes

definition presented_key_id :: "identity_lib \<Rightarrow> bridge_identity \<Rightarrow> string \<Rightarrow> string" where
  "presented_key_id il i key_id =
     (case il_src il (bi_did i) of Some src \<Rightarrow> il_with_src il key_id src | None \<Rightarrow> key_id)"

definition git_signing_key_of ::
    "identity_lib \<Rightarrow> ed_lib \<Rightarrow> bridge_identity \<Rightarrow> anyhow + git_signing_key" where
  "git_signing_key_of il lib i =
     (if length (bi_private i) < 32 then Inl [''the signing key is not an Ed25519 seed'']
      else if ed_verifying_key lib (take 32 (bi_private i)) \<noteq> bi_public i
      then Inl [''the signing key's public half does not match the identity'']
      else if \<not> starts_with (il_identity il (bi_did i) @ ''#'') (bi_key_id i)
      then Inl [''the signing key `'' @ bi_key_id i @ ''` is not a verification method of `'' @ bi_did i @ ''`'']
      else Inr \<lparr>gk_method = presented_key_id il i (bi_key_id i), gk_seed = take 32 (bi_private i)\<rparr>)"

definition key_did :: "git_signing_key \<Rightarrow> string" where
  "key_did k = hd (split_on CHR ''#'' (gk_method k))"

definition sign_with_key :: "ed_lib \<Rightarrow> git_signing_key \<Rightarrow> string \<Rightarrow> string" where
  "sign_with_key lib k payload =
     create_ssh_signature lib (gk_seed k) (ed_verifying_key lib (gk_seed k)) GIT_SSHSIG_NAMESPACE (as_bytes payload)"

definition signed_by_bridge :: "scid_lib \<Rightarrow> ed_lib \<Rightarrow> git_signing_key \<Rightarrow> string \<Rightarrow> string + bool" where
  "signed_by_bridge sl lib k raw =
     (case split_signed_commit raw of
        Inl e \<Rightarrow> Inl e
      | Inr None \<Rightarrow> Inr False
      | Inr (Some (payload, pem)) \<Rightarrow>
          if \<not> (case signer_did sl payload of None \<Rightarrow> False | Some claimed \<Rightarrow> same_signer sl claimed (key_did k))
          then Inr False
          else Inr (normalize_sshsig_armor pem = normalize_sshsig_armor (sign_with_key lib k payload)))"

section \<open>One commit\<close>

record parsed_commit =
  pc_tree :: string
  pc_parent :: string
  pc_parents :: nat
  pc_author :: string
  pc_unexpected :: "string list"
  pc_message :: string

text \<open>The header lines in order; a later tree, parent or author replaces an earlier one.\<close>

record header_scan =
  hs_tree :: "string option"
  hs_parent :: "string option"
  hs_author :: "string option"
  hs_parents :: nat
  hs_unexpected :: "string list"

fun scan_headers :: "string list \<Rightarrow> header_scan \<Rightarrow> header_scan" where
  "scan_headers [] s = s"
| "scan_headers (l # ls) s =
     (if starts_with '' '' l then scan_headers ls s
      else let (name, value) = (case split_once '' '' l of None \<Rightarrow> (l, []) | Some nv \<Rightarrow> nv)
        in scan_headers ls
          (if name = ''tree'' then s\<lparr>hs_tree := Some value\<rparr>
           else if name = ''parent'' then s\<lparr>hs_parents := Suc (hs_parents s), hs_parent := Some value\<rparr>
           else if name = ''author'' then s\<lparr>hs_author := Some value\<rparr>
           else if name = ''committer'' \<or> name = ''gpgsig'' then s
           else s\<lparr>hs_unexpected := hs_unexpected s @ [name]\<rparr>))"

definition no_headers :: header_scan where
  "no_headers = \<lparr>hs_tree = None, hs_parent = None, hs_author = None, hs_parents = 0, hs_unexpected = []\<rparr>"

definition sha_error :: "string \<Rightarrow> string option" where
  "sha_error s = (case check_sha s of Inl e \<Rightarrow> Some (forge_error_display e) | Inr _ \<Rightarrow> None)"

definition parse_commit :: "string \<Rightarrow> string + parsed_commit" where
  "parse_commit raw =
     (if \<not> utf8_valid raw then Inl ''not UTF-8''
      else (case split_once blank_line raw of
        None \<Rightarrow> Inl ''no blank line after the headers''
      | Some (headers, message) \<Rightarrow>
          let s = scan_headers (split_on newline headers) no_headers
          in case hs_tree s of
            None \<Rightarrow> Inl ''no tree''
          | Some tree \<Rightarrow>
              (case sha_error tree of
                 Some e \<Rightarrow> Inl e
               | None \<Rightarrow>
                   let parent = unwrap_or (hs_parent s) []
                   in case (if hs_parents s = 1 then sha_error parent else None) of
                     Some e \<Rightarrow> Inl e
                   | None \<Rightarrow>
                       (case hs_author s of
                          None \<Rightarrow> Inl ''no author''
                        | Some author \<Rightarrow>
                            Inr \<lparr>pc_tree = tree, pc_parent = parent, pc_parents = hs_parents s,
                              pc_author = author, pc_unexpected = hs_unexpected s, pc_message = message\<rparr>))))"

definition debug_list :: "string list \<Rightarrow> string" where
  "debug_list xs = ''['' @ join '', '' (map show_debug xs) @ '']''"

text \<open>The conditions on each commit, in the code's order.\<close>

definition check_dependabot ::
    "sig_lib \<Rightarrow> parsed_commit \<Rightarrow> string \<Rightarrow> string option \<Rightarrow> pgp_key list \<Rightarrow> string \<Rightarrow> string \<Rightarrow> string + unit" where
  "check_dependabot lib c raw previous keyring login email =
     (if pc_parents c \<noteq> 1 then Inl (''has '' @ show_nat (pc_parents c) @ '' parents, not one'')
      else if (case previous of None \<Rightarrow> False | Some p \<Rightarrow> pc_parent c \<noteq> p)
      then Inl ''does not follow the commit before it''
      else if pc_unexpected c \<noteq> [] then Inl (''carries headers '' @ debug_list (pc_unexpected c))
      else (case split_signed_commit raw of
        Inl e \<Rightarrow> Inl e
      | Inr None \<Rightarrow> Inl ''is not signed''
      | Inr (Some (payload, pem)) \<Rightarrow>
          if \<not> starts_with PGP_BEGIN pem then Inl ''is not signed by the platform (web-flow)''
          else (case keyring_verify lib keyring pem payload of
            Inl e \<Rightarrow> Inl (''its platform signature does not verify: '' @ e)
          | Inr _ \<Rightarrow>
              if \<not> starts_with (login @ '' <'' @ email @ ''> '') (pc_author c)
              then Inl (''is not authored by `'' @ login @ '' <'' @ email @ ''>`'')
              else Inr ())))"

text \<open>A path that is, or could stand for, a workflow file.\<close>

definition touches_workflows :: "string \<Rightarrow> bool" where
  "touches_workflows path =
     (let p = to_ascii_lowercase (utf8_lossy path)
      in p = ''.github'' \<or> p = WORKFLOWS \<or> starts_with (WORKFLOWS @ ''/'') p)"

definition changes_workflows ::
    "'f git_fetcher \<Rightarrow> string \<Rightarrow> string \<Rightarrow> string \<Rightarrow> ('f, anyhow + bool) io" where
  "changes_workflows gf dir parent commit =
     ok_then (git_with_input gf dir [''diff-tree'', ''-r'', ''-z'', ''--no-renames'', ''--name-only'',
         ''--no-commit-id'', parent, commit] [])
       (\<lambda>out. return (Inr (list_ex touches_workflows (filter (\<lambda>p. p \<noteq> []) (split_on CHR 0x00 out)))))"

definition add_trailer ::
    "'f git_fetcher \<Rightarrow> string \<Rightarrow> string \<Rightarrow> git_signing_key \<Rightarrow> ('f, anyhow + string) io" where
  "add_trailer gf dir message k =
     (if has_whitespace (gk_method k) \<or> has_control (gk_method k)
      then return (Inl [''the verification method id holds whitespace''])
      else ok_then (git_with_input gf dir [''interpret-trailers'', ''--no-divider'', ''--if-exists'',
            ''doNothing'', ''--trailer'', ''Signed-by-DID: '' @ gk_method k] message)
        (\<lambda>out. return (if utf8_valid out then Inr out else Inl [''interpret-trailers wrote non-UTF-8''])))"

text \<open>The object that replaces a commit: its tree and author, on a new parent, signed.\<close>

definition resigned_headers :: "parsed_commit \<Rightarrow> string \<Rightarrow> string \<Rightarrow> string" where
  "resigned_headers c parent committer =
     ''tree '' @ pc_tree c @ [newline] @ ''parent '' @ parent @ [newline] @ ''author '' @ pc_author c @ [newline]
     @ ''committer '' @ committer"

definition gpgsig_header :: "string \<Rightarrow> string" where
  "gpgsig_header pem = ''gpgsig '' @ join [newline, CHR '' ''] (split_on newline (trim_end pem))"

definition resign_commit ::
    "scid_lib \<Rightarrow> ed_lib \<Rightarrow> parsed_commit \<Rightarrow> string \<Rightarrow> string \<Rightarrow> string \<Rightarrow> git_signing_key \<Rightarrow> string + string" where
  "resign_commit sl lib c parent committer message k =
     (let headers = resigned_headers c parent committer;
          unsigned = headers @ blank_line @ message
      in if \<not> (case signer_did sl unsigned of None \<Rightarrow> False | Some claimed \<Rightarrow> same_signer sl claimed (key_did k))
           \<or> conflicting_signer_dids sl unsigned \<noteq> None
         then Inl (''the message's trailers do not name the bridge's DID as the signer (the message ''
           @ ''already carries a `Signed-by-DID:` trailer?)'')
         else let signed = headers @ [newline] @ gpgsig_header (sign_with_key lib k unsigned) @ blank_line @ message
           in case split_signed_commit signed of
             Inl e \<Rightarrow> Inl e
           | Inr None \<Rightarrow> Inl ''the signature did not attach''
           | Inr (Some (payload, _)) \<Rightarrow>
               if payload \<noteq> unsigned then Inl ''the signed commit does not split back into what was signed''
               else Inr signed)"

definition show_int :: "int \<Rightarrow> string" where
  "show_int i = (if i < 0 then ''-'' @ show_nat (nat (- i)) else show_nat (nat i))"

section \<open>The run\<close>

datatype resign_outcome = Resigned string string nat | ResignSkipped string

record 'f resign_tools =
  rz_check :: "'f check_tools"
  rz_ed :: ed_lib
  rz_identity :: "'f \<Rightarrow> anyhow + git_signing_key"
  rz_in_flight :: "(u64 \<times> string) list"

text \<open>What a run of the re-sign holds fixed for every commit.\<close>

record resign_job =
  rj_keyring :: "pgp_key list"
  rj_login :: string
  rj_email :: string
  rj_committer :: string
  rj_key :: git_signing_key

text \<open>One commit: why the run stops at it, or the id of the commit that replaces it.\<close>

definition resign_one ::
    "'f resign_tools \<Rightarrow> string \<Rightarrow> resign_job \<Rightarrow> string option \<Rightarrow> string option \<Rightarrow> range_commit
       \<Rightarrow> ('f, anyhow + (string + string)) io" where
  "resign_one rt dir j previous replaced c =
     (let gf = tl_fetcher (rz_check rt); lib = tl_lib (rz_check rt); at = ''commit '' @ short (rc_sha c)
      in case parse_commit (rc_raw c) of
        Inl e \<Rightarrow> return (Inr (Inl (at @ '': '' @ e)))
      | Inr commit \<Rightarrow>
          (case check_dependabot lib commit (rc_raw c) previous (rj_keyring j) (rj_login j) (rj_email j) of
             Inl why \<Rightarrow> return (Inr (Inl (at @ '': '' @ why)))
           | Inr _ \<Rightarrow> do {
               touched \<leftarrow> changes_workflows gf dir (pc_parent commit) (rc_sha c);
               case touched of
                 Inl e \<Rightarrow> return (Inr (Inl (''the files '' @ at @ '' changes could not be read ('' @ hd e @ '')'')))
               | Inr True \<Rightarrow>
                   return (Inr (Inl (at @ '' changes `'' @ WORKFLOWS @ ''/`, which the bridge never re-signs'')))
               | Inr False \<Rightarrow>
                   ok_then (add_trailer gf dir (pc_message commit) (rj_key j)) (\<lambda>message.
                     case resign_commit (scid lib) (rz_ed rt) commit (unwrap_or replaced (pc_parent commit))
                         (rj_committer j) message (rj_key j) of
                       Inl e \<Rightarrow> return (Inr (Inl (at @ '': '' @ e)))
                     | Inr raw \<Rightarrow>
                         ok_then (git_with_input gf dir [''hash-object'', ''-t'', ''commit'', ''-w'', ''--stdin''] raw)
                           (\<lambda>out. if \<not> utf8_valid out then return (Inl [''invalid utf-8''])
                             else sha_ok (trim out) (return (Inr (Inr (trim out))))))
             }))"

fun resign_each ::
    "'f resign_tools \<Rightarrow> string \<Rightarrow> resign_job \<Rightarrow> string option \<Rightarrow> string option \<Rightarrow> range_commit list
       \<Rightarrow> ('f, anyhow + (string + string option)) io" where
  "resign_each rt dir j previous replaced [] = return (Inr (Inr replaced))"
| "resign_each rt dir j previous replaced (c # cs) =
     ok_then (resign_one rt dir j previous replaced c) (\<lambda>r. case r of
         Inl why \<Rightarrow> return (Inr (Inl why))
       | Inr new \<Rightarrow> resign_each rt dir j (Some (rc_sha c)) (Some new) cs)"

text \<open>Whether the branch moved to what the bridge itself pushed for this head.\<close>

definition moved_by_us :: "string \<Rightarrow> string \<Rightarrow> string option \<Rightarrow> ('f, bool) io" where
  "moved_by_us key head current =
     (case current of
        None \<Rightarrow> return False
      | Some c \<Rightarrow> do {
          l \<leftarrow> find_rec BRANCHES key;
          return (case l of
              None \<Rightarrow> False
            | Some l \<Rightarrow> list_ex (\<lambda>x. op_before x = head \<and> op_after x = c) (bl_own l))
        })"

definition moved_text :: "string \<Rightarrow> string option \<Rightarrow> string" where
  "moved_text head current =
     ''the branch is at '' @ (case current of None \<Rightarrow> ''nothing'' | Some c \<Rightarrow> short c)
     @ '', no longer the pull request's head '' @ short head
     @ '' (the push that moved it resumes the re-sign)''"

text \<open>An error of the store, as \<open>?\<close> passes it on.\<close>

definition store_err :: "('f, string + 'a) io \<Rightarrow> ('f, anyhow + 'a) io" where
  "store_err m = do { r \<leftarrow> m; return (case r of Inl e \<Rightarrow> Inl [e] | Inr a \<Rightarrow> Inr a) }"

definition skipped :: "string \<Rightarrow> ('f, anyhow + resign_outcome) io" where
  "skipped why = return (Inr (ResignSkipped why))"

definition resign_email :: "github_config \<Rightarrow> string \<Rightarrow> string" where
  "resign_email gh h =
     show_word (gc_dependabot_id gh) @ ''+'' @ gc_dependabot_login gh @ ''@users.noreply.'' @ h"

text \<open>The rewritten commits pushed: completed, on record, and then under a lease on the old head.\<close>

definition push_resigned ::
    "'f resign_tools \<Rightarrow> 'f github_ops \<Rightarrow> resource \<Rightarrow> string \<Rightarrow> string \<Rightarrow> string \<Rightarrow> string \<Rightarrow> string
       \<Rightarrow> ('f, anyhow + unit) io" where
  "push_resigned rt g repo key dir new_head branch old_head =
     ok_then (ask_github (gh_contents_read_token g repo)) (\<lambda>token.
     ok_then (complete_for_push (tl_fetcher (rz_check rt)) dir (Some token) new_head old_head) (\<lambda>_.
     ok_then (store_err (record_own key old_head new_head)) (\<lambda>_.
     ok_then (ask_github (gh_contents_write_token g repo)) (\<lambda>token. do {
       r \<leftarrow> push_commits (tl_fetcher (rz_check rt)) dir (Some token) new_head branch old_head;
       return (case r of
           Inl e \<Rightarrow> Inl (''pushing the re-signed commits (with a lease on the old head)'' # e)
         | Inr _ \<Rightarrow> Inr ())
     }))))"

definition rewrite_and_push ::
    "'f bridge \<Rightarrow> 'f resign_tools \<Rightarrow> 'f github_ops \<Rightarrow> resource \<Rightarrow> string \<Rightarrow> pull_request_info \<Rightarrow> fetched \<Rightarrow> resign_job
       \<Rightarrow> ('f, anyhow + resign_outcome) io" where
  "rewrite_and_push br rt g repo key pr got j =
     ok_then (resign_each rt (ft_dir got) j None None (ft_commits got)) (\<lambda>r. case r of
         Inl why \<Rightarrow> do { _ \<leftarrow> note_skip key (pi_head_sha pr) why; skipped why }
       | Inr None \<Rightarrow> return (Inl [''no commits''])
       | Inr (Some new_head) \<Rightarrow>
           ok_then (push_resigned rt g repo key (ft_dir got) new_head (pi_head_ref pr) (pi_head_sha pr))
             (\<lambda>_. return (Inr (Resigned (pi_head_sha pr) new_head (length (ft_commits got))))))"

text \<open>With the branch still at the pull request's head: the key, the keyring, and the rewrite.\<close>

definition resign_job_of ::
    "'f bridge \<Rightarrow> resource \<Rightarrow> github_config \<Rightarrow> git_signing_key \<Rightarrow> pgp_key list \<Rightarrow> int \<Rightarrow> resign_job" where
  "resign_job_of br repo gh k ring now =
     \<lparr>rj_keyring = ring, rj_login = gc_dependabot_login gh, rj_email = resign_email gh (host repo),
      rj_committer = bc_committer_name (br_cfg br) @ '' <'' @ bc_committer_email (br_cfg br) @ ''> ''
        @ show_int now @ '' +0000'', rj_key = k\<rparr>"

definition resign_with_key ::
    "'f bridge \<Rightarrow> 'f resign_tools \<Rightarrow> 'f github_ops \<Rightarrow> resource \<Rightarrow> string \<Rightarrow> pull_request_info \<Rightarrow> string \<Rightarrow> fetched
       \<Rightarrow> git_signing_key \<Rightarrow> ('f, anyhow + resign_outcome) io" where
  "resign_with_key br rt g repo key pr keyring got k =
     (case github_config_of br repo of
        None \<Rightarrow> return (Inl [''GitHub config''])
      | Some gh \<Rightarrow> ok_then (ask_forge (load_keyring (rz_check rt) keyring)) (\<lambda>ring. do {
          now \<leftarrow> clock_now;
          rewrite_and_push br rt g repo key pr got (resign_job_of br repo gh k ring now)
        }))"

definition resign_fetched ::
    "'f bridge \<Rightarrow> 'f resign_tools \<Rightarrow> 'f github_ops \<Rightarrow> resource \<Rightarrow> string \<Rightarrow> pull_request_info \<Rightarrow> string \<Rightarrow> fetched
       \<Rightarrow> ('f, anyhow + resign_outcome) io" where
  "resign_fetched br rt g repo key pr keyring got =
     ok_then (ask_forge (rz_identity rt)) (\<lambda>k.
       if list_all (\<lambda>c. signed_by_bridge (scid (tl_lib (rz_check rt))) (rz_ed rt) k (rc_raw c) = Inr True) (ft_commits got)
       then skipped ''already re-signed by the bridge''
       else resign_with_key br rt g repo key pr keyring got k)"

definition resign_range ::
    "'f bridge \<Rightarrow> 'f resign_tools \<Rightarrow> 'f github_ops \<Rightarrow> resource \<Rightarrow> string \<Rightarrow> pull_request_info \<Rightarrow> string
       \<Rightarrow> ('f, anyhow + resign_outcome) io" where
  "resign_range br rt g repo key pr keyring =
     ok_then (ask_github (gh_compare_commits g repo (pi_base_sha pr) (pi_head_sha pr))) (\<lambda>cmp.
       if unat (cm_total cmp) > bc_max_commits (br_cfg br) \<or> of_nat (length (cm_commits cmp)) < cm_total cmp
       then skipped (show_word (cm_total cmp) @ '' commits, more than this bridge re-signs at once (''
         @ show_nat (bc_max_commits (br_cfg br)) @ '') or than GitHub listed'')
       else if cm_commits cmp = [] \<or> last (cm_commits cmp) \<noteq> pi_head_sha pr
       then skipped ''nothing to re-sign: the head is already part of the base''
       else ok_then (ask_github (gh_contents_read_token g repo)) (\<lambda>token.
         ok_then (return (forge_err (gh_clone_url g repo))) (\<lambda>remote.
         ok_then (fetch_for_rewrite (tl_fetcher (rz_check rt)) remote (Some token) (pi_head_sha pr) (cm_commits cmp)) (\<lambda>got.
         ok_then (branch_head (tl_fetcher (rz_check rt)) (ft_dir got) (Some token) (pi_head_ref pr)) (\<lambda>current.
           if current \<noteq> Some (pi_head_sha pr)
           then do {
             ours \<leftarrow> moved_by_us key (pi_head_sha pr) current;
             skipped (if ours then ''already re-signed by the bridge'' else moved_text (pi_head_sha pr) current)
           }
           else resign_fetched br rt g repo key pr keyring got)))))"

text \<open>Whether a later push may resume this pull request.\<close>

definition resumable :: "'f bridge \<Rightarrow> resource \<Rightarrow> u64 \<Rightarrow> pull_request_info \<Rightarrow> bool" where
  "resumable br repo repo_id pr \<longleftrightarrow>
     pi_open pr \<and> pi_head_repo_id pr = Some repo_id \<and> check_branch_name (pi_head_ref pr) = Inr ()
     \<and> (case github_config_of br repo of None \<Rightarrow> False | Some gh \<Rightarrow> opened_by_dependabot gh pr)"

definition resign_in ::
    "'f bridge \<Rightarrow> 'f resign_tools \<Rightarrow> resource \<Rightarrow> u64 \<Rightarrow> u64 \<Rightarrow> 'f ctx \<Rightarrow> 'f github_ops \<Rightarrow> ('f, anyhow + resign_outcome) io" where
  "resign_in br rt repo repo_id number c g =
     ok_then (ask_github (gh_pull_request g repo number)) (\<lambda>pr.
       let key = ledger_key (host repo) repo_id (pi_head_ref pr)
       in ok_then (if resumable br repo repo_id pr then store_err (remember_pull_request key number)
                   else return (Inr ())) (\<lambda>_.
         ok_then (ask_github (gh_default_branch g repo)) (\<lambda>protected. do {
           may \<leftarrow> eligibility br c repo repo_id pr (Some protected);
           case may of
             Inl why \<Rightarrow> skipped why
           | Inr keyring \<Rightarrow>
               if (repo_id, pi_head_ref pr) \<in> set (rz_in_flight rt)
               then skipped ''a re-sign of this branch is already running''
               else resign_range br rt g repo key pr keyring
         })))"

definition resign_run ::
    "'f bridge \<Rightarrow> 'f resign_tools \<Rightarrow> resource \<Rightarrow> u64 \<Rightarrow> u64 \<Rightarrow> ('f, anyhow + resign_outcome) io" where
  "resign_run br rt repo repo_id number = do {
     c \<leftarrow> github_ctx br repo;
     case c of
       None \<Rightarrow> skipped ''the repository is in no bound GitHub namespace''
     | Some c \<Rightarrow>
         (case ad_github (cx_adapter c) of
            None \<Rightarrow> return (Inl [''a GitHub namespace''])
          | Some g \<Rightarrow> resign_in br rt repo repo_id number c g)
   }"

section \<open>The grant\<close>

text \<open>Whether an operator is warned that the bridge's DID lacks the grant; nothing else follows from it.\<close>

definition commit_sign_granted ::
    "'f bridge \<Rightarrow> 'f check_tools \<Rightarrow> string \<Rightarrow> string \<Rightarrow> ('f, (anyhow + bool option) option) io" where
  "commit_sign_granted br tk did res = do {
     ready \<leftarrow> ask_forge (tl_ready tk);
     case ready of
       Inl e \<Rightarrow> return (Some (Inl e))
     | Inr _ \<Rightarrow> some_then (registry_of br tk) (\<lambda>r. return (Some (case r of
           Inl e \<Rightarrow> Inl e
         | Inr ask \<Rightarrow>
             (case ask \<lparr>entity_id = did, authority_id = bc_vtc_did (br_cfg br), query_action = ''git.commit.sign'',
                 query_resource = res\<rparr> of
                Inr yes \<Rightarrow> Inr (Some yes)
              | Inl (Rejected _ _) \<Rightarrow> Inr (Some False)
              | Inl e \<Rightarrow> Inl [show_error (tl_trql tk) e]))))
   }"

definition warn_if_ungranted :: "'f bridge \<Rightarrow> 'f check_tools \<Rightarrow> string \<Rightarrow> ('f, bool option) io" where
  "warn_if_ungranted br tk ns_id = do {
     n \<leftarrow> find_rec NAMESPACES ns_id;
     case n of
       None \<Rightarrow> return (Some False)
     | Some n \<Rightarrow>
         if nr_state n \<noteq> NsBound then return (Some False)
         else (case github_config_of br (nr_resource n) of
             None \<Rightarrow> return (Some False)
           | Some gh \<Rightarrow>
               if \<not> resign_dependabot gh (owner (nr_resource n)) then return (Some False)
               else some_then (commit_sign_granted br tk (br_did br) (as_str (nr_resource n)))
                 (\<lambda>r. return (Some (r = Inr (Some False)))))
   }"

section \<open>What a re-sign rests on\<close>

text \<open>The conditions on an original commit, as they hold of the object itself.\<close>

definition dependabots_own ::
    "sig_lib \<Rightarrow> resign_job \<Rightarrow> string option \<Rightarrow> string \<Rightarrow> parsed_commit \<Rightarrow> bool" where
  "dependabots_own lib j previous raw c \<longleftrightarrow>
     parse_commit raw = Inr c \<and> pc_parents c = 1 \<and> pc_unexpected c = []
     \<and> (case previous of None \<Rightarrow> True | Some p \<Rightarrow> pc_parent c = p)
     \<and> starts_with (rj_login j @ '' <'' @ rj_email j @ ''> '') (pc_author c)
     \<and> (\<exists>payload pem fingerprint. split_signed_commit raw = Inr (Some (payload, pem)) \<and> starts_with PGP_BEGIN pem
          \<and> keyring_verify lib (rj_keyring j) pem payload = Inr fingerprint)"

lemma check_dependabot_iff:
  "parse_commit raw = Inr c \<Longrightarrow>
     check_dependabot lib c raw previous (rj_keyring j) (rj_login j) (rj_email j) = Inr () \<longleftrightarrow>
     dependabots_own lib j previous raw c"
  by (auto simp: check_dependabot_def dependabots_own_def split: option.splits sum.splits prod.splits)

text \<open>
  What replaces it: the same tree and author under the given parent, a message whose trailers claim
  the bridge's DID and no other, signed by the bridge's key over exactly the rest of the object.
\<close>

definition replaces ::
    "scid_lib \<Rightarrow> ed_lib \<Rightarrow> resign_job \<Rightarrow> string \<Rightarrow> parsed_commit \<Rightarrow> string \<Rightarrow> bool" where
  "replaces sl lib j parent c raw \<longleftrightarrow>
     (\<exists>message pem.
        let headers = resigned_headers c parent (rj_committer j); unsigned = headers @ blank_line @ message
        in raw = headers @ [newline] @ gpgsig_header (sign_with_key lib (rj_key j) unsigned) @ blank_line @ message
         \<and> split_signed_commit raw = Inr (Some (unsigned, pem))
         \<and> conflicting_signer_dids sl unsigned = None
         \<and> (\<exists>claimed. signer_did sl unsigned = Some claimed \<and> same_signer sl claimed (key_did (rj_key j))))"

lemma resign_commit_replaces:
  "resign_commit sl lib c parent (rj_committer j) message (rj_key j) = Inr raw \<Longrightarrow> replaces sl lib j parent c raw"
  unfolding resign_commit_def replaces_def Let_def
  by (rule exI [of _ message],
      cases "conflicting_signer_dids sl (resigned_headers c parent (rj_committer j) @ blank_line @ message)")
    (auto split: if_splits option.splits sum.splits prod.splits)

text \<open>A range and what replaces it, commit by commit, each new one on the new one before it.\<close>

inductive rewritten ::
    "'f resign_tools \<Rightarrow> string \<Rightarrow> resign_job \<Rightarrow> string option \<Rightarrow> string option \<Rightarrow> range_commit list \<Rightarrow> (string \<times> string) list \<Rightarrow> bool"
  for rt dir j where
  rewritten_none: "rewritten rt dir j previous replaced [] []"
| rewritten_more:
    "dependabots_own (tl_lib (rz_check rt)) j previous (rc_raw c) commit \<Longrightarrow>
       run_state (changes_workflows (tl_fetcher (rz_check rt)) dir (pc_parent commit) (rc_sha c)) w1 = (Inr False, w2) \<Longrightarrow>
       replaces (scid (tl_lib (rz_check rt))) (rz_ed rt) j (unwrap_or replaced (pc_parent commit)) commit raw \<Longrightarrow>
       is_sha sha \<Longrightarrow> rewritten rt dir j (Some (rc_sha c)) (Some sha) cs news \<Longrightarrow>
       rewritten rt dir j previous replaced (c # cs) ((sha, raw) # news)"

lemma rewritten_length: "rewritten rt dir j previous replaced cs news \<Longrightarrow> length news = length cs"
  by (induction rule: rewritten.induct) simp_all

definition last_new :: "string option \<Rightarrow> (string \<times> string) list \<Rightarrow> string option" where
  "last_new replaced news = (if news = [] then replaced else Some (fst (last news)))"

lemma yields_run: "yields m (\<lambda>r. \<exists>w w'. run_state m w = (r, w'))"
  by (rule yieldsI) blast

lemma yields_resign_one:
  "yields (resign_one rt dir j previous replaced c) (\<lambda>r. case r of Inl _ \<Rightarrow> True | Inr a \<Rightarrow> (case a of Inl _ \<Rightarrow> True
     | Inr sha \<Rightarrow> is_sha sha \<and> (\<exists>commit w1 w2 raw. dependabots_own (tl_lib (rz_check rt)) j previous (rc_raw c) commit
         \<and> run_state (changes_workflows (tl_fetcher (rz_check rt)) dir (pc_parent commit) (rc_sha c)) w1 = (Inr False, w2)
         \<and> replaces (scid (tl_lib (rz_check rt))) (rz_ed rt) j (unwrap_or replaced (pc_parent commit)) commit raw)))"
  (is "yields _ ?Q")
proof (cases "parse_commit (rc_raw c)")
  case parsed: (Inr commit)
  show ?thesis
  proof (cases "check_dependabot (tl_lib (rz_check rt)) commit (rc_raw c) previous (rj_keyring j) (rj_login j) (rj_email j)")
    case (Inr u)
    then have own: "dependabots_own (tl_lib (rz_check rt)) j previous (rc_raw c) commit"
      using check_dependabot_iff [OF parsed] by simp
    show ?thesis
      unfolding resign_one_def Let_def parsed Inr sum.case
      apply (rule yields_bind [OF yields_run])
      apply (rule yields_sum)
       apply (simp add: yields_return)
      apply (simp split: bool.split add: yields_return)
      apply (intro impI yields_ok_any yields_sum yields_if yields_return)
            apply (simp_all add: sha_ok_def check_sha_def yields_return)
      using own resign_commit_replaces by (fastforce intro: yields_return)
  qed (simp add: resign_one_def Let_def parsed yields_return)
qed (simp add: resign_one_def Let_def yields_return)

lemma resign_end_cases:
  assumes "case r of Inl _ \<Rightarrow> True | Inr a \<Rightarrow> (case a of Inl _ \<Rightarrow> True | Inr new \<Rightarrow> \<exists>news. P news \<and> new = f news)"
    and "\<And>news. P news \<Longrightarrow> Q (f news)"
  shows "case r of Inl _ \<Rightarrow> True | Inr a \<Rightarrow> (case a of Inl _ \<Rightarrow> True | Inr new \<Rightarrow> Q new)"
  using assms by (auto split: sum.splits)

lemma yields_resign_each:
  "yields (resign_each rt dir j previous replaced cs) (\<lambda>r. case r of Inl _ \<Rightarrow> True | Inr a \<Rightarrow> (case a of Inl _ \<Rightarrow> True
     | Inr new \<Rightarrow> \<exists>news. rewritten rt dir j previous replaced cs news \<and> new = last_new replaced news))"
proof (induction cs arbitrary: previous replaced)
  case Nil
  show ?case by (auto simp: last_new_def intro!: yields_return exI [of _ "[]"] rewritten_none)
next
  case (Cons c cs)
  show ?case
    unfolding resign_each.simps
  proof (rule yields_ok_then [OF yields_resign_one])
    fix a :: "string + string"
    assume a: "case a of Inl _ \<Rightarrow> True
     | Inr sha \<Rightarrow> is_sha sha \<and> (\<exists>commit w1 w2 raw. dependabots_own (tl_lib (rz_check rt)) j previous (rc_raw c) commit
         \<and> run_state (changes_workflows (tl_fetcher (rz_check rt)) dir (pc_parent commit) (rc_sha c)) w1 = (Inr False, w2)
         \<and> replaces (scid (tl_lib (rz_check rt))) (rz_ed rt) j (unwrap_or replaced (pc_parent commit)) commit raw)"
    show "yields (case a of Inl why \<Rightarrow> return (Inr (Inl why))
        | Inr new \<Rightarrow> resign_each rt dir j (Some (rc_sha c)) (Some new) cs)
      (\<lambda>r. case r of Inl _ \<Rightarrow> True | Inr a \<Rightarrow> (case a of Inl _ \<Rightarrow> True
        | Inr new \<Rightarrow> \<exists>news. rewritten rt dir j previous replaced (c # cs) news \<and> new = last_new replaced news))"
    proof (cases a)
      case (Inr sha)
      note more = this
      show ?thesis
        unfolding Inr sum.case
      proof (rule yields_conseq [OF Cons], erule resign_end_cases)
        fix news
        assume "rewritten rt dir j (Some (rc_sha c)) (Some sha) cs news"
        with a more obtain raw where "rewritten rt dir j previous replaced (c # cs) ((sha, raw) # news)"
          by (auto intro: rewritten_more)
        moreover have "last_new (Some sha) news = last_new replaced ((sha, raw) # news)"
          by (simp add: last_new_def)
        ultimately show "\<exists>news'. rewritten rt dir j previous replaced (c # cs) news'
            \<and> last_new (Some sha) news = last_new replaced news'" by blast
      qed
    qed (simp add: yields_return)
  qed simp
qed

text \<open>What made a pull request eligible, with the keyring to check it against.\<close>

definition eligible :: "'f bridge \<Rightarrow> 'f ctx \<Rightarrow> resource \<Rightarrow> u64 \<Rightarrow> pull_request_info \<Rightarrow> string \<Rightarrow> string \<Rightarrow> github_config \<Rightarrow> bool" where
  "eligible br c repo repo_id pr protected keyring gh \<longleftrightarrow>
     github_config_of br repo = Some gh \<and> resign_dependabot gh (owner (nr_resource (cx_ns c)))
     \<and> gc_platform_keyring_file gh = Some keyring \<and> pi_open pr \<and> opened_by_dependabot gh pr
     \<and> pi_head_repo_id pr = Some repo_id \<and> pi_base_repo_id pr = Some repo_id
     \<and> check_branch_name (pi_head_ref pr) = Inr () \<and> pi_base_ref pr = protected
     \<and> (\<exists>l. is_clean l (pi_head_sha pr) (gc_dependabot_login gh) (gc_dependabot_id gh) = Inr ())"

lemma resign_rules_InrD:
  "resign_rules gh auto ow repo_id pr (Some protected) = Inr keyring \<Longrightarrow>
     resign_dependabot gh ow \<and> gc_platform_keyring_file gh = Some keyring \<and> pi_open pr \<and> opened_by_dependabot gh pr
     \<and> pi_head_repo_id pr = Some repo_id \<and> pi_base_repo_id pr = Some repo_id
     \<and> check_branch_name (pi_head_ref pr) = Inr () \<and> pi_base_ref pr = protected"
  by (auto simp: resign_rules_def wrong_base_def split: if_splits option.splits sum.splits)

lemma yields_branch_is_clean:
  "yields (branch_is_clean repo repo_id pr gh) (\<lambda>r. case r of Inl _ \<Rightarrow> True
     | Inr _ \<Rightarrow> \<exists>l. is_clean l (pi_head_sha pr) (gc_dependabot_login gh) (gc_dependabot_id gh) = Inr ())"
  unfolding branch_is_clean_def
  by (intro yields_after yields_return) (auto split: sum.splits option.splits)

lemma yields_eligibility:
  "yields (eligibility br c repo repo_id pr (Some protected)) (\<lambda>r. case r of Inl _ \<Rightarrow> True
     | Inr keyring \<Rightarrow> \<exists>gh. eligible br c repo repo_id pr protected keyring gh)"
  unfolding eligibility_def eligible_def
  by (intro yields_option yields_after yields_sum yields_return yields_ok_then [OF yields_branch_is_clean])
    (auto dest: resign_rules_InrD)

text \<open>
  The ground of a push: every commit of the range Dependabot's own, checked under the configured
  keyring, and rewritten in order under the bridge's key.
\<close>

definition made_by_rewriting ::
    "'f bridge \<Rightarrow> 'f resign_tools \<Rightarrow> resource \<Rightarrow> string \<Rightarrow> range_commit list \<Rightarrow> string \<Rightarrow> bool" where
  "made_by_rewriting br rt repo keyring cs new_head \<longleftrightarrow>
     (\<exists>gh k ring now f1 f2 dir news. github_config_of br repo = Some gh \<and> rz_identity rt f1 = Inr k
        \<and> load_keyring (rz_check rt) keyring f2 = Inr ring
        \<and> rewritten rt dir (resign_job_of br repo gh k ring now) None None cs news
        \<and> news \<noteq> [] \<and> new_head = fst (last news))"

lemma yields_rewrite_and_push:
  "yields (rewrite_and_push br rt g repo key pr got j) (\<lambda>r. case r of
      Inr (Resigned old new n) \<Rightarrow> old = pi_head_sha pr \<and> n = length (ft_commits got)
        \<and> (\<exists>news. rewritten rt (ft_dir got) j None None (ft_commits got) news \<and> news \<noteq> [] \<and> new = fst (last news))
    | _ \<Rightarrow> True)"
  unfolding rewrite_and_push_def skipped_def
  by (intro yields_ok_then [OF yields_resign_each] yields_sum yields_option yields_after yields_return yields_ok_any)
    (auto simp: last_new_def split: if_splits)

lemma yields_load_keyring:
  "yields (ask_forge (load_keyring tk path)) (\<lambda>r. case r of Inl _ \<Rightarrow> True | Inr ring \<Rightarrow> \<exists>f. load_keyring tk path f = Inr ring)"
  by (intro yields_ask_forge) (auto split: sum.split)

lemma yields_resign_with_key:
  assumes "rz_identity rt f1 = Inr k"
  shows "yields (resign_with_key br rt g repo key pr keyring got k) (\<lambda>r. case r of
      Inr (Resigned old new n) \<Rightarrow> old = pi_head_sha pr \<and> n = length (ft_commits got)
        \<and> made_by_rewriting br rt repo keyring (ft_commits got) new
    | _ \<Rightarrow> True)"
  unfolding resign_with_key_def
proof (intro yields_option yields_return yields_ok_then [OF yields_load_keyring] yields_after
    yields_conseq [OF yields_rewrite_and_push])
  fix gh ring now and r :: "anyhow + resign_outcome"
  assume "github_config_of br repo = Some gh" "\<exists>f. load_keyring (rz_check rt) keyring f = Inr ring"
    and "case r of Inr (Resigned old new n) \<Rightarrow> old = pi_head_sha pr \<and> n = length (ft_commits got)
        \<and> (\<exists>news. rewritten rt (ft_dir got) (resign_job_of br repo gh k ring now) None None (ft_commits got) news
             \<and> news \<noteq> [] \<and> new = fst (last news)) | _ \<Rightarrow> True"
  with assms show "case r of Inr (Resigned old new n) \<Rightarrow> old = pi_head_sha pr \<and> n = length (ft_commits got)
        \<and> made_by_rewriting br rt repo keyring (ft_commits got) new | _ \<Rightarrow> True"
    unfolding made_by_rewriting_def by (auto split: sum.splits resign_outcome.splits; blast)
qed simp_all

lemma yields_resign_fetched:
  "yields (resign_fetched br rt g repo key pr keyring got) (\<lambda>r. case r of
      Inr (Resigned old new n) \<Rightarrow> old = pi_head_sha pr \<and> n = length (ft_commits got)
        \<and> made_by_rewriting br rt repo keyring (ft_commits got) new
    | _ \<Rightarrow> True)"
  unfolding resign_fetched_def skipped_def
proof (rule yields_ok_then [where R = "\<lambda>k. \<exists>f. rz_identity rt f = Inr k"])
  show "yields (ask_forge (rz_identity rt)) (\<lambda>r. case r of Inl _ \<Rightarrow> True | Inr k \<Rightarrow> \<exists>f. rz_identity rt f = Inr k)"
    by (intro yields_ask_forge) (auto split: sum.split)
qed (auto intro!: yields_if yields_return yields_resign_with_key)

lemma yields_resign_range:
  "yields (resign_range br rt g repo key pr keyring) (\<lambda>r. case r of
      Inr (Resigned old new n) \<Rightarrow> old = pi_head_sha pr \<and> (\<exists>cmp cs.
         answered (gh_compare_commits g repo (pi_base_sha pr) (pi_head_sha pr)) cmp
         \<and> unat (cm_total cmp) \<le> bc_max_commits (br_cfg br) \<and> cm_total cmp \<le> of_nat (length (cm_commits cmp))
         \<and> map rc_sha cs = cm_commits cmp \<and> cs \<noteq> [] \<and> rc_sha (last cs) = pi_head_sha pr \<and> n = length cs
         \<and> made_by_rewriting br rt repo keyring cs new)
    | _ \<Rightarrow> True)"
  unfolding resign_range_def skipped_def
proof (intro yields_ok_then [OF yields_ask_github] yields_if yields_return
    yields_ok_then [OF yields_fetch_for_rewrite] yields_ok_any yields_after yields_conseq [OF yields_resign_fetched])
  fix cmp got r
  assume "answered (gh_compare_commits g repo (pi_base_sha pr) (pi_head_sha pr)) cmp"
    "\<not> (unat (cm_total cmp) > bc_max_commits (br_cfg br) \<or> of_nat (length (cm_commits cmp)) < cm_total cmp)"
    "\<not> (cm_commits cmp = [] \<or> last (cm_commits cmp) \<noteq> pi_head_sha pr)"
    "map rc_sha (ft_commits got) = cm_commits cmp"
    "case r of Inr (Resigned old new n) \<Rightarrow> old = pi_head_sha pr \<and> n = length (ft_commits got)
        \<and> made_by_rewriting br rt repo keyring (ft_commits got) new | _ \<Rightarrow> True"
  moreover from this have "ft_commits got \<noteq> []" by auto
  moreover from this have "rc_sha (last (ft_commits got)) = last (map rc_sha (ft_commits got))" by (simp add: last_map)
  ultimately show "case r of
      Inr (Resigned old new n) \<Rightarrow> old = pi_head_sha pr \<and> (\<exists>cmp cs.
         answered (gh_compare_commits g repo (pi_base_sha pr) (pi_head_sha pr)) cmp
         \<and> unat (cm_total cmp) \<le> bc_max_commits (br_cfg br) \<and> cm_total cmp \<le> of_nat (length (cm_commits cmp))
         \<and> map rc_sha cs = cm_commits cmp \<and> cs \<noteq> [] \<and> rc_sha (last cs) = pi_head_sha pr \<and> n = length cs
         \<and> made_by_rewriting br rt repo keyring cs new)
    | _ \<Rightarrow> True"
    by (cases r; simp split: resign_outcome.splits; metis not_less)
qed simp_all

lemma yields_resign_in:
  "yields (resign_in br rt repo repo_id number c g) (\<lambda>r. case r of
      Inr (Resigned old new n) \<Rightarrow> \<exists>pr protected keyring gh cmp cs.
         answered (gh_pull_request g repo number) pr \<and> old = pi_head_sha pr
         \<and> answered (gh_default_branch g repo) protected \<and> eligible br c repo repo_id pr protected keyring gh
         \<and> answered (gh_compare_commits g repo (pi_base_sha pr) old) cmp
         \<and> unat (cm_total cmp) \<le> bc_max_commits (br_cfg br) \<and> cm_total cmp \<le> of_nat (length (cm_commits cmp))
         \<and> map rc_sha cs = cm_commits cmp \<and> cs \<noteq> [] \<and> rc_sha (last cs) = old \<and> n = length cs
         \<and> made_by_rewriting br rt repo keyring cs new
    | _ \<Rightarrow> True)"
  unfolding resign_in_def skipped_def Let_def
  apply (rule yields_ok_then [OF yields_ask_github], simp)
  apply (rule yields_ok_any, simp)
  apply (rule yields_ok_then [OF yields_ask_github], simp)
  apply (rule yields_bind [OF yields_eligibility])
  apply (intro yields_sum yields_if yields_return yields_conseq [OF yields_resign_range])
   apply simp_all
  apply (simp split: sum.splits resign_outcome.splits)
  apply blast
  done


section \<open>A pull request for the example\<close>

text \<open>
  The GitHub of the check's example with one pull request of Dependabot's, its one commit, the ledger
  of its branch, and a git that answers for them.
\<close>

definition sample_original :: string where
  "sample_original = join [newline]
     [''tree '' @ replicate 40 CHR ''1'', ''parent '' @ replicate 40 CHR ''b'',
      ''author d <1+d@users.noreply.github.com> 0 +0000'', ''committer G <g@h> 0 +0000'',
      ''gpgsig '' @ PGP_BEGIN, '' x'', [], ''bump'', []]"

definition sample_pull :: pull_request_info where
  "sample_pull =
     \<lparr>pi_head_sha = sample_head, pi_base_ref = ''main'', pi_base_sha = replicate 40 CHR ''b'', pi_open = True,
      pi_head_ref = ''dependabot/x'', pi_head_repo_id = Some 5, pi_base_repo_id = Some 5,
      pi_author_login = Some ''d'', pi_author_id = Some 1\<rparr>"

definition resign_github :: "unit github_ops" where
  "resign_github = sample_github\<lparr>gh_pull_request := (\<lambda>_ _. return (Inr sample_pull))\<rparr>"

definition resign_adapter :: "unit adapter" where
  "resign_adapter = github_adapter\<lparr>ad_github := Some resign_github\<rparr>"

definition resign_config :: github_config where
  "resign_config = (hd (bc_github sample_config))\<lparr>gc_app_owner := ''o'', gc_platform_keyring_file := Some ''k''\<rparr>"

definition resign_bridge :: "unit bridge" where
  "resign_bridge = github_bridge\<lparr>br_cfg := sample_config\<lparr>bc_github := [resign_config]\<rparr>,
     br_adapters := (\<lambda>k. if k = (''github.com'', Some ''o'') then Some resign_adapter else None)\<rparr>"

definition sample_ledger :: branch_ledger where
  "sample_ledger = branch_ledger_default\<lparr>bl_branch := ''dependabot/x'', bl_pushes :=
     [\<lparr>pu_before = ZERO_SHA, pu_after = sample_head, pu_sender_login = ''d'', pu_sender_id = 1, pu_created = True,
       pu_delivery_id = None, pu_at = 900\<rparr>]\<rparr>"

definition resign_world :: "unit world" where
  "resign_world = github_world\<lparr>db := (db github_world)\<lparr>branches := [(''github.com#5#dependabot/x'', sample_ledger)]\<rparr>\<rparr>"

definition resign_git :: "git_command \<Rightarrow> string" where
  "resign_git c =
     (if ''cat-file'' \<in> set (gi_args c) then sample_original
      else if ''ls-remote'' \<in> set (gi_args c)
      then sample_head @ [CHR 0x09] @ ''refs/heads/dependabot/x'' @ [newline]
      else if ''diff-tree'' \<in> set (gi_args c) then ''README'' @ [CHR 0x00]
      else if ''interpret-trailers'' \<in> set (gi_args c)
      then ''bump'' @ [newline, newline] @ last (gi_args c) @ [newline]
      else if ''hash-object'' \<in> set (gi_args c) then replicate 40 CHR ''c'' @ [newline]
      else [])"

definition resign_tools_sample :: "unit resign_tools" where
  "resign_tools_sample =
     \<lparr>rz_check = sample_tools\<lparr>
        tl_fetcher := sample_fetcher\<lparr>gf_run := (\<lambda>c. return (GitExited (Some 0) (resign_git c) [], 0))\<rparr>,
        tl_lib := sample_lib\<lparr>pgp_parse_keys := (\<lambda>_. Some [Some \<lparr>primary_fingerprint = [1], primary_key = [1], public_subkeys = []\<rparr>])\<rparr>,
        tl_read_file := (\<lambda>_ _. Some BLOCK_START)\<rparr>,
      rz_ed = \<lparr>ed_verifying_key = (\<lambda>k. k), ed_sign = (\<lambda>_ _. replicate 64 0), ed_verify = (\<lambda>_ _ _. True),
        sha512 = (\<lambda>_. replicate 64 0), base64_encode = (\<lambda>_. ''AAAA'')\<rparr>,
      rz_identity = (\<lambda>_. Inr \<lparr>gk_method = ''did:b#1'', gk_seed = replicate 32 1\<rparr>), rz_in_flight = []\<rparr>"

definition sample_job :: resign_job where
  "sample_job = resign_job_of resign_bridge (Resource ''github.com/o/r'') resign_config
     \<lparr>gk_method = ''did:b#1'', gk_seed = replicate 32 1\<rparr> [\<lparr>primary_fingerprint = [1], primary_key = [1], public_subkeys = []\<rparr>] 1000"



text \<open>The sample git by its subcommand; nothing it does changes the world.\<close>

definition resign_gf :: "unit git_fetcher" where
  "resign_gf = sample_fetcher\<lparr>gf_run := (\<lambda>c. return (GitExited (Some 0) (resign_git c) [], 0))\<rparr>"

lemma run_resign_gf: "run_state (on_forge (gf_run resign_gf c)) (w :: unit world) = ((GitExited (Some 0) (resign_git c) [], 0), w)"
  by (simp add: resign_gf_def on_forge_def)

lemma run_git_ok: "run_state (git_ok resign_gf d args token watch) w
     = (Inr (resign_git (git_command_of resign_gf d args token False None)), w)"
  by (simp add: git_ok_def git_run_def ok_then_def run_resign_gf)

lemma run_git_with_input: "run_state (git_with_input resign_gf d args i) w
     = (Inr (resign_git (git_command_of resign_gf d args None False (Some i))), w)"
  by (simp add: git_with_input_def run_resign_gf)

lemma resign_git_of:
  assumes "args \<noteq> []"
  shows "resign_git (git_command_of gf ''/t'' args token lazy i) =
     (if ''cat-file'' \<in> set args then sample_original
      else if ''ls-remote'' \<in> set args then sample_head @ [CHR 0x09] @ ''refs/heads/dependabot/x'' @ [newline]
      else if ''diff-tree'' \<in> set args then ''README'' @ [CHR 0x00]
      else if ''interpret-trailers'' \<in> set args then ''bump'' @ [newline, newline] @ last args @ [newline]
      else if ''hash-object'' \<in> set args then replicate 40 CHR ''c'' @ [newline]
      else [])"
proof -
  let ?h = "set (concat (map (\<lambda>c. [''-c'', c]) git_hardening))"
  have "''cat-file'' \<notin> ?h" "''ls-remote'' \<notin> ?h" "''diff-tree'' \<notin> ?h" "''interpret-trailers'' \<notin> ?h" "''hash-object'' \<notin> ?h"
    by code_simp+
  with assms show ?thesis by (simp add: resign_git_def git_command_of_def del: set_concat)
qed

lemma sample_each_sha: "is_sha (replicate 40 CHR ''c'')" "is_sha (replicate 40 CHR ''b'')" "is_sha sample_head"
  by code_simp+

lemma sample_ids:
  "set [replicate 40 CHR ''b'', replicate 40 CHR ''c'', sample_head]
     \<inter> set [''cat-file'', ''ls-remote'', ''diff-tree'', ''interpret-trailers'', ''hash-object''] = {}"
  by code_simp

lemma sample_resign_one:
  assumes "rc_sha c = sample_head" "rc_raw c = sample_original"
  shows "run_state (resign_one resign_tools_sample ''/t'' sample_job None None c) w = (Inr (Inr (replicate 40 CHR ''c'')), w)"
proof -
  let ?k = "rj_key sample_job" and ?lib = "tl_lib (rz_check resign_tools_sample)"
  have gf: "tl_fetcher (rz_check resign_tools_sample) = resign_gf"
    by (simp add: resign_tools_sample_def resign_gf_def)
  obtain m where m: "parse_commit sample_original = Inr m" and msg: "pc_message m = ''bump'' @ [newline]"
    and parent: "pc_parent m = replicate 40 CHR ''b''"
  proof -
    have "map_sum id (\<lambda>c. (pc_message c, pc_parent c)) (parse_commit sample_original)
       = Inr (''bump'' @ [newline], replicate 40 CHR ''b'')" by code_simp
    then show ?thesis using that by (cases "parse_commit sample_original") auto
  qed
  have "(case parse_commit sample_original of Inl _ \<Rightarrow> False | Inr m \<Rightarrow>
     check_dependabot ?lib m sample_original None (rj_keyring sample_job) (rj_login sample_job) (rj_email sample_job) = Inr ())"
    by code_simp
  then have check: "check_dependabot ?lib m sample_original None (rj_keyring sample_job) (rj_login sample_job) (rj_email sample_job) = Inr ()"
    by (simp add: m)
  have "(case parse_commit sample_original of Inl _ \<Rightarrow> False | Inr m \<Rightarrow>
     map_sum id (\<lambda>_. ()) (resign_commit (scid ?lib) (rz_ed resign_tools_sample) m (pc_parent m) (rj_committer sample_job)
       (''bump'' @ [newline, newline] @ ''Signed-by-DID: did:b#1'' @ [newline]) ?k) = Inr ())"
    by code_simp
  then obtain raw where raw: "resign_commit (scid ?lib) (rz_ed resign_tools_sample) m (pc_parent m) (rj_committer sample_job)
       (''bump'' @ [newline, newline] @ ''Signed-by-DID: did:b#1'' @ [newline]) ?k = Inr raw"
    unfolding m sum.case by (cases "resign_commit (scid ?lib) (rz_ed resign_tools_sample) m (pc_parent m) (rj_committer sample_job)
       (''bump'' @ [newline, newline] @ ''Signed-by-DID: did:b#1'' @ [newline]) ?k") auto
  have key: "gk_method ?k = ''did:b#1''" by (simp add: sample_job_def resign_job_of_def)
  have "\<not> list_ex touches_workflows (filter (\<lambda>p. p \<noteq> []) (split_on CHR 0x00 (''README'' @ [CHR 0x00])))"
    by code_simp
  then have work: "run_state (changes_workflows resign_gf ''/t'' (pc_parent m) sample_head) w = (Inr False, w)"
    using sample_ids by (simp add: changes_workflows_def ok_then_def run_git_with_input resign_git_of parent
     )
  have "\<not> (has_whitespace ''did:b#1'' \<or> has_control ''did:b#1'')"
    "utf8_valid (''bump'' @ [newline, newline] @ ''Signed-by-DID: did:b#1'' @ [newline])"
    by code_simp+
  then have trailer: "run_state (add_trailer resign_gf ''/t'' (''bump'' @ [newline]) ?k) w
     = (Inr (''bump'' @ [newline, newline] @ ''Signed-by-DID: did:b#1'' @ [newline]), w)"
    by (simp add: add_trailer_def ok_then_def run_git_with_input resign_git_of key)
  have "trim (replicate 40 CHR ''c'' @ [newline]) = replicate 40 CHR ''c''" "utf8_valid (replicate 40 CHR ''c'' @ [newline])"
    by code_simp+
  with sample_each_sha(1) trailer raw show ?thesis
    by (simp add: resign_one_def gf assms m check msg work unwrap_or_def ok_then_def run_git_with_input
        resign_git_of sha_ok_def check_sha_def)
qed

text \<open>The fetch, the branch's head and the push of the example.\<close>

lemma sample_fetch:
  "run_state (fetch_for_rewrite resign_gf ''https://github.com/o/r.git'' t sample_head [sample_head]) w
     = (Inr \<lparr>ft_commits = [\<lparr>rc_sha = sample_head, rc_raw = sample_original\<rparr>], ft_dir = ''/t''\<rparr>, w)"
proof -
  have "url_scheme ''https://github.com/o/r.git'' = ''https''" by code_simp
  moreover have "run_state (on_forge (gf_tempdir resign_gf)) w = (Inr ''/t'', w)"
    by (simp add: resign_gf_def sample_fetcher_def on_forge_def)
  ultimately show ?thesis
    by (simp add: fetch_for_rewrite_def fetch_with_def sha_ok_def check_sha_def sample_each_sha run_git_ok resign_git_of
        ok_then_def)
qed

lemma sample_branch_head:
  "run_state (branch_head resign_gf ''/t'' t ''dependabot/x'') w = (Inr (Some sample_head), w)"
proof -
  have "check_branch_name ''dependabot/x'' = Inr ()"
    "head_line (''refs/heads/'' @ ''dependabot/x'')
       (lines (utf8_lossy (sample_head @ [CHR 0x09] @ ''refs/heads/dependabot/x'' @ [newline]))) = Some sample_head"
    by code_simp+
  then show ?thesis
    by (simp add: branch_head_def branch_ok_def Let_def run_git_ok resign_git_of ok_then_def sha_ok_def check_sha_def
        sample_each_sha)
qed

lemma sample_push:
  "run_state (push_commits resign_gf ''/t'' t (replicate 40 CHR ''c'') ''dependabot/x'' sample_head) w = (Inr (), w)"
  "run_state (complete_for_push resign_gf ''/t'' t (replicate 40 CHR ''c'') sample_head) w = (Inr (), w)"
proof -
  have b: "check_branch_name ''dependabot/x'' = Inr ()" "missing_objects [] = []" by code_simp+
  show "run_state (push_commits resign_gf ''/t'' t (replicate 40 CHR ''c'') ''dependabot/x'' sample_head) w = (Inr (), w)"
    using b sample_ids
    by (simp add: push_commits_def branch_ok_def sha_ok_def check_sha_def sample_each_sha ok_then_def run_git_ok
        resign_git_of del: replicate.simps)
  show "run_state (complete_for_push resign_gf ''/t'' t (replicate 40 CHR ''c'') sample_head) w = (Inr (), w)"
    using b sample_ids
    by (simp add: complete_for_push_def sha_ok_def check_sha_def sample_each_sha ok_then_def run_git_ok resign_git_of
        del: replicate.simps)
qed

lemma sample_fetcher_of: "tl_fetcher (rz_check resign_tools_sample) = resign_gf"
  by (simp add: resign_tools_sample_def resign_gf_def)

text \<open>The store of the example, once its pull request is remembered.\<close>

definition stored :: "unit world \<Rightarrow> bool" where
  "stored w \<longleftrightarrow> faults w = [] \<and> clock w = 1000
     \<and> (\<exists>l. map_of (branches (db w)) ''github.com#5#dependabot/x'' = Some l
          \<and> is_clean l sample_head (gc_dependabot_login resign_config) (gc_dependabot_id resign_config) = Inr ())"

lemma same_world [simp]: "(w :: unit world)\<lparr>forge_state := f\<rparr> = w"
  by (cases w) simp

lemma sample_push_resigned:
  assumes "stored w"
  shows "\<exists>w'. run_state (push_resigned resign_tools_sample resign_github repo ''github.com#5#dependabot/x'' ''/t''
     (replicate 40 CHR ''c'') ''dependabot/x'' sample_head) w = (Inr (), w')"
  using assms
  by (auto simp: stored_def push_resigned_def ok_then_def ask_github_def on_forge_def forge_err_def resign_github_def
      sample_github_def sample_fetcher_of sample_push store_err_def record_own_def clock_now_def update_rec_def run_txn_ok
      BRANCHES_def simp del: replicate.simps)

lemma sample_resign_fetched:
  assumes "stored w"
  shows "\<exists>w'. run_state (resign_fetched resign_bridge resign_tools_sample resign_github (Resource ''github.com/o/r'')
     ''github.com#5#dependabot/x'' sample_pull ''k''
     \<lparr>ft_commits = [\<lparr>rc_sha = sample_head, rc_raw = sample_original\<rparr>], ft_dir = ''/t''\<rparr>) w
       = (Inr (Resigned sample_head (replicate 40 CHR ''c'') 1), w')"
proof -
  let ?k = "\<lparr>gk_method = ''did:b#1'', gk_seed = replicate 32 1\<rparr>"
    and ?ring = "[\<lparr>primary_fingerprint = [1], primary_key = [1], public_subkeys = []\<rparr>]"
  have "signed_by_bridge (scid (tl_lib (rz_check resign_tools_sample))) (rz_ed resign_tools_sample) ?k sample_original \<noteq> Inr True"
    by code_simp
  moreover have "load_keyring (rz_check resign_tools_sample) ''k'' f = Inr ?ring" for f
  proof -
    have "keyring_from_armored (tl_lib (rz_check resign_tools_sample)) BLOCK_START = Inr ?ring" by code_simp
    then show ?thesis by (simp add: load_keyring_def resign_tools_sample_def)
  qed
  moreover have "github_config_of resign_bridge (Resource ''github.com/o/r'') = Some resign_config" by code_simp
  moreover have "rz_identity resign_tools_sample f = Inr ?k" for f by (simp add: resign_tools_sample_def)
  moreover have "clock w = 1000" using assms by (simp add: stored_def)
  moreover obtain w' where "run_state (push_resigned resign_tools_sample resign_github (Resource ''github.com/o/r'')
     ''github.com#5#dependabot/x'' ''/t'' (replicate 40 CHR ''c'') ''dependabot/x'' sample_head) w = (Inr (), w')"
    using sample_push_resigned [OF assms] by blast
  moreover have "pi_head_sha sample_pull = sample_head" "pi_head_ref sample_pull = ''dependabot/x''"
    by (simp_all add: sample_pull_def)
  ultimately show ?thesis
    by (simp add: resign_fetched_def resign_with_key_def rewrite_and_push_def ok_then_def ask_forge_def clock_now_def
        sample_resign_one sample_job_def [symmetric] del: replicate.simps)
qed

lemma sample_resign_range:
  assumes "stored w"
  shows "\<exists>w'. run_state (resign_range resign_bridge resign_tools_sample resign_github (Resource ''github.com/o/r'')
     ''github.com#5#dependabot/x'' sample_pull ''k'') w = (Inr (Resigned sample_head (replicate 40 CHR ''c'') 1), w')"
proof -
  have "bc_max_commits (br_cfg resign_bridge) = 4" by (simp add: resign_bridge_def github_bridge_def sample_bridge_def sample_config_def)
  moreover have "pi_head_sha sample_pull = sample_head" "pi_head_ref sample_pull = ''dependabot/x''"
    by (simp_all add: sample_pull_def)
  ultimately show ?thesis using sample_resign_fetched [OF assms]
    by (simp add: resign_range_def ok_then_def ask_github_def on_forge_def forge_err_def resign_github_def sample_github_def
        sample_fetcher_of sample_fetch sample_branch_head del: replicate.simps)
qed

definition resign_ctx :: "unit ctx" where
  "resign_ctx = \<lparr>cx_ns = github_namespace, cx_adapter = resign_adapter,
     cx_namespace = namespace_new (Resource ''github.com/o'') Organization\<rparr>"

lemma sample_github_ctx:
  "run_state (github_ctx resign_bridge (Resource ''github.com/o/r'')) resign_world = (Some resign_ctx, resign_world)"
proof -
  have c: "contains_resource (Resource ''github.com/o'') (Resource ''github.com/o/r'')" by code_simp
  have st: "nr_state github_namespace = NsBound" "nr_id github_namespace = ''ns1''" "is_bound github_namespace"
    "nr_binding github_namespace = Some \<lparr>nb_namespace = namespace_new (Resource ''github.com/o'') Organization,
       nb_capabilities = None, nb_missing_permissions = []\<rparr>"
    "nr_resource github_namespace = Resource ''github.com/o''"
    by (simp_all add: github_namespace_def example_namespace_def namespace_pending_def is_bound_def)
  have "host (Resource ''github.com/o'') = ''github.com''" "to_ascii_lowercase (owner (Resource ''github.com/o'')) = ''o''"
    by code_simp+
  then have f: "for_resource resign_bridge (Resource ''github.com/o'') = Some resign_adapter"
    by (simp add: for_resource_def key_of_def resign_bridge_def)
  have w: "resign_world\<lparr>db := db resign_world, faults := tl (faults resign_world)\<rparr> = resign_world"
    "faults resign_world = []" "namespaces (db resign_world) = [(''ns1'', github_namespace)]"
    by (simp_all add: resign_world_def github_world_def example_world_def)
  have "ad_github resign_adapter \<noteq> None" by (simp add: resign_adapter_def)
  then show ?thesis
    by (simp add: github_ctx_def list_rec_def get_rec_def run_txn_ok NAMESPACES_def w c st f ctx_load_def
        bound_namespace_def ctx_with_def resign_ctx_def)
qed

lemma sample_eligibility:
  assumes "stored w"
  shows "\<exists>w'. run_state (eligibility resign_bridge resign_ctx (Resource ''github.com/o/r'') 5 sample_pull (Some ''main'')) w
     = (Inr ''k'', w') \<and> stored w'"
proof -
  have "github_config_of resign_bridge (Resource ''github.com/o/r'') = Some resign_config"
    "resign_rules resign_config (automation full_caps) (owner (nr_resource (cx_ns resign_ctx))) 5 sample_pull (Some ''main'') = Inr ''k''"
    "ledger_key (host (Resource ''github.com/o/r'')) 5 (pi_head_ref sample_pull) = ''github.com#5#dependabot/x''"
    by code_simp+
  moreover have "automation (fo_capabilities (cx_ops resign_ctx) n f) = automation full_caps" for n f
    by (simp add: resign_ctx_def cx_ops_def resign_adapter_def github_adapter_def)
  moreover have "pi_head_sha sample_pull = sample_head" by (simp add: sample_pull_def)
  ultimately show ?thesis using assms
    by (auto simp: eligibility_def ask_forge_def ok_then_def branch_is_clean_def get_rec_def run_txn_ok BRANCHES_def stored_def)
qed

lemma sample_resign:
  "\<exists>w'. run_state (resign_run resign_bridge resign_tools_sample (Resource ''github.com/o/r'') 5 7) resign_world
     = (Inr (Resigned sample_head (replicate 40 CHR ''c'') 1), w')"
proof -
  have key: "ledger_key (host (Resource ''github.com/o/r'')) 5 (pi_head_ref sample_pull) = ''github.com#5#dependabot/x''"
    by code_simp
  obtain w where w: "run_state (store_err (remember_pull_request ''github.com#5#dependabot/x'' 7)) resign_world = (Inr (), w)"
    and "stored w"
  proof -
    have "map_of (branches (db resign_world)) ''github.com#5#dependabot/x'' = Some sample_ledger"
      "faults resign_world = []" "clock resign_world = 1000"
      by (simp_all add: resign_world_def github_world_def example_world_def)
    moreover have "is_clean (sample_ledger\<lparr>bl_pull_request := Some 7, bl_touched := 1000\<rparr>) sample_head
      (gc_dependabot_login resign_config) (gc_dependabot_id resign_config) = Inr ()" by code_simp
    ultimately show ?thesis
      by (intro that) (auto simp: map_of_tab_put store_err_def remember_pull_request_def make_room_def get_rec_def update_rec_def run_txn_ok
          ok_then_def clock_now_def BRANCHES_def stored_def unwrap_or_def)
  qed
  obtain w1 where e: "run_state (eligibility resign_bridge resign_ctx (Resource ''github.com/o/r'') 5 sample_pull (Some ''main'')) w
     = (Inr ''k'', w1)" "stored w1" using sample_eligibility [OF \<open>stored w\<close>] by blast
  then obtain w2 where "run_state (resign_range resign_bridge resign_tools_sample resign_github (Resource ''github.com/o/r'')
     ''github.com#5#dependabot/x'' sample_pull ''k'') w1 = (Inr (Resigned sample_head (replicate 40 CHR ''c'') 1), w2)"
    using sample_resign_range by blast
  moreover have "resumable resign_bridge (Resource ''github.com/o/r'') 5 sample_pull" by code_simp
  moreover have "rz_in_flight resign_tools_sample = []" by (simp add: resign_tools_sample_def)
  moreover have "ad_github (cx_adapter resign_ctx) = Some resign_github" by (simp add: resign_ctx_def resign_adapter_def)
  moreover have "gh_pull_request resign_github r n = return (Inr sample_pull)" "gh_default_branch resign_github r = return (Inr ''main'')" for r n
    by (simp_all add: resign_github_def sample_github_def)
  ultimately show ?thesis
    by (simp add: resign_run_def resign_in_def Let_def sample_github_ctx ask_github_def on_forge_def forge_err_def key w e ok_then_def
        del: replicate.simps)
qed


end
