(* ===== verification/Signer_Policy.thy ===== *)
theory Signer_Policy
  imports Sshsig Signature_Check Json_Value
begin

text \<open>
  The decisions of the signing program, \<^verbatim>\<open>crates/did-git-sign/src/policy.rs\<close> and the pure part of
  \<^verbatim>\<open>sign.rs\<close>: who may run it, in which namespace it signs, which persona's key, where the signature
  is made, how much is read, and whether a commit's claim fits the key. An error is the chain of an
  \<open>anyhow::Error\<close>, outermost first.
\<close>

type_synonym failure = "string list"

section \<open>The parent process\<close>

definition ALLOWED_PARENTS :: "string list" where
  "ALLOWED_PARENTS = [''git'', ''ssh-keygen'']"

definition parent_is_allowed :: "string \<Rightarrow> bool" where
  "parent_is_allowed name =
     (let token = (case strip_suffix ''.exe'' name of Some t \<Rightarrow> t | None \<Rightarrow> name)
      in list_ex (\<lambda>allowed. token = allowed \<or> (allowed = ''git'' \<and> starts_with ''git-'' token)) ALLOWED_PARENTS)"

text \<open>\<open>split_whitespace().next()\<close>: the first run of characters that are not white space.\<close>

fun until_ws :: "string \<Rightarrow> string" where
  "until_ws [] = []"
| "until_ws (c # s) = (if strip_any unicode_ws (c # s) \<noteq> None then [] else c # until_ws s)"

definition first_word :: "string \<Rightarrow> string option" where
  "first_word s = (let t = strip_all unicode_ws s in if t = [] then None else Some (until_ws t))"

text \<open>\<open>to_lowercase\<close> is over the whole of Unicode, so its table is an argument.\<close>

definition decide :: "(string \<Rightarrow> string) \<Rightarrow> bool \<Rightarrow> string option \<Rightarrow> bool" where
  "decide lowercase bypass parent \<longleftrightarrow>
     bypass \<or> (case Option.bind parent first_word of
                 None \<Rightarrow> False
               | Some token \<Rightarrow> parent_is_allowed (lowercase token))"

definition BYPASS_ENV :: string where
  "BYPASS_ENV = ''DID_GIT_SIGN_BYPASS_POLICY''"

text \<open>The build feature decides whether the variable is read at all.\<close>

definition bypass_requested :: "bool \<Rightarrow> (string \<Rightarrow> string option) \<Rightarrow> bool" where
  "bypass_requested feature env \<longleftrightarrow>
     feature \<and> (case env BYPASS_ENV of
                   None \<Rightarrow> False
                 | Some v \<Rightarrow> v = ''1'' \<or> eq_ignore_ascii_case v ''true'')"

record audit_entry =
  ae_timestamp :: string
  ae_action :: string
  ae_allowed :: bool
  ae_parent_pid :: "32 word option"
  ae_parent_name :: "string option"
  ae_namespace :: string
  ae_buffer_path :: "string option"
  ae_buffer_sha256 :: string
  ae_bypass :: bool

definition hex_encode :: "bytes \<Rightarrow> string" where
  "hex_encode bs = concat (map (\<lambda>b. [hex_digit (unat b div 16), hex_digit (unat b mod 16)]) bs)"

text \<open>What the gate knows besides its arguments.\<close>

record gate_env =
  ge_feature :: bool
  ge_env :: "string \<Rightarrow> string option"
  ge_parent_pid :: "32 word option"
  ge_parent_name :: "string option"
  ge_now :: string

definition evaluate ::
    "(string \<Rightarrow> string) \<Rightarrow> (bytes \<Rightarrow> bytes) \<Rightarrow> gate_env \<Rightarrow> string \<Rightarrow> string option \<Rightarrow> bytes \<Rightarrow> audit_entry" where
  "evaluate lowercase sha256 ge ns path buffer =
     (let bypass = bypass_requested (ge_feature ge) (ge_env ge)
      in \<lparr>ae_timestamp = ge_now ge, ae_action = ''sign'', ae_allowed = decide lowercase bypass (ge_parent_name ge),
          ae_parent_pid = ge_parent_pid ge, ae_parent_name = ge_parent_name ge, ae_namespace = ns,
          ae_buffer_path = path, ae_buffer_sha256 = hex_encode (sha256 buffer), ae_bypass = bypass\<rparr>)"

section \<open>The namespace and the mode\<close>

definition sign_namespace_ok :: "string \<Rightarrow> failure + unit" where
  "sign_namespace_ok ns =
     (if ns = GIT_SSHSIG_NAMESPACE then Inr ()
      else Inl [''did-git-sign: refusing to sign in sshsig namespace '' @ show_debug ns @ ''. did-git-sign only ''
        @ ''signs git objects, in the '' @ show_debug GIT_SSHSIG_NAMESPACE @ '' namespace; use ssh-keygen with a ''
        @ ''separate key for other namespaces.''])"

definition SIGNING_KEY_ENV :: string where
  "SIGNING_KEY_ENV = ''DID_GIT_SIGN_KEY''"

definition SIGNING_KEY_GIT_CONFIG :: string where
  "SIGNING_KEY_GIT_CONFIG = ''did-git-sign.key''"

definition SIGNER_ENV :: string where
  "SIGNER_ENV = ''DID_GIT_SIGN_SIGNER''"

definition SIGNER_GIT_CONFIG :: string where
  "SIGNER_GIT_CONFIG = ''did-git-sign.signer''"

datatype signer_mode = VtaSigns | AutoSigns | ExportSigns

definition signer_mode_display :: "signer_mode \<Rightarrow> string" where
  "signer_mode_display m = (case m of VtaSigns \<Rightarrow> ''vta'' | AutoSigns \<Rightarrow> ''auto'' | ExportSigns \<Rightarrow> ''export'')"

definition signer_mode_parse :: "string \<Rightarrow> failure + signer_mode" where
  "signer_mode_parse value =
     (let v = trim value
      in if v = ''vta'' then Inr VtaSigns
         else if v = ''auto'' \<or> v = [] then Inr AutoSigns
         else if v = ''export'' then Inr ExportSigns
         else Inl [''did-git-sign: unknown signer '' @ show_debug v @ '' (from '' @ SIGNER_ENV @ '' or `git config ''
           @ SIGNER_GIT_CONFIG @ ''`); expected vta, auto or export''])"

text \<open>\<open>git config --get\<close>: what the run printed, \<open>None\<close> where git could not be run.\<close>

definition git_config_value :: "(bool \<times> string) option \<Rightarrow> string option" where
  "git_config_value out =
     (case out of
        None \<Rightarrow> None
      | Some (success, text) \<Rightarrow>
          if \<not> success then None
          else (let v = trim (utf8_lossy text) in if v = [] then None else Some v))"

definition signer_mode_of :: "string option \<Rightarrow> string option \<Rightarrow> failure + signer_mode" where
  "signer_mode_of env git =
     (case env of
        Some v \<Rightarrow>
          if trim v \<noteq> [] then signer_mode_parse v
          else (case git of Some v \<Rightarrow> signer_mode_parse v | None \<Rightarrow> Inr AutoSigns)
      | None \<Rightarrow> (case git of Some v \<Rightarrow> signer_mode_parse v | None \<Rightarrow> Inr AutoSigns))"

section \<open>The persona\<close>

datatype key_source = KeyFromEnv | KeyFromGitConfig | KeyFromConfigFile

definition key_source_display :: "key_source \<Rightarrow> string" where
  "key_source_display s =
     (case s of
        KeyFromEnv \<Rightarrow> ''the DID_GIT_SIGN_KEY environment variable''
      | KeyFromGitConfig \<Rightarrow> ''git config did-git-sign.key''
      | KeyFromConfigFile \<Rightarrow> ''the did-git-sign config file'')"

definition clean_setting :: "string option \<Rightarrow> string option" where
  "clean_setting v = (case v of None \<Rightarrow> None | Some s \<Rightarrow> if trim s = [] then None else Some (trim s))"

definition select_signing_key ::
    "string \<Rightarrow> string option \<Rightarrow> string option \<Rightarrow> string \<times> key_source" where
  "select_signing_key config_did env git =
     (case clean_setting env of
        Some v \<Rightarrow> (v, KeyFromEnv)
      | None \<Rightarrow>
          (case clean_setting git of
             Some v \<Rightarrow> (v, KeyFromGitConfig)
           | None \<Rightarrow> (config_did, KeyFromConfigFile)))"

definition bare_did :: "string \<Rightarrow> string" where
  "bare_did did_key_id = hd (split_any (\<lambda>c. c \<in> {CHR ''#'', CHR ''?'', CHR ''/''}) did_key_id)"

definition quoted :: "string \<Rightarrow> string" where
  "quoted s = [CHR 0x27] @ s @ [CHR 0x27]"

definition check_committer_matches_key ::
    "scid_lib \<Rightarrow> string \<Rightarrow> string \<Rightarrow> key_source \<Rightarrow> failure + unit" where
  "check_committer_matches_key sl data did_key_id src =
     (case conflicting_signer_dids sl data of
        Some (trailer, committer) \<Rightarrow>
          Inl [''did-git-sign: Signed-by-DID trailer claims '' @ quoted trailer @ '' but committer claims ''
            @ quoted committer @ ''. Remove one claim or make them match before signing.'']
      | None \<Rightarrow>
          (case signer_did sl data of
             Some claimed \<Rightarrow>
               if same_signer sl claimed (bare_did did_key_id) then Inr ()
               else Inl [''did-git-sign: this commit claims signer '' @ quoted claimed
                 @ '' but would be signed with a key held by '' @ quoted (bare_did did_key_id) @ '' (selected via ''
                 @ key_source_display src @ ''), so it would fail verification as unknownKey. Point the claim at the ''
                 @ ''signing key '' @ [CHR 0xE2, CHR 0x80, CHR 0x94] @ '' `git config did-git-sign.key ''
                 @ quoted did_key_id @ ''` for the Signed-by-DID trailer, or `git config user.email` for a legacy ''
                 @ ''DID committer '' @ [CHR 0xE2, CHR 0x80, CHR 0x94] @ '' or select the persona matching the claim.'']
           | None \<Rightarrow>
               if committer_identity data = None then Inr ()
               else Inl [''did-git-sign: no Signed-by-DID trailer and user.email is not a DID, so the commit would ''
                 @ ''state no signer identity and fail verification as noSignerDid. Run ''
                 @ quoted ''did-git-sign init'' @ '' to install the commit-msg hook, or set user.email to ''
                 @ quoted did_key_id @ ''.'']))"

section \<open>The input\<close>

definition MAX_SIGN_INPUT :: nat where
  "MAX_SIGN_INPUT = 16 * 1024 * 1024"

text \<open>The bytes that were there to read; one more than the bound is read of them.\<close>

definition read_bounded :: "'a list \<Rightarrow> failure + 'a list" where
  "read_bounded input =
     (let buf = take (MAX_SIGN_INPUT + 1) input
      in if length buf > MAX_SIGN_INPUT
         then Inl [''refusing to sign more than '' @ show_nat MAX_SIGN_INPUT @ '' bytes: git's commit and tag objects ''
           @ ''are far smaller'']
         else Inr buf)"

section \<open>Facts\<close>

lemma read_bounded_iff: "read_bounded input = Inr buf \<longleftrightarrow> buf = input \<and> length input \<le> MAX_SIGN_INPUT"
  by (auto simp: read_bounded_def Let_def)

lemma sign_namespace_ok_iff: "sign_namespace_ok ns = Inr u \<longleftrightarrow> ns = ''git''"
  by (simp add: sign_namespace_ok_def GIT_SSHSIG_NAMESPACE_def)

lemma parent_is_allowed_iff:
  "parent_is_allowed name \<longleftrightarrow>
     (let t = (case strip_suffix ''.exe'' name of Some t \<Rightarrow> t | None \<Rightarrow> name)
      in t = ''git'' \<or> t = ''ssh-keygen'' \<or> (\<exists>sub. t = ''git-'' @ sub))"
  by (auto simp: parent_is_allowed_def ALLOWED_PARENTS_def starts_with_prefix prefix_def Let_def split: option.splits)

text \<open>A normal build has no way round the parent.\<close>

lemma no_bypass_in_a_normal_build: "\<not> bypass_requested False env"
  by (simp add: bypass_requested_def)

lemma check_committer_matches_key_iff:
  "check_committer_matches_key sl data k src = Inr u \<longleftrightarrow>
     conflicting_signer_dids sl data = None
     \<and> (case signer_did sl data of
          Some claimed \<Rightarrow> same_signer sl claimed (bare_did k)
        | None \<Rightarrow> committer_identity data = None)"
  by (auto simp: check_committer_matches_key_def split: option.splits if_splits)

end
