(* ===== verification/Signer_Run.thy ===== *)
theory Signer_Run
  imports Signer_Policy Effects
begin

text \<open>
  One run of the signing program, \<^verbatim>\<open>crates/did-git-sign/src/sign.rs\<close> and \<^verbatim>\<open>vta.rs\<close>: from the checks that
  precede any input to the signature written. The outside (the VTA, the credential store, git, the
  file system) is the state \<open>'f\<close> and the operations of \<open>signer_ops\<close>; \<open>'c\<close> is the SDK's client. The
  run keeps a log of what it asked the VTA, what it gave to the audit log and what it wrote.
\<close>

section \<open>The outside\<close>

record signing_config =
  sc_did_key_id :: string
  sc_user_name :: "string option"

record vta_credentials =
  vc_vta_url :: string
  vc_vta_did :: string
  vc_credential_did :: string
  vc_private_key :: string
  vc_key_id :: string
  vc_mediator_did :: "string option"

datatype keyring_read = Stored string | NoEntry | KeyringFailed string

record parsed_url =
  pu_username :: string
  pu_password :: "string option"
  pu_shown :: string

datatype key_type = KeyEd25519 | KeyOther string

text \<open>What the VTA answered to a request to sign.\<close>

datatype remote_signature = RemoteSigned bytes | Unsupported | NotPermitted string

datatype vta_call =
    AskedConnect
  | AskedSign string bytes
  | AskedPublicKey string
  | AskedSecret string

record ('f, 'c) signer_ops =
  so_lowercase :: "string \<Rightarrow> string"
  so_sha256 :: "bytes \<Rightarrow> bytes"
  so_ed :: ed_lib
  so_scid :: scid_lib
  so_gate :: "'f \<Rightarrow> gate_env"
  so_read_input :: "string option \<Rightarrow> ('f, string + string) state"
  so_write_audit :: "audit_entry \<Rightarrow> ('f, bool) state"
  so_audit_path :: "string option"
  so_load_config :: "string \<Rightarrow> ('f, failure + signing_config) state"
  so_git_config :: "string \<Rightarrow> ('f, (bool \<times> string) option) state"
  so_get_password :: "string \<Rightarrow> ('f, keyring_read) state"
  so_set_password :: "string \<Rightarrow> string \<Rightarrow> ('f, bool) state"
  so_recover_legacy :: "string \<Rightarrow> ('f, string option) state"
  so_store_name :: string
  so_credentials_of :: "string \<Rightarrow> vta_credentials option"
  so_cached_token :: "string \<Rightarrow> (string \<times> 64 word) option"
  so_token_text :: "string \<Rightarrow> 64 word \<Rightarrow> string"
  so_unix_time :: "'f \<Rightarrow> 64 word option"
  so_parse_url :: "string \<Rightarrow> parsed_url option"
  so_https_or_loopback :: "string \<Rightarrow> bool"
  so_client :: "string \<Rightarrow> string \<Rightarrow> string \<Rightarrow> string \<Rightarrow> 'c"
  so_set_token :: "'c \<Rightarrow> string \<Rightarrow> 'c"
  so_connect :: "vta_credentials \<Rightarrow> ('f, string + ('c \<times> (string \<times> 64 word) option)) state"
  so_dispatch :: "'c \<Rightarrow> string \<Rightarrow> json \<Rightarrow> ('f, string + json) state"
  so_get_key :: "'c \<Rightarrow> string \<Rightarrow> ('f, string + (key_type \<times> string)) state"
  so_get_key_secret :: "'c \<Rightarrow> string \<Rightarrow> ('f, string + (key_type \<times> string)) state"
  so_decode_public :: "string \<Rightarrow> string + bytes"
  so_verifying_key :: "bytes \<Rightarrow> string + bytes"
  so_decode_private :: "string \<Rightarrow> string + bytes"
  so_b64url :: "bytes \<Rightarrow> string"
  so_b64url_decode :: "string \<Rightarrow> string + bytes"
  so_write_file :: "string \<Rightarrow> string \<Rightarrow> ('f, string + unit) state"

record 'f signer_world =
  sw_outside :: 'f
  sw_audited :: "audit_entry list"
  sw_asked :: "vta_call list"
  sw_written :: "(string option \<times> string) list"

type_synonym ('f, 'a) signer_io = "('f signer_world, 'a) state"

definition outside :: "('f, 'a) state \<Rightarrow> ('f, 'a) signer_io" where
  "outside m = State (\<lambda>w. case run_state m (sw_outside w) of (a, f) \<Rightarrow> (a, w\<lparr>sw_outside := f\<rparr>))"

definition ask_vta :: "vta_call \<Rightarrow> ('f, 'a) state \<Rightarrow> ('f, 'a) signer_io" where
  "ask_vta c m = do { _ \<leftarrow> modify (\<lambda>w. w\<lparr>sw_asked := sw_asked w @ [c]\<rparr>); outside m }"

definition fails_with :: "failure \<Rightarrow> ('f, failure + 'a) signer_io" where
  "fails_with e = return (Inl e)"

section \<open>Credentials\<close>

definition load_vta_credentials :: "('f, 'c) signer_ops \<Rightarrow> string \<Rightarrow> ('f, failure + vta_credentials) signer_io" where
  "load_vta_credentials so did_key_id = do {
     let key = did_key_id @ '':vta'';
     r \<leftarrow> outside (so_get_password so key);
     data \<leftarrow> (case r of
         Stored d \<Rightarrow> return (Inr d)
       | NoEntry \<Rightarrow> do {
           old \<leftarrow> outside (so_recover_legacy so key);
           return (case old of
               Some d \<Rightarrow> Inr d
             | None \<Rightarrow> Inl [''no VTA credentials for '' @ did_key_id @ '' in the '' @ so_store_name so @ '' ''
                 @ [CHR 0xE2, CHR 0x80, CHR 0x94] @ '' run `did-git-sign init` first (or, if OpenVTC set this ''
                 @ ''identity up, re-run git signing setup there)''])
         }
       | KeyringFailed e \<Rightarrow> return (Inl [''could not read VTA credentials for '' @ did_key_id @ '' from the ''
           @ so_store_name so @ '': '' @ e]));
     return (case data of
         Inl e \<Rightarrow> Inl e
       | Inr d \<Rightarrow>
           (case so_credentials_of so d of
              Some c \<Rightarrow> Inr c
            | None \<Rightarrow> Inl [''failed to parse VTA credentials from the '' @ so_store_name so]))
   }"

text \<open>A cached token counts with at least thirty seconds left; the sum wraps as \<open>u64\<close> does.\<close>

definition load_cached_token :: "('f, 'c) signer_ops \<Rightarrow> string \<Rightarrow> ('f, string option) signer_io" where
  "load_cached_token so did_key_id = do {
     r \<leftarrow> outside (so_get_password so (did_key_id @ '':token''));
     now \<leftarrow> gets (\<lambda>w. so_unix_time so (sw_outside w));
     return (case r of
         Stored d \<Rightarrow>
           (case (so_cached_token so d, now) of
              (Some (token, expires_at), Some now) \<Rightarrow> if now + 30 < expires_at then Some token else None
            | _ \<Rightarrow> None)
       | _ \<Rightarrow> None)
   }"

definition cache_token :: "('f, 'c) signer_ops \<Rightarrow> string \<Rightarrow> string \<Rightarrow> 64 word \<Rightarrow> ('f, bool) signer_io" where
  "cache_token so did_key_id token expires_at =
     outside (so_set_password so (did_key_id @ '':token'') (so_token_text so token expires_at))"

definition vta_url_is_secure :: "('f, 'c) signer_ops \<Rightarrow> string \<Rightarrow> bool" where
  "vta_url_is_secure so u =
     (case so_parse_url so u of
        None \<Rightarrow> False
      | Some p \<Rightarrow> pu_username p = [] \<and> pu_password p = None \<and> so_https_or_loopback so u)"

text \<open>\<open>pu_shown\<close> is the URL without its user and password.\<close>

definition insecure_vta_url :: "('f, 'c) signer_ops \<Rightarrow> string \<Rightarrow> failure" where
  "insecure_vta_url so u =
     (let shown = (case so_parse_url so u of
          Some p \<Rightarrow>
            if pu_username p \<noteq> [] \<or> pu_password p \<noteq> None
            then pu_shown p @ '' with a user:password'' @ [CHR 0x40] @ '' part''
            else u
        | None \<Rightarrow> u)
      in [''VTA URL must use HTTPS, with no user:password'' @ [CHR 0x40] @ '' part (got: '' @ shown
          @ ''). Cleartext http:// is allowed only to loopback (localhost, 127.0.0.0/8, [::1]) for local development.''])"

definition validate_credentials :: "('f, 'c) signer_ops \<Rightarrow> vta_credentials \<Rightarrow> failure + unit" where
  "validate_credentials so c =
     (if vc_credential_did c = [] then Inl [''credential DID is empty'']
      else if vc_key_id c = [] then Inl [''signing key ID is empty'']
      else if vc_mediator_did c \<noteq> None
      then (if vc_vta_url c \<noteq> [] \<and> \<not> vta_url_is_secure so (vc_vta_url c)
            then Inl (insecure_vta_url so (vc_vta_url c)) else Inr ())
      else if vc_vta_url c = [] then Inl [''VTA URL is empty'']
      else if \<not> vta_url_is_secure so (vc_vta_url c) then Inl (insecure_vta_url so (vc_vta_url c))
      else Inr ())"

section \<open>The connection\<close>

definition MAX_AUTH_RETRIES :: nat where
  "MAX_AUTH_RETRIES = 2"

fun connect_attempts ::
    "('f, 'c) signer_ops \<Rightarrow> vta_credentials \<Rightarrow> nat \<Rightarrow> string option
       \<Rightarrow> ('f, failure + ('c \<times> (string \<times> 64 word) option)) signer_io" where
  "connect_attempts so creds 0 last_err =
     fails_with [''VTA connection failed after '' @ show_nat MAX_AUTH_RETRIES @ '' attempts: ''
       @ (case last_err of Some e \<Rightarrow> e | None \<Rightarrow> ''unknown error'')]"
| "connect_attempts so creds (Suc n) last_err = do {
     r \<leftarrow> ask_vta AskedConnect (so_connect so creds);
     case r of
       Inr (client, token) \<Rightarrow>
         if (case token of Some (access, _) \<Rightarrow> access = [] | None \<Rightarrow> False)
         then fails_with [''VTA returned an empty access token'']
         else return (Inr (client, token))
     | Inl e \<Rightarrow> connect_attempts so creds n (Some e)
   }"

definition connect_with_retry ::
    "('f, 'c) signer_ops \<Rightarrow> vta_credentials \<Rightarrow> ('f, failure + ('c \<times> (string \<times> 64 word) option)) signer_io" where
  "connect_with_retry so creds = connect_attempts so creds MAX_AUTH_RETRIES None"

definition client_with_identity :: "('f, 'c) signer_ops \<Rightarrow> vta_credentials \<Rightarrow> 'c" where
  "client_with_identity so c = so_client so (vc_vta_url c) (vc_credential_did c) (vc_private_key c) (vc_vta_did c)"

definition connect_and_cache ::
    "('f, 'c) signer_ops \<Rightarrow> string \<Rightarrow> vta_credentials \<Rightarrow> ('f, failure + ('c \<times> vta_credentials)) signer_io" where
  "connect_and_cache so did_key_id creds = ok_then (connect_with_retry so creds) (\<lambda>(client, token). do {
     _ \<leftarrow> (case token of
         None \<Rightarrow> return False
       | Some (access, expires_at) \<Rightarrow> cache_token so did_key_id access expires_at);
     return (Inr (client, creds))
   })"

definition authenticate ::
    "('f, 'c) signer_ops \<Rightarrow> signing_config \<Rightarrow> ('f, failure + ('c \<times> vta_credentials)) signer_io" where
  "authenticate so cfg = ok_then (load_vta_credentials so (sc_did_key_id cfg)) (\<lambda>creds.
     case validate_credentials so creds of
       Inl e \<Rightarrow> fails_with e
     | Inr _ \<Rightarrow>
         if vc_mediator_did creds = None
         then do {
           cached \<leftarrow> load_cached_token so (sc_did_key_id cfg);
           case cached of
             Some token \<Rightarrow> return (Inr (so_set_token so (client_with_identity so creds) token, creds))
           | None \<Rightarrow> connect_and_cache so (sc_did_key_id cfg) creds
         }
         else connect_and_cache so (sc_did_key_id cfg) creds)"

section \<open>The signature\<close>

definition TASK_KEYS_SIGN_SSHSIG :: string where
  "TASK_KEYS_SIGN_SSHSIG = ''https://trusttasks.org/spec/keys/sign-sshsig/0.1''"

definition sign_request :: "('f, 'c) signer_ops \<Rightarrow> string \<Rightarrow> bytes \<Rightarrow> json" where
  "sign_request so key_id h = JObject
     [(''keyId'', JString key_id), (''algorithm'', JString ''EdDSA''), (''namespace'', JString GIT_SSHSIG_NAMESPACE),
      (''hashAlgorithm'', JString ''sha512''), (''messageHash'', JString (so_b64url so h))]"

definition str_member :: "string \<Rightarrow> json \<Rightarrow> string option" where
  "str_member k v = Option.bind (jget k v) as_str_json"

definition text_member :: "string \<Rightarrow> json \<Rightarrow> string" where
  "text_member k v = (case str_member k v of None \<Rightarrow> [] | Some s \<Rightarrow> s)"

definition read_sign_reply :: "('f, 'c) signer_ops \<Rightarrow> json \<Rightarrow> failure + remote_signature" where
  "read_sign_reply so reply =
     (let body = (case jget ''payload'' reply of None \<Rightarrow> JNull | Some b \<Rightarrow> b)
      in if \<not> (case str_member ''type'' reply of None \<Rightarrow> False | Some t \<Rightarrow> ends_with ''#response'' t)
         then (let code = text_member ''code'' body; message = text_member ''message'' body
           in if code = ''methodNotFound'' then Inr Unsupported
              else if code = ''permissionDenied'' then Inr (NotPermitted message)
              else Inl [''the VTA refused to sign: '' @ code @ '': '' @ message])
         else (case str_member ''signature'' body of
             None \<Rightarrow> Inl [''keys/sign-sshsig response carries no signature'']
           | Some s \<Rightarrow>
               (case so_b64url_decode so s of
                  Inl e \<Rightarrow> Inl [''keys/sign-sshsig signature is not base64url'', e]
                | Inr raw \<Rightarrow> Inr (RemoteSigned raw))))"

definition sign_sshsig ::
    "('f, 'c) signer_ops \<Rightarrow> 'c \<Rightarrow> string \<Rightarrow> bytes \<Rightarrow> ('f, failure + remote_signature) signer_io" where
  "sign_sshsig so client key_id h = do {
     r \<leftarrow> ask_vta (AskedSign key_id h) (so_dispatch so client TASK_KEYS_SIGN_SSHSIG (sign_request so key_id h));
     return (case r of Inl e \<Rightarrow> Inl [''keys/sign-sshsig: '' @ e] | Inr reply \<Rightarrow> read_sign_reply so reply)
   }"

definition key_type_debug :: "key_type \<Rightarrow> string" where
  "key_type_debug t = (case t of KeyEd25519 \<Rightarrow> ''Ed25519'' | KeyOther s \<Rightarrow> s)"

definition wrong_key_type :: "string \<Rightarrow> key_type \<Rightarrow> failure" where
  "wrong_key_type key_id t = [''signing key '' @ key_id @ '' is '' @ key_type_debug t @ '', expected Ed25519'']"

definition signing_public_key :: "('f, 'c) signer_ops \<Rightarrow> 'c \<Rightarrow> string \<Rightarrow> ('f, failure + bytes) signer_io" where
  "signing_public_key so client key_id = do {
     r \<leftarrow> ask_vta (AskedPublicKey key_id) (so_get_key so client key_id);
     return (case r of
         Inl e \<Rightarrow> Inl [''failed to read signing key '' @ key_id @ '': '' @ e]
       | Inr (t, public_key) \<Rightarrow>
           if t \<noteq> KeyEd25519 then Inl (wrong_key_type key_id t)
           else (case so_decode_public so public_key of
               Inl e \<Rightarrow> Inl [''signing key '' @ key_id @ '' has an unreadable public key'', e]
             | Inr bytes \<Rightarrow>
                 (case so_verifying_key so bytes of
                    Inl e \<Rightarrow> Inl [''signing key '' @ key_id @ '' has an invalid Ed25519 public key'', e]
                  | Inr k \<Rightarrow> Inr k)))
   }"

definition get_signing_key :: "('f, 'c) signer_ops \<Rightarrow> 'c \<Rightarrow> string \<Rightarrow> ('f, failure + bytes) signer_io" where
  "get_signing_key so client key_id = do {
     r \<leftarrow> ask_vta (AskedSecret key_id) (so_get_key_secret so client key_id);
     return (case r of
         Inl e \<Rightarrow> Inl [''failed to fetch key secret: '' @ e]
       | Inr (t, private_key) \<Rightarrow>
           if t \<noteq> KeyEd25519 then Inl (wrong_key_type key_id t)
           else (case so_decode_private so private_key of
               Inl e \<Rightarrow> Inl [''failed to decode signing key'', e]
             | Inr seed \<Rightarrow> Inr seed))
   }"

text \<open>The key exported for one signature.\<close>

definition sign_exported ::
    "('f, 'c) signer_ops \<Rightarrow> 'c \<Rightarrow> string \<Rightarrow> string \<Rightarrow> string \<Rightarrow> ('f, failure + string) signer_io" where
  "sign_exported so client key_id ns data = ok_then (get_signing_key so client key_id) (\<lambda>seed.
     return (Inr (create_ssh_signature (so_ed so) seed (ed_verifying_key (so_ed so) seed) ns (as_bytes data))))"

definition unsupported_text :: failure where
  "unsupported_text = [''did-git-sign: this VTA does not serve keys/sign-sshsig, and '' @ SIGNER_GIT_CONFIG
     @ '' is `vta`, so the key will not be exported to sign locally. Upgrade the VTA, or set `git config ''
     @ SIGNER_GIT_CONFIG @ '' auto` to allow the export.'']"

definition not_permitted_text :: "string \<Rightarrow> failure" where
  "not_permitted_text why = [''did-git-sign: the VTA will not sign with this credential ('' @ why @ ''), and ''
     @ SIGNER_GIT_CONFIG @ '' is `vta`, so the key will not be exported to sign locally. Give the credential ''
     @ ''the sign-sshsig capability (`pnm acl update <credential DID> --capabilities sign-sshsig`; ''
     @ ''`did-git-sign health` names the credential), or set `git config '' @ SIGNER_GIT_CONFIG
     @ '' auto` to allow the export.'']"

definition sign_with_vta ::
    "('f, 'c) signer_ops \<Rightarrow> 'c \<Rightarrow> string \<Rightarrow> string \<Rightarrow> string \<Rightarrow> signer_mode \<Rightarrow> ('f, failure + string) signer_io" where
  "sign_with_vta so client key_id ns data mode =
     (if mode = ExportSigns then sign_exported so client key_id ns data
      else ok_then (sign_sshsig so client key_id (sshsig_message_hash (so_ed so) (as_bytes data))) (\<lambda>r. case r of
          RemoteSigned raw \<Rightarrow> ok_then (signing_public_key so client key_id) (\<lambda>verifying_key.
            return (case assemble_ssh_signature (so_ed so) verifying_key ns (as_bytes data) raw of
                Inl e \<Rightarrow> Inl [e] | Inr s \<Rightarrow> Inr s))
        | Unsupported \<Rightarrow>
            if mode = VtaSigns then fails_with unsupported_text else sign_exported so client key_id ns data
        | NotPermitted why \<Rightarrow>
            if mode = VtaSigns then fails_with (not_permitted_text why) else sign_exported so client key_id ns data))"

section \<open>The run\<close>

definition git_config_get :: "('f, 'c) signer_ops \<Rightarrow> string \<Rightarrow> ('f, string option) signer_io" where
  "git_config_get so key = do { out \<leftarrow> outside (so_git_config so key); return (git_config_value out) }"

definition env_var :: "('f, 'c) signer_ops \<Rightarrow> string \<Rightarrow> ('f, string option) signer_io" where
  "env_var so key = gets (\<lambda>w. ge_env (so_gate so (sw_outside w)) key)"

definition resolve_signing_key :: "('f, 'c) signer_ops \<Rightarrow> string \<Rightarrow> ('f, string \<times> key_source) signer_io" where
  "resolve_signing_key so config_did = do {
     env \<leftarrow> env_var so SIGNING_KEY_ENV;
     git \<leftarrow> git_config_get so SIGNING_KEY_GIT_CONFIG;
     return (select_signing_key config_did env git)
   }"

definition resolve_signer_mode :: "('f, 'c) signer_ops \<Rightarrow> ('f, failure + signer_mode) signer_io" where
  "resolve_signer_mode so = do {
     env \<leftarrow> env_var so SIGNER_ENV;
     if (case env of Some v \<Rightarrow> trim v \<noteq> [] | None \<Rightarrow> False) then return (signer_mode_of env None)
     else do { git \<leftarrow> git_config_get so SIGNER_GIT_CONFIG; return (signer_mode_of env git) }
   }"

definition input_context :: "string option \<Rightarrow> string" where
  "input_context path =
     (case path of Some p \<Rightarrow> ''failed to read file to sign: '' @ p | None \<Rightarrow> ''failed to read data from stdin'')"

definition read_input :: "('f, 'c) signer_ops \<Rightarrow> string option \<Rightarrow> ('f, failure + string) signer_io" where
  "read_input so path = do {
     r \<leftarrow> outside (so_read_input so path);
     return (case r of
         Inl e \<Rightarrow> Inl [input_context path, e]
       | Inr input \<Rightarrow>
           (case read_bounded input of Inl e \<Rightarrow> Inl (input_context path # e) | Inr buf \<Rightarrow> Inr buf))
   }"

text \<open>The gate: every attempt is handed to the audit log before it is refused or goes on.\<close>

definition run_gate ::
    "('f, 'c) signer_ops \<Rightarrow> string \<Rightarrow> string option \<Rightarrow> string \<Rightarrow> ('f, failure + unit) signer_io" where
  "run_gate so ns path data = do {
     ge \<leftarrow> gets (\<lambda>w. so_gate so (sw_outside w));
     let decision = evaluate (so_lowercase so) (so_sha256 so) ge ns path (as_bytes data);
     _ \<leftarrow> modify (\<lambda>w. w\<lparr>sw_audited := sw_audited w @ [decision]\<rparr>);
     _ \<leftarrow> outside (so_write_audit so decision);
     if ae_allowed decision then return (Inr ())
     else fails_with [''did-git-sign: signing refused by policy (parent process ''
       @ show_debug (case ae_parent_name decision of Some n \<Rightarrow> n | None \<Rightarrow> ''<unknown>'')
       @ '' is not git). did-git-sign signs only when git runs it as gpg.ssh.program. Attempt recorded in ''
       @ (case so_audit_path so of Some p \<Rightarrow> p | None \<Rightarrow> ''<audit log unavailable>'') @ ''.'']
   }"

text \<open>The persona, and that an override has credentials.\<close>

definition choose_persona ::
    "('f, 'c) signer_ops \<Rightarrow> signing_config \<Rightarrow> ('f, failure + (string \<times> key_source)) signer_io" where
  "choose_persona so cfg = do {
     (k, src) \<leftarrow> resolve_signing_key so (sc_did_key_id cfg);
     if k = sc_did_key_id cfg then return (Inr (k, src))
     else do {
       c \<leftarrow> load_vta_credentials so k;
       case c of
         Inr _ \<Rightarrow> return (Inr (k, src))
       | Inl _ \<Rightarrow> fails_with [''did-git-sign: the signing persona '' @ quoted k @ '' selected via ''
           @ key_source_display src @ '' has no stored credentials. Run `did-git-sign init` for that persona, or ''
           @ ''clear the override ('' @ SIGNING_KEY_ENV @ '' / `git config --unset '' @ SIGNING_KEY_GIT_CONFIG @ ''`).'']
     }
   }"

definition write_signature ::
    "('f, 'c) signer_ops \<Rightarrow> string option \<Rightarrow> string \<Rightarrow> ('f, failure + unit) signer_io" where
  "write_signature so path s =
     (case path of
        None \<Rightarrow> do { _ \<leftarrow> modify (\<lambda>w. w\<lparr>sw_written := sw_written w @ [(None, s)]\<rparr>); return (Inr ()) }
      | Some p \<Rightarrow> do {
          r \<leftarrow> outside (so_write_file so (p @ ''.sig'') s);
          case r of
            Inl e \<Rightarrow> fails_with [''failed to write signature to '' @ p @ ''.sig'', e]
          | Inr _ \<Rightarrow> do {
              _ \<leftarrow> modify (\<lambda>w. w\<lparr>sw_written := sw_written w @ [(Some (p @ ''.sig''), s)]\<rparr>);
              return (Inr ())
            }
        })"

text \<open>From the configuration on: the persona, its claim, the mode, the VTA, the signature.\<close>

definition sign_as ::
    "('f, 'c) signer_ops \<Rightarrow> signing_config \<Rightarrow> string \<Rightarrow> string \<Rightarrow> ('f, failure + string) signer_io" where
  "sign_as so cfg ns data = ok_then (choose_persona so cfg) (\<lambda>(k, src).
     case check_committer_matches_key (so_scid so) data k src of
       Inl e \<Rightarrow> fails_with e
     | Inr _ \<Rightarrow> ok_then (resolve_signer_mode so) (\<lambda>mode.
         ok_then (authenticate so (cfg\<lparr>sc_did_key_id := k\<rparr>)) (\<lambda>(client, creds).
           sign_with_vta so client (vc_key_id creds) ns data mode)))"

definition handle_sign ::
    "('f, 'c) signer_ops \<Rightarrow> string \<Rightarrow> string \<Rightarrow> string option \<Rightarrow> ('f, failure + unit) signer_io" where
  "handle_sign so config_path ns sign_file =
     (case sign_namespace_ok ns of
        Inl e \<Rightarrow> fails_with e
      | Inr _ \<Rightarrow>
          ok_then (read_input so sign_file) (\<lambda>data.
          ok_then (run_gate so ns sign_file data) (\<lambda>_.
          ok_then (outside (so_load_config so config_path)) (\<lambda>cfg.
          ok_then (sign_as so cfg ns data) (\<lambda>s.
            write_signature so sign_file s)))))"

end
