(* ===== verification/Effect_Traces.thy ===== *)
theory Effect_Traces
  imports Effects
begin

text \<open>
  Traces of the stateful operations: where the state keeps a log, \<open>logs sel Q m\<close> says that \<open>m\<close> appends to
  the log \<open>sel\<close> reads some list, and that its result and that list satisfy \<open>Q\<close>. The rules are
  collected in \<open>logs_rules\<close>.
\<close>

definition logs :: "('s \<Rightarrow> 'c list) \<Rightarrow> ('a \<Rightarrow> 'c list \<Rightarrow> bool) \<Rightarrow> ('s, 'a) state \<Rightarrow> bool" where
  "logs sel Q m \<longleftrightarrow> (\<forall>w r w'. run_state m w = (r, w') \<longrightarrow> (\<exists>cs. sel w' = sel w @ cs \<and> Q r cs))"

named_theorems logs_rules \<open>rules that collect what an operation logs\<close>

lemma logsD: "logs sel Q m \<Longrightarrow> run_state m w = (r, w') \<Longrightarrow> \<exists>cs. sel w' = sel w @ cs \<and> Q r cs"
  by (simp add: logs_def)

lemma logs_conseq: "logs sel Q m \<Longrightarrow> (\<And>r cs. Q r cs \<Longrightarrow> R r cs) \<Longrightarrow> logs sel R m"
  by (fastforce simp: logs_def)

lemma logs_return [logs_rules]: "Q x [] \<Longrightarrow> logs sel Q (State_Monad.return x)"
  by (simp add: logs_def)

lemma logs_sum [logs_rules]:
  "(\<And>x. v = Inl x \<Longrightarrow> logs sel Q (f x)) \<Longrightarrow> (\<And>x. v = Inr x \<Longrightarrow> logs sel Q (g x))
     \<Longrightarrow> logs sel Q (case v of Inl x \<Rightarrow> f x | Inr x \<Rightarrow> g x)"
  by (cases v) auto

lemma logs_option [logs_rules]:
  "(v = None \<Longrightarrow> logs sel Q n) \<Longrightarrow> (\<And>x. v = Some x \<Longrightarrow> logs sel Q (f x))
     \<Longrightarrow> logs sel Q (case v of None \<Rightarrow> n | Some x \<Rightarrow> f x)"
  by (cases v) auto

lemma logs_prod [logs_rules]:
  "(\<And>x y. v = (x, y) \<Longrightarrow> logs sel Q (f x y)) \<Longrightarrow> logs sel Q (case v of (x, y) \<Rightarrow> f x y)"
  by (cases v) auto

lemma logs_if [logs_rules]: "(b \<Longrightarrow> logs sel Q m) \<Longrightarrow> (\<not> b \<Longrightarrow> logs sel Q n) \<Longrightarrow> logs sel Q (if b then m else n)"
  by simp

lemma logs_bind:
  assumes "logs sel R m" "\<And>x cs. R x cs \<Longrightarrow> logs sel (\<lambda>r ds. Q r (cs @ ds)) (f x)"
  shows "logs sel Q (State_Monad.bind m f)"
  unfolding logs_def
proof (intro allI impI)
  fix w r w'
  assume "run_state (State_Monad.bind m f) w = (r, w')"
  then obtain x w1 where x: "run_state m w = (x, w1)" "run_state (f x) w1 = (r, w')" by (rule run_bindE)
  from logsD [OF assms(1) x(1)] obtain cs where cs: "sel w1 = sel w @ cs" "R x cs" by blast
  from logsD [OF assms(2) x(2)] cs(2) obtain ds where "sel w' = sel w1 @ ds" "Q r (cs @ ds)" by blast
  with cs show "\<exists>cs. sel w' = sel w @ cs \<and> Q r cs" by auto
qed

lemma logs_quiet:
  assumes "logs sel (\<lambda>_ cs. cs = []) m" "\<And>x. logs sel Q (f x)" shows "logs sel Q (State_Monad.bind m f)"
  by (rule logs_bind [OF assms(1)]) (auto intro: assms(2))

lemma logs_ok_then:
  assumes "logs sel R m" "\<And>e cs. R (Inl e) cs \<Longrightarrow> Q (Inl e) cs"
    and "\<And>x cs. R (Inr x) cs \<Longrightarrow> logs sel (\<lambda>r ds. Q r (cs @ ds)) (f x)"
  shows "logs sel Q (ok_then m f)"
  unfolding ok_then_def
  by (rule logs_bind [OF assms(1)], rule logs_sum) (auto intro!: logs_return assms(2) intro: assms(3))

lemma logs_gets [logs_rules]: "(\<And>r. Q r []) \<Longrightarrow> logs sel Q (gets f)"
  by (simp add: logs_def)

lemma logs_modify: "(\<And>w. sel (f w) = sel w) \<Longrightarrow> Q () [] \<Longrightarrow> logs sel Q (modify f)"
  by (simp add: logs_def)

text \<open>Where every single entry has a property, the operations only have to be followed.\<close>

lemma logs_all_bind:
  assumes "logs sel (\<lambda>_ cs. \<forall>c\<in>set cs. P c) m" "\<And>x. logs sel (\<lambda>_ cs. \<forall>c\<in>set cs. P c) (f x)"
  shows "logs sel (\<lambda>_ cs. \<forall>c\<in>set cs. P c) (State_Monad.bind m f)"
  by (rule logs_bind [OF assms(1)], rule logs_conseq [OF assms(2)]) auto

lemma logs_all_ok_then:
  assumes "logs sel (\<lambda>_ cs. \<forall>c\<in>set cs. P c) m" "\<And>x. logs sel (\<lambda>_ cs. \<forall>c\<in>set cs. P c) (f x)"
  shows "logs sel (\<lambda>_ cs. \<forall>c\<in>set cs. P c) (ok_then m f)"
  by (rule logs_ok_then [OF assms(1)], simp, rule logs_conseq [OF assms(2)]) auto

end
