(* ===== verification/Signer_Guard.thy ===== *)
theory Signer_Guard
  imports Signer_Run Effect_Traces
begin

text \<open>
  What a run of the signing program guarantees: when a signature is written, over what and for whom;
  and what is asked of the VTA in which mode. \<open>asks Q m\<close> says that \<open>m\<close> appends to the log of questions
  some list that fits its result.
\<close>

section \<open>What a run asks the VTA\<close>

abbreviation asks :: "('a \<Rightarrow> vta_call list \<Rightarrow> bool) \<Rightarrow> ('f, 'a) signer_io \<Rightarrow> bool" where
  "asks Q m \<equiv> logs sw_asked Q m"

lemma asks_fails_with [logs_rules]: "Q (Inl e) [] \<Longrightarrow> asks Q (fails_with e)"
  by (simp add: fails_with_def logs_return)

lemma asks_outside: "(\<And>r. Q r []) \<Longrightarrow> asks Q (outside m)"
  by (auto simp: logs_def outside_def split: prod.splits)

text \<open>A question to the VTA: it is logged, and the answer is one the VTA can give.\<close>

definition vta_answers :: "('f, 'a) state \<Rightarrow> 'a \<Rightarrow> bool" where
  "vta_answers m a \<longleftrightarrow> (\<exists>f. fst (run_state m f) = a)"

lemma asks_ask_vta: "asks (\<lambda>r cs. cs = [c] \<and> vta_answers m r) (ask_vta c m)"
  by (auto simp: logs_def ask_vta_def outside_def vta_answers_def split: prod.splits) (metis fst_conv)

subsection \<open>The parts that ask nothing\<close>

lemma asks_load_vta_credentials: "asks (\<lambda>_ cs. cs = []) (load_vta_credentials so k)"
  unfolding load_vta_credentials_def Let_def
  by (intro logs_quiet asks_outside logs_rules refl) (auto intro!: logs_quiet asks_outside logs_rules split: keyring_read.splits)

lemma asks_git_config_get: "asks (\<lambda>r cs. cs = [] \<and> (\<exists>f. r = git_config_value (fst (run_state (so_git_config so key) f)))) (git_config_get so key)"
  by (auto simp: logs_def git_config_get_def outside_def split: prod.splits) (metis fst_conv)

lemma asks_choose_persona: "asks (\<lambda>_ cs. cs = []) (choose_persona so cfg)"
  unfolding choose_persona_def resolve_signing_key_def env_var_def
  by (intro logs_quiet logs_rules logs_conseq [OF asks_git_config_get] asks_load_vta_credentials) simp_all

text \<open>The mode a run works in: the environment's setting, else git's, else the default.\<close>

definition mode_resolved :: "('f, 'c) signer_ops \<Rightarrow> signer_mode \<Rightarrow> bool" where
  "mode_resolved so mode \<longleftrightarrow>
     (\<exists>f g. signer_mode_of (ge_env (so_gate so f) SIGNER_ENV)
        (git_config_value (fst (run_state (so_git_config so SIGNER_GIT_CONFIG) g))) = Inr mode)"

lemma asks_resolve_signer_mode:
  "asks (\<lambda>r cs. cs = [] \<and> (\<forall>mode. r = Inr mode \<longrightarrow> mode_resolved so mode)) (resolve_signer_mode so)"
proof -
  have set_already: "signer_mode_of env git = signer_mode_of env None" if "case env of Some v \<Rightarrow> trim v \<noteq> [] | None \<Rightarrow> False" for env git
    using that by (simp add: signer_mode_of_def split: option.splits)
  have env: "asks (\<lambda>r cs. cs = [] \<and> (\<exists>f. r = ge_env (so_gate so f) SIGNER_ENV)) (env_var so SIGNER_ENV)"
    by (auto simp: logs_def env_var_def)
  show ?thesis
    unfolding resolve_signer_mode_def
    apply (rule logs_bind [OF env], rule logs_if, rule logs_return)
     apply (clarsimp simp: mode_resolved_def, metis set_already)
    apply (rule logs_bind [OF asks_git_config_get], rule logs_return)
    apply (auto simp: mode_resolved_def)
    done
qed

subsection \<open>The parts that ask\<close>

lemma asks_connect_attempts:
  "asks (\<lambda>_ cs. \<exists>n\<le>i. cs = replicate n AskedConnect) (connect_attempts so creds i e)"
proof (induction i arbitrary: e)
  case (Suc i)
  have step: "asks (\<lambda>_ ds. \<exists>n\<le>Suc i. AskedConnect # ds = replicate n AskedConnect) (connect_attempts so creds i e)" for e
    by (rule logs_conseq [OF Suc]) (metis Suc_le_mono replicate_Suc)
  show ?case
    unfolding connect_attempts.simps
    by (rule logs_bind [OF asks_ask_vta]) (auto intro!: logs_rules step exI [of _ 1] split: sum.splits)
qed (auto intro!: logs_rules)

lemma asks_authenticate:
  "asks (\<lambda>_ cs. \<exists>n\<le>2. cs = replicate n AskedConnect) (authenticate so cfg)"
proof -
  have quiet: "asks (\<lambda>_ cs. cs = []) (load_cached_token so k)" for k
    unfolding load_cached_token_def by (intro logs_quiet asks_outside logs_rules) simp_all
  have cache: "asks (\<lambda>_ cs. cs = []) (cache_token so k t e)" for k t e
    unfolding cache_token_def by (rule asks_outside) simp
  have connect: "asks (\<lambda>_ cs. \<exists>n\<le>2. cs = replicate n AskedConnect) (connect_and_cache so k creds)" for k creds
    unfolding connect_and_cache_def connect_with_retry_def MAX_AUTH_RETRIES_def
    by (rule logs_ok_then [OF asks_connect_attempts])
      (auto intro!: logs_rules logs_bind [where R = "\<lambda>_ cs. cs = []"] cache split: option.splits)
  show ?thesis
    unfolding authenticate_def
    by (rule logs_ok_then [OF asks_load_vta_credentials]) (auto intro!: logs_rules logs_bind [OF quiet] connect)
qed

text \<open>The VTA declined to sign: it does not know the task, or not for this credential.\<close>

definition vta_declined :: "('f, 'c) signer_ops \<Rightarrow> string \<Rightarrow> bytes \<Rightarrow> bool" where
  "vta_declined so k h \<longleftrightarrow>
     (\<exists>client reply. vta_answers (so_dispatch so client TASK_KEYS_SIGN_SSHSIG (sign_request so k h)) (Inr reply)
        \<and> (read_sign_reply so reply = Inr Unsupported \<or> (\<exists>why. read_sign_reply so reply = Inr (NotPermitted why))))"

text \<open>What may be asked in a mode, once connected.\<close>

definition calls_fit :: "('f, 'c) signer_ops \<Rightarrow> signer_mode \<Rightarrow> string \<Rightarrow> bytes \<Rightarrow> vta_call list \<Rightarrow> bool" where
  "calls_fit so mode k h cs \<longleftrightarrow>
     (mode \<noteq> ExportSigns \<and> (cs = [AskedSign k h] \<or> cs = [AskedSign k h, AskedPublicKey k]))
     \<or> (mode = AutoSigns \<and> cs = [AskedSign k h, AskedSecret k] \<and> vta_declined so k h)
     \<or> (mode = ExportSigns \<and> cs = [AskedSecret k])"

lemma asks_sign_exported: "asks (\<lambda>_ cs. cs = [AskedSecret k]) (sign_exported so client k ns data)"
  unfolding sign_exported_def get_signing_key_def
  by (rule logs_ok_then [where R = "\<lambda>_ cs. cs = [AskedSecret k]"])
    (auto intro!: logs_rules logs_bind [OF asks_ask_vta])

lemma asks_sign_sshsig:
  "asks (\<lambda>r cs. cs = [AskedSign k h] \<and> (r = Inr Unsupported \<or> (\<exists>why. r = Inr (NotPermitted why)) \<longrightarrow> vta_declined so k h))
     (sign_sshsig so client k h)"
  unfolding sign_sshsig_def
  by (rule logs_bind [OF asks_ask_vta]) (auto simp: vta_declined_def intro!: logs_rules split: sum.splits)

lemma asks_sign_with_vta:
  "asks (\<lambda>_ cs. calls_fit so mode k (sshsig_message_hash (so_ed so) (as_bytes data)) cs) (sign_with_vta so client k ns data mode)"
proof (cases "mode = ExportSigns")
  case True
  then show ?thesis
    by (auto simp: sign_with_vta_def calls_fit_def intro!: logs_conseq [OF asks_sign_exported])
next
  case False
  have key: "asks (\<lambda>_ cs. cs = [AskedPublicKey k]) (signing_public_key so client k)"
    unfolding signing_public_key_def by (rule logs_bind [OF asks_ask_vta]) (auto intro!: logs_rules)
  show ?thesis
    unfolding sign_with_vta_def if_not_P [OF False]
    apply (rule logs_ok_then [OF asks_sign_sshsig])
     apply (simp add: calls_fit_def)
    apply (insert False)
    apply (auto simp: calls_fit_def intro!: logs_rules logs_conseq [OF asks_sign_exported] logs_ok_then [OF key]
        split: remote_signature.splits)
    apply (metis signer_mode.exhaust)+
    done
qed

section \<open>A run\<close>

text \<open>The gate let the run pass: the parent is git or ssh-keygen, or a test build skips the check.\<close>

definition gate_allows :: "('f, 'c) signer_ops \<Rightarrow> gate_env \<Rightarrow> bool" where
  "gate_allows so ge \<longleftrightarrow>
     decide (so_lowercase so) (bypass_requested (ge_feature ge) (ge_env ge)) (ge_parent_name ge)"

lemma asks_run_gate:
  "asks (\<lambda>r cs. cs = [] \<and> (r = Inr () \<longrightarrow> (\<exists>f. gate_allows so (so_gate so f)))) (run_gate so ns path data)"
proof -
  have gate: "asks (\<lambda>r cs. cs = [] \<and> (\<exists>f. r = so_gate so f)) (gets (\<lambda>w. so_gate so (sw_outside w)))"
    by (auto simp: logs_def)
  show ?thesis
    unfolding run_gate_def Let_def
    by (rule logs_bind [OF gate])
      (auto simp: gate_allows_def evaluate_def Let_def
        intro!: logs_quiet [OF logs_modify] logs_quiet [OF asks_outside] logs_rules)
qed

text \<open>The questions of a whole run: none, or some attempts to connect and then what the mode allows.\<close>

definition run_calls :: "('f, 'c) signer_ops \<Rightarrow> string \<Rightarrow> vta_call list \<Rightarrow> bool" where
  "run_calls so ns cs \<longleftrightarrow> cs = []
     \<or> ns = ''git'' \<and> (\<exists>f. gate_allows so (so_gate so f))
       \<and> (\<exists>mode n rest. mode_resolved so mode \<and> n \<le> 2 \<and> cs = replicate n AskedConnect @ rest
            \<and> (rest = [] \<or> (\<exists>k h. calls_fit so mode k h rest)))"

definition sign_as_calls :: "('f, 'c) signer_ops \<Rightarrow> vta_call list \<Rightarrow> bool" where
  "sign_as_calls so cs \<longleftrightarrow> cs = []
     \<or> (\<exists>mode n rest. mode_resolved so mode \<and> n \<le> 2 \<and> cs = replicate n AskedConnect @ rest
          \<and> (rest = [] \<or> (\<exists>k h. calls_fit so mode k h rest)))"

lemma sign_as_callsI:
  "mode_resolved so mode \<Longrightarrow> \<exists>n\<le>2. cs = replicate n AskedConnect \<Longrightarrow> rest = [] \<or> calls_fit so mode k h rest
     \<Longrightarrow> sign_as_calls so (cs @ rest)"
  unfolding sign_as_calls_def by blast

lemma sign_as_calls_Nil: "sign_as_calls so []"
  by (simp add: sign_as_calls_def)

lemma asks_sign_as: "asks (\<lambda>_. sign_as_calls so) (sign_as so cfg ns data)"
proof -
  have connected: "asks (\<lambda>_. sign_as_calls so) (ok_then (authenticate so cfg') (\<lambda>(client, creds).
      sign_with_vta so client (vc_key_id creds) ns data mode))" if "mode_resolved so mode" for cfg' mode
    apply (rule logs_ok_then [OF asks_authenticate])
     apply (drule sign_as_callsI [OF that, where rest = "[]"], simp, simp)
    apply (rule logs_prod, rule logs_conseq [OF asks_sign_with_vta])
    apply (blast intro: sign_as_callsI [OF that])
    done
  show ?thesis
    unfolding sign_as_def
    apply (rule logs_ok_then [OF asks_choose_persona])
     apply (simp add: sign_as_calls_Nil)
    apply (rule logs_prod, rule logs_sum)
     apply (rule asks_fails_with, simp add: sign_as_calls_Nil)
    apply (rule logs_ok_then [OF asks_resolve_signer_mode])
     apply (simp add: sign_as_calls_Nil)
    apply (simp add: connected)
    done
qed

text \<open>C7: Where the key is allowed to go. Whatever a run of the signing program ends with, it asks the VTA
  nothing unless the namespace is \<open>git\<close> and the parent process passed the gate. What it asks then is at
  most two connections and one round for one key: a signature, whose public key may be read to check
  it; or the exported key. In the mode \<open>vta\<close> the key is never exported, and in the mode \<open>auto\<close> only
  after the VTA declined to sign, because it does not know the task or not for this credential.\<close>

theorem key_leaves_the_vta_only_by_its_mode:
  assumes "run_state (handle_sign so path ns file) w = (r, w')"
  shows "\<exists>cs. sw_asked w' = sw_asked w @ cs \<and> run_calls so ns cs
     \<and> (\<forall>k. AskedSecret k \<in> set cs \<longrightarrow>
          mode_resolved so ExportSigns
          \<or> (mode_resolved so AutoSigns \<and> (\<exists>h. AskedSign k h \<in> set cs \<and> vta_declined so k h)))"
proof -
  have quiet: "asks (\<lambda>_ cs. cs = []) (read_input so file)"
    "asks (\<lambda>_ cs. cs = []) (outside (so_load_config so path))"
    unfolding read_input_def by (intro logs_quiet asks_outside logs_rules; simp)+
  have writes: "asks (\<lambda>_ cs. cs = []) (write_signature so file s)" for s
    unfolding write_signature_def
    by (auto intro!: logs_rules logs_quiet [OF asks_outside] logs_quiet [OF logs_modify])
  have "asks (\<lambda>_. run_calls so ns) (handle_sign so path ns file)"
    unfolding handle_sign_def
    apply (rule logs_sum)
     apply (rule asks_fails_with, simp add: run_calls_def)
    apply (rule logs_ok_then [OF quiet(1)], simp add: run_calls_def)
    apply (rule logs_ok_then [OF asks_run_gate], simp add: run_calls_def)
    apply (rule logs_ok_then [OF quiet(2)], simp add: run_calls_def)
    apply (rule logs_ok_then [OF asks_sign_as])
     apply (auto simp: run_calls_def sign_as_calls_def sign_namespace_ok_iff)[1]
    apply (rule logs_conseq [OF writes])
    apply (auto simp: run_calls_def sign_as_calls_def sign_namespace_ok_iff)
    done
  with assms obtain cs where "sw_asked w' = sw_asked w @ cs" "run_calls so ns cs" unfolding logs_def by blast
  then show ?thesis
    by (intro exI [of _ cs]) (fastforce simp: run_calls_def calls_fit_def)
qed

section \<open>What is written\<close>

text \<open>An armoured signature over the data in the namespace \<open>git\<close>: by an exported key, or made by the VTA
  and checked against its public key.\<close>

definition signature_over :: "ed_lib \<Rightarrow> string \<Rightarrow> string \<Rightarrow> bool" where
  "signature_over lib data s \<longleftrightarrow>
     (\<exists>seed. s = create_ssh_signature lib seed (ed_verifying_key lib seed) ''git'' (as_bytes data))
     \<or> (\<exists>key raw. length raw = 64 \<and> s = armor_ssh_signature lib key ''git'' raw
          \<and> ed_verify lib key (sshsig_signed_data ''git'' (sshsig_message_hash lib (as_bytes data))) raw)"

lemma yields_sign_with_vta:
  "yields (sign_with_vta so client k ''git'' data mode) (\<lambda>r. case r of Inl _ \<Rightarrow> True | Inr s \<Rightarrow> signature_over (so_ed so) data s)"
proof -
  have exported: "yields (sign_exported so client k ''git'' data)
      (\<lambda>r. case r of Inl _ \<Rightarrow> True | Inr s \<Rightarrow> signature_over (so_ed so) data s)"
    unfolding sign_exported_def by (rule yields_ok_any) (auto simp: signature_over_def intro!: yields_return)
  have assembled: "case (case assemble_ssh_signature (so_ed so) key ''git'' (as_bytes data) raw of Inl e \<Rightarrow> Inl [e] | Inr s \<Rightarrow> Inr s)
      of Inl _ \<Rightarrow> True | Inr s \<Rightarrow> signature_over (so_ed so) data s" for key raw
    by (auto simp: signature_over_def assemble_ssh_signature_def split: sum.splits if_splits)
  show ?thesis
    unfolding sign_with_vta_def fails_with_def
    by (auto intro!: yields_if exported yields_ok_any yields_return assembled split: remote_signature.splits)
qed

text \<open>The persona a commit may be signed as: the selected one, whose DID its claim names.\<close>

definition persona_fits :: "('f, 'c) signer_ops \<Rightarrow> string \<Rightarrow> string \<Rightarrow> bool" where
  "persona_fits so data k \<longleftrightarrow>
     conflicting_signer_dids (so_scid so) data = None
     \<and> (case signer_did (so_scid so) data of
          Some claimed \<Rightarrow> same_signer (so_scid so) claimed (bare_did k)
        | None \<Rightarrow> committer_identity data = None)"

lemma yields_sign_as:
  "yields (sign_as so cfg ''git'' data) (\<lambda>r. case r of Inl _ \<Rightarrow> True | Inr s \<Rightarrow>
     signature_over (so_ed so) data s
     \<and> (\<exists>env git. persona_fits so data (fst (select_signing_key (sc_did_key_id cfg) env git))))"
proof -
  have persona: "yields (choose_persona so cfg) (\<lambda>r. case r of Inl _ \<Rightarrow> True
     | Inr p \<Rightarrow> (\<exists>env git. p = select_signing_key (sc_did_key_id cfg) env git))"
    unfolding choose_persona_def resolve_signing_key_def fails_with_def
    by (rule yields_bind [where R = "\<lambda>p. \<exists>env git. p = select_signing_key (sc_did_key_id cfg) env git"])
      (force intro!: yields_after yields_return yields_prod yields_if yields_sum)+
  show ?thesis
    unfolding sign_as_def fails_with_def
    apply (rule yields_ok_then [OF persona], simp)
    apply (rule yields_prod, rule yields_sum, rule yields_return, simp)
    apply (rule yields_ok_any, simp)
    apply (rule yields_ok_any, simp)
    apply (rule yields_prod, rule yields_conseq [OF yields_sign_with_vta])
    apply (auto simp: check_committer_matches_key_iff persona_fits_def split: sum.splits)
    apply (metis fst_conv)+
    done
qed

text \<open>Nothing but the gate and the last step enters what was audited and written.\<close>

definition logged :: "'f signer_world \<Rightarrow> audit_entry list \<times> (string option \<times> string) list" where
  "logged w = (sw_audited w, sw_written w)"


lemma keeps_logged_outside: "keeps (\<lambda>w. logged w = l) (outside m)"
  by (auto simp: keeps_def logged_def outside_def split: prod.splits)

lemma keeps_logged_ask: "keeps (\<lambda>w. logged w = l) (ask_vta c m)"
  unfolding ask_vta_def by (intro keeps_rules keeps_logged_outside keeps_modify) (simp add: logged_def)

lemmas keeps_logged = keeps_logged_outside keeps_logged_ask

lemma keeps_logged_connect: "keeps (\<lambda>w. logged w = l) (connect_attempts so creds n e)"
  by (induction n arbitrary: e) (auto simp: fails_with_def intro!: keeps_rules keeps_logged)

lemma keeps_logged_sign_as: "keeps (\<lambda>w. logged w = l) (sign_as so cfg ns data)"
proof -
  have creds: "keeps (\<lambda>w. logged w = l) (load_vta_credentials so k)" for k
    unfolding load_vta_credentials_def Let_def
    by (intro keeps_rules keeps_logged) (auto intro!: keeps_rules keeps_logged split: keyring_read.splits)
  have connect: "keeps (\<lambda>w. logged w = l) (connect_and_cache so k c)" for k c
    unfolding connect_and_cache_def connect_with_retry_def cache_token_def
    by (intro keeps_rules keeps_logged keeps_logged_connect)
  have auth: "keeps (\<lambda>w. logged w = l) (authenticate so c)" for c
    unfolding authenticate_def load_cached_token_def fails_with_def
    by (intro keeps_rules keeps_logged creds connect)
  have export: "keeps (\<lambda>w. logged w = l) (sign_exported so client k ns data)" for client k
    unfolding sign_exported_def get_signing_key_def by (intro keeps_rules keeps_logged)
  have sign: "keeps (\<lambda>w. logged w = l) (sign_with_vta so client k ns data mode)" for client k mode
    unfolding sign_with_vta_def sign_sshsig_def signing_public_key_def fails_with_def
    by (intro keeps_rules keeps_logged export)
      (auto intro!: keeps_rules keeps_logged export split: remote_signature.splits)
  show ?thesis
    unfolding sign_as_def choose_persona_def resolve_signing_key_def resolve_signer_mode_def env_var_def
      git_config_get_def fails_with_def
    by (intro keeps_rules keeps_logged creds auth sign)
qed

lemma triple_keeps_yields: "keeps I m \<Longrightarrow> yields m Q \<Longrightarrow> triple I m (\<lambda>r w. I w \<and> Q r)"
  by (fastforce simp: triple_def keeps_def yields_def split: prod.splits)

lemma triple_assume: "(B \<Longrightarrow> triple P m Q) \<Longrightarrow> triple (\<lambda>w. P w \<and> B) m Q"
  by (cases B) (auto simp: triple_def)

lemma triple_exists: "(\<And>x. triple (P x) m Q) \<Longrightarrow> triple (\<lambda>w. \<exists>x. P x w) m Q"
  by (fastforce simp: triple_def)

lemma triple_step:
  assumes "triple P m S" "\<And>e w. S (Inl e) w \<Longrightarrow> Q (Inl e) w" "\<And>a. triple (S (Inr a)) (f a) Q"
  shows "triple P (ok_then m f) Q"
  by (rule triple_ok_then [where R = "\<lambda>a. S (Inr a)"], rule triple_conseq [OF assms(1)])
    (auto intro: assms split: sum.splits)

lemma yields_outside: "yields (outside m) (vta_answers m)"
  by (rule yieldsI) (auto simp: outside_def vta_answers_def split: prod.splits, metis fst_conv)

lemma keeps_logged_read: "keeps (\<lambda>w. logged w = l) (read_input so file)"
  unfolding read_input_def by (intro keeps_rules keeps_logged)

lemma yields_read_input:
  "yields (read_input so file) (\<lambda>r. case r of Inl _ \<Rightarrow> True
     | Inr data \<Rightarrow> length data \<le> MAX_SIGN_INPUT \<and> vta_answers (so_read_input so file) (Inr data))"
  unfolding read_input_def
  by (rule yields_bind [OF yields_outside]) (auto simp: read_bounded_iff intro!: yields_return split: sum.splits)

lemma triple_run_gate:
  "triple (\<lambda>w. logged w = (as, ws)) (run_gate so ns file data) (\<lambda>r w. \<exists>f.
     logged w = (as @ [evaluate (so_lowercase so) (so_sha256 so) (so_gate so f) ns file (as_bytes data)], ws)
     \<and> (r = Inr () \<longrightarrow> gate_allows so (so_gate so f)))"
  by (rule tripleI)
    (auto simp: run_gate_def Let_def gate_allows_def evaluate_def fails_with_def logged_def outside_def
      split: prod.splits if_splits intro!: exI)

lemma triple_write_signature:
  "triple (\<lambda>w. logged w = (as, ws)) (write_signature so file s) (\<lambda>r w. case r of Inl _ \<Rightarrow> logged w = (as, ws)
     | Inr _ \<Rightarrow> logged w = (as, ws @ [(map_option (\<lambda>p. p @ ''.sig'') file, s)]))"
  by (rule tripleI)
    (auto simp: write_signature_def fails_with_def logged_def outside_def split: option.splits prod.splits sum.splits)

text \<open>What holds of a run that wrote a signature, and of what it wrote.\<close>

definition guarded ::
    "('f, 'c) signer_ops \<Rightarrow> string \<Rightarrow> string \<Rightarrow> string option \<Rightarrow> audit_entry \<Rightarrow> string \<Rightarrow> bool" where
  "guarded so path ns file entry s \<longleftrightarrow>
     (\<exists>data f cfg env git.
        ns = ''git'' \<and> vta_answers (so_read_input so file) (Inr data) \<and> length data \<le> MAX_SIGN_INPUT
        \<and> gate_allows so (so_gate so f)
        \<and> entry = evaluate (so_lowercase so) (so_sha256 so) (so_gate so f) ns file (as_bytes data)
        \<and> vta_answers (so_load_config so path) (Inr cfg)
        \<and> persona_fits so data (fst (select_signing_key (sc_did_key_id cfg) env git))
        \<and> signature_over (so_ed so) data s)"


section \<open>An example\<close>

text \<open>A commit that claims \<open>did:x:b\<close>, signed by a VTA; and a VTA that does not know the task.\<close>

definition sample_payload :: string where
  "sample_payload = join [newline] [''tree 0'', ''author a <a> 0 +0000'', ''committer c <did:x:b> 0 +0000'', [], ''m'', []]"

definition signed_reply :: json where
  "signed_reply = JObject [(''type'', JString ''t#response''), (''payload'', JObject [(''signature'', JString ''s'')])]"

definition unknown_reply :: json where
  "unknown_reply = JObject [(''type'', JString ''t#error''), (''payload'', JObject [(''code'', JString ''methodNotFound'')])]"

definition sample_vta_credentials :: vta_credentials where
  "sample_vta_credentials = \<lparr>vc_vta_url = ''https://v'', vc_vta_did = ''did:x:v'', vc_credential_did = ''did:x:c'',
     vc_private_key = ''z'', vc_key_id = ''k1'', vc_mediator_did = None\<rparr>"

definition sample_signer :: "json \<Rightarrow> (unit, unit) signer_ops" where
  "sample_signer reply =
     \<lparr>so_lowercase = to_ascii_lowercase, so_sha256 = (\<lambda>_. [1, 2]),
      so_ed = \<lparr>ed_verifying_key = (\<lambda>k. k), ed_sign = (\<lambda>_ _. replicate 64 0), ed_verify = (\<lambda>_ _ _. True),
        sha512 = (\<lambda>_. replicate 64 0), base64_encode = (\<lambda>_. ''AAAA'')\<rparr>,
      so_scid = \<lparr>scid_src = (\<lambda>_. None), scid_same_reference = (=), scid_strip_src = id\<rparr>,
      so_gate = (\<lambda>_. \<lparr>ge_feature = False, ge_env = (\<lambda>_. None), ge_parent_pid = Some 1, ge_parent_name = Some ''git'', ge_now = ''t''\<rparr>),
      so_read_input = (\<lambda>_. return (Inr sample_payload)), so_write_audit = (\<lambda>_. return True),
      so_audit_path = None, so_load_config = (\<lambda>_. return (Inr \<lparr>sc_did_key_id = ''did:x:b#key-0'', sc_user_name = None\<rparr>)),
      so_git_config = (\<lambda>_. return None), so_get_password = (\<lambda>k. return (if k = ''did:x:b#key-0:vta'' then Stored [] else NoEntry)),
      so_set_password = (\<lambda>_ _. return True), so_recover_legacy = (\<lambda>_. return None), so_store_name = ''store'',
      so_credentials_of = (\<lambda>_. Some sample_vta_credentials), so_cached_token = (\<lambda>_. None), so_token_text = (\<lambda>t _. t),
      so_unix_time = (\<lambda>_. Some 0),
      so_parse_url = (\<lambda>u. Some \<lparr>pu_username = [], pu_password = None, pu_shown = u\<rparr>), so_https_or_loopback = (\<lambda>_. True),
      so_client = (\<lambda>_ _ _ _. ()), so_set_token = (\<lambda>_ _. ()), so_connect = (\<lambda>_. return (Inr ((), Some (''a'', 5)))),
      so_dispatch = (\<lambda>_ _ _. return (Inr reply)), so_get_key = (\<lambda>_ _. return (Inr (KeyEd25519, ''z''))),
      so_get_key_secret = (\<lambda>_ _. return (Inr (KeyEd25519, ''z''))), so_decode_public = (\<lambda>_. Inr (replicate 32 1)),
      so_verifying_key = Inr, so_decode_private = (\<lambda>_. Inr (replicate 32 1)), so_b64url = (\<lambda>_. []),
      so_b64url_decode = (\<lambda>_. Inr (replicate 64 0)), so_write_file = (\<lambda>_ _. return (Inr ()))\<rparr>"

definition sample_signer_world :: "unit signer_world" where
  "sample_signer_world = \<lparr>sw_outside = (), sw_audited = [], sw_asked = [], sw_written = []\<rparr>"

abbreviation sample_run_gate :: "json \<Rightarrow> (failure + unit) \<times> unit signer_world" where
  "sample_run_gate reply \<equiv> run_state (run_gate (sample_signer reply) ''git'' None sample_payload) sample_signer_world"

abbreviation sample_sign_as :: "json \<Rightarrow> (failure + string) \<times> unit signer_world" where
  "sample_sign_as reply \<equiv> run_state (sign_as (sample_signer reply)
     \<lparr>sc_did_key_id = ''did:x:b#key-0'', sc_user_name = None\<rparr> ''git'' sample_payload) (snd (sample_run_gate reply))"

text \<open>A run of the example from its gate to its end.\<close>

lemma sample_signs:
  assumes "fst (sample_run_gate reply) = Inr ()" "fst (sample_sign_as reply) = Inr s"
  shows "run_state (handle_sign (sample_signer reply) ''c'' ''git'' None) sample_signer_world
     = (Inr (), (snd (sample_sign_as reply))\<lparr>sw_written := sw_written (snd (sample_sign_as reply)) @ [(None, s)]\<rparr>)"
proof -
  have "read_bounded sample_payload = Inr sample_payload"
    by (simp add: read_bounded_iff sample_payload_def MAX_SIGN_INPUT_def)
  then have "run_state (read_input (sample_signer reply) None) sample_signer_world = (Inr sample_payload, sample_signer_world)"
    by (simp add: read_input_def outside_def sample_signer_def)
  moreover have "run_state (outside (so_load_config (sample_signer reply) ''c'')) w
     = (Inr \<lparr>sc_did_key_id = ''did:x:b#key-0'', sc_user_name = None\<rparr>, w)" for w
    by (simp add: outside_def sample_signer_def)
  moreover obtain w2 where w2: "sample_run_gate reply = (Inr (), w2)" using assms(1) by (metis prod.collapse)
  moreover obtain w3 where "sample_sign_as reply = (Inr s, w3)" using assms(2) by (metis prod.collapse)
  ultimately show ?thesis
    by (simp add: handle_sign_def sign_namespace_ok_def GIT_SSHSIG_NAMESPACE_def ok_then_def write_signature_def)
qed

lemma key_leaves_the_vta_only_by_its_mode_witness:
  "\<exists>w'. run_state (handle_sign (sample_signer unknown_reply) ''c'' ''git'' None) sample_signer_world = (Inr (), w')
     \<and> AskedSecret ''k1'' \<in> set (sw_asked w')
     \<and> (mode_resolved (sample_signer unknown_reply) ExportSigns
        \<or> (\<exists>h. vta_declined (sample_signer unknown_reply) ''k1'' h))"
proof -
  have "fst (sample_run_gate unknown_reply) = Inr ()" by code_simp
  moreover have "(case fst (sample_sign_as unknown_reply) of Inr _ \<Rightarrow> True | Inl _ \<Rightarrow> False)" by code_simp
  then obtain s where "fst (sample_sign_as unknown_reply) = Inr s" by (auto split: sum.splits)
  ultimately obtain w' where run: "run_state (handle_sign (sample_signer unknown_reply) ''c'' ''git'' None) sample_signer_world = (Inr (), w')"
    and w': "sw_asked w' = sw_asked (snd (sample_sign_as unknown_reply))" by (simp add: sample_signs)
  have "AskedSecret ''k1'' \<in> set (sw_asked (snd (sample_sign_as unknown_reply)))" by code_simp
  with w' have asked: "AskedSecret ''k1'' \<in> set (sw_asked w')" by simp
  moreover have "sw_asked sample_signer_world = []" by (simp add: sample_signer_world_def)
  ultimately show ?thesis
    using run key_leaves_the_vta_only_by_its_mode [OF run] by (intro exI [of _ w']) auto
qed


end
