(* ===== verification/Signer_Include.thy ===== *)
theory Signer_Include
  imports Signer_Policy Effect_Traces
begin

text \<open>
  How a repository is made to sign, \<^verbatim>\<open>crates/did-git-sign/src/enable.rs\<close>, and the profiles of
  \<^verbatim>\<open>profiles.rs\<close>: everything goes through git's command line, which is outside the program. A run of
  git is an operation on the outside \<open>'f\<close>; the commands run are the log.
\<close>

section \<open>Paths\<close>

text \<open>\<open>Path::components\<close>: the root, a leading \<open>.\<close>, and the names; \<open>==\<close> and \<open>starts_with\<close> compare these.\<close>

definition path_parts :: "string \<Rightarrow> string list" where
  "path_parts p =
     (let cs = split_on CHR ''/'' p
      in (if starts_with ''/'' p then [''/''] else if hd cs = ''.'' then [''.''] else [])
         @ filter (\<lambda>c. c \<noteq> [] \<and> c \<noteq> ''.'') cs)"

definition same_path :: "string \<Rightarrow> string \<Rightarrow> bool" where
  "same_path a b \<longleftrightarrow> path_parts a = path_parts b"

definition path_starts_with :: "string \<Rightarrow> string \<Rightarrow> bool" where
  "path_starts_with dir p \<longleftrightarrow> starts_with (path_parts dir) (path_parts p)"

definition join_path :: "string \<Rightarrow> string \<Rightarrow> string" where
  "join_path d r = (if starts_with ''/'' r then r else if d = [] \<or> ends_with ''/'' d then d @ r else d @ ''/'' @ r)"

section \<open>The outside\<close>

text \<open>How a command ended: \<open>None\<close> where git could not be started.\<close>

type_synonym git_ended = "(bool \<times> string \<times> string) option"

record 'f include_ops =
  io_git :: "string list \<Rightarrow> ('f, git_ended) state"
  io_home :: "string option"
  io_config_dir :: "string option"
  io_create_dir :: "string \<Rightarrow> ('f, string + unit) state"
  io_write :: "string \<Rightarrow> string \<Rightarrow> ('f, string + unit) state"

record 'f include_world =
  iw_outside :: 'f
  iw_commands :: "string list list"

type_synonym ('f, 'a) include_io = "('f include_world, 'a) state"

definition aside :: "('f, 'a) state \<Rightarrow> ('f, 'a) include_io" where
  "aside m = State (\<lambda>w. case run_state m (iw_outside w) of (a, f) \<Rightarrow> (a, w\<lparr>iw_outside := f\<rparr>))"

definition git_ran :: "'f include_ops \<Rightarrow> string list \<Rightarrow> ('f, git_ended) include_io" where
  "git_ran io args = do { _ \<leftarrow> modify (\<lambda>w. w\<lparr>iw_commands := iw_commands w @ [args]\<rparr>); aside (io_git io args) }"

text \<open>\<open>git\<close>: a command that must succeed; \<open>git_out\<close>: a question, its trimmed answer or nothing.\<close>

definition git_do :: "'f include_ops \<Rightarrow> string list \<Rightarrow> ('f, failure + unit) include_io" where
  "git_do io args = do {
     r \<leftarrow> git_ran io args;
     return (case r of
         None \<Rightarrow> Inl [''failed to run git'']
       | Some (success, out, err) \<Rightarrow>
           if success then Inr ()
           else Inl [''git '' @ join '' '' args @ '' failed: '' @ trim (utf8_lossy err)])
   }"

definition out_of :: "git_ended \<Rightarrow> string option" where
  "out_of r =
     (case r of
        None \<Rightarrow> None
      | Some (success, out, err) \<Rightarrow>
          (let v = trim (utf8_lossy out) in if success \<and> v \<noteq> [] then Some v else None))"

definition git_out :: "'f include_ops \<Rightarrow> string list \<Rightarrow> ('f, string option) include_io" where
  "git_out io args = do { r \<leftarrow> git_ran io args; return (out_of r) }"

definition utf8_path :: "string \<Rightarrow> failure + string" where
  "utf8_path p = (if utf8_valid p then Inr p else Inl [''path is not valid UTF-8: '' @ utf8_lossy p])"

section \<open>The files of did-git-sign\<close>

definition DEFAULT_NAME :: string where
  "DEFAULT_NAME = ''default''"

definition default_global_path :: "'f include_ops \<Rightarrow> failure + string" where
  "default_global_path io =
     (case io_config_dir io of
        None \<Rightarrow> Inl [''could not determine config directory'']
      | Some d \<Rightarrow> Inr (join_path (join_path d ''did-git-sign'') ''config.json''))"

definition data_dir :: "'f include_ops \<Rightarrow> failure + string" where
  "data_dir io =
     (case io_config_dir io of
        None \<Rightarrow> Inl [''could not determine config directory'']
      | Some d \<Rightarrow> Inr (join_path d ''did-git-sign''))"

definition in_data_dir :: "'f include_ops \<Rightarrow> string \<Rightarrow> failure + string" where
  "in_data_dir io name = (case data_dir io of Inl e \<Rightarrow> Inl e | Inr d \<Rightarrow> Inr (join_path d name))"

definition hooks_dir :: "'f include_ops \<Rightarrow> failure + string" where
  "hooks_dir io = in_data_dir io ''hooks''"

definition allowed_signers_path :: "'f include_ops \<Rightarrow> failure + string" where
  "allowed_signers_path io = in_data_dir io ''allowed_signers''"

definition include_dir :: "'f include_ops \<Rightarrow> failure + string" where
  "include_dir io = in_data_dir io ''gitconfig''"

definition include_path :: "'f include_ops \<Rightarrow> string \<Rightarrow> failure + string" where
  "include_path io name = (case include_dir io of Inl e \<Rightarrow> Inl e | Inr d \<Rightarrow> Inr (join_path d (name @ ''.gitconfig'')))"

definition INCLUDE_HEADER :: string where
  "INCLUDE_HEADER =
     ''# Written by did-git-sign. A repository signs with the identity below only'' @ [newline]
     @ ''# when it includes this file: `did-git-sign enable` adds the include,'' @ [newline]
     @ ''# `did-git-sign disable` removes it. Regenerated by `did-git-sign init`.'' @ [newline]"

definition include_settings :: "string \<Rightarrow> string \<Rightarrow> string \<Rightarrow> string \<Rightarrow> (string \<times> string) list" where
  "include_settings config_json signers hooks did_key_id =
     [(''gpg.format'', ''ssh''), (''gpg.ssh.program'', ''did-git-sign''), (''user.signingKey'', config_json),
      (''gpg.ssh.defaultKeyFile'', config_json), (''gpg.ssh.allowedSignersFile'', signers),
      (''commit.gpgsign'', ''true''), (''core.hooksPath'', hooks), (''did-git-sign.key'', did_key_id)]"

fun each_setting :: "'f include_ops \<Rightarrow> string \<Rightarrow> (string \<times> string) list \<Rightarrow> ('f, failure + unit) include_io" where
  "each_setting io path [] = return (Inr ())"
| "each_setting io path ((k, v) # kvs) = do {
     r \<leftarrow> git_do io [''config'', ''-f'', path, k, v];
     case r of
       Inl e \<Rightarrow> return (Inl ((''failed to write '' @ k @ '' to '' @ path) # e))
     | Inr _ \<Rightarrow> each_setting io path kvs
   }"

text \<open>\<open>?\<close> on a value.\<close>

definition ok_value :: "failure + 'a \<Rightarrow> ('a \<Rightarrow> ('f, failure + 'b) include_io) \<Rightarrow> ('f, failure + 'b) include_io" where
  "ok_value r f = (case r of Inl e \<Rightarrow> return (Inl e) | Inr a \<Rightarrow> f a)"

definition write_settings :: "'f include_ops \<Rightarrow> string \<Rightarrow> string \<Rightarrow> ('f, failure + unit) include_io" where
  "write_settings io path did_key_id =
     ok_value (default_global_path io) (\<lambda>c. ok_value (utf8_path c) (\<lambda>config_json.
     ok_value (hooks_dir io) (\<lambda>hooks. ok_value (allowed_signers_path io) (\<lambda>signers.
     ok_value (utf8_path signers) (\<lambda>signers. ok_value (utf8_path hooks) (\<lambda>hooks. ok_value (utf8_path path) (\<lambda>path.
       each_setting io path (include_settings config_json signers hooks did_key_id))))))))"

definition write_include_at :: "'f include_ops \<Rightarrow> string \<Rightarrow> string \<Rightarrow> string \<Rightarrow> ('f, failure + unit) include_io" where
  "write_include_at io dir path did_key_id = do {
     d \<leftarrow> aside (io_create_dir io dir);
     case d of
       Inl e \<Rightarrow> return (Inl [''failed to create '' @ dir, e])
     | Inr _ \<Rightarrow> do {
         r \<leftarrow> aside (io_write io path INCLUDE_HEADER);
         case r of
           Inl e \<Rightarrow> return (Inl [''failed to write '' @ path, e])
         | Inr _ \<Rightarrow> write_settings io path did_key_id
       }
   }"

definition write_include :: "'f include_ops \<Rightarrow> string \<Rightarrow> string \<Rightarrow> ('f, failure + string) include_io" where
  "write_include io name did_key_id =
     ok_value (include_dir io) (\<lambda>dir. ok_value (include_path io name) (\<lambda>path.
       ok_then (write_include_at io dir path did_key_id) (\<lambda>_. return (Inr path))))"

definition include_identity :: "'f include_ops \<Rightarrow> string \<Rightarrow> ('f, string option) include_io" where
  "include_identity io path =
     (case utf8_path path of
        Inl _ \<Rightarrow> return None
      | Inr p \<Rightarrow> git_out io [''config'', ''-f'', p, ''--get'', ''did-git-sign.key''])"

section \<open>Enabling and disabling\<close>

definition expand_home :: "'f include_ops \<Rightarrow> string \<Rightarrow> string" where
  "expand_home io v =
     (case (strip_prefix ''~/'' v, io_home io) of
        (Some rest, Some home) \<Rightarrow> utf8_lossy (join_path home rest)
      | _ \<Rightarrow> v)"

definition is_our_include :: "'f include_ops \<Rightarrow> string \<Rightarrow> bool" where
  "is_our_include io v =
     (case include_dir io of
        Inl _ \<Rightarrow> False
      | Inr dir \<Rightarrow> path_starts_with dir (expand_home io (trim v)))"

definition ERE_SPECIAL :: string where
  "ERE_SPECIAL = [CHR 0x5C] @ ''^$.|?*+()[]{}''"

definition regex_escape :: "string \<Rightarrow> string" where
  "regex_escape s = concat (map (\<lambda>c. if c \<in> set ERE_SPECIAL then [CHR 0x5C, c] else [c]) s)"

definition exact_pattern :: "string \<Rightarrow> string" where
  "exact_pattern v = ''^'' @ regex_escape v @ ''$''"

definition inside_work_tree :: "'f include_ops \<Rightarrow> ('f, bool) include_io" where
  "inside_work_tree io = do {
     r \<leftarrow> git_out io [''rev-parse'', ''--is-inside-work-tree''];
     return (r = Some ''true'')
   }"

definition repo_include :: "'f include_ops \<Rightarrow> ('f, string option) include_io" where
  "repo_include io = do {
     r \<leftarrow> git_out io [''config'', ''--local'', ''--get-all'', ''include.path''];
     return (case r of
         None \<Rightarrow> None
       | Some listing \<Rightarrow>
           map_option (\<lambda>v. expand_home io (trim v)) (find (is_our_include io) (rev (lines listing))))
   }"

fun remove_each :: "'f include_ops \<Rightarrow> string list \<Rightarrow> ('f, failure + bool) include_io" where
  "remove_each io [] = return (Inr False)"
| "remove_each io (v # vs) =
     ok_then (git_do io [''config'', ''--local'', ''--unset-all'', ''include.path'', exact_pattern (trim v)])
       (\<lambda>_. ok_then (remove_each io vs) (\<lambda>_. return (Inr True)))"

definition remove_repo_includes :: "'f include_ops \<Rightarrow> ('f, failure + bool) include_io" where
  "remove_repo_includes io = do {
     r \<leftarrow> git_out io [''config'', ''--local'', ''--get-all'', ''include.path''];
     case r of
       None \<Rightarrow> return (Inr False)
     | Some listing \<Rightarrow> remove_each io (filter (is_our_include io) (lines listing))
   }"

definition refuse_foreign_hooks_path :: "'f include_ops \<Rightarrow> string \<Rightarrow> ('f, failure + unit) include_io" where
  "refuse_foreign_hooks_path io scope = ok_value (hooks_dir io) (\<lambda>ours. do {
     r \<leftarrow> git_out io [''config'', scope, ''--get'', ''core.hooksPath''];
     return (case r of
         None \<Rightarrow> Inr ()
       | Some existing \<Rightarrow>
           if \<not> same_path (expand_home io (trim existing)) ours
           then Inl [scope @ '' core.hooksPath is set to '' @ quoted existing @ '', which is not did-git-sign's. ''
             @ ''Enabling would replace it and its hooks would stop running. Unset it, or add the ''
             @ ''Signed-by-DID trailer logic to that directory's commit-msg hook by hand.'']
           else Inr ())
   })"

definition not_in_a_repository :: "('f, failure + 'a) include_io" where
  "not_in_a_repository = return (Inl [''not inside a git repository; run this in one, or use --dir''])"

definition enable_repo :: "'f include_ops \<Rightarrow> string \<Rightarrow> ('f, failure + unit) include_io" where
  "enable_repo io incl = do {
     inside \<leftarrow> inside_work_tree io;
     if \<not> inside then not_in_a_repository
     else ok_then (refuse_foreign_hooks_path io ''--local'') (\<lambda>_.
       ok_then (refuse_foreign_hooks_path io ''--global'') (\<lambda>_.
       ok_then (remove_repo_includes io) (\<lambda>_.
       ok_value (utf8_path incl) (\<lambda>p. git_do io [''config'', ''--local'', ''--add'', ''include.path'', p]))))
   }"

definition disable_repo :: "'f include_ops \<Rightarrow> ('f, failure + bool) include_io" where
  "disable_repo io = do {
     inside \<leftarrow> inside_work_tree io;
     if \<not> inside then not_in_a_repository else remove_repo_includes io
   }"

definition include_if_key :: "string \<Rightarrow> string" where
  "include_if_key dir =
     (let d = trim dir in ''includeIf.gitdir:'' @ (if ends_with ''/'' d then d else d @ ''/'') @ ''.path'')"

definition enable_dir :: "'f include_ops \<Rightarrow> string \<Rightarrow> string \<Rightarrow> ('f, failure + string) include_io" where
  "enable_dir io dir incl =
     ok_then (refuse_foreign_hooks_path io ''--global'') (\<lambda>_.
       let key = include_if_key dir
       in ok_value (utf8_path incl) (\<lambda>p.
            ok_then (git_do io [''config'', ''--global'', key, p]) (\<lambda>_. return (Inr key))))"

definition disable_dir :: "'f include_ops \<Rightarrow> string \<Rightarrow> ('f, failure + bool) include_io" where
  "disable_dir io dir = do {
     let key = include_if_key dir;
     r \<leftarrow> git_out io [''config'', ''--global'', ''--get'', key];
     case r of
       None \<Rightarrow> return (Inr False)
     | Some v \<Rightarrow>
         if is_our_include io v
         then ok_then (git_do io [''config'', ''--global'', ''--unset'', key]) (\<lambda>_. return (Inr True))
         else return (Inl [key @ '' is set to '' @ quoted v @ '', which is not did-git-sign's; leaving it''])
   }"

text \<open>The lines of a listing that name one include file, removed one by one; failures are passed over.\<close>

fun remove_global_each :: "'f include_ops \<Rightarrow> string \<Rightarrow> string list \<Rightarrow> ('f, nat) include_io" where
  "remove_global_each io target [] = return 0"
| "remove_global_each io target (l # ls) =
     (case split_once '' '' l of
        None \<Rightarrow> remove_global_each io target ls
      | Some (key, v) \<Rightarrow>
          if same_path (expand_home io (trim v)) target
          then do {
            r \<leftarrow> git_do io [''config'', ''--global'', ''--unset-all'', key, exact_pattern (trim v)];
            n \<leftarrow> remove_global_each io target ls;
            return (case r of Inr _ \<Rightarrow> Suc n | Inl _ \<Rightarrow> n)
          }
          else remove_global_each io target ls)"

fun remove_local_each :: "'f include_ops \<Rightarrow> string \<Rightarrow> string list \<Rightarrow> ('f, nat) include_io" where
  "remove_local_each io target [] = return 0"
| "remove_local_each io target (v # vs) =
     (if same_path (expand_home io (trim v)) target
      then do {
        r \<leftarrow> git_do io [''config'', ''--local'', ''--unset-all'', ''include.path'', exact_pattern (trim v)];
        n \<leftarrow> remove_local_each io target vs;
        return (case r of Inr _ \<Rightarrow> Suc n | Inl _ \<Rightarrow> n)
      }
      else remove_local_each io target vs)"

definition remove_references :: "'f include_ops \<Rightarrow> string \<Rightarrow> ('f, nat) include_io" where
  "remove_references io target = do {
     g \<leftarrow> git_out io [''config'', ''--global'', ''--get-regexp'',
       ''^include(if'' @ [CHR 0x5C] @ ''..*)?'' @ [CHR 0x5C] @ ''.path$''];
     n \<leftarrow> (case g of None \<Rightarrow> return 0 | Some listing \<Rightarrow> remove_global_each io target (lines listing));
     inside \<leftarrow> inside_work_tree io;
     if \<not> inside then return n
     else do {
       l \<leftarrow> git_out io [''config'', ''--local'', ''--get-all'', ''include.path''];
       m \<leftarrow> (case l of None \<Rightarrow> return 0 | Some listing \<Rightarrow> remove_local_each io target (lines listing));
       return (n + m)
     }
   }"

section \<open>Profiles\<close>

record profile =
  pf_did_key_id :: string
  pf_vta_did :: string
  pf_context :: "string option"

text \<open>A \<open>BTreeMap\<close> by name: the list is in the order of its names.\<close>

type_synonym profiles = "(string \<times> profile) list"

definition valid_profile_char :: "char \<Rightarrow> bool" where
  "valid_profile_char c \<longleftrightarrow> is_ascii_lower c \<or> is_ascii_digit c"

definition validate_name :: "string \<Rightarrow> failure + unit" where
  "validate_name name =
     (let ok_first = (case name of [] \<Rightarrow> False | c # _ \<Rightarrow> valid_profile_char c);
          ok_rest = list_all (\<lambda>c. valid_profile_char c \<or> c \<in> set ''-_.'') (drop 1 name)
      in if \<not> ok_first \<or> \<not> ok_rest \<or> length name > 64
         then Inl [''invalid profile name '' @ quoted name @ '': use a lowercase letter or digit, then lowercase ''
           @ ''letters, digits, '' @ quoted ''-'' @ '', '' @ quoted ''_'' @ '' or '' @ quoted ''.''
           @ '' (at most 64 characters)'']
         else Inr ())"

definition profile_get :: "profiles \<Rightarrow> string \<Rightarrow> failure + profile" where
  "profile_get ps name =
     (case map_of ps name of
        Some p \<Rightarrow> Inr p
      | None \<Rightarrow> Inl [if ps = []
          then ''no profile '' @ quoted name @ '': there are none yet. Create one with `did-git-sign init --profile ''
            @ name @ '' '' @ [CHR 0xE2, CHR 0x80, CHR 0xA6] @ ''`''
          else ''no profile '' @ quoted name @ ''. Known profiles: '' @ join '', '' (map fst ps)])"

definition profile_name_of :: "profiles \<Rightarrow> string \<Rightarrow> string option" where
  "profile_name_of ps did_key_id = map_option fst (find (\<lambda>(_, p). pf_did_key_id p = did_key_id) ps)"

text \<open>Which include file \<open>enable\<close> means.\<close>

definition include_name_for :: "profiles \<Rightarrow> bool \<Rightarrow> string option \<Rightarrow> failure + string" where
  "include_name_for ps default_there p =
     (case p of
        Some n \<Rightarrow> (case profile_get ps n of Inl e \<Rightarrow> Inl e | Inr _ \<Rightarrow> Inr n)
      | None \<Rightarrow>
          if default_there then Inr DEFAULT_NAME
          else (case ps of
              [] \<Rightarrow> Inl [''no identity is set up yet; run `did-git-sign init --vta-did <VTA DID>` first'']
            | [(n, _)] \<Rightarrow> Inr n
            | _ \<Rightarrow> Inl [''more than one profile; choose one with --profile ('' @ join '', '' (map fst ps) @ '')'']))"

section \<open>The pattern means the value\<close>

text \<open>
  POSIX extended regular expressions that are one literal between anchors: a backslash before a special
  character stands for it, an ordinary character for itself; \<open>None\<close> for any other expression.
\<close>

fun ere_literal :: "string \<Rightarrow> string option" where
  "ere_literal [] = None"
| "ere_literal [c] = (if c = CHR ''$'' then Some [] else None)"
| "ere_literal (c # d # s) =
     (if c = CHR 0x5C then (if d \<in> set ERE_SPECIAL then map_option (Cons d) (ere_literal s) else None)
      else if c \<in> set ERE_SPECIAL then None
      else map_option (Cons c) (ere_literal (d # s)))"

definition ere_matches_only :: "string \<Rightarrow> string option" where
  "ere_matches_only p = (case p of CHR ''^'' # s \<Rightarrow> ere_literal s | _ \<Rightarrow> None)"

lemma backslash_special: "CHR 0x5C \<in> set ERE_SPECIAL" "CHR ''$'' \<in> set ERE_SPECIAL"
  by (simp_all add: ERE_SPECIAL_def)

lemma ere_literal_escape: "ere_literal (regex_escape s @ ''$'') = Some s"
proof (induction s)
  case (Cons c s)
  then have ih: "ere_literal (concat (map (\<lambda>c. if c \<in> set ERE_SPECIAL then [CHR 0x5C, c] else [c]) s) @ ''$'') = Some s"
    by (simp add: regex_escape_def)
  show ?case
  proof (cases "c \<in> set ERE_SPECIAL")
    case True
    with ih show ?thesis by (simp add: regex_escape_def)
  next
    case False
    then have "c \<noteq> CHR 0x5C" using backslash_special(1) by blast
    with False ih show ?thesis
      by (cases "concat (map (\<lambda>c. if c \<in> set ERE_SPECIAL then [CHR 0x5C, c] else [c]) s) @ ''$''")
        (auto simp: regex_escape_def)
  qed
qed (simp add: regex_escape_def)

lemma exact_pattern_matches_only: "ere_matches_only (exact_pattern v) = Some v"
  by (simp add: ere_matches_only_def exact_pattern_def ere_literal_escape)

section \<open>What enabling changes\<close>

text \<open>Commands that only ask; and the changes of \<open>enable\<close>: its own line added, and lines removed by a pattern
  that matches the path of one of did-git-sign's include files and nothing else.\<close>

definition question :: "string list \<Rightarrow> bool" where
  "question args \<longleftrightarrow> args = [''rev-parse'', ''--is-inside-work-tree'']
     \<or> (\<exists>scope how key. how \<in> {''--get'', ''--get-all'', ''--get-regexp''} \<and> args = [''config'', scope, how, key])"

definition removes_own :: "'f include_ops \<Rightarrow> string list \<Rightarrow> bool" where
  "removes_own io args \<longleftrightarrow> (\<exists>pat v dir. args = [''config'', ''--local'', ''--unset-all'', ''include.path'', pat]
     \<and> ere_matches_only pat = Some v \<and> include_dir io = Inr dir \<and> path_starts_with dir (expand_home io v))"

definition adds :: "string \<Rightarrow> string list" where
  "adds p = [''config'', ''--local'', ''--add'', ''include.path'', p]"

abbreviation runs :: "('a \<Rightarrow> string list list \<Rightarrow> bool) \<Rightarrow> ('f, 'a) include_io \<Rightarrow> bool" where
  "runs Q m \<equiv> logs iw_commands Q m"

text \<open>What a question can be answered.\<close>

definition git_answers :: "'f include_ops \<Rightarrow> string list \<Rightarrow> string option \<Rightarrow> bool" where
  "git_answers io args v \<longleftrightarrow> (\<exists>f. v = out_of (fst (run_state (io_git io args) f)))"

lemma runs_git_ran: "runs (\<lambda>r cs. cs = [args] \<and> (\<exists>f. r = fst (run_state (io_git io args) f))) (git_ran io args)"
proof -
  have "runs (\<lambda>r cs. cs = [] \<and> (\<exists>f. r = fst (run_state (io_git io args) f))) (aside (io_git io args))"
    by (auto simp: logs_def aside_def split: prod.splits) (metis fst_conv)
  note answer = this
  have "runs (\<lambda>_ cs. cs = [args]) (modify (\<lambda>w. w\<lparr>iw_commands := iw_commands w @ [args]\<rparr>))"
    by (simp add: logs_def)
  then show ?thesis
    unfolding git_ran_def by (rule logs_bind) (auto intro: logs_conseq [OF answer])
qed

lemma runs_git_out: "runs (\<lambda>v cs. cs = [args] \<and> git_answers io args v) (git_out io args)"
  unfolding git_out_def by (rule logs_bind [OF runs_git_ran]) (auto simp: git_answers_def intro!: logs_return)

lemma runs_git_do: "runs (\<lambda>_ cs. cs = [args]) (git_do io args)"
  unfolding git_do_def by (rule logs_bind [OF runs_git_ran]) (auto intro!: logs_return)

lemma removes_own_pattern: "is_our_include io v \<Longrightarrow>
  removes_own io [''config'', ''--local'', ''--unset-all'', ''include.path'', exact_pattern (trim v)]"
  by (auto simp: removes_own_def is_our_include_def exact_pattern_matches_only split: sum.splits)

lemma runs_remove_each:
  "(\<forall>v\<in>set vs. is_our_include io v) \<Longrightarrow> runs (\<lambda>_ cs. \<forall>c\<in>set cs. removes_own io c) (remove_each io vs)"
proof (induction vs)
  case (Cons v vs)
  then have own: "removes_own io [''config'', ''--local'', ''--unset-all'', ''include.path'', exact_pattern (trim v)]"
    by (simp add: removes_own_pattern)
  from Cons show ?case
    by (auto intro!: logs_all_ok_then logs_return logs_conseq [OF runs_git_do] simp: own)
qed (simp add: logs_return)

lemma runs_remove_repo_includes:
  "runs (\<lambda>_ cs. \<forall>c\<in>set cs. question c \<or> removes_own io c) (remove_repo_includes io)"
  unfolding remove_repo_includes_def
  by (rule logs_all_bind [OF logs_conseq [OF runs_git_out]])
    (auto simp: question_def intro!: logs_option logs_return logs_conseq [OF runs_remove_each])

text \<open>The hooks of another tool are not in the way in a scope.\<close>

definition hooks_free :: "'f include_ops \<Rightarrow> string \<Rightarrow> bool" where
  "hooks_free io scope \<longleftrightarrow> (\<exists>ours v. hooks_dir io = Inr ours
     \<and> git_answers io [''config'', scope, ''--get'', ''core.hooksPath''] v
     \<and> (\<forall>existing. v = Some existing \<longrightarrow> same_path (expand_home io (trim existing)) ours))"

lemma runs_refuse_foreign_hooks_path:
  "runs (\<lambda>r cs. (\<forall>c\<in>set cs. question c) \<and> (r = Inr () \<longrightarrow> hooks_free io scope)) (refuse_foreign_hooks_path io scope)"
proof (cases "hooks_dir io")
  case (Inr ours)
  then show ?thesis
    unfolding refuse_foreign_hooks_path_def ok_value_def Inr sum.case
    by (intro logs_bind [OF runs_git_out] logs_return)
      (auto simp: question_def hooks_free_def Inr split: option.splits if_splits)
qed (simp add: refuse_foreign_hooks_path_def ok_value_def logs_return)

lemma last_of: "cs = [x] \<Longrightarrow> last (as @ bs @ ds @ es @ cs) = x"
  by simp

text \<open>C27: Enabling changes one thing. Whatever git answers, every command that enabling a repository runs
  either asks, or adds the identity's include line to the repository's own configuration, or removes
  lines of it by a pattern that matches the path of a did-git-sign include file and no other value.
  Where it succeeds the line was added last. Where it changes anything at all, no other tool's hooks
  directory was configured, for the repository or for the user.\<close>

theorem enabling_changes_only_its_own_lines:
  assumes "run_state (enable_repo io incl) w = (r, w')"
  shows "\<exists>cs. iw_commands w' = iw_commands w @ cs
     \<and> (\<forall>c\<in>set cs. question c \<or> removes_own io c \<or> c = adds incl)
     \<and> (r = Inr () \<longrightarrow> last cs = adds incl)
     \<and> ((\<exists>c\<in>set cs. \<not> question c) \<longrightarrow> hooks_free io ''--local'' \<and> hooks_free io ''--global'')"
proof -
  let ?Q = "\<lambda>r cs. (\<forall>c\<in>set cs. question c \<or> removes_own io c \<or> c = adds incl) \<and> (r = Inr () \<longrightarrow> last cs = adds incl)
     \<and> ((\<exists>c\<in>set cs. \<not> question c) \<longrightarrow> hooks_free io ''--local'' \<and> hooks_free io ''--global'')"
  have inside: "runs (\<lambda>_ cs. \<forall>c\<in>set cs. question c) (git_out io [''rev-parse'', ''--is-inside-work-tree''])"
    by (rule logs_conseq [OF runs_git_out]) (simp add: question_def)
  have add: "runs (\<lambda>r cs. (\<forall>c\<in>set cs. c = adds incl) \<and> (r = Inr () \<longrightarrow> cs = [adds incl]))
      (ok_value (utf8_path incl) (\<lambda>p. git_do io [''config'', ''--local'', ''--add'', ''include.path'', p]))"
    by (auto simp: ok_value_def utf8_path_def adds_def intro!: logs_return logs_conseq [OF runs_git_do])
  have "runs ?Q (enable_repo io incl)"
    unfolding enable_repo_def inside_work_tree_def not_in_a_repository_def State_Monad.bind_assoc
    apply (rule logs_bind [OF inside])
    apply (simp only: bind_left_identity)
    apply (rule logs_if)
     apply (rule logs_return, simp)
    apply (rule logs_ok_then [OF runs_refuse_foreign_hooks_path], simp, blast)
    apply (rule logs_ok_then [OF runs_refuse_foreign_hooks_path], simp, blast)
    apply (rule logs_ok_then [OF runs_remove_repo_includes], simp, blast)
    apply (rule logs_conseq [OF add])
    apply (elim conjE, intro conjI impI)
       apply (simp only: set_append ball_Un, blast)
      apply (rule last_of, erule (1) mp)
     apply (erule mp, rule arg_cong [where f = Inr], rule unit_eq)+
    done
  from logsD [OF this assms] show ?thesis by blast
qed

definition sample_include :: "unit include_ops" where
  "sample_include =
     \<lparr>io_git = (\<lambda>args. return (Some (True,
        (if args = [''rev-parse'', ''--is-inside-work-tree''] then ''true''
         else if args = [''config'', ''--local'', ''--get-all'', ''include.path'']
         then ''/h/.config/did-git-sign/gitconfig/a.gitconfig'' @ [newline] @ ''other'' else []), []))),
      io_home = Some ''/h'', io_config_dir = Some ''/h/.config'',
      io_create_dir = (\<lambda>_. return (Inr ())), io_write = (\<lambda>_ _. return (Inr ()))\<rparr>"

lemma enabling_changes_only_its_own_lines_witness:
  "\<exists>w' cs. run_state (enable_repo sample_include ''/h/b'') \<lparr>iw_outside = (), iw_commands = []\<rparr> = (Inr (), w')
     \<and> iw_commands w' = cs \<and> length cs = 6 \<and> last cs = adds ''/h/b''
     \<and> hooks_free sample_include ''--local'' \<and> hooks_free sample_include ''--global''"
proof -
  let ?w = "\<lparr>iw_outside = (), iw_commands = []\<rparr>"
  have "fst (run_state (enable_repo sample_include ''/h/b'') ?w) = Inr ()"
    "length (iw_commands (snd (run_state (enable_repo sample_include ''/h/b'') ?w))) = 6" by code_simp+
  then obtain w' where run: "run_state (enable_repo sample_include ''/h/b'') ?w = (Inr (), w')" and n: "length (iw_commands w') = 6"
    by (metis prod.collapse)
  have "\<not> question (adds ''/h/b'')" by (simp add: question_def adds_def)
  moreover from enabling_changes_only_its_own_lines [OF run] obtain cs where "iw_commands w' = cs" "last cs = adds ''/h/b''"
    "(\<exists>c\<in>set cs. \<not> question c) \<longrightarrow> hooks_free sample_include ''--local'' \<and> hooks_free sample_include ''--global''" by auto
  moreover from this n have "last cs \<in> set cs" by (intro last_in_set) auto
  ultimately show ?thesis using run n by metis
qed

end
