(* ===== verification/Signer_Setup.thy ===== *)
theory Signer_Setup
  imports Signer_Include Did_Document "HOL-Library.List_Lexorder" "HOL-Library.Product_Lexorder" "HOL-Library.Char_ord"
begin

text \<open>
  Setting up the signing program, \<^verbatim>\<open>crates/did-git-sign/src/init.rs\<close> and \<^verbatim>\<open>main.rs\<close>: the file of allowed
  signers, the hooks, the choice of a context, a DID and one of its keys, and the identity it signs as.
  Files are their contents; the VTA's listings and the did:scid helpers are arguments.
\<close>

section \<open>Allowed signers\<close>

definition ssh_key_blob :: "bytes \<Rightarrow> bytes" where
  "ssh_key_blob k = write_u32 (word_of_nat (length (as_bytes ''ssh-ed25519''))) @ as_bytes ''ssh-ed25519''
     @ write_u32 (word_of_nat (length k)) @ k"

definition base64_encode_pubkey :: "(bytes \<Rightarrow> string) \<Rightarrow> bytes \<Rightarrow> string" where
  "base64_encode_pubkey b64 k = b64 (ssh_key_blob k)"

definition ssh_public_key_string :: "(bytes \<Rightarrow> string) \<Rightarrow> bytes \<Rightarrow> string" where
  "ssh_public_key_string b64 k = ''ssh-ed25519 '' @ base64_encode_pubkey b64 k"

definition allowed_signers_entry :: "(bytes \<Rightarrow> string) \<Rightarrow> string \<Rightarrow> bytes \<Rightarrow> string" where
  "allowed_signers_entry b64 did_key_id k = did_key_id @ '' ssh-ed25519 '' @ base64_encode_pubkey b64 k"

text \<open>The file with an entry added, unless it is there.\<close>

definition append_allowed_signer :: "string \<Rightarrow> string \<Rightarrow> string" where
  "append_allowed_signer entry existing =
     (if contains_sub entry existing then existing
      else existing @ (if existing \<noteq> [] \<and> \<not> ends_with [newline] existing then [newline] else []) @ entry @ [newline])"

definition names_signer :: "string \<Rightarrow> string \<Rightarrow> bool" where
  "names_signer did_key_id l \<longleftrightarrow> starts_with (did_key_id @ '' '') (strip_all unicode_ws l)"

text \<open>The file without an identity's lines; \<open>None\<close> where there is none and it is left alone.\<close>

definition remove_allowed_signer :: "string \<Rightarrow> string \<Rightarrow> string option" where
  "remove_allowed_signer did_key_id content =
     (let kept = filter (\<lambda>l. \<not> names_signer did_key_id l) (lines content)
      in if length kept = length (lines content) then None
         else (let new = join [newline] kept in Some (if new = [] then [] else new @ [newline])))"

section \<open>Hooks\<close>

definition COMMIT_MSG_HOOK :: string where
  "COMMIT_MSG_HOOK = join [newline]
     [''#!/bin/sh'',
      ''# Installed by did-git-sign '' @ [CHR 0xE2, CHR 0x80, CHR 0x94] @ '' chains the repo commit-msg hook, then adds the Signed-by-DID trailer.'',
      ''# did-git-sign-hook-version: 2'',
      ''git_dir=$(git rev-parse --absolute-git-dir 2>/dev/null) || exit 0'',
      ''repo_hook=\"$git_dir/hooks/commit-msg\"'',
      ''if '' @ [CHR 0x5B] @ '' -x \"$repo_hook\" ] && '' @ [CHR 0x5B] @ '' \"$repo_hook\" != \"$0\" ]; then'',
      ''    \"$repo_hook\" \"$@\" || exit $?'',
      ''fi'',
      [],
      ''msg_file=\"$1\"'',
      [CHR 0x5B] @ '' -n \"$msg_file\" ] || exit 0'',
      [],
      ''# Same precedence the signer uses (R-G-1): env var, then per-repo git config.'',
      ''# They must agree '' @ [CHR 0xE2, CHR 0x80, CHR 0x94] @ '' the hook writes the claim and the signer checks it against'',
      ''# the key it actually uses, so reading a different selector here would make'',
      ''# `DID_GIT_SIGN_KEY='' @ [CHR 0xE2, CHR 0x80, CHR 0xA6] @ '' git commit` refuse to sign its own commit.'',
      ''DID=$(printf '' @ [CHR 0x27] @ ''%s'' @ [CHR 0x27] @ '' \"${DID_GIT_SIGN_KEY:-}\" | tr -d '' @ [CHR 0x27, CHR 0x5C] @ ''r'' @ [CHR 0x5C] @ ''n'' @ [CHR 0x27] @ '')'',
      [CHR 0x5B] @ '' -z \"$DID\" ] && DID=$(git config did-git-sign.key 2>/dev/null)'',
      [CHR 0x5B] @ '' -z \"$DID\" ] && exit 0'',
      ''case \"$DID\" in'',
      ''    did:'' @ [CHR 0x2A] @ '') ;;'',
      ''    '' @ [CHR 0x2A] @ '') exit 0 ;;'',
      ''esac'',
      ''case \"$DID\" in'',
      ''    '' @ [CHR 0x2A, CHR 0x5B, CHR 0x5B] @ '':space:]]'' @ [CHR 0x2A] @ '')'',
      ''        echo \"did-git-sign: the selected DID contains whitespace; refusing to write a trailer\" >&2'',
      ''        exit 1'',
      ''        ;;'',
      ''esac'',
      [],
      ''# Opt-in: a DCO sign-off is the committer'' @ [CHR 0x27] @ ''s assertion to make, not ours.'',
      ''if '' @ [CHR 0x5B] @ '' \"$(git config --bool did-git-sign.signoff 2>/dev/null)\" = \"true\" ]; then'',
      ''    NAME=$(git config user.name 2>/dev/null | tr -d '' @ [CHR 0x27, CHR 0x5C] @ ''r'' @ [CHR 0x5C] @ ''n'' @ [CHR 0x27] @ '')'',
      ''    EMAIL=$(git config user.email 2>/dev/null | tr -d '' @ [CHR 0x27, CHR 0x5C] @ ''r'' @ [CHR 0x5C] @ ''n'' @ [CHR 0x27] @ '')'',
      ''    git interpret-trailers --in-place --no-divider --if-exists doNothing '' @ [CHR 0x5C],
      ''        --trailer \"Signed-off-by: $NAME <$EMAIL>\" \"$msg_file\" || exit 1'',
      ''fi'',
      [],
      ''# --no-divider: a commit message has no patch after it, so a `---` line is'',
      ''# text, and the final paragraph is the trailer block git log and verify-trust'',
      ''# read. Without it the trailer lands above the first `---`, where nobody looks.'',
      ''#'',
      ''# An existing claim is kept (amend, rebase). Existence is tested on the exact'',
      ''# key rather than with `--if-exists doNothing`, which matches keys by prefix:'',
      ''# a `Signed-by:` or `S:` trailer would count as a claim and none would be'',
      ''# written.'',
      ''existing=$(git interpret-trailers --parse --no-divider \"$msg_file\") || exit 1'',
      ''if ! printf '' @ [CHR 0x27] @ ''%s'' @ [CHR 0x5C] @ ''n'' @ [CHR 0x27] @ '' \"$existing\" | grep -qi '' @ [CHR 0x27] @ ''^Signed-by-DID:'' @ [CHR 0x27] @ ''; then'',
      ''    git interpret-trailers --in-place --no-divider --where end --if-exists add '' @ [CHR 0x5C],
      ''        --trailer \"Signed-by-DID: $DID\" \"$msg_file\" || exit 1'',
      ''fi'',
      []]"

definition COMMIT_MSG_HOOK_VERSION :: nat where
  "COMMIT_MSG_HOOK_VERSION = 2"

definition HOOK_VERSION_MARKER :: string where
  "HOOK_VERSION_MARKER = ''# did-git-sign-hook-version:''"

definition HOOK_OWNER_MARKER :: string where
  "HOOK_OWNER_MARKER = ''Installed by did-git-sign''"

datatype hook_status =
    HookCurrent string
  | HookOutdated string nat nat
  | HookNewer string nat nat
  | HookForeign string
  | HookMissing string
  | HookUnknown

definition hook_version :: "string \<Rightarrow> nat" where
  "hook_version content =
     (case find_map (\<lambda>l. strip_prefix HOOK_VERSION_MARKER (trim l)) (lines content) of
        None \<Rightarrow> 1
      | Some v \<Rightarrow> (case parse_uint 32 (trim v) of None \<Rightarrow> 0 | Some n \<Rightarrow> n))"

definition classify_commit_msg_hook :: "string \<Rightarrow> string option \<Rightarrow> hook_status" where
  "classify_commit_msg_hook path content =
     (case content of
        None \<Rightarrow> HookMissing path
      | Some c \<Rightarrow>
          if \<not> contains_sub HOOK_OWNER_MARKER c then HookForeign path
          else (let installed = hook_version c; current = COMMIT_MSG_HOOK_VERSION
            in if installed = current then HookCurrent path
               else if installed < current then HookOutdated path installed current
               else HookNewer path installed current))"

definition STANDARD_GIT_HOOKS :: "string list" where
  "STANDARD_GIT_HOOKS =
     [''applypatch-msg'', ''commit-msg'', ''fsmonitor-watchman'', ''post-applypatch'',
      ''post-checkout'', ''post-commit'', ''post-index-change'', ''post-merge'', ''post-receive'', ''post-rewrite'',
      ''post-update'', ''pre-applypatch'', ''pre-auto-gc'', ''pre-commit'', ''pre-merge-commit'',
      ''pre-push'', ''pre-rebase'', ''pre-receive'', ''prepare-commit-msg'', ''proc-receive'',
      ''push-to-checkout'', ''reference-transaction'', ''sendemail-validate'', ''update'']"

definition delegating_hook :: "string \<Rightarrow> string" where
  "delegating_hook hook_name = join [newline]
     [''#!/bin/sh'',
      ''# Installed by did-git-sign '' @ [CHR 0xE2, CHR 0x80, CHR 0x94] @ '' delegates to the repository'' @ [CHR 0x27]
        @ ''s '' @ hook_name @ '' hook.'',
      ''git_dir=$(git rev-parse --absolute-git-dir 2>/dev/null) || exit 0'',
      ''repo_hook=\"$git_dir/hooks/'' @ hook_name @ ''\"'',
      [CHR 0x5B] @ '' -x \"$repo_hook\" ] || exit 0'',
      [CHR 0x5B] @ '' \"$repo_hook\" != \"$0\" ] || exit 0'',
      ''exec \"$repo_hook\" \"$@\"'', []]"

definition hook_content :: "string \<Rightarrow> string" where
  "hook_content name = (if name = ''commit-msg'' then COMMIT_MSG_HOOK else delegating_hook name)"

section \<open>Contexts and DIDs\<close>

record did_record =
  dr_did :: string
  dr_context_id :: string

definition in_subtree :: "string \<Rightarrow> string \<Rightarrow> bool" where
  "in_subtree root context \<longleftrightarrow> context = root
     \<or> (case strip_prefix root context of None \<Rightarrow> False | Some rest \<Rightarrow> starts_with ''/'' rest)"

definition dids_in_subtree :: "did_record list \<Rightarrow> string \<Rightarrow> did_record list" where
  "dids_in_subtree dids root =
     sort_key (\<lambda>d. (dr_context_id d, dr_did d)) (filter (\<lambda>d. in_subtree root (dr_context_id d)) dids)"

definition did_count :: "nat \<Rightarrow> string" where
  "did_count n = (if n = 0 then ''no DIDs'' else if n = 1 then ''1 DID'' else show_nat n @ '' DIDs'')"

definition dash :: string where
  "dash = '' '' @ [CHR 0xE2, CHR 0x80, CHR 0x94] @ '' ''"

definition context_label :: "string \<Rightarrow> string \<Rightarrow> nat \<Rightarrow> string option \<Rightarrow> string" where
  "context_label i name n primary =
     i @ dash @ name @ '' ('' @ did_count n @ '')''
     @ (case primary of None \<Rightarrow> [] | Some p \<Rightarrow> '' '' @ [CHR 0xC2, CHR 0xB7] @ '' primary '' @ p)"

definition CREATE_DID_DEFAULT :: bool where
  "CREATE_DID_DEFAULT \<longleftrightarrow> False"

definition no_did_prompt :: "string \<Rightarrow> string" where
  "no_did_prompt context = ''No DID found in '' @ context
     @ '' or its sub-contexts. A new DID has no git rights in any community until granted. Create one?''"

definition no_did_guidance :: "string \<Rightarrow> string" where
  "no_did_guidance context =
     ''no DID found in context '' @ quoted context @ '' or its sub-contexts.'' @ [newline, newline]
     @ ''If your persona was created elsewhere (openvtc keeps each persona in a sub-context of the account context), ''
     @ ''run `did-git-sign init` again with --context pointing at the context that holds it.'' @ [newline]
     @ ''To create a DID for signing instead:'' @ [newline]
     @ ''  pnm did-mgmt dids create --context '' @ context @ '' --server <id>'' @ [newline]
     @ ''A new DID has no git rights in any community until one grants them.''"

text \<open>\<open>ask\<close> puts the question, with the answer taken when the operator only presses Enter.\<close>

definition confirm_create_did :: "string \<Rightarrow> bool \<Rightarrow> (string \<Rightarrow> bool \<Rightarrow> failure + bool) \<Rightarrow> failure + unit" where
  "confirm_create_did context yes ask =
     (if yes then Inl [no_did_guidance context @ [newline] @ ''(--yes never creates a DID.)'']
      else (case ask (no_did_prompt context) CREATE_DID_DEFAULT of
          Inl e \<Rightarrow> Inl e
        | Inr True \<Rightarrow> Inr ()
        | Inr False \<Rightarrow> Inl [no_did_guidance context]))"

section \<open>Keys\<close>

record key_record =
  kr_key_id :: string
  kr_ed25519 :: bool
  kr_public_key :: string

text \<open>One page of a listing, and where the next one starts; \<open>page\<close> asks the VTA for it, by the cursor.\<close>

type_synonym key_page = "key_record list \<times> string option"

partial_function (option) list_active_keys ::
    "(string option \<Rightarrow> string + key_page) \<Rightarrow> string \<Rightarrow> string option \<Rightarrow> key_record list
       \<Rightarrow> (failure + key_record list) option" where
  "list_active_keys page context cursor ks =
     (case page cursor of
        Inl e \<Rightarrow> Some (Inl [''failed to list keys in '' @ quoted context @ '': '' @ e])
      | Inr (got, next) \<Rightarrow>
          (case next of
             Some c \<Rightarrow> if got \<noteq> [] then list_active_keys page context (Some c) (ks @ got) else Some (Inr (ks @ got))
           | None \<Rightarrow> Some (Inr (ks @ got))))"

text \<open>The document of the last entry of a DID's log; \<open>parse\<close> is the JSON parser.\<close>

definition current_did_document :: "(string \<Rightarrow> json option) \<Rightarrow> string \<Rightarrow> string \<Rightarrow> failure + json" where
  "current_did_document parse did log =
     (case find (\<lambda>l. trim l \<noteq> []) (rev (lines log)) of
        None \<Rightarrow> Inl [''the log of '' @ did @ '' is empty'']
      | Some l \<Rightarrow>
          (case parse l of
             None \<Rightarrow> Inl [''the last log entry of '' @ did @ '' is not JSON'']
           | Some entry \<Rightarrow>
               (case jget ''state'' entry of
                  None \<Rightarrow> Inl [''the last log entry of '' @ did @ '' has no state'']
                | Some state \<Rightarrow> Inr state)))"

text \<open>The check of a local log reads its first line.\<close>

definition check_key_in_did_log ::
    "(string \<Rightarrow> bytes option) \<Rightarrow> (string \<Rightarrow> json option) \<Rightarrow> string \<Rightarrow> bytes \<Rightarrow> failure + bool" where
  "check_key_in_did_log decode parse content local_key =
     (case lines content of
        [] \<Rightarrow> Inl [''empty did.jsonl'']
      | l # _ \<Rightarrow>
          (case parse l of
             None \<Rightarrow> Inl [''invalid JSON in did.jsonl'']
           | Some entry \<Rightarrow>
               (case jget ''state'' entry of
                  None \<Rightarrow> Inl [''no '' @ quoted ''state'' @ '' field in did.jsonl entry'']
                | Some state \<Rightarrow>
                    (let published = ed25519_signing_keys_from_doc decode state
                     in if published = [] then Inl [''DID document lists no Ed25519 key under assertionMethod'']
                        else Inr (local_key \<in> set published)))))"

definition ed25519_raw :: "(string \<Rightarrow> bytes option) \<Rightarrow> string \<Rightarrow> bytes option" where
  "ed25519_raw decode multibase_key =
     (case decode multibase_key of
        None \<Rightarrow> None
      | Some bs \<Rightarrow>
          (let raw = (case strip_prefix ED25519_MULTICODEC_PREFIX bs of Some r \<Rightarrow> r | None \<Rightarrow> bs)
           in if length raw = 32 then Some raw else None))"

definition json_id :: "json \<Rightarrow> string option" where
  "json_id m = Option.bind (jget ''id'' m) as_str_json"

fun method_of_entry :: "string \<Rightarrow> json list \<Rightarrow> json \<Rightarrow> json option" where
  "method_of_entry did methods (JString reference) =
     find (\<lambda>m. case json_id m of None \<Rightarrow> False | Some i \<Rightarrow> absolute_id did i = absolute_id did reference) methods"
| "method_of_entry did methods embedded = Some embedded"

text \<open>The key and id one entry publishes, where the document authorises the key.\<close>

definition published_by ::
    "(string \<Rightarrow> bytes option) \<Rightarrow> json \<Rightarrow> json \<Rightarrow> (bytes \<times> string) option" where
  "published_by decode doc entry =
     (let did = did_of_doc doc
      in case method_of_entry did (elements (jget ''verificationMethod'' doc)) entry of
           None \<Rightarrow> None
         | Some m \<Rightarrow>
             (case (json_id m, Option.bind (Option.bind (jget ''publicKeyMultibase'' m) as_str_json) (ed25519_raw decode)) of
                (Some i, Some raw) \<Rightarrow>
                  if raw \<in> set (ed25519_signing_keys_from_doc decode doc) then Some (raw, absolute_id did i) else None
              | _ \<Rightarrow> None))"

definition published_keys :: "(string \<Rightarrow> bytes option) \<Rightarrow> json \<Rightarrow> (bytes \<times> string) list" where
  "published_keys decode doc =
     foldl (\<lambda>ps entry. case published_by decode doc entry of
              None \<Rightarrow> ps
            | Some (raw, i) \<Rightarrow> if raw \<in> fst ` set ps then ps else ps @ [(raw, i)])
       [] (elements (jget ''assertionMethod'' doc))"

definition signing_keys_of_did ::
    "(string \<Rightarrow> bytes option) \<Rightarrow> key_record list \<Rightarrow> json \<Rightarrow> (key_record \<times> string) list" where
  "signing_keys_of_did decode ks doc =
     List.map_filter (\<lambda>k.
       if \<not> kr_ed25519 k then None
       else Option.bind (ed25519_raw decode (kr_public_key k)) (\<lambda>raw.
         map_option (\<lambda>p. (k, snd p)) (find (\<lambda>p. fst p = raw) (published_keys decode doc)))) ks"

section \<open>The identity a DID signs as\<close>

datatype signing_identity = AsWebvh | AsScid string string

definition identity_key_id :: "signing_identity \<Rightarrow> string \<Rightarrow> string" where
  "identity_key_id s vm =
     (case s of
        AsWebvh \<Rightarrow> vm
      | AsScid webvh scid_url \<Rightarrow>
          (case Option.bind (strip_prefix webvh vm) (strip_prefix ''#'') of
             Some fragment \<Rightarrow> scid_url @ ''#'' @ fragment
           | None \<Rightarrow> vm))"

datatype did_method = MethodWebvh | MethodScid

text \<open>The did:scid forms of a did:webvh, a DID's scid identity, and the did:webvh a did:scid names.\<close>

record did_forms =
  df_scid_forms :: "string \<Rightarrow> (string \<times> string) option"
  df_identity :: "string \<Rightarrow> string"
  df_webvh_did :: "string \<Rightarrow> string option"

definition signing_identity_of ::
    "did_forms \<Rightarrow> string \<Rightarrow> json \<Rightarrow> string option \<Rightarrow> did_method option \<Rightarrow> failure + signing_identity" where
  "signing_identity_of df webvh doc primary method =
     (case df_scid_forms df webvh of
        None \<Rightarrow>
          if method = Some MethodScid
          then Inl [webvh @ '' is not a did:webvh, so it has no did:scid identity to sign as'']
          else Inr AsWebvh
      | Some (bare, scid_url) \<Rightarrow>
          (let presented = (case primary of None \<Rightarrow> False | Some p \<Rightarrow>
                 df_identity df p = bare \<and> (case df_webvh_did df p of None \<Rightarrow> True | Some log \<Rightarrow> log = webvh));
               wants = (case method of Some MethodScid \<Rightarrow> True | Some _ \<Rightarrow> False | None \<Rightarrow> presented)
           in if \<not> wants then Inr AsWebvh
              else if \<not> list_ex (\<lambda>a. case as_str_json a of None \<Rightarrow> False | Some a \<Rightarrow> df_identity df a = bare)
                        (elements (jget ''alsoKnownAs'' doc))
              then Inl [webvh @ '' does not list its did:scid identity '' @ bare @ '' in alsoKnownAs, so it cannot ''
                @ ''sign as it; publish the alias first, or sign as the did:webvh (--did-method webvh)'']
              else Inr (AsScid webvh scid_url)))"

section \<open>Facts\<close>

text \<open>A context lies in a subtree exactly when its segments begin with the root's.\<close>

lemma in_subtree_iff: "in_subtree root context \<longleftrightarrow> (\<exists>rest. context = root \<or> context = root @ ''/'' @ rest)"
  by (auto simp: in_subtree_def text_simps starts_with_prefix prefix_def split: option.splits)

lemma set_published:
  assumes "(raw, i) \<in> set (published_keys decode doc)"
  shows "\<exists>entry\<in>set (elements (jget ''assertionMethod'' doc)). published_by decode doc entry = Some (raw, i)"
proof -
  obtain P where P: "P = published_by decode doc" by simp
  have "(raw, i) \<in> set (foldl (\<lambda>ps entry. case P entry of None \<Rightarrow> ps
      | Some (raw, i) \<Rightarrow> if raw \<in> fst ` set ps then ps else ps @ [(raw, i)]) ps es) \<Longrightarrow>
      (raw, i) \<in> set ps \<or> (\<exists>entry\<in>set es. P entry = Some (raw, i))" for ps es
  proof (induction es arbitrary: ps)
    case (Cons e es)
    then show ?case
      by (cases "P e") (fastforce split: prod.splits if_splits)+
  qed simp
  from this [of "[]" "elements (jget ''assertionMethod'' doc)"] assms show ?thesis
    by (auto simp: published_keys_def P)
qed

lemma method_of_entry_asserted:
  assumes "entry \<in> set (elements (jget ''assertionMethod'' doc))"
    and "method_of_entry (did_of_doc doc) (elements (jget ''verificationMethod'' doc)) entry = Some m"
  shows "asserted_method doc m"
proof (cases "\<exists>reference. entry = JString reference")
  case True
  then obtain reference where r: "entry = JString reference" by blast
  with assms(2) have f: "find (\<lambda>m. case json_id m of None \<Rightarrow> False
      | Some i \<Rightarrow> absolute_id (did_of_doc doc) i = absolute_id (did_of_doc doc) reference)
      (elements (jget ''verificationMethod'' doc)) = Some m" by simp
  from find_SomeD [OF f] r assms(1) show ?thesis
    unfolding asserted_method_def by (auto simp: json_id_def Option.bind_eq_Some_conv split: option.splits)
next
  case False
  with assms(2) have "m = entry" by (cases entry) auto
  with assms(1) False show ?thesis unfolding asserted_method_def by auto
qed

text \<open>C26: Every key that set-up offers for a DID is one its commits can be verified with: an Ed25519 key of the
  listing whose raw bytes are among the signing keys the verifier extracts from the DID's document,
  under the id of a method that the document lists under \<open>assertionMethod\<close> and that publishes them.\<close>

theorem offered_keys_verify:
  assumes "(k, i) \<in> set (signing_keys_of_did decode ks doc)"
  shows "k \<in> set ks \<and> kr_ed25519 k
     \<and> (\<exists>raw m j s. ed25519_raw decode (kr_public_key k) = Some raw
          \<and> raw \<in> set (ed25519_signing_keys_from_doc decode doc) \<and> asserted_method doc m
          \<and> jget ''id'' m = Some (JString j) \<and> i = absolute_id (did_of_doc doc) j
          \<and> jget ''publicKeyMultibase'' m = Some (JString s) \<and> ed25519_raw decode s = Some raw)"
proof -
  from assms obtain raw where k: "k \<in> set ks" "kr_ed25519 k" "ed25519_raw decode (kr_public_key k) = Some raw"
    and p: "(raw, i) \<in> set (published_keys decode doc)"
    unfolding signing_keys_of_did_def
    by (fastforce dest!: find_SomeD simp: set_map_filter Option.bind_eq_Some_conv split: if_splits)
  from set_published [OF p] obtain entry where e: "entry \<in> set (elements (jget ''assertionMethod'' doc))"
    "published_by decode doc entry = Some (raw, i)" by blast
  then obtain m where m: "method_of_entry (did_of_doc doc) (elements (jget ''verificationMethod'' doc)) entry = Some m"
    by (auto simp: published_by_def Let_def split: option.splits)
  with e(2) obtain j s where "json_id m = Some j" "i = absolute_id (did_of_doc doc) j"
    "Option.bind (jget ''publicKeyMultibase'' m) as_str_json = Some s" "ed25519_raw decode s = Some raw"
    "raw \<in> set (ed25519_signing_keys_from_doc decode doc)"
    by (auto simp: published_by_def Let_def Option.bind_eq_Some_conv split: option.splits if_splits)
  with k method_of_entry_asserted [OF e(1) m] show ?thesis
    by (auto simp: json_id_def Option.bind_eq_Some_conv)
qed

definition sample_key :: key_record where
  "sample_key = \<lparr>kr_key_id = ''k'', kr_ed25519 = True, kr_public_key = ''z1''\<rparr>"

lemma sample_doc_offers: "signing_keys_of_did sample_decode [sample_key] sample_doc = [(sample_key, ''did:x#0'')]"
proof -
  have raw: "ed25519_raw sample_decode ''z1'' = Some (replicate 32 7)" by code_simp
  have keys: "ed25519_signing_keys_from_doc sample_decode sample_doc = [replicate 32 7]"
    by (simp add: ed25519_signing_keys_from_doc_def sample_doc_keys)
  have asserted: "elements (jget ''assertionMethod'' sample_doc) = [JString ''did:x#0'']" by code_simp
  obtain m where m: "m = JObject [(''id'', JString ''#0''), (''controller'', JString ''did:x''),
    (''publicKeyMultibase'', JString ''z1'')]" by simp
  have entry: "method_of_entry (did_of_doc sample_doc) (elements (jget ''verificationMethod'' sample_doc))
      (JString ''did:x#0'') = Some m"
    unfolding m by code_simp
  have id: "json_id m = Some ''#0''" and mb: "Option.bind (jget ''publicKeyMultibase'' m) as_str_json = Some ''z1''"
    unfolding m by code_simp+
  have abs: "absolute_id (did_of_doc sample_doc) ''#0'' = ''did:x#0''" by code_simp
  have "published_by sample_decode sample_doc (JString ''did:x#0'') = Some (replicate 32 7, ''did:x#0'')"
    by (simp only: published_by_def Let_def entry option.case id mb bind.bind_lunit raw keys abs prod.case list.set)
      simp
  then have "published_keys sample_decode sample_doc = [(replicate 32 7, ''did:x#0'')]"
    by (simp only: published_keys_def asserted) simp
  then show ?thesis
    by (simp only: signing_keys_of_did_def) (simp add: sample_key_def raw List.map_filter_def)
qed

lemma offered_keys_verify_witness:
  "\<exists>raw. ed25519_raw sample_decode ''z1'' = Some raw \<and> raw \<in> set (ed25519_signing_keys_from_doc sample_decode sample_doc)"
proof -
  have "(sample_key, ''did:x#0'') \<in> set (signing_keys_of_did sample_decode [sample_key] sample_doc)"
    unfolding sample_doc_offers by simp
  from offered_keys_verify [OF this] have "\<exists>raw. ed25519_raw sample_decode (kr_public_key sample_key) = Some raw
      \<and> raw \<in> set (ed25519_signing_keys_from_doc sample_decode sample_doc)" by blast
  moreover have "kr_public_key sample_key = ''z1''" by (simp add: sample_key_def)
  ultimately show ?thesis by simp
qed

end
