(* ===== verification/Signer_Install.thy ===== *)
theory Signer_Install
  imports Signer_Run Signer_Setup
begin

text \<open>
  Installing, enabling and removing an identity, \<^verbatim>\<open>crates/did-git-sign/src/init.rs\<close> (\<open>install\<close>,
  \<open>add_identity\<close>, \<open>uninstall\<close>), the commands of \<^verbatim>\<open>main.rs\<close> over \<^verbatim>\<open>enable.rs\<close>, and the credential store a
  process selects, \<^verbatim>\<open>store.rs\<close>. The files, the credential store and the profiles are further
  operations of the outside; every command given to git stays in the log.
\<close>

section \<open>The credential store\<close>

definition OVERRIDE_ENV :: string where
  "OVERRIDE_ENV = ''OPENVTC_SECURE_STORE''"

datatype store_selection = PlatformStore | KernelKeyring

datatype target_os = Linux | MacOs | Windows | OtherOs

definition parse_override :: "target_os \<Rightarrow> string \<Rightarrow> string + store_selection" where
  "parse_override os raw =
     (if raw = [] then Inr PlatformStore
      else if raw = ''keyutils'' then
        (if os = Linux then Inr KernelKeyring
         else Inl (OVERRIDE_ENV @ ''=keyutils selects the Linux kernel keyring, which this platform does not have. Unset ''
           @ OVERRIDE_ENV @ '' to use the OS credential store.''))
      else if raw = ''file'' then
        Inl (OVERRIDE_ENV @ ''=file selects OpenVTC's encrypted file store, which did-git-sign cannot read (it ''
          @ ''belongs to openvtc-core and holds only passphrase-encrypted profile data, so OpenVTC does not keep ''
          @ ''the signing credential there either). Unset '' @ OVERRIDE_ENV @ '' for did-git-sign to use the OS ''
          @ ''credential store, or set '' @ OVERRIDE_ENV @ ''=keyutils on Linux for the kernel keyring (lost on reboot).'')
      else Inl (''unknown '' @ OVERRIDE_ENV @ ''='' @ raw @ ''. Leave it unset to use the OS credential store (the ''
        @ ''same one OpenVTC uses).''))"

definition platform_name :: "target_os \<Rightarrow> string" where
  "platform_name os =
     (case os of
        Linux \<Rightarrow> ''Secret Service (DBus)''
      | MacOs \<Rightarrow> ''macOS Keychain''
      | Windows \<Rightarrow> ''Windows Credential Manager''
      | OtherOs \<Rightarrow> ''OS credential store'')"

definition describe_store :: "target_os \<Rightarrow> store_selection \<Rightarrow> string" where
  "describe_store os s =
     (case s of KernelKeyring \<Rightarrow> ''Linux kernel keyring (keyutils)'' | PlatformStore \<Rightarrow> platform_name os)"

text \<open>\<open>vendor\<close> is that of the store the host registered.\<close>

definition describe_active :: "target_os \<Rightarrow> store_selection option \<Rightarrow> string option \<Rightarrow> string" where
  "describe_active os selected vendor =
     (case selected of
        Some s \<Rightarrow> describe_store os s
      | None \<Rightarrow> (case vendor of Some v \<Rightarrow> v | None \<Rightarrow> ''OS credential store (none registered)''))"

datatype legacy_lookup = LegacyAbsent | LegacyMigrated string | LegacyNotCopied string string

text \<open>\<open>legacy\<close> reads the old store, \<open>copy\<close> writes the new one.\<close>

definition copy_from_legacy ::
    "('f, keyring_read) state \<Rightarrow> (string \<Rightarrow> ('f, string + unit) state) \<Rightarrow> ('f, string + legacy_lookup) state" where
  "copy_from_legacy legacy copy = do {
     r \<leftarrow> legacy;
     case r of
       NoEntry \<Rightarrow> return (Inr LegacyAbsent)
     | KeyringFailed e \<Rightarrow> return (Inl e)
     | Stored v \<Rightarrow> do {
         c \<leftarrow> copy v;
         return (Inr (case c of Inr _ \<Rightarrow> LegacyMigrated v | Inl e \<Rightarrow> LegacyNotCopied v e))
       }
   }"

text \<open>The kernel keyring is there (\<open>opened\<close>) on Linux only.\<close>

definition recover_legacy ::
    "store_selection option \<Rightarrow> target_os \<Rightarrow> bool \<Rightarrow> ('f, keyring_read) state \<Rightarrow> (string \<Rightarrow> ('f, string + unit) state)
       \<Rightarrow> ('f, string option) state" where
  "recover_legacy selected os opened legacy copy =
     (if selected \<noteq> Some PlatformStore \<or> os \<noteq> Linux \<or> \<not> opened then return None
      else do {
        r \<leftarrow> copy_from_legacy legacy copy;
        return (case r of
            Inr (LegacyMigrated v) \<Rightarrow> Some v
          | Inr (LegacyNotCopied v _) \<Rightarrow> Some v
          | _ \<Rightarrow> None)
      })"

section \<open>The outside of set-up\<close>

text \<open>How a credential's removal ended; \<open>BadEntry\<close> where it could not even be named.\<close>

datatype credential_removal = Removed | NoCredential | RemovalFailed string | BadEntry

record 'f setup_ops =
  su_io :: "'f include_ops"
  su_there :: "string \<Rightarrow> ('f, bool) state"
  su_load_config :: "string \<Rightarrow> ('f, failure + signing_config) state"
  su_save_config :: "string \<Rightarrow> signing_config \<Rightarrow> ('f, failure + unit) state"
  su_profiles :: "('f, failure + profiles) state"
  su_store_credentials :: "string \<Rightarrow> vta_credentials \<Rightarrow> ('f, failure + unit) state"
  su_load_credentials :: "string \<Rightarrow> ('f, failure + unit) state"
  su_delete_credential :: "string \<Rightarrow> ('f, credential_removal) state"
  su_remove_legacy :: "string \<Rightarrow> ('f, bool) state"
  su_read :: "string \<Rightarrow> ('f, string + string) state"
  su_write_atomic :: "string \<Rightarrow> string \<Rightarrow> ('f, failure + unit) state"
  su_list_dir :: "string \<Rightarrow> ('f, string list option) state"
  su_remove_file :: "string \<Rightarrow> ('f, string + unit) state"
  su_make_executable :: "string \<Rightarrow> ('f, string + unit) state"
  su_current_dir :: "string option"
  su_b64 :: "bytes \<Rightarrow> string"

definition repo_local_path :: string where
  "repo_local_path = ''.did-git-sign.json''"

section \<open>Enabling, by profile\<close>

definition include_for :: "'f setup_ops \<Rightarrow> string option \<Rightarrow> ('f, failure + (string \<times> string)) include_io" where
  "include_for su p = ok_then (aside (su_profiles su)) (\<lambda>ps.
     ok_value (include_path (su_io su) DEFAULT_NAME) (\<lambda>default_path. do {
       default_there \<leftarrow> (if p = None then aside (su_there su default_path) else return False);
       ok_value (include_name_for ps default_there p) (\<lambda>name.
         ok_value (include_path (su_io su) name) (\<lambda>path. do {
           exists \<leftarrow> aside (su_there su path);
           if \<not> exists
           then return (Inl [''no signing settings for '' @ quoted name @ '' at '' @ path
             @ ''; run `did-git-sign init --profile '' @ name @ '' '' @ [CHR 0xE2, CHR 0x80, CHR 0xA6]
             @ ''` again (installs before 0.14 did not write them)''])
           else do {
             identity \<leftarrow> include_identity (su_io su) path;
             case identity of
               None \<Rightarrow> return (Inr (name, path))
             | Some did \<Rightarrow> do {
                 creds \<leftarrow> aside (su_load_credentials su did);
                 return (case creds of
                     Inr _ \<Rightarrow> Inr (name, path)
                   | Inl e \<Rightarrow> Inl [quoted name @ '' ('' @ did @ '') cannot sign: '' @ join '': '' e
                       @ ''. Run `did-git-sign init --profile '' @ name @ '' '' @ [CHR 0xE2, CHR 0x80, CHR 0xA6] @ ''` again''])
               }
           }
         }))
     }))"

definition cmd_enable :: "'f setup_ops \<Rightarrow> string option \<Rightarrow> string option \<Rightarrow> ('f, failure + unit) include_io" where
  "cmd_enable su p dir = ok_then (include_for su p) (\<lambda>(name, incl). do {
     _ \<leftarrow> include_identity (su_io su) incl;
     case dir of
       Some d \<Rightarrow> ok_then (enable_dir (su_io su) d incl) (\<lambda>_. return (Inr ()))
     | None \<Rightarrow> enable_repo (su_io su) incl
   })"

definition cmd_disable :: "'f setup_ops \<Rightarrow> string option \<Rightarrow> ('f, failure + bool) include_io" where
  "cmd_disable su dir =
     (case dir of
        Some d \<Rightarrow> disable_dir (su_io su) d
      | None \<Rightarrow> disable_repo (su_io su))"

definition cmd_use :: "'f setup_ops \<Rightarrow> string \<Rightarrow> bool \<Rightarrow> ('f, failure + unit) include_io" where
  "cmd_use su name global =
     (if global
      then return (Inl [''`use --global` is gone: did-git-sign no longer writes your global git config. Sign as ''
        @ quoted name @ '' in every repository under a directory with'' @ [newline] @ ''  did-git-sign enable --profile ''
        @ name @ '' --dir <directory>''])
      else cmd_enable su (Some name) None)"

section \<open>Installing\<close>

record install_args =
  ia_did_key_id :: string
  ia_credentials :: vta_credentials
  ia_user_name :: "string option"
  ia_verifying_key :: bytes

definition append_signer :: "'f setup_ops \<Rightarrow> string \<Rightarrow> ('f, failure + unit) include_io" where
  "append_signer su entry =
     ok_value (data_dir (su_io su)) (\<lambda>dir. ok_value (allowed_signers_path (su_io su)) (\<lambda>path. do {
       d \<leftarrow> aside (io_create_dir (su_io su) dir);
       case d of
         Inl e \<Rightarrow> return (Inl [''failed to create '' @ dir, e])
       | Inr _ \<Rightarrow> do {
           r \<leftarrow> aside (su_read su path);
           let existing = (case r of Inr text \<Rightarrow> text | Inl _ \<Rightarrow> []);
           if contains_sub entry existing then return (Inr ())
           else aside (su_write_atomic su path (append_allowed_signer entry existing))
         }
     }))"

text \<open>A hook that is there is written over only if did-git-sign installed it.\<close>

definition write_executable_hook :: "'f setup_ops \<Rightarrow> string \<Rightarrow> string \<Rightarrow> ('f, failure + unit) include_io" where
  "write_executable_hook su path content = do {
     exists \<leftarrow> aside (su_there su path);
     existing \<leftarrow> (if exists then aside (su_read su path) else return (Inr []));
     if exists \<and> \<not> contains_sub HOOK_OWNER_MARKER (case existing of Inr text \<Rightarrow> text | Inl _ \<Rightarrow> [])
     then return (Inl [''hook already exists at '' @ path @ ''; merge manually''])
     else do {
       w \<leftarrow> aside (io_write (su_io su) path content);
       case w of
         Inl e \<Rightarrow> return (Inl [e])
       | Inr _ \<Rightarrow> do {
           m \<leftarrow> aside (su_make_executable su path);
           return (case m of Inl e \<Rightarrow> Inl [e] | Inr _ \<Rightarrow> Inr ())
         }
     }
   }"

fun install_each :: "'f setup_ops \<Rightarrow> string \<Rightarrow> string list \<Rightarrow> ('f, failure + unit) include_io" where
  "install_each su dir [] = return (Inr ())"
| "install_each su dir (n # ns) =
     ok_then (write_executable_hook su (join_path dir n) (hook_content n)) (\<lambda>_. install_each su dir ns)"

definition install_hooks :: "'f setup_ops \<Rightarrow> ('f, failure + unit) include_io" where
  "install_hooks su = ok_value (hooks_dir (su_io su)) (\<lambda>dir. do {
     d \<leftarrow> aside (io_create_dir (su_io su) dir);
     case d of
       Inl e \<Rightarrow> return (Inl [''failed to create '' @ dir, e])
     | Inr _ \<Rightarrow> install_each su dir STANDARD_GIT_HOOKS
   })"

definition store_identity :: "'f setup_ops \<Rightarrow> install_args \<Rightarrow> ('f, failure + string) include_io" where
  "store_identity su ia =
     ok_then (aside (su_store_credentials su (ia_did_key_id ia) (ia_credentials ia))) (\<lambda>_.
     ok_then (append_signer su (allowed_signers_entry (su_b64 su) (ia_did_key_id ia) (ia_verifying_key ia))) (\<lambda>_.
     ok_then (install_hooks su) (\<lambda>_.
       return (Inr (ssh_public_key_string (su_b64 su) (ia_verifying_key ia))))))"

definition add_identity :: "'f setup_ops \<Rightarrow> install_args \<Rightarrow> ('f, failure + string) include_io" where
  "add_identity su ia = store_identity su ia"

text \<open>The path of the configuration and the key line.\<close>

definition install_signer :: "'f setup_ops \<Rightarrow> install_args \<Rightarrow> ('f, failure + (string \<times> string)) include_io" where
  "install_signer su ia =
     ok_value (default_global_path (su_io su)) (\<lambda>config_path.
     ok_then (aside (su_save_config su config_path \<lparr>sc_did_key_id = ia_did_key_id ia, sc_user_name = ia_user_name ia\<rparr>)) (\<lambda>_.
     ok_then (store_identity su ia) (\<lambda>ssh. return (Inr (config_path, ssh)))))"

section \<open>Removing an identity\<close>

record uninstall_result =
  ur_config_file :: "string option"
  ur_keyring :: "string list"
  ur_signers :: bool
  ur_unset :: "string list"
  ur_include_files :: "string list"
  ur_include_lines :: nat
  ur_warnings :: "string list"

definition nothing_removed :: uninstall_result where
  "nothing_removed = \<lparr>ur_config_file = None, ur_keyring = [], ur_signers = False, ur_unset = [],
     ur_include_files = [], ur_include_lines = 0, ur_warnings = []\<rparr>"

definition warn :: "string \<Rightarrow> uninstall_result \<Rightarrow> uninstall_result" where
  "warn text u = u\<lparr>ur_warnings := ur_warnings u @ [text]\<rparr>"

fun each_of :: "('a \<Rightarrow> 'b \<Rightarrow> ('s, 'b) state) \<Rightarrow> 'a list \<Rightarrow> 'b \<Rightarrow> ('s, 'b) state" where
  "each_of f [] u = return u"
| "each_of f (x # xs) u = do { u' \<leftarrow> f x u; each_of f xs u' }"

definition remove_config :: "'f setup_ops \<Rightarrow> string \<Rightarrow> string \<Rightarrow> uninstall_result \<Rightarrow> ('f, uninstall_result) include_io" where
  "remove_config su did_key_id path u = do {
     c \<leftarrow> aside (su_load_config su path);
     if (case c of Inr cfg \<Rightarrow> sc_did_key_id cfg = did_key_id | Inl _ \<Rightarrow> False)
     then do {
       r \<leftarrow> aside (su_remove_file su path);
       return (case r of
           Inr _ \<Rightarrow> u\<lparr>ur_config_file := Some path\<rparr>
         | Inl e \<Rightarrow> warn (''could not remove '' @ path @ '': '' @ e) u)
     }
     else return u
   }"

definition remove_credential :: "'f setup_ops \<Rightarrow> string \<Rightarrow> uninstall_result \<Rightarrow> ('f, uninstall_result) include_io" where
  "remove_credential su key u = do {
     r \<leftarrow> aside (su_delete_credential su key);
     let u = (case r of
         Removed \<Rightarrow> u\<lparr>ur_keyring := ur_keyring u @ [key]\<rparr>
       | RemovalFailed e \<Rightarrow> warn (''could not remove keyring entry '' @ quoted key @ '': '' @ e) u
       | _ \<Rightarrow> u);
     old \<leftarrow> aside (su_remove_legacy su key);
     return (if old \<and> key \<notin> set (ur_keyring u) then u\<lparr>ur_keyring := ur_keyring u @ [key]\<rparr> else u)
   }"

definition remove_signer :: "'f setup_ops \<Rightarrow> string \<Rightarrow> string \<Rightarrow> uninstall_result \<Rightarrow> ('f, uninstall_result) include_io" where
  "remove_signer su did_key_id path u = do {
     exists \<leftarrow> aside (su_there su path);
     if \<not> exists then return u
     else do {
       r \<leftarrow> aside (su_read su path);
       case r of
         Inl e \<Rightarrow> return (warn (''could not read '' @ path) u)
       | Inr content \<Rightarrow>
           (case remove_allowed_signer did_key_id content of
              None \<Rightarrow> return u
            | Some new \<Rightarrow> do {
                w \<leftarrow> aside (su_write_atomic su path new);
                return (case w of
                    Inr _ \<Rightarrow> u\<lparr>ur_signers := True\<rparr>
                  | Inl e \<Rightarrow> warn (''could not rewrite '' @ path) u)
              })
     }
   }"

definition remove_include :: "'f setup_ops \<Rightarrow> string \<Rightarrow> string \<Rightarrow> uninstall_result \<Rightarrow> ('f, uninstall_result) include_io" where
  "remove_include su did_key_id path u = do {
     who \<leftarrow> include_identity (su_io su) path;
     if who \<noteq> Some did_key_id then return u
     else do {
       n \<leftarrow> remove_references (su_io su) path;
       let u = u\<lparr>ur_include_lines := ur_include_lines u + n\<rparr>;
       r \<leftarrow> aside (su_remove_file su path);
       return (case r of
           Inr _ \<Rightarrow> u\<lparr>ur_include_files := ur_include_files u @ [path]\<rparr>
         | Inl e \<Rightarrow> warn (''could not remove '' @ path @ '': '' @ e) u)
     }
   }"

text \<open>The value of a setting, with its line ends cut off: missing is not an error. \<open>code\<close> reads how git exited.\<close>

definition without_line_end :: "string \<Rightarrow> string" where
  "without_line_end s = rev (dropWhile (\<lambda>c. c \<in> {CHR 0x0D, CHR 0x0A}) (rev s))"

definition config_get :: "'f include_ops \<Rightarrow> (git_ended \<Rightarrow> int option) \<Rightarrow> string \<Rightarrow> string
    \<Rightarrow> ('f, failure + string option) include_io" where
  "config_get io code scope key = do {
     r \<leftarrow> git_ran io [''config'', scope, ''--get'', key];
     return (case r of
         None \<Rightarrow> Inl [''failed to run git config'']
       | Some (success, out, err) \<Rightarrow>
           if success then Inr (Some (without_line_end (utf8_lossy out)))
           else if code r = Some 1 then Inr None
           else Inl [''git config '' @ scope @ '' --get '' @ key @ '' failed: '' @ utf8_lossy err])
   }"

definition config_unset :: "'f include_ops \<Rightarrow> string \<Rightarrow> string \<Rightarrow> ('f, bool) include_io" where
  "config_unset io scope key = do {
     r \<leftarrow> git_ran io [''config'', scope, ''--unset'', key];
     return (case r of None \<Rightarrow> False | Some (success, _) \<Rightarrow> success)
   }"

definition LEGACY_KEYS :: "string list" where
  "LEGACY_KEYS = [''user.signingKey'', ''gpg.ssh.program'', ''gpg.ssh.defaultKeyFile'',
     ''gpg.ssh.allowedSignersFile'', ''did-git-sign.key'']"

text \<open>\<open>Path::ends_with\<close>: by whole components.\<close>

definition path_ends_with :: "string \<Rightarrow> string \<Rightarrow> bool" where
  "path_ends_with tail p \<longleftrightarrow> ends_with (path_parts tail) (path_parts p)"

definition setting_is_ours ::
    "string \<Rightarrow> string \<Rightarrow> string \<Rightarrow> string option \<Rightarrow> string \<Rightarrow> string \<Rightarrow> bool" where
  "setting_is_ours did_key_id config_str signers_str legacy_local key setting \<longleftrightarrow>
     (let v = trim setting
      in if key = ''gpg.ssh.program'' then v = ''did-git-sign''
         else if key = ''did-git-sign.key'' then v = did_key_id
         else if key = ''user.signingKey'' \<or> key = ''gpg.ssh.defaultKeyFile''
         then v = config_str \<or> v = ''.did-git-sign.json'' \<or> (case legacy_local of None \<Rightarrow> False | Some p \<Rightarrow> same_path v p)
         else if key = ''gpg.ssh.allowedSignersFile''
         then v = signers_str \<or> path_ends_with ''did-git-sign/allowed_signers'' v
         else False)"

definition expected_hooks_dir :: "'f include_ops \<Rightarrow> bool \<Rightarrow> ('f, failure + string option) include_io" where
  "expected_hooks_dir io global =
     (if global
      then return (case io_config_dir io of
          None \<Rightarrow> Inl [''cannot determine config directory'']
        | Some d \<Rightarrow> Inr (Some (join_path (join_path d ''did-git-sign'') ''hooks'')))
      else do {
        r \<leftarrow> git_ran io [''rev-parse'', ''--absolute-git-dir''];
        return (case r of
            None \<Rightarrow> Inl [''failed to find .git directory'']
          | Some (success, out, _) \<Rightarrow>
              if success then Inr (Some (join_path (trim (utf8_lossy out)) ''did-git-sign-hooks'')) else Inr None)
      })"

definition unset_hooks_path ::
    "'f include_ops \<Rightarrow> (git_ended \<Rightarrow> int option) \<Rightarrow> string \<Rightarrow> bool \<Rightarrow> ('f, failure + bool) include_io" where
  "unset_hooks_path io code scope global = ok_then (expected_hooks_dir io global) (\<lambda>expected.
     case expected of
       None \<Rightarrow> return (Inr False)
     | Some e \<Rightarrow> ok_then (config_get io code scope ''core.hooksPath'') (\<lambda>configured.
         case configured of
           None \<Rightarrow> return (Inr False)
         | Some c \<Rightarrow>
             if same_path (trim c) e
             then do { b \<leftarrow> config_unset io scope ''core.hooksPath''; return (Inr b) }
             else return (Inr False)))"

definition unset_setting ::
    "'f include_ops \<Rightarrow> (git_ended \<Rightarrow> int option) \<Rightarrow> string \<Rightarrow> (string \<Rightarrow> string \<Rightarrow> bool) \<Rightarrow> string \<Rightarrow> uninstall_result
       \<Rightarrow> ('f, uninstall_result) include_io" where
  "unset_setting io code scope ours key u = do {
     r \<leftarrow> config_get io code scope key;
     case r of
       Inr (Some v) \<Rightarrow>
         if ours key v
         then do {
           b \<leftarrow> config_unset io scope key;
           return (if b then u\<lparr>ur_unset := ur_unset u @ [key]\<rparr> else u)
         }
         else return u
     | _ \<Rightarrow> return u
   }"

definition uninstall_settings ::
    "'f setup_ops \<Rightarrow> (git_ended \<Rightarrow> int option) \<Rightarrow> bool \<Rightarrow> string \<Rightarrow> string \<Rightarrow> string \<Rightarrow> uninstall_result
       \<Rightarrow> ('f, uninstall_result) include_io" where
  "uninstall_settings su code global did_key_id data_config data_signers u = do {
     let scope = (if global then ''--global'' else ''--local'');
     let ours = setting_is_ours did_key_id (utf8_lossy data_config) (utf8_lossy data_signers)
       (map_option (\<lambda>d. join_path d repo_local_path) (su_current_dir su));
     u \<leftarrow> each_of (unset_setting (su_io su) code scope ours) LEGACY_KEYS u;
     h \<leftarrow> unset_hooks_path (su_io su) code scope global;
     return (case h of
         Inr True \<Rightarrow> u\<lparr>ur_unset := ur_unset u @ [''core.hooksPath'']\<rparr>
       | Inr False \<Rightarrow> u
       | Inl e \<Rightarrow> warn (''could not inspect core.hooksPath: '' @ hd e) u)
   }"

definition uninstall ::
    "'f setup_ops \<Rightarrow> (git_ended \<Rightarrow> int option) \<Rightarrow> bool \<Rightarrow> string \<Rightarrow> ('f, failure + uninstall_result) include_io" where
  "uninstall su code global did_key_id =
     ok_value (default_global_path (su_io su)) (\<lambda>data_config.
     ok_value (allowed_signers_path (su_io su)) (\<lambda>data_signers. do {
       u \<leftarrow> each_of (remove_config su did_key_id)
         (data_config # (if global then [] else [repo_local_path])) nothing_removed;
       u \<leftarrow> each_of (remove_credential su) [did_key_id @ '':vta'', did_key_id @ '':token''] u;
       u \<leftarrow> each_of (remove_signer su did_key_id) (data_signers # (if global then [] else [''allowed_signers''])) u;
       u \<leftarrow> (case include_dir (su_io su) of
           Inl _ \<Rightarrow> return u
         | Inr dir \<Rightarrow> do {
             entries \<leftarrow> aside (su_list_dir su dir);
             case entries of None \<Rightarrow> return u | Some es \<Rightarrow> each_of (remove_include su did_key_id) es u
           });
       u \<leftarrow> uninstall_settings su code global did_key_id data_config data_signers u;
       return (Inr u)
     }))"

text \<open>Which install is removed, and as whom.\<close>

definition cmd_uninstall ::
    "'f setup_ops \<Rightarrow> (git_ended \<Rightarrow> int option) \<Rightarrow> bool \<Rightarrow> bool \<Rightarrow> string option \<Rightarrow> ('f, failure + uninstall_result) include_io" where
  "cmd_uninstall su code global_flag local_flag override = do {
     local_there \<leftarrow> (if global_flag \<or> local_flag then return False else aside (su_there su repo_local_path));
     let global = (global_flag \<or> \<not> (local_flag \<or> local_there));
     ok_value (if global then default_global_path (su_io su) else Inr repo_local_path) (\<lambda>config_path. do {
       who \<leftarrow> (case override of
           Some i \<Rightarrow> return (Inr i)
         | None \<Rightarrow> do {
             c \<leftarrow> aside (su_load_config su config_path);
             return (case c of
                 Inr cfg \<Rightarrow> Inr (sc_did_key_id cfg)
               | Inl e \<Rightarrow> Inl [''could not read '' @ config_path @ '' to discover the principal '' @ [CHR 0xE2, CHR 0x80, CHR 0x94]
                   @ '' pass --did-key-id explicitly: '' @ hd e])
           });
       ok_value who (uninstall su code global)
     })
   }"

section \<open>What uninstalling changes\<close>

text \<open>The include lines of an identity: removed by a pattern that matches the path of an include file that
  signs as it.\<close>

definition removes_reference :: "'f include_ops \<Rightarrow> string \<Rightarrow> string list \<Rightarrow> bool" where
  "removes_reference io did_key_id args \<longleftrightarrow> (\<exists>scope key pat v path. args = [''config'', scope, ''--unset-all'', key, pat]
     \<and> ere_matches_only pat = Some v \<and> same_path (expand_home io v) path
     \<and> git_answers io [''config'', ''-f'', path, ''--get'', ''did-git-sign.key''] (Some did_key_id))"

text \<open>The hook directories of did-git-sign.\<close>

definition own_hooks :: "'f include_ops \<Rightarrow> string \<Rightarrow> bool" where
  "own_hooks io d \<longleftrightarrow> (\<exists>c. io_config_dir io = Some c \<and> d = join_path (join_path c ''did-git-sign'') ''hooks'')
     \<or> (\<exists>f out err. fst (run_state (io_git io [''rev-parse'', ''--absolute-git-dir'']) f) = Some (True, out, err)
          \<and> d = join_path (trim (utf8_lossy out)) ''did-git-sign-hooks'')"

text \<open>What reading a setting tells of git's answer.\<close>

definition reads_as :: "'f include_ops \<Rightarrow> string \<Rightarrow> string \<Rightarrow> string \<Rightarrow> bool" where
  "reads_as io scope key v \<longleftrightarrow> (\<exists>f out err. v = without_line_end (utf8_lossy out)
     \<and> fst (run_state (io_git io [''config'', scope, ''--get'', key]) f) = Some (True, out, err))"

text \<open>A setting unset while git reads it as one that an install of this identity wrote.\<close>

definition unsets_own :: "'f include_ops \<Rightarrow> (string \<Rightarrow> string \<Rightarrow> bool) \<Rightarrow> string list \<Rightarrow> bool" where
  "unsets_own io ours args \<longleftrightarrow> (\<exists>scope key v. args = [''config'', scope, ''--unset'', key] \<and> reads_as io scope key v
     \<and> (ours key v \<or> key = ''core.hooksPath'' \<and> (\<exists>d. own_hooks io d \<and> same_path (trim v) d)))"

definition asks :: "string list \<Rightarrow> bool" where
  "asks args \<longleftrightarrow> question args \<or> args = [''rev-parse'', ''--absolute-git-dir'']
     \<or> (\<exists>path. args = [''config'', ''-f'', path, ''--get'', ''did-git-sign.key''])"

abbreviation each_run :: "(string list \<Rightarrow> bool) \<Rightarrow> ('f, 'a) include_io \<Rightarrow> bool" where
  "each_run P m \<equiv> logs iw_commands (\<lambda>_ cs. \<forall>c\<in>set cs. P c) m"

lemma each_aside: "each_run P (aside m)"
  by (auto simp: logs_def aside_def split: prod.splits)

lemma each_git_ran: "P args \<Longrightarrow> each_run P (git_ran io args)"
  by (rule logs_conseq [OF runs_git_ran]) simp

lemma each_git_out: "P args \<Longrightarrow> each_run P (git_out io args)"
  by (rule logs_conseq [OF runs_git_out]) simp

lemma each_git_do: "P args \<Longrightarrow> each_run P (git_do io args)"
  by (rule logs_conseq [OF runs_git_do]) simp

text \<open>The next step may rest on what the last one returned.\<close>

lemma each_bind:
  assumes "runs (\<lambda>x cs. (\<forall>c\<in>set cs. P c) \<and> S x) m" "\<And>x. S x \<Longrightarrow> each_run P (f x)"
  shows "each_run P (State_Monad.bind m f)"
proof (rule logs_bind [OF assms(1)], elim conjE)
  fix x cs assume cs: "\<forall>c\<in>set cs. P c" and "S x"
  show "runs (\<lambda>_ ds. \<forall>c\<in>set (cs @ ds). P c) (f x)"
    by (rule logs_conseq [OF assms(2) [OF \<open>S x\<close>]]) (use cs in auto)
qed

lemma each_ok_then:
  assumes "runs (\<lambda>r cs. (\<forall>c\<in>set cs. P c) \<and> S r) m" "\<And>x. S (Inr x) \<Longrightarrow> each_run P (f x)"
  shows "each_run P (ok_then m f)"
  unfolding ok_then_def by (rule each_bind [OF assms(1)]) (auto intro!: logs_return assms(2) split: sum.split)

lemma each_of_run: "(\<And>x u. each_run P (f x u)) \<Longrightarrow> each_run P (each_of f xs u)"
  by (induction xs arbitrary: u) (auto intro!: logs_all_bind logs_return)

lemmas each_rules = logs_all_bind logs_all_ok_then logs_sum logs_option logs_prod logs_if each_aside

lemma asks_question [simp]:
  "asks [''config'', scope, ''--get'', key]" "asks [''config'', scope, ''--get-all'', key]"
  "asks [''config'', scope, ''--get-regexp'', key]" "asks [''rev-parse'', ''--is-inside-work-tree'']"
  "asks [''rev-parse'', ''--absolute-git-dir'']" "asks [''config'', ''-f'', path, ''--get'', ''did-git-sign.key'']"
  by (auto simp: asks_def question_def)

definition own_command :: "'f include_ops \<Rightarrow> string \<Rightarrow> (string \<Rightarrow> string \<Rightarrow> bool) \<Rightarrow> string list \<Rightarrow> bool" where
  "own_command io did_key_id ours c \<longleftrightarrow> asks c \<or> removes_reference io did_key_id c \<or> unsets_own io ours c"

lemma own_command_asks: "asks c \<Longrightarrow> own_command io k ours c"
  by (simp add: own_command_def)

lemma own_command_reference:
  "git_answers io [''config'', ''-f'', path, ''--get'', ''did-git-sign.key''] (Some k) \<Longrightarrow>
     same_path (expand_home io (trim v)) path \<Longrightarrow>
     own_command io k ours [''config'', scope, ''--unset-all'', key, exact_pattern (trim v)]"
  unfolding own_command_def removes_reference_def by (metis exact_pattern_matches_only)

lemma each_remove_global:
  assumes "git_answers io [''config'', ''-f'', path, ''--get'', ''did-git-sign.key''] (Some k)"
  shows "each_run (own_command io k ours) (remove_global_each io path ls)"
  by (induction ls)
    (auto intro!: logs_return each_rules each_git_do own_command_reference [OF assms] split: option.splits prod.splits)

lemma each_remove_local:
  assumes "git_answers io [''config'', ''-f'', path, ''--get'', ''did-git-sign.key''] (Some k)"
  shows "each_run (own_command io k ours) (remove_local_each io path vs)"
  by (induction vs) (auto intro!: logs_return each_rules each_git_do own_command_reference [OF assms])

lemma each_remove_references:
  assumes "git_answers io [''config'', ''-f'', path, ''--get'', ''did-git-sign.key''] (Some k)"
  shows "each_run (own_command io k ours) (remove_references io path)"
  unfolding remove_references_def inside_work_tree_def
  by (auto intro!: logs_return each_rules each_git_out own_command_asks each_remove_global [OF assms] each_remove_local [OF assms])

lemma each_remove_include: "each_run (own_command (su_io su) k ours) (remove_include su k path u)"
proof -
  have "runs (\<lambda>v cs. (\<forall>c\<in>set cs. own_command (su_io su) k ours c)
      \<and> (v = Some k \<longrightarrow> git_answers (su_io su) [''config'', ''-f'', path, ''--get'', ''did-git-sign.key''] (Some k)))
      (include_identity (su_io su) path)"
    unfolding include_identity_def utf8_path_def
    by (auto intro!: logs_return logs_conseq [OF runs_git_out] own_command_asks)
  then show ?thesis
    unfolding remove_include_def
    by (rule each_bind) (auto simp: Let_def intro!: logs_return each_rules each_remove_references)
qed

lemma each_config_get:
  "P [''config'', scope, ''--get'', key] \<Longrightarrow>
     runs (\<lambda>r cs. (\<forall>c\<in>set cs. P c) \<and> (\<forall>v. r = Inr (Some v) \<longrightarrow> reads_as io scope key v)) (config_get io code scope key)"
  unfolding config_get_def reads_as_def
  by (rule logs_bind [OF runs_git_ran]) (auto intro!: logs_return split: option.splits prod.splits if_splits; metis)

lemma each_config_unset: "P [''config'', scope, ''--unset'', key] \<Longrightarrow> each_run P (config_unset io scope key)"
  unfolding config_unset_def by (intro logs_all_bind each_git_ran logs_return) auto

lemma own_command_unset:
  "reads_as io scope key v \<Longrightarrow> ours key v \<Longrightarrow> own_command io k ours [''config'', scope, ''--unset'', key]"
  "reads_as io scope ''core.hooksPath'' v \<Longrightarrow> own_hooks io d \<Longrightarrow> same_path (trim v) d \<Longrightarrow>
     own_command io k ours [''config'', scope, ''--unset'', ''core.hooksPath'']"
  unfolding own_command_def unsets_own_def by blast+

lemma each_unset_setting: "each_run (own_command io k ours) (unset_setting io code scope ours key u)"
  unfolding unset_setting_def
  by (rule each_bind [OF each_config_get], simp add: own_command_asks)
    (auto intro!: each_rules each_config_unset logs_return own_command_unset(1))

lemma runs_expected_hooks_dir:
  "runs (\<lambda>r cs. (\<forall>c\<in>set cs. own_command io k ours c) \<and> (\<forall>d. r = Inr (Some d) \<longrightarrow> own_hooks io d)) (expected_hooks_dir io global)"
proof (cases global)
  case True
  then show ?thesis
    unfolding expected_hooks_dir_def by (auto intro!: logs_return simp: own_hooks_def split: option.splits)
next
  case False
  show ?thesis
    unfolding expected_hooks_dir_def using False
    by (simp, intro logs_bind [OF runs_git_ran] logs_return)
      (auto simp: own_hooks_def own_command_asks split: option.splits prod.splits if_splits; metis)
qed

lemma each_unset_hooks_path: "each_run (own_command io k ours) (unset_hooks_path io code scope global)"
  unfolding unset_hooks_path_def
  by (rule each_ok_then [OF runs_expected_hooks_dir], rule logs_option, rule logs_return, simp,
      rule each_ok_then [OF each_config_get], simp add: own_command_asks)
    (auto intro!: each_rules each_config_unset logs_return own_command_unset(2))

lemma each_config_file: "each_run P (remove_config su k path u)"
  unfolding remove_config_def by (auto intro!: logs_return each_rules)

lemma each_credential: "each_run P (remove_credential su key u)"
  unfolding remove_credential_def Let_def by (auto intro!: logs_return each_rules)

lemma each_signer: "each_run P (remove_signer su k path u)"
  unfolding remove_signer_def by (auto intro!: logs_return each_rules)

text \<open>C28: Removing an identity touches nothing of anybody else's git configuration. Whatever git answers and
  whatever fails, every command that uninstalling an identity runs asks; or removes include lines by a
  pattern that matches the path of an include file that signs as the identity and no other value; or
  unsets a setting that git reads, at that moment, as a value an earlier install of this identity wrote.\<close>

theorem uninstalling_changes_only_its_own:
  assumes "run_state (uninstall su code global k) w = (r, w')"
  shows "\<exists>cs. iw_commands w' = iw_commands w @ cs
     \<and> (\<forall>c\<in>set cs. asks c \<or> removes_reference (su_io su) k c
          \<or> (\<exists>config signers. default_global_path (su_io su) = Inr config \<and> allowed_signers_path (su_io su) = Inr signers
               \<and> unsets_own (su_io su) (setting_is_ours k (utf8_lossy config) (utf8_lossy signers)
                   (map_option (\<lambda>d. join_path d repo_local_path) (su_current_dir su))) c))"
proof (cases "\<exists>config signers. default_global_path (su_io su) = Inr config \<and> allowed_signers_path (su_io su) = Inr signers")
  case True
  then obtain config signers where paths: "default_global_path (su_io su) = Inr config"
    "allowed_signers_path (su_io su) = Inr signers" by blast
  obtain ours where ours: "ours = setting_is_ours k (utf8_lossy config) (utf8_lossy signers)
    (map_option (\<lambda>d. join_path d repo_local_path) (su_current_dir su))" by simp
  have "each_run (own_command (su_io su) k ours) (uninstall su code global k)"
    unfolding uninstall_def uninstall_settings_def paths ok_value_def sum.case Let_def ours [symmetric]
    by (intro logs_all_bind each_of_run each_config_file each_credential each_signer each_remove_include
        each_unset_setting each_unset_hooks_path logs_sum logs_option logs_return each_aside) simp_all
  from logsD [OF this assms] show ?thesis
    unfolding own_command_def ours using paths by blast
next
  case False
  then have "each_run (\<lambda>_. False) (uninstall su code global k)"
    unfolding uninstall_def ok_value_def by (auto intro!: logs_return split: sum.split)
  from logsD [OF this assms] show ?thesis by fastforce
qed

text \<open>Everything is there and works; the repository's key setting names the identity.\<close>

definition sample_setup :: "unit setup_ops" where
  "sample_setup = \<lparr>su_io = sample_include\<lparr>io_git := (\<lambda>args. return (Some (True,
       (if args = [''config'', ''--global'', ''--get'', ''did-git-sign.key''] then ''did:a#0'' @ [newline] else []), [])))\<rparr>,
     su_there = (\<lambda>_. return True), su_load_config = (\<lambda>_. return (Inr \<lparr>sc_did_key_id = ''did:b#0'', sc_user_name = None\<rparr>)),
     su_save_config = (\<lambda>_ _. return (Inr ())), su_profiles = return (Inr []),
     su_store_credentials = (\<lambda>_ _. return (Inr ())), su_load_credentials = (\<lambda>_. return (Inr ())),
     su_delete_credential = (\<lambda>_. return Removed), su_remove_legacy = (\<lambda>_. return False),
     su_read = (\<lambda>_. return (Inr [])), su_write_atomic = (\<lambda>_ _. return (Inr ())), su_list_dir = (\<lambda>_. return None),
     su_remove_file = (\<lambda>_. return (Inr ())), su_make_executable = (\<lambda>_. return (Inr ())), su_current_dir = None,
     su_b64 = (\<lambda>_. [])\<rparr>"

lemma uninstalling_changes_only_its_own_witness:
  "\<exists>r w'. run_state (uninstall sample_setup (\<lambda>_. None) True ''did:a#0'') \<lparr>iw_outside = (), iw_commands = []\<rparr> = (r, w')
     \<and> (\<forall>c\<in>set (iw_commands w'). asks c \<or> removes_reference (su_io sample_setup) ''did:a#0'' c
          \<or> (\<exists>ours. unsets_own (su_io sample_setup) ours c))
     \<and> reads_as (su_io sample_setup) ''--global'' ''did-git-sign.key'' ''did:a#0''
     \<and> setting_is_ours ''did:a#0'' ''c'' ''s'' None ''did-git-sign.key'' ''did:a#0''"
proof -
  obtain r w' where run: "run_state (uninstall sample_setup (\<lambda>_. None) True ''did:a#0'') \<lparr>iw_outside = (), iw_commands = []\<rparr> =
       (r, w')" by (metis surj_pair)
  from uninstalling_changes_only_its_own [OF run] obtain cs where "iw_commands w' = cs"
    and cs: "\<forall>c\<in>set cs. asks c \<or> removes_reference (su_io sample_setup) ''did:a#0'' c
      \<or> (\<exists>ours. unsets_own (su_io sample_setup) ours c)"
    by (elim exE conjE, simp only: include_world.select_convs append_Nil) blast
  moreover have "reads_as (su_io sample_setup) ''--global'' ''did-git-sign.key'' ''did:a#0''"
  proof -
    have "''did:a#0'' = without_line_end (utf8_lossy (''did:a#0'' @ [newline]))" by code_simp
    moreover have "fst (run_state (io_git (su_io sample_setup) [''config'', ''--global'', ''--get'', ''did-git-sign.key'']) ())
        = Some (True, ''did:a#0'' @ [newline], [])" by (simp add: sample_setup_def)
    ultimately show ?thesis unfolding reads_as_def by blast
  qed
  moreover have "setting_is_ours ''did:a#0'' ''c'' ''s'' None ''did-git-sign.key'' ''did:a#0''" by code_simp
  ultimately show ?thesis using run by blast
qed

end
