(* ===== verification/Spec2Isabelle.thy ===== *)
theory Spec2Isabelle
  imports Main Forge_Resource CI_Resource Verify_Run Forge_Rights Forge_Drift Bootstrap Bridge_Mapping
    Bridge_Namespaces Bridge_Config Forge_Interface Bridge_Env Bridge_Status Bridge_Outbox Bridge_Detach
    Bridge_Finish Resign_Run Signer_Guard Signer_Install
begin

text \<open>
  A verification development of this repository's Rust crates.

  \<^bold>\<open>The program.\<close> Commits to a community's repositories are signed under DIDs; a Trust Registry
  says which DID may sign for which resource. \<open>verify-trust\<close> is the check CI runs: it reads a commit
  range, extracts the DID each commit claims, resolves the DIDs to keys, checks every signature,
  asks the registry, applies the platform-merge policy and exits 0 only when the whole range passes.
  \<open>vgi-core\<close> holds what signer and verifier share (the resource grammar, the commit object parser,
  the DID document rules, the signature format). \<open>vgi-forge\<close> is the forge-neutral model of what the
  bridge does on GitHub and Forgejo: rights and roles, the projection of a repository and its
  drift, bootstrap plans. \<open>vgi-bridge\<close> is the process that takes signed jobs from one community, does
  them on the forge, and answers with signed results and events; it keeps a database of jobs,
  namespaces, repositories and an outbox. \<open>did-git-sign\<close> is the program git runs to sign a commit: it
  asks the VTA that holds the contributor's key for the signature, and sets repositories up for it.

  \<^bold>\<open>Theories, bottom up.\<close>
  \<^item> \<open>Prelude\<close>: bytes, machine words and the part of the Rust standard library the code uses on
    strings and lists, with their laws; \<open>Json_Value\<close>: JSON values.
  \<^item> \<open>Resource_Grammar\<close> (\<open>vgi-core/resource.rs\<close>): normalisation and containment of resources. The
    lemmas show that normalisation is exactly the grammar and that containment is the prefix order
    on segments.
  \<^item> \<open>Forge_Error\<close>, \<open>Forge_Resource\<close> (\<open>vgi-forge/error.rs\<close>, \<open>resource.rs\<close>): the error values and the
    resource type with its invariant.
  \<^item> \<open>CI_Resource\<close> (\<open>verify-trust/resource.rs\<close>): which resource a run asks about.
  \<^item> \<open>Commit_Object\<close> (\<open>vgi-core/commit.rs\<close>): splitting a commit into payload and signature, the armour,
    and the DID a commit claims.
  \<^item> \<open>Did_Document\<close> (\<open>vgi-core/did.rs\<close>, \<open>services.rs\<close>): signing keys and services of a DID document.
  \<^item> \<open>Signature_Check\<close> (\<open>verify-trust/lib.rs\<close>, \<open>pgp_exempt.rs\<close>): claimed DIDs, resolved keys and the
    verdict on one commit's signature.
  \<^item> \<open>Merge_Policy\<close> (\<open>verify-trust/lib.rs\<close>): git's answers and the settling of platform-signed merges,
    with the least fixed point it computes.
  \<^item> \<open>Registry_Route\<close> (\<open>verify-trust/registry.rs\<close>): which binding reaches the registry, and when a reply
    is believed.
  \<^item> \<open>Verify_Run\<close> (\<open>verify-trust/lib.rs\<close>): the registry decision and the three passes of a run.
  \<^item> \<open>Forge_Rights\<close>, \<open>Forge_Model\<close>, \<open>Forge_Drift\<close>, \<open>Bootstrap\<close> (\<open>vgi-forge/rights.rs\<close>, \<open>model.rs\<close>,
    \<open>pulls.rs\<close>, \<open>forge.rs\<close>, \<open>event.rs\<close>, \<open>bootstrap.rs\<close>): rights and their projection to forge roles,
    the forge data, the drift from the projection, and the run of a plan.
  \<^item> \<open>Effects\<close>: the state monad the stateful operations are written in, with Hoare triples and the
    rules for invariants; \<open>Bridge_Store\<close> (\<open>vgi-bridge/store.rs\<close>): the bridge's records and tables, and
    each operation on them as one transaction.
  \<^item> \<open>Bridge_Wire\<close> (\<open>vgi-bridge/wire.rs\<close>): the check of an inbound document and of a job's members;
    \<open>Bridge_Mapping\<close> (\<open>mapping.rs\<close>): reports, results, drift items and events.
  \<^item> \<open>Bridge_Namespaces\<close> (\<open>vgi-bridge/namespaces.rs\<close>): orphaned namespaces, the retention sweep and the
    take-over at a re-binding, under any pattern of failing transactions.
  \<^item> \<open>Bridge_Config\<close> (\<open>vgi-bridge/config.rs\<close>): the checks of a configuration and what an accepted one
    decides.
  \<^item> \<open>Forge_Interface\<close> (\<open>vgi-forge/forge.rs\<close>): the forge trait as a record of functions over a state of
    the forge, which is a parameter; \<open>Bridge_Env\<close>: the world the bridge's handlers run in (store, forges,
    clock, sends) and the calls on it, with the rules by which an invariant passes through them.
  \<^item> \<open>Bridge_Status\<close> (\<open>vgi-bridge/status.rs\<close>): the status document and the role report;
    \<open>Bridge_Outbox\<close> (\<open>bridge.rs\<close>): queueing, sending and acknowledging results and events;
    \<open>Bridge_Detach\<close>: detaching a repository and handing one over; \<open>Bridge_Jobs\<close> (\<open>jobs.rs\<close>): the nine kinds
    of job, each handler whole; \<open>Bridge_Flows\<close> (\<open>flows.rs\<close>): the authorisation flows, closing a job and
    the rotation of tokens.
  \<^item> \<open>Forge_Events\<close> (\<open>vgi-forge/event.rs\<close>, \<open>vgi-forge-github/checks.rs\<close>, \<open>resign.rs\<close>): what a webhook
    delivery says.
  \<^item> \<open>Bridge_Later\<close>: what no operation of a job takes back (clock, failures used up, what was sent);
    \<open>Bridge_Ledger\<close> (\<open>bridge.rs\<close>): inbound documents, admission, the record and run of a job, with the
    locales \<open>ledger_runs\<close> and \<open>ledger_inv\<close> for what every handler keeps of the ledger, interpreted on its
    growth, its well-formedness and its set of jobs; \<open>Bridge_Finish\<close>: that an open job ends with one
    delivered result, and where it does not.
  \<^item> \<open>Registry_Binding\<close> (\<open>verify-trust/registry.rs\<close>): the values of a binding, apart from its choice.
  \<^item> \<open>Resign_Ledger\<close> (\<open>vgi-bridge/resign.rs\<close>): the pushes recorded to a Dependabot branch, and when it is
    clean; \<open>Bridge_Events\<close> (\<open>events.rs\<close>): webhooks, whose they are and what each kind of event does.
  \<^item> \<open>Git_Fetcher\<close>, \<open>Bridge_Check\<close>, \<open>Bridge_Check_Run\<close> (\<open>checks.rs\<close>): the git commands the bridge runs, the
    check it posts and its verdict, and what a green check rests on.
  \<^item> \<open>Sshsig\<close> (\<open>vgi-core/sshsig.rs\<close>): the signature format, with a reader of it;
    \<open>Resign_Run\<close> (\<open>vgi-bridge/resign.rs\<close>): the re-sign of a Dependabot pull request, and what a replaced
    head rests on.
  \<^item> \<open>Effect_Traces\<close>: what an operation appends to a log its state keeps, with a rule for each way of
    putting operations together.
  \<^item> \<open>Signer_Policy\<close>, \<open>Signer_Run\<close>, \<open>Signer_Guard\<close> (\<open>did-git-sign/policy.rs\<close>, \<open>sign.rs\<close>, \<open>vta.rs\<close>, \<open>config.rs\<close>): the
    gate and the other checks of the signing program, one run of it, and what a written signature and a
    key that left the VTA rest on.
  \<^item> \<open>Signer_Include\<close>, \<open>Signer_Setup\<close>, \<open>Signer_Install\<close> (\<open>enable.rs\<close>, \<open>profiles.rs\<close>, \<open>init.rs\<close>, \<open>main.rs\<close>,
    \<open>store.rs\<close>): enabling a repository, the files and hooks, the choice of a DID and its keys, installing
    and removing an identity; the lemmas follow every command given to git.
  \<^item> This theory: the properties that span components, above all that exit code 0 means the range
    is vouched for.

  \<^bold>\<open>Correspondence.\<close> A struct is a record with the code's fields, an enum a datatype with its
  constructors, a fixed-width integer a word, \<open>Result\<close> a sum whose left side is the code's error, a
  \<open>String\<close> or byte slice a list of characters. Names are the code's, with a prefix or suffix where two
  of them meet. A loop is a recursive function over the list it walks, with its accumulators as
  arguments; the settling loop of the merge policy recurses with the number of unsettled commits as
  its measure, and the selection of a binding is a \<open>partial_function\<close> into option, whose end is
  proved from the documented behaviour of the session it calls.

  \<^bold>\<open>Parameters.\<close> What the code calls and the repository does not contain is an argument of the
  definitions: the commit-DID library, multibase, SSH key and OpenPGP operations, the DID resolver,
  git as a function from arguments to output, the registry's query client, the message sessions,
  and, for a bootstrap plan, the forge adapter that runs a step. They are gathered in the records
  \<open>scid_lib\<close>, \<open>sig_lib\<close>, \<open>trql_lib\<close>, \<open>jwe_lib\<close>, \<open>channel_lib\<close> and \<open>tt_lib\<close> (the Trust Task framework) where
  several go together; the outside of the signing program in \<open>signer_ops\<close>, \<open>include_ops\<close> and \<open>setup_ops\<close>. A database transaction commits or fails whole: the \<open>world\<close> carries the list
  of coming failures and the clock, and a property holds for every such list. No hypothesis is made
  on the cryptography: what a verified signature says is stated in terms of the library's answer.

  \<^bold>\<open>Not modelled.\<close> Network sessions, files, prompts and printing; key material and encryption; the
  serde derive macros. The bridge and the forge adapters are only modelled where a theory above
  says so; the manifest lists every part with its state.
\<close>

section \<open>The whole check\<close>

lemma handle_verify_trustD:
  assumes "handle_verify_trust lib trql args read_file call https discover decode resolve
    = Inr (code, report)"
  obtains exempt commits claimed ask signers where
    "read_range call (revision_range args) = Inr commits"
    "claimed_signer_dids (scid lib) commits (max_signers args) = Inr claimed"
    "resolve_signer_keys decode resolve claimed = Inr signers"
    "verify_prepared_inner lib trql args commits signers exempt ask
       (Git call (revision_range args)) = Inr report"
    "code = (if ok report then 0 else 1)"
    "exempt_keyring args = None \<Longrightarrow> exempt = None"
    "\<And>url. registry_url args = Some url \<Longrightarrow> https url = Inr ask"
    "registry_url args = None \<Longrightarrow> discover (transport args) = Inr ask"
proof -
  from assms obtain exempt commits claimed ask signers where
    "load_exempt_keyring lib read_file args = Inr exempt"
    "read_range call (revision_range args) = Inr commits"
    "claimed_signer_dids (scid lib) commits (max_signers args) = Inr claimed"
    "(case registry_url args of Some url \<Rightarrow> https_override trql https url (transport args)
       | None \<Rightarrow> discover (transport args)) = Inr ask"
    "resolve_signer_keys decode resolve claimed = Inr signers"
    "verify_prepared_with lib trql args commits signers exempt ask call = Inr report"
    "code = (if ok report then 0 else 1)"
    by (auto simp: handle_verify_trust_def split: sum.splits)
  with that show ?thesis
    by (auto simp: verify_prepared_with_def https_override_def load_exempt_keyring_def
        split: option.splits sum.splits if_splits)
qed


definition sample_git :: git_call where
  "sample_git args =
     (if args = [''rev-list'', ''--reverse'', ''--end-of-options'', ''a..b'']
      then Inr \<lparr>exit_code = Some 0, stdout = ''c1'' @ [newline], stderr = []\<rparr>
      else if args = [''cat-file'', ''commit'', ''c1'']
      then Inr \<lparr>exit_code = Some 0, stdout = rc_raw sample_commit, stderr = []\<rparr>
      else Inl ''unexpected'')"

definition sample_signers_resolved :: resolved_signers where
  "sample_signers_resolved = (case resolve_signer_keys sample_decode sample_resolve [''did:x''] of
     Inr s \<Rightarrow> s | Inl _ \<Rightarrow> no_signers)"


end
